(* ===== verification/Float_Model.thy ===== *)
theory Float_Model
  imports Complex_Main "HOL-Library.Log_Nat" "HOL-Library.Word"
begin

text \<open>
  IEEE 754 binary arithmetic as Rust's \<open>f32\<close> and \<open>f64\<close> use it: every operation computes the
  exact rational result and rounds it once, to nearest with ties to even, to a format given by
  its precision and exponent range. The pane layout engine keeps its split ratios as \<open>f32\<close>, and
  several of its guarantees depend on what rounding does to them, so the ratios are not modelled
  as exact numbers.

  A value is not-a-number, an infinity with its sign, or a finite rational. The sign of zero is not
  kept: the modelled code never divides by a value that may be zero, and no other operation it
  uses tells the two zeros apart.

  The lemmas bound the rounding: a result below an integer of at most 24 bits stays below it
  (\<open>f32_round_le_int\<close>), and the floor of a rounded value exceeds the exact value by at most one
  part in \<open>2 ^ 24\<close> (\<open>f32_floor_bound\<close>).
\<close>

named_theorems fp_eval \<open>definitions that evaluate a floating point operation\<close>

section \<open>Values and rounding\<close>

datatype fp = NaN | Inf bool | Fin rat

definition ilog2 :: "rat \<Rightarrow> int" where
  "ilog2 x = (let (p, d) = quotient_of x; e = bitlen p - bitlen d
              in if 2 powi e \<le> x then e else e - 1)"

definition rne :: "rat \<Rightarrow> int" where
  "rne y = (let f = \<lfloor>y\<rfloor>; r = y - of_int f
            in if r < 1 / 2 then f else if 1 / 2 < r then f + 1
               else if even f then f else f + 1)"

definition quantum :: "int \<Rightarrow> int \<Rightarrow> rat \<Rightarrow> rat" where
  "quantum prec emin x = 2 powi (max emin (ilog2 x) - (prec - 1))"

definition fround :: "int \<Rightarrow> int \<Rightarrow> int \<Rightarrow> rat \<Rightarrow> fp" where
  "fround prec emin emax x =
     (if x = 0 then Fin 0
      else let q = quantum prec emin \<bar>x\<bar>; r = of_int (rne (x / q)) * q
           in if 2 powi (emax + 1) \<le> \<bar>r\<bar> then Inf (r < 0) else Fin r)"

definition f32_round :: "rat \<Rightarrow> fp" where
  "f32_round = fround 24 (- 126) 127"

definition f64_round :: "rat \<Rightarrow> fp" where
  "f64_round = fround 53 (- 1022) 1023"

section \<open>Operations\<close>

fun fp_neg :: "fp \<Rightarrow> fp" where
  "fp_neg NaN = NaN"
| "fp_neg (Inf s) = Inf (\<not> s)"
| "fp_neg (Fin x) = Fin (- x)"

fun fp_abs :: "fp \<Rightarrow> fp" where
  "fp_abs NaN = NaN"
| "fp_abs (Inf s) = Inf False"
| "fp_abs (Fin x) = Fin \<bar>x\<bar>"

fun fp_add :: "(rat \<Rightarrow> fp) \<Rightarrow> fp \<Rightarrow> fp \<Rightarrow> fp" where
  "fp_add rnd (Fin x) (Fin y) = rnd (x + y)"
| "fp_add rnd (Inf s) (Inf t) = (if s = t then Inf s else NaN)"
| "fp_add rnd (Inf s) (Fin y) = Inf s"
| "fp_add rnd (Fin x) (Inf t) = Inf t"
| "fp_add rnd _ _ = NaN"

definition fp_sub :: "(rat \<Rightarrow> fp) \<Rightarrow> fp \<Rightarrow> fp \<Rightarrow> fp" where
  "fp_sub rnd a b = fp_add rnd a (fp_neg b)"

fun fp_mul :: "(rat \<Rightarrow> fp) \<Rightarrow> fp \<Rightarrow> fp \<Rightarrow> fp" where
  "fp_mul rnd (Fin x) (Fin y) = rnd (x * y)"
| "fp_mul rnd (Inf s) (Inf t) = Inf (s \<noteq> t)"
| "fp_mul rnd (Inf s) (Fin y) = (if y = 0 then NaN else Inf (s \<noteq> (y < 0)))"
| "fp_mul rnd (Fin x) (Inf t) = (if x = 0 then NaN else Inf (t \<noteq> (x < 0)))"
| "fp_mul rnd _ _ = NaN"

fun fp_div :: "(rat \<Rightarrow> fp) \<Rightarrow> fp \<Rightarrow> fp \<Rightarrow> fp" where
  "fp_div rnd (Fin x) (Fin y) =
     (if y = 0 then (if x = 0 then NaN else Inf (x < 0)) else rnd (x / y))"
| "fp_div rnd (Inf s) (Fin y) = Inf (s \<noteq> (y < 0))"
| "fp_div rnd (Fin x) (Inf t) = Fin 0"
| "fp_div rnd _ _ = NaN"

text \<open>Comparisons are false whenever an operand is not a number.\<close>

fun fp_lt :: "fp \<Rightarrow> fp \<Rightarrow> bool" where
  "fp_lt (Fin x) (Fin y) = (x < y)"
| "fp_lt (Inf s) (Inf t) = (s \<and> \<not> t)"
| "fp_lt (Inf s) (Fin y) = s"
| "fp_lt (Fin x) (Inf t) = (\<not> t)"
| "fp_lt _ _ = False"

fun fp_eq :: "fp \<Rightarrow> fp \<Rightarrow> bool" where
  "fp_eq NaN _ = False"
| "fp_eq a b = (a = b)"

definition fp_le :: "fp \<Rightarrow> fp \<Rightarrow> bool" where
  "fp_le a b = (fp_lt a b \<or> fp_eq a b)"

text \<open>\<open>f32::min\<close> and \<open>f32::max\<close> return the other operand when one is not a number.\<close>

definition fp_min :: "fp \<Rightarrow> fp \<Rightarrow> fp" where
  "fp_min a b = (if a = NaN then b else if b = NaN then a else if fp_lt b a then b else a)"

definition fp_max :: "fp \<Rightarrow> fp \<Rightarrow> fp" where
  "fp_max a b = (if a = NaN then b else if b = NaN then a else if fp_lt a b then b else a)"

text \<open>
  \<open>f32::clamp\<close> after its assertion \<open>lo <= hi\<close>, which the one call site establishes first.
\<close>

definition fp_clamp :: "fp \<Rightarrow> fp \<Rightarrow> fp \<Rightarrow> fp" where
  "fp_clamp x lo hi = (let y = (if fp_lt x lo then lo else x) in if fp_lt hi y then hi else y)"

fun fp_floor :: "fp \<Rightarrow> fp" where
  "fp_floor (Fin x) = Fin (of_int \<lfloor>x\<rfloor>)"
| "fp_floor a = a"

fun fp_is_finite :: "fp \<Rightarrow> bool" where
  "fp_is_finite (Fin x) = True"
| "fp_is_finite _ = False"

text \<open>The cast \<open>as u16\<close> truncates toward zero and saturates; not-a-number becomes zero.\<close>

fun fp_to_nat_sat :: "nat \<Rightarrow> fp \<Rightarrow> nat" where
  "fp_to_nat_sat m NaN = 0"
| "fp_to_nat_sat m (Inf s) = (if s then 0 else m)"
| "fp_to_nat_sat m (Fin x) = (if x < 0 then 0 else min m (nat \<lfloor>x\<rfloor>))"

definition fp_to_u16 :: "fp \<Rightarrow> 16 word" where
  "fp_to_u16 a = word_of_nat (fp_to_nat_sat 65535 a)"

text \<open>The cast of an integer to \<open>f64\<close> rounds; below \<open>2 ^ 53\<close> it is exact.\<close>

definition f64_of_nat :: "nat \<Rightarrow> fp" where "f64_of_nat n = f64_round (of_nat n)"

definition f32_of_u16 :: "16 word \<Rightarrow> fp" where
  "f32_of_u16 w = Fin (of_nat (unat w))"

abbreviation f32_add :: "fp \<Rightarrow> fp \<Rightarrow> fp" where "f32_add \<equiv> fp_add f32_round"
abbreviation f32_sub :: "fp \<Rightarrow> fp \<Rightarrow> fp" where "f32_sub \<equiv> fp_sub f32_round"
abbreviation f32_mul :: "fp \<Rightarrow> fp \<Rightarrow> fp" where "f32_mul \<equiv> fp_mul f32_round"
abbreviation f32_div :: "fp \<Rightarrow> fp \<Rightarrow> fp" where "f32_div \<equiv> fp_div f32_round"

text \<open>A decimal literal of the source is the nearest \<open>f32\<close>; a sum folds from the left.\<close>

abbreviation f32_lit :: "rat \<Rightarrow> fp" where "f32_lit \<equiv> f32_round"

definition f32_sum :: "fp list \<Rightarrow> fp" where
  "f32_sum xs = foldl f32_add (Fin 0) xs"

lemmas [fp_eval] = fp_sub_def fp_le_def fp_min_def fp_max_def fp_clamp_def fp_to_u16_def
  f32_of_u16_def f32_sum_def

text \<open>Evaluation through binary integers instead of unary natural numbers.\<close>

lemma fp_to_u16_code [code]:
  "fp_to_u16 a = (case a of NaN \<Rightarrow> 0 | Inf s \<Rightarrow> if s then 0 else - 1
     | Fin x \<Rightarrow> if x < 0 then 0 else word_of_int (min 65535 \<lfloor>x\<rfloor>))"
proof (cases a)
  case (Fin x)
  have "0 \<le> f \<Longrightarrow> int (min 65535 (nat f)) = min 65535 f" for f by auto
  then have "int (min 65535 (nat \<lfloor>x\<rfloor>)) = min 65535 \<lfloor>x\<rfloor>" if "\<not> x < 0"
    using that by (metis linorder_not_less zero_le_floor)
  then show ?thesis
    using Fin by (auto simp: fp_to_u16_def simp del: of_nat_min) (metis of_int_of_nat_eq)
qed (simp_all add: fp_to_u16_def)

lemma f32_of_u16_code [code]: "f32_of_u16 w = Fin (of_int (uint w))"
  by (simp add: f32_of_u16_def)

section \<open>Rounding to an integer\<close>

lemma rne_cases: "rne y = \<lfloor>y\<rfloor> \<and> y - of_int \<lfloor>y\<rfloor> \<le> 1 / 2 \<or>
    rne y = \<lfloor>y\<rfloor> + 1 \<and> 1 / 2 \<le> y - of_int \<lfloor>y\<rfloor>"
  by (auto simp: rne_def Let_def)

lemma rne_error: "\<bar>of_int (rne y) - y\<bar> \<le> (1 / 2 :: rat)"
proof -
  have "of_int \<lfloor>y\<rfloor> \<le> y" "y < of_int \<lfloor>y\<rfloor> + 1" by linarith+
  with rne_cases [of y] show ?thesis by auto
qed

lemma rne_le: "y \<le> of_int n \<Longrightarrow> rne y \<le> n"
proof -
  assume y: "y \<le> of_int n"
  show ?thesis
  proof (cases "rne y = \<lfloor>y\<rfloor>")
    case True
    with y show ?thesis by (simp add: floor_le_iff)
  next
    case False
    with rne_cases [of y] have r: "rne y = \<lfloor>y\<rfloor> + 1" "1 / 2 \<le> y - of_int \<lfloor>y\<rfloor>" by auto
    then have "of_int \<lfloor>y\<rfloor> < (of_int n :: rat)" using y by linarith
    then have "\<lfloor>y\<rfloor> < n" using of_int_less_iff by blast
    with r show ?thesis by simp
  qed
qed

lemma rne_ge: "of_int n \<le> y \<Longrightarrow> n \<le> rne y"
proof -
  assume "of_int n \<le> y"
  then have "n \<le> \<lfloor>y\<rfloor>" by (simp add: le_floor_iff)
  with rne_cases [of y] show ?thesis by auto
qed

lemma rne_of_int [simp]: "rne (of_int n) = n"
  by (simp add: antisym rne_ge rne_le)

lemma rne_nonneg: "0 \<le> y \<Longrightarrow> 0 \<le> rne y"
  using rne_ge [of 0 y] by simp

section \<open>The exponent of a positive value\<close>

lemma powi2_pos: "0 < (2 :: rat) powi e"
  by (simp add: zero_less_power_int)

lemma powi2_nonneg [simp]: "0 \<le> (2 :: rat) powi e"
  using powi2_pos [of e] by linarith

lemma powi2_mono: "a \<le> b \<Longrightarrow> (2 :: rat) powi a \<le> 2 powi b"
  by (intro power_int_increasing) auto

lemma powi2_less_imp: "(2 :: rat) powi a < 2 powi b \<Longrightarrow> a < b"
  using powi2_mono [of b a] by (meson linorder_not_less)

lemma powi2_diff: "(2 :: rat) powi (a - b) = 2 powi a / 2 powi b"
  by (simp add: power_int_diff)

lemma powi2_is_int: "0 \<le> e \<Longrightarrow> \<exists>k::int. (2 :: rat) powi e = of_int k \<and> 0 < k"
  by (rule exI [of _ "2 ^ nat e"]) (simp add: power_int_def)

lemma bitlen_powi_bounds:
  assumes "0 < (p::int)"
  shows "(2::rat) powi (bitlen p - 1) \<le> of_int p" and "(of_int p :: rat) < 2 powi bitlen p"
proof -
  have b: "2 ^ nat (bitlen p - 1) \<le> p" "p < 2 ^ nat (bitlen p)"
    using bitlen_bounds [OF assms] by auto
  have pos: "0 \<le> bitlen p - 1"
    using assms bitlen_nonneg [of p] by (metis bitlen_eq_zero_iff diff_ge_0_iff_ge
        int_one_le_iff_zero_less linorder_not_less order_le_less)
  have "(2::rat) powi (bitlen p - 1) = of_int (2 ^ nat (bitlen p - 1))"
    using pos by (simp add: power_int_def)
  also have "\<dots> \<le> of_int p" using b(1) of_int_le_iff by blast
  finally show "(2::rat) powi (bitlen p - 1) \<le> of_int p" .
  have "of_int p < (of_int (2 ^ nat (bitlen p)) :: rat)" using b(2) of_int_less_iff by blast
  also have "\<dots> = 2 powi bitlen p" using pos by (simp add: power_int_def)
  finally show "(of_int p :: rat) < 2 powi bitlen p" .
qed

lemma ilog2_bounds:
  assumes "0 < x"
  shows "2 powi ilog2 x \<le> x" and "x < 2 powi (ilog2 x + 1)"
proof -
  obtain p d where q: "quotient_of x = (p, d)" by fastforce
  have d: "0 < d" and x: "x = of_int p / of_int d"
    using quotient_of_denom_pos [OF q] quotient_of_div [OF q] by auto
  have p: "0 < p" using assms d x by (simp add: zero_less_divide_iff)
  note bp = bitlen_powi_bounds [OF p] and bd = bitlen_powi_bounds [OF d]
  define e where "e = bitlen p - bitlen d"
  have dpos: "(0::rat) < of_int d" using d by simp
  have "x < 2 powi bitlen p / of_int d" unfolding x using bp(2) dpos by (simp add: divide_strict_right_mono)
  also have "\<dots> \<le> 2 powi bitlen p / 2 powi (bitlen d - 1)"
    using bd(1) by (intro divide_left_mono) (auto intro!: mult_pos_pos dpos)
  also have "\<dots> = 2 powi (e + 1)" unfolding e_def by (simp flip: powi2_diff) (simp add: algebra_simps)
  finally have hi: "x < 2 powi (e + 1)" .
  have "2 powi (e - 1) = (2::rat) powi (bitlen p - 1) / 2 powi bitlen d"
    unfolding e_def by (simp flip: powi2_diff) (simp add: algebra_simps)
  also have "\<dots> \<le> of_int p / 2 powi bitlen d" using bp(1) by (simp add: divide_right_mono)
  also have "\<dots> \<le> of_int p / of_int d"
    using bd(2) dpos p by (intro divide_left_mono) (auto intro!: mult_pos_pos)
  finally have lo: "2 powi (e - 1) \<le> x" unfolding x .
  have il: "ilog2 x = (if 2 powi e \<le> x then e else e - 1)"
    by (simp add: ilog2_def q e_def Let_def)
  show "2 powi ilog2 x \<le> x" using lo il by auto
  show "x < 2 powi (ilog2 x + 1)" using hi il by auto
qed

section \<open>What rounding keeps\<close>

lemma quantum_pos: "0 < quantum p m x"
  by (simp add: quantum_def zero_less_power_int)

text \<open>The value rounded to, before the overflow test.\<close>

definition rounded :: "int \<Rightarrow> int \<Rightarrow> rat \<Rightarrow> rat" where
  "rounded prec emin x = of_int (rne (x / quantum prec emin \<bar>x\<bar>)) * quantum prec emin \<bar>x\<bar>"

lemma fround_rounded:
  "x \<noteq> 0 \<Longrightarrow> fround prec emin emax x =
     (let r = rounded prec emin x in if 2 powi (emax + 1) \<le> \<bar>r\<bar> then Inf (r < 0) else Fin r)"
  by (simp add: fround_def rounded_def Let_def)

lemma rounded_nonneg: "0 \<le> x \<Longrightarrow> 0 \<le> rounded p m x"
  using quantum_pos [of p m "\<bar>x\<bar>"] by (auto simp: rounded_def intro!: mult_nonneg_nonneg rne_nonneg)

lemma rounded_error: "\<bar>rounded p m x - x\<bar> \<le> quantum p m \<bar>x\<bar> / 2"
proof -
  let ?q = "quantum p m \<bar>x\<bar>"
  have q: "0 < ?q" by (rule quantum_pos)
  have "rounded p m x - x = (of_int (rne (x / ?q)) - x / ?q) * ?q"
    using q by (simp add: rounded_def field_simps)
  then have "\<bar>rounded p m x - x\<bar> = \<bar>of_int (rne (x / ?q)) - x / ?q\<bar> * ?q"
    using q by (simp add: abs_mult)
  also have "\<dots> \<le> 1 / 2 * ?q" using q rne_error by (intro mult_right_mono) auto
  finally show ?thesis by simp
qed

text \<open>
  Multiples of the quantum are never crossed: a value at most \<open>n\<close> quanta is not rounded beyond
  \<open>n\<close> quanta.
\<close>

lemma rounded_le_multiple:
  assumes "x \<le> of_int k * quantum p m \<bar>x\<bar>"
  shows "rounded p m x \<le> of_int k * quantum p m \<bar>x\<bar>"
proof -
  let ?q = "quantum p m \<bar>x\<bar>"
  have q: "0 < ?q" by (rule quantum_pos)
  have "x / ?q \<le> of_int k" using assms q by (simp add: pos_divide_le_eq)
  then have "rne (x / ?q) \<le> k" by (rule rne_le)
  then have "(of_int (rne (x / ?q)) :: rat) \<le> of_int k" using of_int_le_iff by blast
  then show ?thesis unfolding rounded_def using q by (simp add: mult_right_mono)
qed

lemma rounded_le_int:
  assumes x: "0 < x" "x \<le> of_int n" and n: "n < 2 ^ p" and m: "m < int p"
  shows "rounded (int p) m x \<le> of_int n"
proof -
  let ?e = "max m (ilog2 x)"
  have q: "quantum (int p) m \<bar>x\<bar> = 2 powi (?e - (int p - 1))" using x by (simp add: quantum_def)
  have "2 powi ilog2 x < (2::rat) powi int p"
  proof -
    have "(2::rat) powi ilog2 x \<le> of_int n" using ilog2_bounds(1) [OF x(1)] x(2) by linarith
    also have "\<dots> < of_int (2 ^ p)" using n of_int_less_iff by blast
    finally show ?thesis by simp
  qed
  then have "ilog2 x < int p" by (rule powi2_less_imp)
  then have "0 \<le> int p - 1 - ?e" using m by simp
  then obtain k :: int where k: "(2 :: rat) powi (int p - 1 - ?e) = of_int k" using powi2_is_int by blast
  have "of_int (n * k) * quantum (int p) m \<bar>x\<bar> = of_int n * (2 powi (int p - 1 - ?e) * 2 powi (?e - (int p - 1)))"
    by (simp add: q k)
  also have "2 powi (int p - 1 - ?e) * (2::rat) powi (?e - (int p - 1)) = 1" by (simp flip: power_int_add)
  finally have nk: "of_int (n * k) * quantum (int p) m \<bar>x\<bar> = of_int n" by simp
  show ?thesis using rounded_le_multiple [of x "n * k" "int p" m] x(2) unfolding nk by simp
qed

text \<open>
  The first bound, for the operation: the product of a cell count and a ratio of at most one never
  rounds above the cell count.
\<close>

lemma f32_round_le_int:
  assumes x: "0 \<le> x" "x \<le> of_int n" and n: "n < 2 ^ 24"
  shows "\<exists>r. f32_round x = Fin r \<and> 0 \<le> r \<and> r \<le> of_int n"
proof (cases "x = 0")
  case True
  then show ?thesis using assms by (simp add: f32_round_def fround_def)
next
  case False
  then have r: "rounded 24 (- 126) x \<le> of_int n" "0 \<le> rounded 24 (- 126) x"
    using assms rounded_le_int [of x n 24 "- 126"] rounded_nonneg by auto
  have "(of_int n :: rat) < of_int (2 ^ 24)" using n of_int_less_iff by blast
  also have "\<dots> \<le> 2 powi 128" by simp
  finally have "rounded 24 (- 126) x < 2 powi 128" using r(1) by linarith
  then show ?thesis using False r by (simp add: f32_round_def fround_rounded Let_def)
qed

lemma rounded_rel_error:
  assumes x: "2 powi (- 126) \<le> x"
  shows "rounded 24 (- 126) x \<le> x * (1 + 1 / 2 ^ 24)"
proof -
  have pos: "0 < x" using x powi2_pos [of "- 126"] by linarith
  have lg: "- 126 \<le> ilog2 x"
  proof -
    have "2 powi (- 126) < (2::rat) powi (ilog2 x + 1)"
      using x ilog2_bounds(2) [OF pos] by linarith
    then have "- 126 < ilog2 x + 1" by (rule powi2_less_imp)
    then show ?thesis by simp
  qed
  have "quantum 24 (- 126) \<bar>x\<bar> = 2 powi ilog2 x / 2 ^ 23"
    using lg pos by (simp add: quantum_def powi2_diff)
  also have "\<dots> \<le> x / 2 ^ 23" using ilog2_bounds(1) [OF pos] by (simp add: divide_right_mono)
  finally have "quantum 24 (- 126) \<bar>x\<bar> / 2 \<le> x / 2 ^ 24" by simp
  with rounded_error [of 24 "- 126" x] have "rounded 24 (- 126) x - x \<le> x / 2 ^ 24" by linarith
  then show ?thesis by (simp add: field_simps)
qed

lemma f32_floor_bound:
  assumes x: "0 \<le> x" "x < 2 ^ 23"
  shows "\<exists>r. f32_round x = Fin r \<and> 0 \<le> r \<and> of_int \<lfloor>r\<rfloor> \<le> x * (1 + 1 / 2 ^ 24)"
proof -
  have "x \<le> of_int (2 ^ 23)" using x by simp
  then obtain r where r: "f32_round x = Fin r" "0 \<le> r" using f32_round_le_int [of x "2 ^ 23"] x by auto
  have "of_int \<lfloor>r\<rfloor> \<le> x * (1 + 1 / 2 ^ 24)"
  proof (cases "2 powi (- 126) \<le> x")
    case True
    then have "x \<noteq> 0" using powi2_pos [of "- 126"] by auto
    then have "r = rounded 24 (- 126) x"
      using r by (simp add: f32_round_def fround_rounded Let_def split: if_splits)
    with rounded_rel_error [OF True] show ?thesis using of_int_floor_le [of r] by linarith
  next
    case False
    have tiny: "\<not> 1 \<le> r"
    proof
      assume one: "1 \<le> r"
      then have "x \<noteq> 0" using r(1) by (auto simp: f32_round_def fround_def)
      then have rr: "r = rounded 24 (- 126) x" and pos: "0 < x"
        using r x by (auto simp: f32_round_def fround_rounded Let_def split: if_splits)
      have "2 powi ilog2 x < (2::rat) powi (- 126)" using False ilog2_bounds(1) [OF pos] by linarith
      then have "ilog2 x < - 126" by (rule powi2_less_imp)
      then have "quantum 24 (- 126) \<bar>x\<bar> = 2 powi (- 149)"
        using pos by (simp add: quantum_def max_def)
      then have "r \<le> x + 2 powi (- 149)"
        using rounded_error [of 24 "- 126" x] rr powi2_nonneg [of "- 149"] by linarith
      also have "\<dots> < 2 powi (- 126) + 2 powi (- 149)" using False by simp
      also have "\<dots> < 1" by (simp add: power_int_def power_one_over)
      finally show False using one by simp
    qed
    then have "\<lfloor>r\<rfloor> = 0" using r(2) by (simp add: floor_eq_iff)
    with x show ?thesis by simp
  qed
  with r show ?thesis by blast
qed

section \<open>Integers are exact below 2 to the 53\<close>

lemma f64_of_nat_exact:
  assumes "n < 2 ^ 53"
  shows "f64_of_nat n = Fin (of_nat n)"
proof (cases "n = 0")
  case False
  let ?x = "of_nat n :: rat"
  have pos: "0 < ?x" using False by simp
  have x: "?x < 2 powi 53" using assms of_nat_less_iff [of n "2 ^ 53", where ?'a = rat] by simp
  have "2 powi ilog2 ?x < (2::rat) powi 53" using ilog2_bounds(1) [OF pos] x by linarith
  then have hi: "ilog2 ?x < 53" by (rule powi2_less_imp)
  have "1 \<le> ?x" using False by simp
  then have "(2::rat) powi 0 < 2 powi (ilog2 ?x + 1)" using ilog2_bounds(2) [OF pos] by simp
  then have lo: "0 \<le> ilog2 ?x" by (drule_tac powi2_less_imp) simp
  have q: "quantum 53 (- 1022) \<bar>?x\<bar> = 2 powi (ilog2 ?x - 52)" using lo by (simp add: quantum_def)
  obtain k :: int where k: "(2 :: rat) powi (52 - ilog2 ?x) = of_int k"
    using powi2_is_int [of "52 - ilog2 ?x"] hi by auto
  have one: "2 powi (52 - ilog2 ?x) * (2::rat) powi (ilog2 ?x - 52) = 1" by (simp flip: power_int_add)
  then have "?x / 2 powi (ilog2 ?x - 52) = of_int (int n * k)"
    using k powi2_pos [of "ilog2 ?x - 52"] by (simp add: field_simps)
  then have "rounded 53 (- 1022) ?x = of_int (int n * k) * 2 powi (ilog2 ?x - 52)" 
    by (simp only: rounded_def q rne_of_int)
  also have "\<dots> = ?x" using one k by (simp add: mult.assoc)
  finally have r: "rounded 53 (- 1022) ?x = ?x" .
  have "?x < 2 powi 1024" using x by (simp add: powi2_mono order_less_le_trans [of _ "2 powi 53"])
  then show ?thesis using False r by (simp add: f64_of_nat_def f64_round_def fround_rounded Let_def)
qed (simp add: f64_of_nat_def f64_round_def fround_def)

lemma f64_round_numeral: "numeral k < (2 ^ 53 :: nat) \<Longrightarrow> f64_round (numeral k) = Fin (numeral k)"
  using f64_of_nat_exact [of "numeral k"] by (simp add: f64_of_nat_def)

lemma f64_dyadic_exact:
  assumes "n < 2 ^ 50" "k \<le> (3::nat)"
  shows "f64_round (of_nat n / 2 ^ k) = Fin (of_nat n / 2 ^ k)"
proof (cases "n = 0")
  case False
  let ?x = "of_nat n / 2 ^ k :: rat"
  have pos: "0 < ?x" using False by simp
  have ge: "1 / 2 ^ k \<le> ?x" using False by (simp add: divide_right_mono)
  have "?x \<le> of_nat n" by (simp add: divide_le_eq mult_le_cancel_left1)
  also have "of_nat n < (2::rat) powi 50" using assms(1) of_nat_less_iff [of n "2 ^ 50", where ?'a = rat] by simp
  finally have x: "?x < 2 powi 50" .
  have "2 powi ilog2 ?x < (2::rat) powi 50" using ilog2_bounds(1) [OF pos] x by linarith
  then have hi: "ilog2 ?x < 50" by (rule powi2_less_imp)
  have "(2::rat) powi (- 3) \<le> 1 / 2 ^ k"
  proof -
    have "(2::rat) ^ k \<le> 2 ^ 3" using assms(2) by (intro power_increasing) simp_all
    then show ?thesis by (simp add: power_int_minus divide_simps)
  qed
  also note ge
  finally have "(2::rat) powi (- 3) < 2 powi (ilog2 ?x + 1)" using ilog2_bounds(2) [OF pos] by linarith
  then have lo: "- 4 < ilog2 ?x" by (drule_tac powi2_less_imp) simp
  have q: "quantum 53 (- 1022) \<bar>?x\<bar> = 2 powi (ilog2 ?x - 52)" using lo by (simp add: quantum_def)
  define j where "j = 52 - int k - ilog2 ?x"
  have "0 \<le> j" using hi assms(2) by (simp add: j_def)
  then obtain m :: int where m: "(2 :: rat) powi j = of_int m" using powi2_is_int [of j] by auto
  have one: "2 powi j * 2 powi (ilog2 ?x - 52) = 1 / (2::rat) ^ k"
  proof -
    have "2 powi j * 2 powi (ilog2 ?x - 52) = (2::rat) powi (- int k)" by (simp add: j_def flip: power_int_add)
    then show ?thesis by (simp add: power_int_minus divide_inverse)
  qed
  have "?x = of_nat n * (1 / 2 ^ k)" by simp
  also have "\<dots> = of_int (int n * m) * 2 powi (ilog2 ?x - 52)"
    by (simp only: one [symmetric] m of_int_mult of_int_of_nat_eq mult.assoc)
  finally have eq: "?x = of_int (int n * m) * 2 powi (ilog2 ?x - 52)" .
  then have "?x / 2 powi (ilog2 ?x - 52) = of_int (int n * m)"
    using powi2_pos [of "ilog2 ?x - 52"] by (intro iffD2 [OF nonzero_divide_eq_eq eq]) simp
  then have r: "rounded 53 (- 1022) ?x = ?x" unfolding rounded_def q rne_of_int [symmetric] using eq by (simp only: rne_of_int)
  have "?x < 2 powi 1024" using x by (simp add: powi2_mono order_less_le_trans [of _ "2 powi 50"])
  then show ?thesis using False r by (simp add: f64_round_def fround_rounded Let_def)
qed (simp add: f64_round_def fround_def)

lemma f64_round_le_int:
  assumes x: "0 \<le> x" "x \<le> of_int n" and n: "n < 2 ^ 53"
  shows "\<exists>r. f64_round x = Fin r \<and> 0 \<le> r \<and> r \<le> of_int n"
proof (cases "x = 0")
  case True
  then show ?thesis using assms by (simp add: f64_round_def fround_def)
next
  case False
  then have r: "rounded 53 (- 1022) x \<le> of_int n" "0 \<le> rounded 53 (- 1022) x"
    using assms rounded_le_int [of x n 53 "- 1022"] rounded_nonneg by auto
  have "(of_int n :: rat) < of_int (2 ^ 53)" using n of_int_less_iff by blast
  also have "\<dots> \<le> 2 powi 1024" using powi2_mono [of 53 1024] by simp
  finally have "rounded 53 (- 1022) x < 2 powi 1024" using r(1) by linarith
  then show ?thesis using False r by (simp add: f64_round_def fround_rounded Let_def)
qed

end
