(* ===== verification/Pane_Tree.thy ===== *)
theory Pane_Tree
  imports Fno_Prelude Float_Model
begin

text \<open>
  The pane-tree layout engine of the terminal multiplexer, \<open>crates/fno/src/tree.rs\<close>: the data
  types and every operation, in the order of the source. Ratios are \<open>f32\<close> values, cells are 16-bit
  words and wrap as the release build does. An operation that mutates a tab through \<open>&mut Tab\<close>
  returns the tab it leaves behind beside its result, so that "unchanged on error" is a statement
  about the second component. Where the source can panic (an index, \<open>unreachable!\<close>) the model
  returns \<open>None\<close>. A \<open>for\<close> loop with an early return is a function on the list of children that is
  mutually recursive with the function on nodes.
\<close>

section \<open>Data\<close>

type_synonym PaneId = nat
type_synonym TabId = nat

definition MIN_ROWS :: u16 where "MIN_ROWS = 2"
definition MIN_COLS :: u16 where "MIN_COLS = 8"
definition RESIZE_STEP :: fp where "RESIZE_STEP = f32_lit (5 / 100)"

datatype Axis = Horizontal | Vertical

datatype Dir = DLeft | DRight | DUp | DDown

record Rect =
  rx :: u16
  ry :: u16
  rrows :: u16
  rcols :: u16

datatype Node = Leaf PaneId | Branch Axis "(fp \<times> Node) list"

type_synonym children = "(fp \<times> Node) list"

record Tab =
  tab_id :: TabId
  tab_root :: Node
  tab_focus :: PaneId
  tab_name :: "string option"

datatype SplitError = SplitTooSmall u16 u16 | FocusNotFound PaneId

datatype MoveError = MoveTooSmall u16 u16 | PaneGone | Origin

datatype DetachOutcome = TabEmptied | Detached PaneId

section \<open>Layout\<close>

definition axis_len :: "Axis \<Rightarrow> Rect \<Rightarrow> u16" where
  "axis_len axis area = (case axis of Horizontal \<Rightarrow> rcols area | Vertical \<Rightarrow> rrows area)"

definition place_child :: "Axis \<Rightarrow> Rect \<Rightarrow> u16 \<Rightarrow> u16 \<Rightarrow> Rect" where
  "place_child axis area offset len =
     (case axis of
        Horizontal \<Rightarrow> \<lparr>rx = rx area + offset, ry = ry area, rrows = rrows area, rcols = len\<rparr>
      | Vertical \<Rightarrow> \<lparr>rx = rx area, ry = ry area + offset, rrows = len, rcols = rcols area\<rparr>)"

definition child_len :: "u16 \<Rightarrow> fp \<Rightarrow> u16" where
  "child_len available ratio = fp_to_u16 (fp_floor (f32_mul (f32_of_u16 available) ratio))"

text \<open>
  The loop of \<open>child_areas\<close>: every child but the last takes the floor of its share, the last takes
  what is left; a divider cell follows every child but the last.
\<close>

fun child_areas_loop :: "Axis \<Rightarrow> Rect \<Rightarrow> u16 \<Rightarrow> u16 \<Rightarrow> u16 \<Rightarrow> fp list \<Rightarrow> Rect list" where
  "child_areas_loop axis area available offset used [] = []"
| "child_areas_loop axis area available offset used [r] =
     [place_child axis area offset (sat_sub available used)]"
| "child_areas_loop axis area available offset used (r # r' # rs) =
     (let l = child_len available r
      in place_child axis area offset l
         # child_areas_loop axis area available (offset + l + 1) (used + l) (r' # rs))"

definition child_areas :: "Axis \<Rightarrow> Rect \<Rightarrow> children \<Rightarrow> Rect list" where
  "child_areas axis area children =
     (if children = [] then []
      else let dividers = word_of_nat (length children - 1);
               available = sat_sub (axis_len axis area) dividers
           in child_areas_loop axis area available 0 0 (map fst children))"

fun layout_into :: "Node \<Rightarrow> Rect \<Rightarrow> (PaneId \<times> Rect) list"
  and layout_children :: "children \<Rightarrow> Rect list \<Rightarrow> (PaneId \<times> Rect) list" where
  "layout_into (Leaf i) area = [(i, area)]"
| "layout_into (Branch axis cs) area = layout_children cs (child_areas axis area cs)"
| "layout_children ((r, c) # cs) (a # as) = layout_into c a @ layout_children cs as"
| "layout_children _ _ = []"

definition layout :: "Node \<Rightarrow> Rect \<Rightarrow> (PaneId \<times> Rect) list" where
  "layout node viewport = layout_into node viewport"

fun leaves :: "Node \<Rightarrow> PaneId list" and leaves_walk :: "children \<Rightarrow> PaneId list" where
  "leaves (Leaf i) = [i]"
| "leaves (Branch axis cs) = leaves_walk cs"
| "leaves_walk [] = []"
| "leaves_walk ((r, c) # cs) = leaves c @ leaves_walk cs"

text \<open>\<open>None\<close> is the index panic of \<open>children[idx]\<close>.\<close>

fun area_at_path :: "Node \<Rightarrow> Rect \<Rightarrow> nat list \<Rightarrow> Rect option" where
  "area_at_path node area [] = Some area"
| "area_at_path (Branch axis cs) area (i # rest) =
     (if i < length cs
      then area_at_path (snd (cs ! i)) (child_areas axis area cs ! i) rest else None)"
| "area_at_path (Leaf _) area (i # rest) = Some area"

fun node_at_path :: "Node \<Rightarrow> nat list \<Rightarrow> Node option" where
  "node_at_path node [] = Some node"
| "node_at_path (Branch axis cs) (i # rest) =
     (if i < length cs then node_at_path (snd (cs ! i)) rest else None)"
| "node_at_path (Leaf p) (i # rest) = Some (Leaf p)"

section \<open>Split\<close>

definition dir_axis :: "Dir \<Rightarrow> Axis \<times> bool" where
  "dir_axis d = (case d of DLeft \<Rightarrow> (Horizontal, True) | DRight \<Rightarrow> (Horizontal, False)
                         | DUp \<Rightarrow> (Vertical, True) | DDown \<Rightarrow> (Vertical, False))"

definition is_leaf :: "PaneId \<Rightarrow> Node \<Rightarrow> bool" where
  "is_leaf p n = (case n of Leaf i \<Rightarrow> i = p | Branch _ _ \<Rightarrow> False)"

definition half :: fp where "half = Fin (1 / 2)"

fun split_node :: "Node \<Rightarrow> PaneId \<Rightarrow> Axis \<Rightarrow> bool \<Rightarrow> PaneId \<Rightarrow> Node option"
  and split_children :: "children \<Rightarrow> PaneId \<Rightarrow> Axis \<Rightarrow> bool \<Rightarrow> PaneId \<Rightarrow> children option" where
  "split_node (Leaf i) target split_axis bef new_id =
     (if i = target
      then Some (Branch split_axis
             (if bef then [(half, Leaf new_id), (half, Leaf i)]
              else [(half, Leaf i), (half, Leaf new_id)]))
      else None)"
| "split_node (Branch axis cs) target split_axis bef new_id =
     (case (if axis = split_axis then position (\<lambda>c. is_leaf target (snd c)) cs else None) of
        Some idx \<Rightarrow>
          let h = f32_div (fst (cs ! idx)) (Fin 2);
              cs' = cs[idx := (h, Leaf target)]
          in Some (Branch axis (insert_at (if bef then idx else idx + 1) (h, Leaf new_id) cs'))
      | None \<Rightarrow> map_option (Branch axis) (split_children cs target split_axis bef new_id))"
| "split_children [] target split_axis bef new_id = None"
| "split_children ((r, c) # cs) target split_axis bef new_id =
     (case split_node c target split_axis bef new_id of
        Some c' \<Rightarrow> Some ((r, c') # cs)
      | None \<Rightarrow> map_option ((#) (r, c)) (split_children cs target split_axis bef new_id))"

definition below_min :: "Rect \<Rightarrow> bool" where
  "below_min r = (rrows r < MIN_ROWS \<or> rcols r < MIN_COLS)"

definition any_below_min :: "Node \<Rightarrow> Rect \<Rightarrow> bool" where
  "any_below_min candidate viewport = (\<exists>p \<in> set (layout candidate viewport). below_min (snd p))"

definition split_at ::
  "Tab \<Rightarrow> Rect \<Rightarrow> PaneId \<Rightarrow> Dir \<Rightarrow> PaneId \<Rightarrow> (SplitError + unit) \<times> Tab" where
  "split_at tab viewport target direction new_id =
     (let (axis, bef) = dir_axis direction
      in case split_node (tab_root tab) target axis bef new_id of
           None \<Rightarrow> (Inl (FocusNotFound target), tab)
         | Some candidate \<Rightarrow>
             if any_below_min candidate viewport
             then (Inl (SplitTooSmall MIN_ROWS MIN_COLS), tab)
             else (Inr (), tab\<lparr>tab_root := candidate\<rparr>))"

definition split_directional ::
  "Tab \<Rightarrow> Rect \<Rightarrow> Dir \<Rightarrow> PaneId \<Rightarrow> (SplitError + unit) \<times> Tab" where
  "split_directional tab viewport direction new_id =
     (case split_at tab viewport (tab_focus tab) direction new_id of
        (Inl e, tab') \<Rightarrow> (Inl e, tab')
      | (Inr _, tab') \<Rightarrow> (Inr (), tab'\<lparr>tab_focus := new_id\<rparr>))"

definition split_tab :: "Tab \<Rightarrow> Rect \<Rightarrow> Axis \<Rightarrow> PaneId \<Rightarrow> (SplitError + unit) \<times> Tab" where
  "split_tab tab viewport axis new_id =
     split_directional tab viewport
       (case axis of Horizontal \<Rightarrow> DRight | Vertical \<Rightarrow> DDown) new_id"

section \<open>Replace a leaf\<close>

text \<open>\<open>Iterator::any\<close> stops at the first child that reports a replacement.\<close>

fun replace_leaf_node :: "Node \<Rightarrow> PaneId \<Rightarrow> PaneId \<Rightarrow> bool \<times> Node"
  and replace_leaf_children :: "children \<Rightarrow> PaneId \<Rightarrow> PaneId \<Rightarrow> bool \<times> children" where
  "replace_leaf_node (Leaf i) old new = (if i = old then (True, Leaf new) else (False, Leaf i))"
| "replace_leaf_node (Branch axis cs) old new =
     (case replace_leaf_children cs old new of (b, cs') \<Rightarrow> (b, Branch axis cs'))"
| "replace_leaf_children [] old new = (False, [])"
| "replace_leaf_children ((r, c) # cs) old new =
     (case replace_leaf_node c old new of
        (True, c') \<Rightarrow> (True, (r, c') # cs)
      | (False, c') \<Rightarrow>
          (case replace_leaf_children cs old new of (b, cs') \<Rightarrow> (b, (r, c') # cs')))"

definition replace_leaf :: "Tab \<Rightarrow> PaneId \<Rightarrow> PaneId \<Rightarrow> bool \<times> Tab" where
  "replace_leaf tab old new =
     (case replace_leaf_node (tab_root tab) old new of
        (True, root') \<Rightarrow>
          (True, tab\<lparr>tab_root := root',
                     tab_focus := (if tab_focus tab = old then new else tab_focus tab)\<rparr>)
      | (False, root') \<Rightarrow> (False, tab\<lparr>tab_root := root'\<rparr>))"

section \<open>Remove a leaf\<close>

definition F32_EPSILON :: fp where "F32_EPSILON = Fin (1 / 2 ^ 23)"

definition removal_scale :: "fp \<Rightarrow> fp" where
  "removal_scale removed_ratio =
     (if fp_lt F32_EPSILON (fp_abs (f32_sub (Fin 1) removed_ratio))
      then f32_div (Fin 1) (f32_sub (Fin 1) removed_ratio) else Fin 1)"

text \<open>
  \<open>None\<close>: not found. \<open>Some None\<close>: the node itself was the target. \<open>Some (Some n)\<close>: replaced by
  \<open>n\<close>. \<open>remove_scan\<close> is the loop over the children: the first child in which the target is found,
  with what became of it.
\<close>

fun remove_leaf :: "Node \<Rightarrow> PaneId \<Rightarrow> Node option option"
  and remove_scan :: "children \<Rightarrow> PaneId \<Rightarrow> (nat \<times> Node option) option" where
  "remove_leaf (Leaf i) target = (if i = target then Some None else None)"
| "remove_leaf (Branch axis cs) target =
     (case remove_scan cs target of
        None \<Rightarrow> None
      | Some (i, None) \<Rightarrow>
          (let scale = removal_scale (fst (cs ! i));
               remaining = map (\<lambda>(r, n). (f32_mul r scale, n)) (remove_nth i cs)
           in Some (Some (if length remaining = 1 then snd (remaining ! 0)
                          else Branch axis remaining)))
      | Some (i, Some c') \<Rightarrow> Some (Some (Branch axis (cs[i := (fst (cs ! i), c')]))))"
| "remove_scan [] target = None"
| "remove_scan ((r, c) # cs) target =
     (case remove_leaf c target of
        Some res \<Rightarrow> Some (0, res)
      | None \<Rightarrow> map_option (\<lambda>(i, res). (Suc i, res)) (remove_scan cs target))"

section \<open>Normalize\<close>

definition renormalize :: "children \<Rightarrow> children" where
  "renormalize merged =
     (let sum = f32_sum (map fst merged)
      in if fp_lt (Fin 0) sum then map (\<lambda>(r, n). (f32_div r sum, n)) merged else merged)"

definition splice_child :: "Axis \<Rightarrow> fp \<Rightarrow> Node \<Rightarrow> children" where
  "splice_child axis ratio child =
     (case child of
        Branch child_axis grandchildren \<Rightarrow>
          if child_axis = axis then map (\<lambda>(g, n). (f32_mul g ratio, n)) grandchildren
          else [(ratio, child)]
      | Leaf _ \<Rightarrow> [(ratio, child)])"

fun normalize_node :: "Node \<Rightarrow> Node" and merge_children :: "Axis \<Rightarrow> children \<Rightarrow> children" where
  "normalize_node (Leaf i) = Leaf i"
| "normalize_node (Branch axis cs) =
     (let merged = renormalize (merge_children axis cs)
      in if length merged = 1 then snd (merged ! 0) else Branch axis merged)"
| "merge_children axis [] = []"
| "merge_children axis ((ratio, c) # cs) =
     splice_child axis ratio (normalize_node c) @ merge_children axis cs"

section \<open>Geometric adjacency\<close>

definition edge_distance :: "Rect \<Rightarrow> Rect \<Rightarrow> Dir \<Rightarrow> u16" where
  "edge_distance from r dir =
     (case dir of
        DLeft \<Rightarrow> sat_sub (rx from) (rx r + rcols r)
      | DRight \<Rightarrow> sat_sub (rx r) (rx from + rcols from)
      | DUp \<Rightarrow> sat_sub (ry from) (ry r + rrows r)
      | DDown \<Rightarrow> sat_sub (ry r) (ry from + rrows from))"

definition ranges_overlap :: "u16 \<Rightarrow> u16 \<Rightarrow> u16 \<Rightarrow> u16 \<Rightarrow> bool" where
  "ranges_overlap a_start a_len b_start b_len =
     (a_start < b_start + b_len \<and> b_start < a_start + a_len)"

definition range_overlap_amount :: "u16 \<Rightarrow> u16 \<Rightarrow> u16 \<Rightarrow> u16 \<Rightarrow> u16" where
  "range_overlap_amount a_start a_len b_start b_len =
     sat_sub (min (sat_add a_start a_len) (sat_add b_start b_len)) (max a_start b_start)"

definition range_center_distance :: "u16 \<Rightarrow> u16 \<Rightarrow> u16 \<Rightarrow> u16 \<Rightarrow> u16" where
  "range_center_distance a_start a_len b_start b_len =
     abs_diff (sat_add (sat_mul a_start 2) a_len) (sat_add (sat_mul b_start 2) b_len)"

definition beyond :: "Dir \<Rightarrow> Rect \<Rightarrow> Rect \<Rightarrow> bool" where
  "beyond dir from r =
     (case dir of
        DLeft \<Rightarrow> rx r + rcols r \<le> rx from \<and> ranges_overlap (ry r) (rrows r) (ry from) (rrows from)
      | DRight \<Rightarrow> rx from + rcols from \<le> rx r \<and> ranges_overlap (ry r) (rrows r) (ry from) (rrows from)
      | DUp \<Rightarrow> ry r + rrows r \<le> ry from \<and> ranges_overlap (rx r) (rcols r) (rx from) (rcols from)
      | DDown \<Rightarrow> ry from + rrows from \<le> ry r \<and> ranges_overlap (rx r) (rcols r) (rx from) (rcols from))"

text \<open>
  The key of \<open>min_by_key\<close>: edge distance, then the larger overlap (\<open>Reverse\<close>, here negated), then
  center distance, then the index.
\<close>

definition direction_key :: "Dir \<Rightarrow> Rect \<Rightarrow> nat \<times> PaneId \<times> Rect \<Rightarrow> nat \<times> int \<times> nat \<times> nat" where
  "direction_key dir from p =
     (case p of (index, i, r) \<Rightarrow>
       (let overlap = (if dir = DLeft \<or> dir = DRight
              then range_overlap_amount (ry r) (rrows r) (ry from) (rrows from)
              else range_overlap_amount (rx r) (rcols r) (rx from) (rcols from));
            center = (if dir = DLeft \<or> dir = DRight
              then range_center_distance (ry r) (rrows r) (ry from) (rrows from)
              else range_center_distance (rx r) (rcols r) (rx from) (rcols from))
        in (unat (edge_distance from r dir), - int (unat overlap), unat center, index)))"

definition find_in_direction ::
  "(PaneId \<times> Rect) list \<Rightarrow> Rect \<Rightarrow> PaneId option \<Rightarrow> Dir \<Rightarrow> PaneId option" where
  "find_in_direction panes from exclude dir =
     map_option (\<lambda>(index, i, r). i)
       (min_by_key (direction_key dir from)
         (filter (\<lambda>(index, i, r). Some i \<noteq> exclude \<and> beyond dir from r)
           (zip [0..<length panes] panes)))"

definition rect_of :: "(PaneId \<times> Rect) list \<Rightarrow> PaneId \<Rightarrow> Rect option" where
  "rect_of panes p = map_option snd (List.find (\<lambda>(i, r). i = p) panes)"

definition nearest_candidate :: "(PaneId \<times> Rect) list \<Rightarrow> Rect \<Rightarrow> Dir \<Rightarrow> (PaneId \<times> u16) option" where
  "nearest_candidate panes from dir =
     (case find_in_direction panes from None dir of
        None \<Rightarrow> None
      | Some i \<Rightarrow> map_option (\<lambda>r. (i, edge_distance from r dir)) (rect_of panes i))"

definition nearest_surviving :: "(PaneId \<times> Rect) list \<Rightarrow> Rect \<Rightarrow> PaneId option" where
  "nearest_surviving panes from =
     (case min_by_key (\<lambda>p. unat (snd p))
             (filter_map (nearest_candidate panes from) [DLeft, DRight, DUp, DDown]) of
        Some p \<Rightarrow> Some (fst p)
      | None \<Rightarrow> (case panes of [] \<Rightarrow> None | (i, r) # ps \<Rightarrow> Some i))"

definition navigate :: "Node \<Rightarrow> Rect \<Rightarrow> PaneId \<Rightarrow> Dir \<Rightarrow> PaneId option" where
  "navigate node viewport focus dir =
     (let panes = layout node viewport
      in case rect_of panes focus of
           None \<Rightarrow> None
         | Some from \<Rightarrow> find_in_direction panes from (Some focus) dir)"

end
