(* ===== verification/Pane_Ops.thy ===== *)
theory Pane_Ops
  imports Pane_Tree
begin

text \<open>
  The operations of \<open>crates/fno/src/tree.rs\<close> that act on a whole tab: moving, closing and
  detaching a pane, grafting a subtree, resizing along a direction or a seam, and the invariant
  checker the tests run after every mutation.
\<close>

section \<open>Move\<close>

fun same_shape :: "Node \<Rightarrow> Node \<Rightarrow> bool" and same_shape_children :: "children \<Rightarrow> children \<Rightarrow> bool" where
  "same_shape (Leaf x) (Leaf y) = (x = y)"
| "same_shape (Branch ax ac) (Branch bx bc) =
     (ax = bx \<and> length ac = length bc \<and> same_shape_children ac bc)"
| "same_shape _ _ = False"
| "same_shape_children ((r, a) # as) ((s, b) # bs) = (same_shape a b \<and> same_shape_children as bs)"
| "same_shape_children _ _ = True"

definition move_leaf ::
  "Tab \<Rightarrow> Rect \<Rightarrow> PaneId \<Rightarrow> PaneId \<Rightarrow> Dir \<Rightarrow> (MoveError + unit) \<times> Tab" where
  "move_leaf tab viewport mover target dir =
     (if mover = target then (Inl Origin, tab)
      else let present = leaves (tab_root tab) in
      if mover \<notin> set present \<or> target \<notin> set present then (Inl PaneGone, tab)
      else case remove_leaf (tab_root tab) mover of
        Some (Some without0) \<Rightarrow>
          (let without = normalize_node without0; (axis, bef) = dir_axis dir in
           case split_node without target axis bef mover of
             None \<Rightarrow> (Inl PaneGone, tab)
           | Some candidate \<Rightarrow>
               if same_shape candidate (tab_root tab) then (Inl Origin, tab)
               else if any_below_min candidate viewport
               then (Inl (MoveTooSmall MIN_ROWS MIN_COLS), tab)
               else (Inr (), tab\<lparr>tab_root := candidate, tab_focus := mover\<rparr>))
      | _ \<Rightarrow> (Inl PaneGone, tab))"

section \<open>Close and detach\<close>

text \<open>\<open>None\<close> is the \<open>unreachable!\<close> of the source.\<close>

definition close_pane :: "Tab \<Rightarrow> Rect \<Rightarrow> PaneId \<Rightarrow> (bool \<times> Tab) option" where
  "close_pane tab viewport target =
     (if is_leaf target (tab_root tab) then Some (True, tab)
      else let closed_rect = rect_of (layout (tab_root tab) viewport) target in
      case remove_leaf (tab_root tab) target of
        None \<Rightarrow> Some (False, tab)
      | Some None \<Rightarrow> None
      | Some (Some new_root) \<Rightarrow>
          (let root' = normalize_node new_root;
               tab' = tab\<lparr>tab_root := root'\<rparr>
           in if tab_focus tab = target
              then (let after = layout root' viewport;
                        from = (case closed_rect of Some r \<Rightarrow> r | None \<Rightarrow> viewport)
                    in case nearest_surviving after from of
                         Some new_focus \<Rightarrow> Some (False, tab'\<lparr>tab_focus := new_focus\<rparr>)
                       | None \<Rightarrow> Some (False, tab'))
              else Some (False, tab')))"

definition detach_leaf :: "Tab \<Rightarrow> Rect \<Rightarrow> PaneId \<Rightarrow> ((MoveError + DetachOutcome) \<times> Tab) option" where
  "detach_leaf tab viewport pid =
     (if is_leaf pid (tab_root tab) then Some (Inr TabEmptied, tab)
      else let removed_rect = rect_of (layout (tab_root tab) viewport) pid in
      case remove_leaf (tab_root tab) pid of
        None \<Rightarrow> Some (Inl PaneGone, tab)
      | Some None \<Rightarrow> None
      | Some (Some new_root) \<Rightarrow>
          (let root' = normalize_node new_root in
           if tab_focus tab = pid
           then (let after = layout root' viewport;
                     from = (case removed_rect of Some r \<Rightarrow> r | None \<Rightarrow> viewport)
                 in case (case nearest_surviving after from of
                            Some f \<Rightarrow> Some f
                          | None \<Rightarrow> (case leaves root' of [] \<Rightarrow> None | f # _ \<Rightarrow> Some f)) of
                      None \<Rightarrow> None
                    | Some new_focus \<Rightarrow>
                        Some (Inr (Detached new_focus),
                              tab\<lparr>tab_root := root', tab_focus := new_focus\<rparr>))
           else Some (Inr (Detached (tab_focus tab)), tab\<lparr>tab_root := root'\<rparr>)))"

section \<open>Graft\<close>

fun graft_node :: "Node \<Rightarrow> PaneId \<Rightarrow> Axis \<Rightarrow> bool \<Rightarrow> Node \<Rightarrow> Node option"
  and graft_children :: "children \<Rightarrow> PaneId \<Rightarrow> Axis \<Rightarrow> bool \<Rightarrow> Node \<Rightarrow> children option" where
  "graft_node (Leaf i) anchor graft_axis bef subtree =
     (if i = anchor
      then Some (Branch graft_axis
             (if bef then [(half, subtree), (half, Leaf i)]
              else [(half, Leaf i), (half, subtree)]))
      else None)"
| "graft_node (Branch axis cs) anchor graft_axis bef subtree =
     (case (if axis = graft_axis then position (\<lambda>c. is_leaf anchor (snd c)) cs else None) of
        Some idx \<Rightarrow>
          let h = f32_div (fst (cs ! idx)) (Fin 2);
              cs' = cs[idx := (h, Leaf anchor)]
          in Some (Branch axis (insert_at (if bef then idx else idx + 1) (h, subtree) cs'))
      | None \<Rightarrow> map_option (Branch axis) (graft_children cs anchor graft_axis bef subtree))"
| "graft_children [] anchor graft_axis bef subtree = None"
| "graft_children ((r, c) # cs) anchor graft_axis bef subtree =
     (case graft_node c anchor graft_axis bef subtree of
        Some c' \<Rightarrow> Some ((r, c') # cs)
      | None \<Rightarrow> map_option ((#) (r, c)) (graft_children cs anchor graft_axis bef subtree))"

definition graft_subtree ::
  "Tab \<Rightarrow> Rect \<Rightarrow> PaneId \<Rightarrow> Dir \<Rightarrow> Node \<Rightarrow> (MoveError + unit) \<times> Tab" where
  "graft_subtree dst_tab viewport anchor_pid dir subtree =
     (if anchor_pid \<notin> set (leaves (tab_root dst_tab)) then (Inl PaneGone, dst_tab)
      else let (axis, bef) = dir_axis dir in
      case graft_node (tab_root dst_tab) anchor_pid axis bef subtree of
        None \<Rightarrow> (Inl PaneGone, dst_tab)
      | Some candidate0 \<Rightarrow>
          (let candidate = normalize_node candidate0 in
           if any_below_min candidate viewport
           then (Inl (MoveTooSmall MIN_ROWS MIN_COLS), dst_tab)
           else (Inr (), dst_tab\<lparr>tab_root := candidate\<rparr>)))"

fun replace_anchor_node :: "Node \<Rightarrow> PaneId \<Rightarrow> Node \<Rightarrow> Node option"
  and replace_anchor_children :: "children \<Rightarrow> PaneId \<Rightarrow> Node \<Rightarrow> children option" where
  "replace_anchor_node (Leaf i) anchor subtree = (if i = anchor then Some subtree else None)"
| "replace_anchor_node (Branch axis cs) anchor subtree =
     map_option (Branch axis) (replace_anchor_children cs anchor subtree)"
| "replace_anchor_children [] anchor subtree = None"
| "replace_anchor_children ((r, c) # cs) anchor subtree =
     (case replace_anchor_node c anchor subtree of
        Some c' \<Rightarrow> Some ((r, c') # cs)
      | None \<Rightarrow> map_option ((#) (r, c)) (replace_anchor_children cs anchor subtree))"

definition replace_anchor_with_candidate ::
  "Tab \<Rightarrow> Rect \<Rightarrow> PaneId \<Rightarrow> Node \<Rightarrow> MoveError + Node" where
  "replace_anchor_with_candidate tab viewport anchor_pid subtree =
     (case replace_anchor_node (tab_root tab) anchor_pid subtree of
        None \<Rightarrow> Inl PaneGone
      | Some candidate0 \<Rightarrow>
          (let candidate = normalize_node candidate0 in
           if any_below_min candidate viewport then Inl (MoveTooSmall MIN_ROWS MIN_COLS)
           else Inr candidate))"

section \<open>Paths\<close>

fun find_path :: "Node \<Rightarrow> PaneId \<Rightarrow> nat list option"
  and find_path_loop :: "children \<Rightarrow> nat \<Rightarrow> PaneId \<Rightarrow> nat list option" where
  "find_path (Leaf i) target = (if i = target then Some [] else None)"
| "find_path (Branch axis cs) target = find_path_loop cs 0 target"
| "find_path_loop [] i target = None"
| "find_path_loop ((r, c) # cs) i target =
     (case find_path c target of Some p \<Rightarrow> Some (i # p) | None \<Rightarrow> find_path_loop cs (Suc i) target)"

definition branch_axis_is :: "Axis \<Rightarrow> Node option \<Rightarrow> bool" where
  "branch_axis_is want n = (case n of Some (Branch axis _) \<Rightarrow> axis = want | _ \<Rightarrow> False)"

definition deepest_matching_ancestor :: "Node \<Rightarrow> nat list \<Rightarrow> Axis \<Rightarrow> nat option" where
  "deepest_matching_ancestor rt path want_axis =
     List.find (\<lambda>level. branch_axis_is want_axis (node_at_path rt (take level path)))
       (rev [0..<length path])"

definition apply_ratio :: "children \<Rightarrow> nat \<times> fp \<Rightarrow> children" where
  "apply_ratio cs u = (case u of (idx, r) \<Rightarrow> cs[idx := (r, snd (cs ! idx))])"

fun set_children_ratios :: "Node \<Rightarrow> nat list \<Rightarrow> (nat \<times> fp) list \<Rightarrow> Node option" where
  "set_children_ratios (Branch axis cs) [] updates =
     (if \<forall>u \<in> set updates. fst u < length cs
      then Some (Branch axis (foldl apply_ratio cs updates)) else None)"
| "set_children_ratios (Leaf i) path updates = Some (Leaf i)"
| "set_children_ratios (Branch axis cs) (i # rest) updates =
     (if i < length cs
      then map_option (\<lambda>c. Branch axis (cs[i := (fst (cs ! i), c)]))
             (set_children_ratios (snd (cs ! i)) rest updates)
      else None)"

section \<open>Resize\<close>

definition min_len :: "Axis \<Rightarrow> u16" where
  "min_len axis = (case axis of Horizontal \<Rightarrow> MIN_COLS | Vertical \<Rightarrow> MIN_ROWS)"

definition dir_want_axis :: "Dir \<Rightarrow> Axis" where
  "dir_want_axis dir = (if dir = DLeft \<or> dir = DRight then Horizontal else Vertical)"

definition grows :: "Dir \<Rightarrow> bool" where
  "grows dir = (dir = DRight \<or> dir = DDown)"

definition neighbor_index :: "Dir \<Rightarrow> nat \<Rightarrow> nat \<Rightarrow> nat option" where
  "neighbor_index dir child_idx n =
     (if grows dir then (if child_idx + 1 < n then Some (child_idx + 1) else None)
      else (if child_idx = 0 then None else Some (child_idx - 1)))"

definition branch_available :: "Axis \<Rightarrow> Rect \<Rightarrow> nat \<Rightarrow> fp" where
  "branch_available axis area n =
     f32_of_u16 (max (sat_sub (axis_len axis area) (sat_sub (word_of_nat n) 1)) 1)"

definition min_ratio_of :: "Axis \<Rightarrow> fp \<Rightarrow> fp" where
  "min_ratio_of axis available = fp_min (f32_div (f32_of_u16 (min_len axis)) available) (Fin 1)"

definition resize_transfer :: "Dir \<Rightarrow> fp \<Rightarrow> fp \<Rightarrow> fp \<Rightarrow> fp \<Rightarrow> fp" where
  "resize_transfer dir step min_ratio focus_ratio neighbor_ratio =
     (let focus_delta = (if grows dir then step else fp_neg step)
      in if fp_lt (Fin 0) focus_delta
         then fp_min focus_delta (fp_max (f32_sub neighbor_ratio min_ratio) (Fin 0))
         else fp_max focus_delta (fp_neg (fp_max (f32_sub focus_ratio min_ratio) (Fin 0))))"

definition resize :: "Tab \<Rightarrow> Rect \<Rightarrow> Dir \<Rightarrow> fp \<Rightarrow> (bool \<times> Tab) option" where
  "resize tab viewport dir step =
     (let want_axis = dir_want_axis dir in
      case find_path (tab_root tab) (tab_focus tab) of
        None \<Rightarrow> Some (False, tab)
      | Some path \<Rightarrow>
      case deepest_matching_ancestor (tab_root tab) path want_axis of
        None \<Rightarrow> Some (False, tab)
      | Some prefix_len \<Rightarrow>
      (let branch_path = take prefix_len path; child_idx = path ! prefix_len in
      case node_at_path (tab_root tab) branch_path of
        None \<Rightarrow> None
      | Some (Leaf _) \<Rightarrow> Some (False, tab)
      | Some (Branch axis children) \<Rightarrow>
      (let n = length children in
      case neighbor_index dir child_idx n of
        None \<Rightarrow> Some (False, tab)
      | Some neighbor_idx \<Rightarrow>
      case area_at_path (tab_root tab) viewport branch_path of
        None \<Rightarrow> None
      | Some branch_area \<Rightarrow>
      if child_idx \<ge> n \<or> neighbor_idx \<ge> n then None
      else
      (let available = branch_available want_axis branch_area n;
           min_ratio = min_ratio_of want_axis available;
           focus_ratio = fst (children ! child_idx);
           neighbor_ratio = fst (children ! neighbor_idx);
           transfer = resize_transfer dir step min_ratio focus_ratio neighbor_ratio
       in if fp_eq transfer (Fin 0) then Some (False, tab)
          else map_option (\<lambda>root'. (True, tab\<lparr>tab_root := root'\<rparr>))
                 (set_children_ratios (tab_root tab) branch_path
                   [(child_idx, f32_add focus_ratio transfer),
                    (neighbor_idx, f32_sub neighbor_ratio transfer)])))))"

definition rect_start :: "Axis \<Rightarrow> Rect \<Rightarrow> u16" where
  "rect_start axis r = (case axis of Horizontal \<Rightarrow> rx r | Vertical \<Rightarrow> ry r)"

definition first_difference :: "nat list \<Rightarrow> nat list \<Rightarrow> nat option" where
  "first_difference pa pb =
     List.find (\<lambda>k. pa ! k \<noteq> pb ! k) [0..<min (length pa) (length pb)]"

definition set_seam_pos :: "Tab \<Rightarrow> Rect \<Rightarrow> PaneId \<Rightarrow> PaneId \<Rightarrow> u16 \<Rightarrow> (bool \<times> Tab) option" where
  "set_seam_pos tab viewport a b pos =
     (case (find_path (tab_root tab) a, find_path (tab_root tab) b) of
        (Some pa, Some pb) \<Rightarrow>
      (case first_difference pa pb of
        None \<Rightarrow> Some (False, tab)
      | Some depth \<Rightarrow>
      (let i = pa ! depth; j = pb ! depth; branch_path = take depth pa in
      if i + 1 \<noteq> j then Some (False, tab)
      else case node_at_path (tab_root tab) branch_path of
        None \<Rightarrow> None
      | Some (Leaf _) \<Rightarrow> Some (False, tab)
      | Some (Branch axis children) \<Rightarrow>
      (case area_at_path (tab_root tab) viewport branch_path of
        None \<Rightarrow> None
      | Some branch_area \<Rightarrow>
      if j \<ge> length children then None
      else
      (let n = length children;
           available = branch_available axis branch_area n;
           min_ratio = min_ratio_of axis available;
           child_start = rect_start axis (child_areas axis branch_area children ! i);
           want_len = f32_of_u16 (sat_sub pos child_start);
           held = fst (children ! i);
           pair_total = f32_add held (fst (children ! j));
           lo = min_ratio;
           hi = f32_sub pair_total min_ratio
       in if \<not> fp_le lo hi then Some (False, tab)
          else
          (let tgt = fp_clamp (f32_div want_len available) lo hi
           in if fp_lt (fp_abs (f32_sub tgt held)) (f32_lit (1 / 10000)) then Some (False, tab)
              else map_option (\<lambda>root'. (True, tab\<lparr>tab_root := root'\<rparr>))
                     (set_children_ratios (tab_root tab) branch_path
                       [(i, tgt), (j, f32_sub pair_total tgt)]))))))
      | _ \<Rightarrow> Some (False, tab))"

section \<open>The invariant checker\<close>

datatype InvError =
    DuplicatePaneId PaneId | ShortBranch nat | NestedSameAxis | RatioSum fp | FocusNotLive PaneId

definition sum_off :: "children \<Rightarrow> bool" where
  "sum_off cs = fp_lt (f32_lit (1 / 10000)) (fp_abs (f32_sub (f32_sum (map fst cs)) (Fin 1)))"

text \<open>The walk threads the set of ids seen so far and the list of errors.\<close>

fun inv_walk :: "Node \<Rightarrow> PaneId set \<times> InvError list \<Rightarrow> Axis option \<Rightarrow> PaneId set \<times> InvError list"
  and inv_walk_children ::
    "children \<Rightarrow> PaneId set \<times> InvError list \<Rightarrow> Axis \<Rightarrow> PaneId set \<times> InvError list" where
  "inv_walk (Leaf i) (ids, errs) parent =
     (insert i ids, if i \<in> ids then errs @ [DuplicatePaneId i] else errs)"
| "inv_walk (Branch axis cs) (ids, errs) parent =
     inv_walk_children cs
       (ids, errs @ (if length cs < 2 then [ShortBranch (length cs)] else [])
                  @ (if parent = Some axis then [NestedSameAxis] else [])
                  @ (if sum_off cs then [RatioSum (f32_sum (map fst cs))] else [])) axis"
| "inv_walk_children [] st axis = st"
| "inv_walk_children ((r, c) # cs) st axis =
     inv_walk_children cs (inv_walk c st (Some axis)) axis"

definition check_invariants :: "Tab \<Rightarrow> InvError list + unit" where
  "check_invariants tab =
     (case inv_walk (tab_root tab) ({}, []) None of (ids, errors) \<Rightarrow>
       (let all_errors = errors @ (if tab_focus tab \<in> ids then [] else [FocusNotLive (tab_focus tab)])
        in if all_errors = [] then Inr () else Inl all_errors))"

end
