(* ===== verification/Pane_Struct.thy ===== *)
theory Pane_Struct
  imports Pane_Ops
begin

text \<open>
  The structural half of the pane tree's contract: what every operation does to the leaves of the
  tree, and that the shape part of \<open>check_invariants\<close> (at least two children per branch, no
  branch directly below one of its own axis) survives splitting, grafting, removing and
  normalizing. None of it depends on the ratios.
\<close>

named_theorems tree_leaves \<open>the leaves after an operation\<close>

section \<open>Shape\<close>

fun wf_node :: "Axis option \<Rightarrow> Node \<Rightarrow> bool" and wf_children :: "Axis \<Rightarrow> children \<Rightarrow> bool" where
  "wf_node p (Leaf i) = True"
| "wf_node p (Branch a cs) = (2 \<le> length cs \<and> p \<noteq> Some a \<and> wf_children a cs)"
| "wf_children a [] = True"
| "wf_children a ((r, c) # cs) = (wf_node (Some a) c \<and> wf_children a cs)"

fun populated :: "Node \<Rightarrow> bool" and populated_children :: "children \<Rightarrow> bool" where
  "populated (Leaf i) = True"
| "populated (Branch a cs) = (cs \<noteq> [] \<and> populated_children cs)"
| "populated_children [] = True"
| "populated_children ((r, c) # cs) = (populated c \<and> populated_children cs)"

definition tab_ok :: "Tab \<Rightarrow> bool" where
  "tab_ok tab \<longleftrightarrow> wf_node None (tab_root tab) \<and> distinct (leaves (tab_root tab)) \<and>
     tab_focus tab \<in> set (leaves (tab_root tab))"

lemma wf_children_iff: "wf_children a cs \<longleftrightarrow> (\<forall>x\<in>set cs. wf_node (Some a) (snd x))"
  by (induction cs) auto

lemma populated_children_iff: "populated_children cs \<longleftrightarrow> (\<forall>x\<in>set cs. populated (snd x))"
  by (induction cs) auto

lemma leaves_walk_concat: "leaves_walk cs = concat (map (\<lambda>x. leaves (snd x)) cs)"
  by (induction cs) auto

lemma leaves_walk_append [simp]: "leaves_walk (xs @ ys) = leaves_walk xs @ leaves_walk ys"
  by (simp add: leaves_walk_concat)

lemma leaves_walk_map [simp]: "leaves_walk (map (\<lambda>(r, n). (f r, n)) cs) = leaves_walk cs"
  by (induction cs) auto

lemma wf_children_map [simp]: "wf_children a (map (\<lambda>(r, n). (f r, n)) cs) = wf_children a cs"
  by (induction cs) auto

lemma populated_children_map [simp]:
  "populated_children (map (\<lambda>(r, n). (f r, n)) cs) = populated_children cs"
  by (induction cs) auto

lemma wf_node_None: "wf_node p n \<Longrightarrow> wf_node None n"
  by (cases n) auto

lemma wf_populated: "wf_node p n \<Longrightarrow> populated n"
  and wf_populated_children: "wf_children a cs \<Longrightarrow> populated_children cs"
  by (induction p n and a cs rule: wf_node_wf_children.induct) auto

lemma populated_leaves: "populated n \<Longrightarrow> leaves n \<noteq> []"
  and populated_leaves_children: "populated_children cs \<Longrightarrow> cs \<noteq> [] \<Longrightarrow> leaves_walk cs \<noteq> []"
  by (induction n and cs rule: populated_populated_children.induct) auto

section \<open>Geometry lists the leaves in order\<close>

lemma length_child_areas_loop [simp]:
  "length (child_areas_loop axis area av off used rs) = length rs"
  by (induction axis area av off used rs rule: child_areas_loop.induct) (auto simp: Let_def)

lemma length_child_areas [simp]: "length (child_areas axis area cs) = length cs"
  by (simp add: child_areas_def Let_def)

lemma map_fst_layout_into: "map fst (layout_into n area) = leaves n"
  and map_fst_layout_children:
    "length as = length cs \<Longrightarrow> map fst (layout_children cs as) = leaves_walk cs"
  by (induction n area and cs as rule: layout_into_layout_children.induct) auto

lemma map_fst_layout [tree_leaves]: "map fst (layout n vp) = leaves n"
  by (simp add: layout_def map_fst_layout_into)

lemma fst_set_layout [tree_leaves]: "fst ` set (layout n vp) = set (leaves n)"
  by (metis list.set_map map_fst_layout)

lemma rect_of_Some_iff:
  "distinct (map fst panes) \<Longrightarrow> rect_of panes p = Some r \<longleftrightarrow> (p, r) \<in> set panes"
  unfolding rect_of_def
  by (induction panes) (auto simp: image_iff split: if_splits)

lemma rect_of_None_iff: "rect_of panes p = None \<longleftrightarrow> p \<notin> fst ` set panes"
  unfolding rect_of_def by (induction panes) auto

lemma find_in_direction_in: "find_in_direction panes from ex dir = Some i \<Longrightarrow> i \<in> fst ` set panes"
proof -
  assume "find_in_direction panes from ex dir = Some i"
  then obtain k r where "(k, i, r) \<in> set (zip [0..<length panes] panes)"
    by (auto simp: find_in_direction_def dest!: min_by_key_in)
  then show ?thesis using set_zip_rightD by (metis fst_conv image_eqI)
qed

lemma nearest_surviving_in: "nearest_surviving panes from = Some i \<Longrightarrow> i \<in> fst ` set panes"
proof -
  assume ns: "nearest_surviving panes from = Some i"
  let ?c = "filter_map (nearest_candidate panes from) [DLeft, DRight, DUp, DDown]"
  show ?thesis
  proof (cases "min_by_key (\<lambda>p. unat (snd p)) ?c")
    case None
    with ns show ?thesis by (auto simp: nearest_surviving_def split: list.splits)
  next
    case (Some p)
    then have "p \<in> set ?c" by (rule min_by_key_in)
    then obtain d where "nearest_candidate panes from d = Some p"
      unfolding filter_map_in by blast
    then have "find_in_direction panes from None d = Some (fst p)"
      by (auto simp: nearest_candidate_def split: option.splits)
    moreover have "i = fst p" using ns Some by (simp add: nearest_surviving_def)
    ultimately show ?thesis using find_in_direction_in by blast
  qed
qed

lemma nearest_surviving_total: "panes \<noteq> [] \<Longrightarrow> \<exists>i. nearest_surviving panes from = Some i"
  by (auto simp: nearest_surviving_def neq_Nil_conv split: option.splits)

section \<open>Splitting is grafting a leaf\<close>

lemma split_node_graft: "split_node n t ax b new = graft_node n t ax b (Leaf new)"
  and split_children_graft: "split_children cs t ax b new = graft_children cs t ax b (Leaf new)"
  by (induction n t ax b new and cs t ax b new rule: split_node_split_children.induct)
     (auto simp: Let_def split: option.splits)

definition spliced :: "PaneId list \<Rightarrow> PaneId \<Rightarrow> bool \<Rightarrow> PaneId list \<Rightarrow> PaneId list \<Rightarrow> bool" where
  "spliced old t b ins new \<longleftrightarrow>
     (\<exists>xs ys. old = xs @ t # ys \<and> new = xs @ (if b then ins @ [t] else t # ins) @ ys)"

lemma spliced_single: "spliced [t] t b ins (if b then ins @ [t] else t # ins)"
  unfolding spliced_def by (rule exI [of _ "[]"], rule exI [of _ "[]"]) simp

lemma spliced_append1: "spliced old t b ins new \<Longrightarrow> spliced (zs @ old) t b ins (zs @ new)"
  unfolding spliced_def by (metis append.assoc)

lemma spliced_append2: "spliced old t b ins new \<Longrightarrow> spliced (old @ zs) t b ins (new @ zs)"
  unfolding spliced_def by (metis append.assoc append_Cons)

lemma spliced_mset: "spliced old t b ins new \<Longrightarrow> mset new = mset old + mset ins"
  by (cases b) (auto simp: spliced_def)

lemma spliced_set: "spliced old t b ins new \<Longrightarrow> set new = set old \<union> set ins"
  by (cases b) (auto simp: spliced_def)

lemma spliced_distinct:
  "spliced old t b ins new \<Longrightarrow>
     distinct new \<longleftrightarrow> distinct old \<and> distinct ins \<and> set old \<inter> set ins = {}"
  by (cases b) (auto simp: spliced_def)

lemma is_leaf_iff [simp]: "is_leaf p n \<longleftrightarrow> n = Leaf p"
  by (auto simp: is_leaf_def split: Node.splits)

lemma leaves_walk_nth:
  "i < length cs \<Longrightarrow> leaves_walk cs =
     leaves_walk (take i cs) @ leaves (snd (cs ! i)) @ leaves_walk (drop (Suc i) cs)"
proof -
  assume i: "i < length cs"
  have "leaves_walk cs = leaves_walk (take i cs @ cs ! i # drop (Suc i) cs)"
    using nth_split [OF i] by simp
  then show ?thesis by (cases "cs ! i") simp
qed

lemma leaves_walk_update:
  "i < length cs \<Longrightarrow> leaves_walk (cs[i := (r, c)]) =
     leaves_walk (take i cs) @ leaves c @ leaves_walk (drop (Suc i) cs)"
  by (simp add: upd_conv_take_nth_drop)

lemma direct_graft_leaves:
  assumes "position (\<lambda>c. snd c = Leaf t) cs = Some idx"
  shows "spliced (leaves_walk cs) t b (leaves sub)
     (leaves_walk (insert_at (if b then idx else idx + 1) (h, sub) (cs[idx := (h, Leaf t)])))"
proof -
  have i: "idx < length cs" "snd (cs ! idx) = Leaf t" using position_SomeD [OF assms] by auto
  have cs: "leaves_walk cs = leaves_walk (take idx cs) @ t # leaves_walk (drop (Suc idx) cs)"
    using leaves_walk_nth [OF i(1)] i(2) by simp
  have up: "cs[idx := (h, Leaf t)] = take idx cs @ (h, Leaf t) # drop (Suc idx) cs"
    using i(1) by (simp add: upd_conv_take_nth_drop)
  have "leaves_walk (insert_at (if b then idx else idx + 1) (h, sub) (cs[idx := (h, Leaf t)])) =
     leaves_walk (take idx cs) @ (if b then leaves sub @ [t] else t # leaves sub)
       @ leaves_walk (drop (Suc idx) cs)"
    using i(1) by (simp add: insert_at_def up)
  with cs show ?thesis unfolding spliced_def by blast
qed

lemma graft_node_leaves:
  "graft_node n t ax b sub = Some n' \<Longrightarrow> spliced (leaves n) t b (leaves sub) (leaves n')"
  and graft_children_leaves:
  "graft_children cs t ax b sub = Some cs' \<Longrightarrow>
     spliced (leaves_walk cs) t b (leaves sub) (leaves_walk cs')"
proof (induction n t ax b sub and cs t ax b sub arbitrary: n' and cs'
    rule: graft_node_graft_children.induct)
  case (1 i t ax b sub)
  then show ?case using spliced_single [of t b "leaves sub"] by (auto split: if_splits)
next
  case (2 axis cs t ax b sub)
  show ?case
  proof (cases "if axis = ax then position (\<lambda>c. is_leaf t (snd c)) cs else None")
    case None
    with 2 show ?thesis by auto
  next
    case (Some idx)
    then have p: "position (\<lambda>c. snd c = Leaf t) cs = Some idx" by (simp split: if_splits)
    from Some "2.prems" direct_graft_leaves [OF p, of b sub] show ?thesis
      by (auto simp: Let_def simp del: is_leaf_iff)
  qed
next
  case (4 r c cs t ax b sub)
  then show ?case
    by (auto split: option.splits intro: spliced_append1 spliced_append2)
qed simp

lemma graft_node_None_iff: "graft_node n t ax b sub = None \<longleftrightarrow> t \<notin> set (leaves n)"
  and graft_children_None_iff: "graft_children cs t ax b sub = None \<longleftrightarrow> t \<notin> set (leaves_walk cs)"
proof (induction n t ax b sub and cs t ax b sub rule: graft_node_graft_children.induct)
  case (2 axis cs t ax b sub)
  show ?case
  proof (cases "axis = ax \<and> position (\<lambda>c. snd c = Leaf t) cs \<noteq> None")
    case True
    then obtain idx where p: "position (\<lambda>c. snd c = Leaf t) cs = Some idx" by auto
    have "t \<in> set (leaves_walk cs)"
      using direct_graft_leaves [OF p] unfolding spliced_def by fastforce
    with True p show ?thesis by (simp add: Let_def)
  next
    case False
    with "2.IH" show ?thesis by auto
  qed
qed (auto split: option.splits)

section \<open>Shape after a split\<close>

lemma wf_children_nth: "wf_children a cs \<Longrightarrow> i < length cs \<Longrightarrow> wf_node (Some a) (snd (cs ! i))"
  by (simp add: wf_children_iff)

lemma wf_children_update:
  "wf_children a cs \<Longrightarrow> wf_node (Some a) c \<Longrightarrow> wf_children a (cs[i := (r, c)])"
  by (auto simp: wf_children_iff dest!: set_update_subset_insert [THEN subsetD])

lemma wf_children_insert_at:
  "wf_children a cs \<Longrightarrow> wf_node (Some a) c \<Longrightarrow> wf_children a (insert_at i (r, c) cs)"
  by (simp add: wf_children_iff seq_simps)

lemma split_node_wf:
  "wf_node p n \<Longrightarrow> \<not> (n = Leaf t \<and> p = Some ax) \<Longrightarrow> split_node n t ax b new = Some n' \<Longrightarrow>
     wf_node p n'"
  and split_children_wf:
  "wf_children a cs \<Longrightarrow> (a = ax \<Longrightarrow> \<forall>c\<in>set cs. snd c \<noteq> Leaf t) \<Longrightarrow>
     split_children cs t ax b new = Some cs' \<Longrightarrow> wf_children a cs' \<and> length cs' = length cs"
proof (induction n t ax b new and cs t ax b new arbitrary: p n' and a cs'
    rule: split_node_split_children.induct)
  case (1 i t ax b new)
  then show ?case by (auto split: if_splits)
next
  case (2 axis cs t ax b new)
  show ?case
  proof (cases "if axis = ax then position (\<lambda>c. is_leaf t (snd c)) cs else None")
    case None
    then have "axis = ax \<Longrightarrow> \<forall>c\<in>set cs. snd c \<noteq> Leaf t" by (auto simp: position_None_iff)
    with None 2 show ?thesis by fastforce
  next
    case (Some idx)
    then have "idx < length cs" using position_SomeD by (metis option.distinct(1))
    with Some 2 show ?thesis
      by (auto simp: Let_def seq_simps intro!: wf_children_insert_at wf_children_update)
  qed
next
  case (4 r c cs t ax b new)
  from "4.prems" have c: "\<not> (c = Leaf t \<and> Some a = Some ax)" by auto
  show ?case
  proof (cases "split_node c t ax b new")
    case None
    with 4 show ?thesis by fastforce
  next
    case (Some c')
    with "4.IH"(1) [of "Some a" c'] "4.prems" c show ?thesis by auto
  qed
qed simp

section \<open>Normalization\<close>

lemma length_renormalize [simp]: "length (renormalize cs) = length cs"
  by (simp add: renormalize_def Let_def)

lemma leaves_walk_renormalize [simp]: "leaves_walk (renormalize cs) = leaves_walk cs"
  by (simp add: renormalize_def Let_def)

lemma wf_children_renormalize [simp]: "wf_children a (renormalize cs) = wf_children a cs"
  by (simp add: renormalize_def Let_def)

lemma leaves_splice_child [simp]: "leaves_walk (splice_child axis r c) = leaves c"
  by (auto simp: splice_child_def split: Node.splits)

lemma leaves_singleton: "length cs = 1 \<Longrightarrow> leaves (snd (cs ! 0)) = leaves_walk cs"
  by (auto simp: length_Suc_conv)

lemma leaves_normalize [tree_leaves, simp]: "leaves (normalize_node n) = leaves n"
  and leaves_merge [simp]: "leaves_walk (merge_children a cs) = leaves_walk cs"
proof (induction n and a cs rule: normalize_node_merge_children.induct)
  case (2 axis cs)
  then show ?case by (auto simp: Let_def leaves_singleton)
qed simp_all

lemma wf_splice_child: "wf_node None c \<Longrightarrow> wf_children axis (splice_child axis r c)"
  by (cases c) (auto simp: splice_child_def)

lemma splice_child_nonempty: "wf_node None c \<Longrightarrow> splice_child axis r c \<noteq> []"
  by (cases c) (auto simp: splice_child_def)

lemma wf_children_append [simp]: "wf_children a (xs @ ys) \<longleftrightarrow> wf_children a xs \<and> wf_children a ys"
  by (auto simp: wf_children_iff)

lemma normalize_wf: "populated n \<Longrightarrow> wf_node None (normalize_node n)"
  and merge_wf: "populated_children cs \<Longrightarrow>
    wf_children a (merge_children a cs) \<and> (cs \<noteq> [] \<longrightarrow> merge_children a cs \<noteq> [])"
proof (induction n and a cs rule: normalize_node_merge_children.induct)
  case (2 axis cs)
  then have m: "wf_children axis (renormalize (merge_children axis cs))"
    "renormalize (merge_children axis cs) \<noteq> []"
    by (auto simp flip: length_greater_0_conv)
  let ?m = "renormalize (merge_children axis cs)"
  show ?case
  proof (cases "length ?m = 1")
    case True
    then have "wf_node (Some axis) (snd (?m ! 0))" using m(1) by (simp add: wf_children_nth)
    with True show ?thesis by (simp add: Let_def wf_node_None)
  next
    case False
    then have "2 \<le> length ?m" using m(2) by (cases ?m) (auto simp: neq_Nil_conv Suc_le_eq)
    with False m show ?thesis by (simp add: Let_def)
  qed
next
  case (4 axis r c cs)
  then show ?case by (auto simp: wf_splice_child splice_child_nonempty)
qed auto

section \<open>Removing a leaf\<close>

definition cut :: "PaneId list \<Rightarrow> PaneId \<Rightarrow> PaneId list \<Rightarrow> bool" where
  "cut old t new \<longleftrightarrow> (\<exists>xs ys. old = xs @ t # ys \<and> new = xs @ ys)"

lemma cut_append1: "cut old t new \<Longrightarrow> cut (zs @ old) t (zs @ new)"
  unfolding cut_def by (metis append.assoc)

lemma cut_append2: "cut old t new \<Longrightarrow> cut (old @ zs) t (new @ zs)"
  unfolding cut_def by (metis append.assoc append_Cons)

lemma cut_distinct: "cut old t new \<Longrightarrow> distinct old \<Longrightarrow> new = removeAll t old"
  unfolding cut_def by auto

lemma cut_in: "cut old t new \<Longrightarrow> t \<in> set old"
  unfolding cut_def by auto

definition outcome_leaves :: "Node option \<Rightarrow> PaneId list" where
  "outcome_leaves res = (case res of None \<Rightarrow> [] | Some n \<Rightarrow> leaves n)"

lemma remove_leaf_cut:
  "remove_leaf n t = Some res \<Longrightarrow> cut (leaves n) t (outcome_leaves res)"
  and remove_scan_cut:
  "remove_scan cs t = Some (i, res) \<Longrightarrow>
     i < length cs \<and> cut (leaves (snd (cs ! i))) t (outcome_leaves res)"
proof (induction n t and cs t arbitrary: res and i res rule: remove_leaf_remove_scan.induct)
  case (1 i t)
  then show ?case by (auto simp: cut_def outcome_leaves_def split: if_splits)
next
  case (2 axis cs t)
  then obtain i r where s: "remove_scan cs t = Some (i, r)" by (auto split: option.splits)
  with "2.IH" have i: "i < length cs" "cut (leaves (snd (cs ! i))) t (outcome_leaves r)" by auto
  let ?scale = "removal_scale (fst (cs ! i))"
  let ?rem = "map (\<lambda>(r, n). (f32_mul r ?scale, n)) (remove_nth i cs)"
  have "cut (leaves_walk cs) t
          (leaves_walk (take i cs) @ outcome_leaves r @ leaves_walk (drop (Suc i) cs))"
    unfolding leaves_walk_nth [OF i(1)] using i(2) by (intro cut_append1 cut_append2)
  moreover have "outcome_leaves res =
      leaves_walk (take i cs) @ outcome_leaves r @ leaves_walk (drop (Suc i) cs)"
  proof (cases r)
    case None
    have "leaves_walk ?rem = leaves_walk (take i cs) @ leaves_walk (drop (Suc i) cs)"
      by (simp add: remove_nth_def)
    moreover have "length ?rem = 1 \<Longrightarrow> leaves (snd (?rem ! 0)) = leaves_walk ?rem"
      by (rule leaves_singleton)
    ultimately show ?thesis using "2.prems" s None
      by (auto simp: Let_def outcome_leaves_def split: if_splits)
  next
    case (Some c')
    with "2.prems" s i(1) show ?thesis by (auto simp: outcome_leaves_def leaves_walk_update)
  qed
  ultimately show ?case by simp
next
  case (4 r c cs t)
  show ?case
  proof (cases "remove_leaf c t")
    case None
    with "4.prems" obtain k where "remove_scan cs t = Some (k, res)" "i = Suc k" by auto
    with "4.IH"(2) None show ?thesis by auto
  next
    case (Some x)
    with "4.prems" have "i = 0" "res = x" by auto
    with Some "4.IH"(1) show ?thesis by auto
  qed
qed simp

lemma remove_leaf_None_iff: "remove_leaf n t = None \<longleftrightarrow> t \<notin> set (leaves n)"
  and remove_scan_None_iff: "remove_scan cs t = None \<longleftrightarrow> t \<notin> set (leaves_walk cs)"
  by (induction n t and cs t rule: remove_leaf_remove_scan.induct)
     (auto simp: Let_def split: option.splits)

lemma remove_leaf_self: "remove_leaf n t = Some None \<Longrightarrow> n = Leaf t"
  by (cases n) (auto simp: Let_def split: option.splits if_splits)

lemma populated_children_remove_nth:
  "populated_children cs \<Longrightarrow> populated_children (remove_nth i cs)"
  using set_remove_nth_subset [of i cs] by (auto simp: populated_children_iff)

lemma populated_children_update:
  "populated_children cs \<Longrightarrow> populated c \<Longrightarrow> populated_children (cs[i := (r, c)])"
  by (auto simp: populated_children_iff dest!: set_update_subset_insert [THEN subsetD])

lemma remove_leaf_populated:
  "wf_node p n \<Longrightarrow> remove_leaf n t = Some (Some n') \<Longrightarrow> populated n'"
  and remove_scan_populated:
  "wf_children a cs \<Longrightarrow> remove_scan cs t = Some (i, Some c') \<Longrightarrow> populated c'"
proof (induction n t and cs t arbitrary: p n' and a i c' rule: remove_leaf_remove_scan.induct)
  case (2 axis cs t)
  then obtain i r where s: "remove_scan cs t = Some (i, r)" by (auto split: option.splits)
  have i: "i < length cs" using remove_scan_cut [OF s] by simp
  have wf: "2 \<le> length cs" "wf_children axis cs" using "2.prems"(1) by auto
  then have pop: "populated_children cs" by (simp add: wf_populated_children)
  show ?case
  proof (cases r)
    case None
    let ?rem = "map (\<lambda>(r, n). (f32_mul r (removal_scale (fst (cs ! i))), n)) (remove_nth i cs)"
    have rem: "populated_children ?rem" using pop by (simp add: populated_children_remove_nth)
    have "length ?rem = length cs - 1" using i by (simp add: seq_simps)
    then have ne: "0 < length ?rem" using wf(1) by linarith
    have "?rem ! 0 \<in> set ?rem" using ne by (rule nth_mem)
    then have "populated (snd (?rem ! 0))" using rem unfolding populated_children_iff by blast
    moreover have "populated (Branch axis ?rem)"
      using rem ne unfolding populated.simps by blast
    moreover have "n' = snd (?rem ! 0) \<or> n' = Branch axis ?rem"
      using "2.prems"(2) s None by (simp add: Let_def split: if_splits)
    ultimately show ?thesis by blast
  next
    case (Some c')
    then have "populated c'" using "2.IH" wf(2) s by auto
    with Some "2.prems"(2) s wf(1) show ?thesis
      by (auto intro!: populated_children_update pop)
  qed
next
  case (4 r c cs t)
  then show ?case by (auto split: option.splits)
qed (auto split: if_splits)

end
