(* ===== verification/Pane_Tab.thy ===== *)
theory Pane_Tab
  imports Pane_Struct
begin

text \<open>
  The pane operations on a whole tab: each keeps the tab invariant, says exactly which panes the
  tab holds afterwards, and leaves the tab alone when it refuses. The last section closes the
  operations under sequences: whatever the server does to a tab, the tab stays sound.
\<close>

section \<open>Split\<close>

lemma any_below_min_iff:
  "any_below_min n vp \<longleftrightarrow> \<not> (\<forall>p\<in>set (layout n vp). MIN_ROWS \<le> rrows (snd p) \<and> MIN_COLS \<le> rcols (snd p))"
  unfolding any_below_min_def below_min_def not_less [symmetric] by blast

lemma split_node_leaves:
  "split_node n t ax b new = Some n' \<Longrightarrow> spliced (leaves n) t b [new] (leaves n')"
  using graft_node_leaves [of n t ax b "Leaf new" n'] by (simp add: split_node_graft)

lemma split_node_None_iff: "split_node n t ax b new = None \<longleftrightarrow> t \<notin> set (leaves n)"
  by (simp add: split_node_graft graft_node_None_iff)

lemma split_node_tab_ok:
  assumes "wf_node None n" "distinct (leaves n)" "new \<notin> set (leaves n)"
    and "split_node n t ax b new = Some n'"
  shows "wf_node None n' \<and> distinct (leaves n') \<and> set (leaves n') = insert new (set (leaves n))"
  using assms split_node_wf [of None n t ax b new n'] split_node_leaves [OF assms(4)]
  by (auto dest: spliced_set spliced_distinct)

lemma split_at_Inr:
  assumes "split_at tab vp t dir new = (Inr u, tab')"
  shows "\<exists>ax b. dir_axis dir = (ax, b) \<and> split_node (tab_root tab) t ax b new = Some (tab_root tab')
      \<and> tab_focus tab' = tab_focus tab \<and> \<not> any_below_min (tab_root tab') vp \<and> tab_id tab' = tab_id tab"
  using assms by (auto simp: split_at_def split: prod.splits option.splits if_splits)

lemma split_at_Inl: "split_at tab vp t dir new = (Inl e, tab') \<Longrightarrow> tab' = tab \<and>
    (e = FocusNotFound t \<and> t \<notin> set (leaves (tab_root tab)) \<or>
     e = SplitTooSmall MIN_ROWS MIN_COLS \<and> t \<in> set (leaves (tab_root tab)))"
  by (auto simp: split_at_def split_node_None_iff split: prod.splits option.splits if_splits)
     (metis option.distinct(1) split_node_None_iff)

section \<open>Close and detach\<close>

lemma removed_root:
  assumes ok: "wf_node None n" "distinct (leaves n)" and r: "remove_leaf n t = Some (Some n')"
  shows "wf_node None (normalize_node n')" and "leaves (normalize_node n') = removeAll t (leaves n)"
    and "leaves n' \<noteq> []"
proof -
  have p: "populated n'" using ok(1) r by (rule remove_leaf_populated)
  then show "wf_node None (normalize_node n')" "leaves n' \<noteq> []"
    by (simp_all add: normalize_wf populated_leaves)
  show "leaves (normalize_node n') = removeAll t (leaves n)"
    using remove_leaf_cut [OF r] ok(2) by (simp add: outcome_leaves_def cut_distinct)
qed

lemma layout_nonempty: "leaves n \<noteq> [] \<Longrightarrow> layout n vp \<noteq> []"
  using map_fst_layout [of n vp] by auto

lemma refocus:
  assumes "leaves n \<noteq> []"
  obtains f where "nearest_surviving (layout n vp) from = Some f" "f \<in> set (leaves n)"
proof -
  obtain f where f: "nearest_surviving (layout n vp) from = Some f"
    using nearest_surviving_total [OF layout_nonempty [OF assms]] by blast
  then have "f \<in> set (leaves n)" using nearest_surviving_in fst_set_layout by blast
  with f that show thesis by blast
qed

lemma close_pane_total: "\<exists>r. close_pane tab vp t = Some r"
  by (auto simp: close_pane_def Let_def dest!: remove_leaf_self split: option.splits)

lemma close_pane_ok:
  assumes ok: "tab_ok tab" and c: "close_pane tab vp t = Some (was_last, tab')"
  shows "if was_last then tab' = tab \<and> tab_root tab = Leaf t
         else tab_ok tab' \<and> leaves (tab_root tab') = removeAll t (leaves (tab_root tab))
              \<and> (tab_focus tab \<noteq> t \<longrightarrow> tab_focus tab' = tab_focus tab)"
proof (cases "is_leaf t (tab_root tab)")
  case True
  with c show ?thesis by (auto simp: close_pane_def)
next
  case leaf: False
  show ?thesis
  proof (cases "remove_leaf (tab_root tab) t")
    case None
    with ok leaf c show ?thesis by (auto simp: close_pane_def remove_leaf_None_iff)
  next
    case (Some res)
    then obtain n' where r: "remove_leaf (tab_root tab) t = Some (Some n')"
      using leaf remove_leaf_self by (cases res) auto
    note rr = removed_root [OF _ _ r]
    have w: "wf_node None (normalize_node n')" "leaves n' \<noteq> []"
      "leaves n' = removeAll t (leaves (tab_root tab))"
      using ok rr by (auto simp: tab_ok_def)
    obtain f where "nearest_surviving (layout (normalize_node n') vp)
        (case rect_of (layout (tab_root tab) vp) t of Some r \<Rightarrow> r | None \<Rightarrow> vp) = Some f"
      "f \<in> set (leaves n')"
      using refocus [of "normalize_node n'"] w(2) by auto
    with c leaf r ok w show ?thesis
      by (auto simp: close_pane_def Let_def tab_ok_def distinct_removeAll split: if_splits)
  qed
qed

lemma detach_leaf_total:
  assumes "tab_ok tab" shows "\<exists>r. detach_leaf tab vp t = Some r"
proof (cases "\<exists>n'. remove_leaf (tab_root tab) t = Some (Some n')")
  case True
  then obtain n' where r: "remove_leaf (tab_root tab) t = Some (Some n')" by blast
  then have "leaves n' \<noteq> []" using assms removed_root(3) [OF _ _ r] by (simp add: tab_ok_def)
  with r show ?thesis by (auto simp: detach_leaf_def Let_def split: option.splits list.splits)
next
  case False
  then show ?thesis by (auto simp: detach_leaf_def Let_def dest!: remove_leaf_self split: option.splits)
qed

text \<open>Detaching is closing: the same tree, the same focus, a different answer.\<close>

lemma detach_leaf_close:
  assumes ok: "tab_ok tab" and d: "detach_leaf tab vp t = Some (r, tab')"
  shows "(case r of
      Inl e \<Rightarrow> e = PaneGone \<and> t \<notin> set (leaves (tab_root tab)) \<and> close_pane tab vp t = Some (False, tab')
    | Inr TabEmptied \<Rightarrow> close_pane tab vp t = Some (True, tab')
    | Inr (Detached f) \<Rightarrow> t \<in> set (leaves (tab_root tab)) \<and> close_pane tab vp t = Some (False, tab')
        \<and> f = tab_focus tab')"
proof (cases "\<exists>n'. remove_leaf (tab_root tab) t = Some (Some n')")
  case True
  then obtain n' where r: "remove_leaf (tab_root tab) t = Some (Some n')" by blast
  then have ne: "leaves n' \<noteq> []" using ok removed_root(3) [OF _ _ r] by (simp add: tab_ok_def)
  have t: "t \<in> set (leaves (tab_root tab))" using cut_in [OF remove_leaf_cut [OF r]] .
  have nl: "tab_root tab \<noteq> Leaf t" using r by auto
  obtain f where "nearest_surviving (layout (normalize_node n') vp)
      (case rect_of (layout (tab_root tab) vp) t of Some r \<Rightarrow> r | None \<Rightarrow> vp) = Some f"
    using refocus [of "normalize_node n'" vp] ne by (metis leaves_normalize)
  with d r nl t show ?thesis
    by (auto simp: detach_leaf_def close_pane_def Let_def split: if_splits)
next
  case False
  then consider "remove_leaf (tab_root tab) t = None" "t \<notin> set (leaves (tab_root tab))"
    | "tab_root tab = Leaf t"
    using remove_leaf_self remove_leaf_None_iff by (metis not_None_eq)
  then show ?thesis
  proof cases
    case 1
    then have "tab_root tab \<noteq> Leaf t" by auto
    with 1 d show ?thesis by (auto simp: detach_leaf_def close_pane_def Let_def)
  next
    case 2
    with d show ?thesis by (auto simp: detach_leaf_def close_pane_def)
  qed
qed

section \<open>Move\<close>

lemma move_leaf_Inr:
  assumes ok: "tab_ok tab" and m: "move_leaf tab vp mover target dir = (Inr u, tab')"
  shows "tab_ok tab' \<and> mset (leaves (tab_root tab')) = mset (leaves (tab_root tab)) \<and> tab_focus tab' = mover
     \<and> spliced (removeAll mover (leaves (tab_root tab))) target (snd (dir_axis dir)) [mover] (leaves (tab_root tab'))
     \<and> \<not> same_shape (tab_root tab') (tab_root tab) \<and> \<not> any_below_min (tab_root tab') vp"
proof -
  obtain ax b where d: "dir_axis dir = (ax, b)" by fastforce
  from m obtain n' where r: "remove_leaf (tab_root tab) mover = Some (Some n')"
    and s: "split_node (normalize_node n') target ax b mover = Some (tab_root tab')"
    and f: "tab_focus tab' = mover" and ns: "\<not> same_shape (tab_root tab') (tab_root tab)"
    and big: "\<not> any_below_min (tab_root tab') vp"
    by (auto simp: move_leaf_def Let_def d split: if_splits option.splits)
  have wf: "wf_node None (tab_root tab)" "distinct (leaves (tab_root tab))" using ok by (auto simp: tab_ok_def)
  note rr = removed_root [OF wf r]
  have in_old: "mover \<in> set (leaves (tab_root tab))" using cut_in [OF remove_leaf_cut [OF r]] .
  have sp: "spliced (removeAll mover (leaves (tab_root tab))) target b [mover] (leaves (tab_root tab'))"
    using split_node_leaves [OF s] rr(2) by simp
  have k: "wf_node None (tab_root tab') \<and> distinct (leaves (tab_root tab'))
      \<and> set (leaves (tab_root tab')) = insert mover (set (leaves (normalize_node n')))"
    using split_node_tab_ok [OF rr(1) _ _ s] rr(2) wf(2) by (auto simp: distinct_removeAll)
  have "mset (removeAll mover (leaves (tab_root tab))) = mset (leaves (tab_root tab)) - {#mover#}"
    using wf(2) by (metis distinct_remove1_removeAll mset_remove1)
  then have "mset (leaves (tab_root tab')) = mset (leaves (tab_root tab))"
    using spliced_mset [OF sp] in_old by simp
  with k f ns big sp d show ?thesis by (simp add: tab_ok_def)
qed

lemma move_leaf_Inl: "move_leaf tab vp mover target dir = (Inl e, tab') \<Longrightarrow> tab' = tab"
  by (auto simp: move_leaf_def Let_def split: if_splits option.splits prod.splits)

section \<open>Graft and substitution\<close>

lemma graft_node_populated:
  "populated n \<Longrightarrow> populated sub \<Longrightarrow> graft_node n t ax b sub = Some n' \<Longrightarrow> populated n'"
  and graft_children_populated:
  "populated_children cs \<Longrightarrow> populated sub \<Longrightarrow> graft_children cs t ax b sub = Some cs' \<Longrightarrow>
     populated_children cs' \<and> length cs' = length cs"
proof (induction n t ax b sub and cs t ax b sub arbitrary: n' and cs' rule: graft_node_graft_children.induct)
  case (1 i t ax b sub)
  then show ?case by (auto split: if_splits)
next
  case (2 axis cs t ax b sub)
  show ?case
  proof (cases "if axis = ax then position (\<lambda>c. is_leaf t (snd c)) cs else None")
    case None
    with 2 show ?thesis by fastforce
  next
    case (Some idx)
    let ?h = "f32_div (fst (cs ! idx)) (Fin 2)"
    let ?cs = "insert_at (if b then idx else idx + 1) (?h, sub) (cs[idx := (?h, Leaf t)])"
    have "populated_children (cs[idx := (?h, Leaf t)])"
      using "2.prems" by (intro populated_children_update) auto
    then have "populated_children ?cs" using "2.prems"(2) by (simp add: populated_children_iff seq_simps)
    moreover have "?cs \<noteq> []" by (simp add: insert_at_def)
    ultimately show ?thesis using Some "2.prems"(3) by (auto simp: Let_def simp del: is_leaf_iff)
  qed
next
  case (4 r c cs t ax b sub)
  then show ?case by (fastforce split: option.splits)
qed simp

lemma graft_subtree_Inr:
  assumes ok: "tab_ok tab" and sub: "populated sub" "distinct (leaves sub)"
    and fresh: "set (leaves (tab_root tab)) \<inter> set (leaves sub) = {}"
    and g: "graft_subtree tab vp a dir sub = (Inr u, tab')"
  shows "tab_ok tab' \<and> tab_focus tab' = tab_focus tab \<and> \<not> any_below_min (tab_root tab') vp \<and>
    spliced (leaves (tab_root tab)) a (snd (dir_axis dir)) (leaves sub) (leaves (tab_root tab'))"
proof -
  obtain ax b where d: "dir_axis dir = (ax, b)" by fastforce
  from g obtain c where c: "graft_node (tab_root tab) a ax b sub = Some c"
    and t: "tab' = tab\<lparr>tab_root := normalize_node c\<rparr>" and big: "\<not> any_below_min (normalize_node c) vp"
    by (auto simp: graft_subtree_def Let_def d split: if_splits option.splits)
  have "populated (tab_root tab)" using ok wf_populated by (auto simp: tab_ok_def)
  then have "wf_node None (normalize_node c)"
    using sub(1) c by (intro normalize_wf) (rule graft_node_populated)
  moreover have sp: "spliced (leaves (tab_root tab)) a b (leaves sub) (leaves c)"
    using c by (rule graft_node_leaves)
  moreover have "distinct (leaves c)" using spliced_distinct [OF sp] ok sub(2) fresh by (simp add: tab_ok_def)
  ultimately show ?thesis using ok t big d spliced_set [OF sp] by (auto simp: tab_ok_def)
qed

lemma graft_subtree_Inl: "graft_subtree tab vp a dir sub = (Inl e, tab') \<Longrightarrow> tab' = tab"
  by (auto simp: graft_subtree_def Let_def split: if_splits option.splits prod.splits)

definition substituted :: "PaneId list \<Rightarrow> PaneId \<Rightarrow> PaneId list \<Rightarrow> PaneId list \<Rightarrow> bool" where
  "substituted old t ins new \<longleftrightarrow> (\<exists>xs ys. old = xs @ t # ys \<and> new = xs @ ins @ ys)"

lemma substituted_append:
  "substituted old t ins new \<Longrightarrow> substituted (zs @ old) t ins (zs @ new)"
  "substituted old t ins new \<Longrightarrow> substituted (old @ zs) t ins (new @ zs)"
  unfolding substituted_def by (metis append.assoc, metis append.assoc append_Cons)

lemma substituted_single: "substituted [t] t ins ins"
  unfolding substituted_def by (rule exI [of _ "[]"], rule exI [of _ "[]"]) simp

lemma replace_anchor_leaves:
  "replace_anchor_node n a sub = Some n' \<Longrightarrow> substituted (leaves n) a (leaves sub) (leaves n')"
  and replace_anchor_children_leaves:
  "replace_anchor_children cs a sub = Some cs' \<Longrightarrow>
     substituted (leaves_walk cs) a (leaves sub) (leaves_walk cs')"
  by (induction n a sub and cs a sub arbitrary: n' and cs'
        rule: replace_anchor_node_replace_anchor_children.induct)
     (auto split: if_splits option.splits intro: substituted_append substituted_single)

lemma replace_anchor_None_iff: "replace_anchor_node n a sub = None \<longleftrightarrow> a \<notin> set (leaves n)"
  and replace_anchor_children_None_iff:
    "replace_anchor_children cs a sub = None \<longleftrightarrow> a \<notin> set (leaves_walk cs)"
  by (induction n a sub and cs a sub rule: replace_anchor_node_replace_anchor_children.induct)
     (auto split: option.splits)

lemma replace_anchor_populated:
  "populated n \<Longrightarrow> populated sub \<Longrightarrow> replace_anchor_node n a sub = Some n' \<Longrightarrow> populated n'"
  and replace_anchor_children_populated:
  "populated_children cs \<Longrightarrow> populated sub \<Longrightarrow> replace_anchor_children cs a sub = Some cs' \<Longrightarrow>
     populated_children cs' \<and> length cs' = length cs"
proof (induction n a sub and cs a sub arbitrary: n' and cs'
    rule: replace_anchor_node_replace_anchor_children.induct)
  case (2 axis cs a sub)
  then obtain cs' where "replace_anchor_children cs a sub = Some cs'" "n' = Branch axis cs'" by auto
  with 2 show ?case by fastforce
next
  case (4 r c cs a sub)
  then show ?case by (cases "replace_anchor_node c a sub") auto
qed (auto split: if_splits)

section \<open>Replace a leaf\<close>

lemma replace_leaf_node_miss:
  "old \<notin> set (leaves n) \<Longrightarrow> replace_leaf_node n old new = (False, n)"
  and replace_leaf_children_miss:
  "old \<notin> set (leaves_walk cs) \<Longrightarrow> replace_leaf_children cs old new = (False, cs)"
  by (induction n old new and cs old new rule: replace_leaf_node_replace_leaf_children.induct) auto

lemma replace_leaf_node_hit:
  "old \<in> set (leaves n) \<Longrightarrow> \<exists>n'. replace_leaf_node n old new = (True, n') \<and>
     substituted (leaves n) old [new] (leaves n')"
  and replace_leaf_children_hit:
  "old \<in> set (leaves_walk cs) \<Longrightarrow> \<exists>cs'. replace_leaf_children cs old new = (True, cs') \<and>
     substituted (leaves_walk cs) old [new] (leaves_walk cs')"
proof (induction n old new and cs old new rule: replace_leaf_node_replace_leaf_children.induct)
  case (1 i old new)
  then show ?case by (simp add: substituted_single)
next
  case (4 r c cs old new)
  show ?case
  proof (cases "old \<in> set (leaves c)")
    case True
    with "4.IH"(1) show ?thesis by (auto intro: substituted_append)
  next
    case False
    then have m: "replace_leaf_node c old new = (False, c)" by (rule replace_leaf_node_miss)
    from False "4.prems" have "old \<in> set (leaves_walk cs)" by simp
    then obtain cs' where "replace_leaf_children cs old new = (True, cs')"
      "substituted (leaves_walk cs) old [new] (leaves_walk cs')"
      using "4.IH"(2) m by (metis (full_types))
    with m show ?thesis by (auto intro: substituted_append)
  qed
qed auto

lemma substituted_id: "substituted xs t [t] ys \<Longrightarrow> ys = xs"
  by (auto simp: substituted_def)

lemma same_shape_refl [simp]: "same_shape n n"
  and same_shape_children_refl [simp]: "same_shape_children cs cs"
  by (induction n and cs rule: leaves_leaves_walk.induct) auto

lemma replace_leaf_node_wf:
  "wf_node p (snd (replace_leaf_node n old new)) = wf_node p n"
  and replace_leaf_children_wf:
  "wf_children a (snd (replace_leaf_children cs old new)) = wf_children a cs \<and>
     length (snd (replace_leaf_children cs old new)) = length cs"
proof (induction n old new and cs old new arbitrary: p and a
    rule: replace_leaf_node_replace_leaf_children.induct)
  case (2 axis cs old new)
  then show ?case by (cases "replace_leaf_children cs old new") auto
next
  case (4 r c cs old new)
  obtain h c' where c: "replace_leaf_node c old new = (h, c')" by fastforce
  obtain k cs' where cs: "replace_leaf_children cs old new = (k, cs')" by fastforce
  from "4.IH"(1) [of "Some a"] "4.IH"(2) c cs show ?case by (cases h) auto
qed auto

lemma replace_leaf_Some:
  assumes ok: "tab_ok tab" and old: "old \<in> set (leaves (tab_root tab))"
    and new: "new \<notin> set (leaves (tab_root tab))"
  shows "\<exists>tab'. replace_leaf tab old new = (True, tab') \<and> tab_ok tab' \<and>
     substituted (leaves (tab_root tab)) old [new] (leaves (tab_root tab')) \<and>
     tab_focus tab' = (if tab_focus tab = old then new else tab_focus tab)"
proof -
  obtain n' where r: "replace_leaf_node (tab_root tab) old new = (True, n')"
    and s: "substituted (leaves (tab_root tab)) old [new] (leaves n')"
    using replace_leaf_node_hit [OF old] by blast
  have "wf_node None n'" using replace_leaf_node_wf [of None "tab_root tab" old new] r ok
    by (simp add: tab_ok_def)
  moreover have "distinct (leaves n')" "set (leaves n') = insert new (set (leaves (tab_root tab)) - {old})"
    using s ok new by (auto simp: substituted_def tab_ok_def)
  ultimately show ?thesis using r s ok by (simp add: replace_leaf_def tab_ok_def)
qed

section \<open>Paths\<close>

fun valid_path :: "Node \<Rightarrow> nat list \<Rightarrow> bool" where
  "valid_path n [] = True"
| "valid_path (Branch axis cs) (i # rest) = (i < length cs \<and> valid_path (snd (cs ! i)) rest)"
| "valid_path (Leaf p) (i # rest) = False"

lemma find_path_sound:
  "find_path n t = Some p \<Longrightarrow> valid_path n p \<and> node_at_path n p = Some (Leaf t)"
  and find_path_loop_sound:
  "find_path_loop cs k t = Some p \<Longrightarrow> \<exists>i q. p = (k + i) # q \<and> i < length cs \<and>
     valid_path (snd (cs ! i)) q \<and> node_at_path (snd (cs ! i)) q = Some (Leaf t)"
proof (induction n t and cs k t arbitrary: p and p rule: find_path_find_path_loop.induct)
  case (4 r c cs k t)
  show ?case
  proof (cases "find_path c t")
    case None
    with "4.prems" have "find_path_loop cs (Suc k) t = Some p" by simp
    with "4.IH"(2) [OF None] obtain i q where "p = (Suc k + i) # q" "i < length cs"
      "valid_path (snd (cs ! i)) q" "node_at_path (snd (cs ! i)) q = Some (Leaf t)" by blast
    then show ?thesis by (intro exI [of _ "Suc i"]) auto
  next
    case (Some q)
    with 4 show ?thesis by fastforce
  qed
qed (auto split: if_splits)

lemma find_path_None_iff: "find_path n t = None \<longleftrightarrow> t \<notin> set (leaves n)"
  and find_path_loop_None_iff: "find_path_loop cs k t = None \<longleftrightarrow> t \<notin> set (leaves_walk cs)"
  by (induction n t and cs k t rule: find_path_find_path_loop.induct) (auto split: option.splits)

lemma valid_path_branch:
  "valid_path n p \<Longrightarrow> k < length p \<Longrightarrow>
     \<exists>ax cs. node_at_path n (take k p) = Some (Branch ax cs) \<and> p ! k < length cs"
proof (induction n p arbitrary: k rule: valid_path.induct)
  case (2 axis cs i rest)
  then show ?case by (cases k) auto
qed auto

lemma valid_path_area: "valid_path n p \<Longrightarrow> \<exists>a. area_at_path n vp (take k p) = Some a"
proof (induction n p arbitrary: k vp rule: valid_path.induct)
  case (2 axis cs i rest)
  then show ?case by (cases k) auto
qed auto

lemma set_children_ratios_total:
  "valid_path n p \<Longrightarrow> k < length p \<Longrightarrow> node_at_path n (take k p) = Some (Branch ax cs) \<Longrightarrow>
     \<forall>u\<in>set us. fst u < length cs \<Longrightarrow> \<exists>n'. set_children_ratios n (take k p) us = Some n'"
proof (induction n p arbitrary: k rule: valid_path.induct)
  case (2 axis cs i rest)
  then show ?case by (cases k) auto
qed auto

section \<open>Equal shape\<close>

lemma same_shape_children_snd:
  "map snd xs = map snd ys \<Longrightarrow> same_shape_children xs ys"
proof (induction xs arbitrary: ys)
  case (Cons x xs)
  then obtain y ys' where ys: "ys = y # ys'" "snd x = snd y" "map snd xs = map snd ys'" by auto
  with Cons.IH show ?case by (cases x; cases y) simp
qed simp

lemma same_shape_keeps:
  "same_shape a b \<Longrightarrow> leaves a = leaves b \<and> (\<forall>p. wf_node p a = wf_node p b)"
  and same_shape_children_keeps:
  "same_shape_children as bs \<Longrightarrow> length as = length bs \<Longrightarrow>
     leaves_walk as = leaves_walk bs \<and> (\<forall>x. wf_children x as = wf_children x bs)"
  by (induction a b and as bs rule: same_shape_same_shape_children.induct) auto

lemma map_snd_apply_ratio [simp]: "map snd (apply_ratio cs u) = map snd cs"
proof (cases u)
  case (Pair i r)
  have "(map snd cs)[i := snd (cs ! i)] = map snd cs"
    by (cases "i < length cs") (simp_all add: list_update_same_conv list_update_beyond)
  then show ?thesis by (simp add: Pair apply_ratio_def map_update)
qed

lemma map_snd_apply_ratios [simp]: "map snd (foldl apply_ratio cs us) = map snd cs"
  by (induction us arbitrary: cs) auto

lemma length_apply_ratios [simp]: "length (foldl apply_ratio cs us) = length cs"
  using map_snd_apply_ratios [of cs us] by (metis length_map)

lemma same_shape_children_update:
  "i < length cs \<Longrightarrow> same_shape c (snd (cs ! i)) \<Longrightarrow> same_shape_children (cs[i := (r, c)]) cs"
proof (induction cs arbitrary: i)
  case (Cons x cs)
  then show ?case by (cases x; cases i) auto
qed simp

lemma set_children_ratios_shape:
  "set_children_ratios n path us = Some n' \<Longrightarrow> same_shape n' n"
  by (induction n path us arbitrary: n' rule: set_children_ratios.induct)
     (auto split: if_splits simp: same_shape_children_snd same_shape_children_update)

lemma reshaped_tab_ok:
  "tab_ok tab \<Longrightarrow> same_shape n' (tab_root tab) \<Longrightarrow> tab_ok (tab\<lparr>tab_root := n'\<rparr>)"
  using same_shape_keeps [of n' "tab_root tab"] by (auto simp: tab_ok_def)

section \<open>Resize\<close>

lemma deepest_matching_ancestor_less:
  "deepest_matching_ancestor n p ax = Some k \<Longrightarrow> k < length p"
  by (auto simp: deepest_matching_ancestor_def find_Some_iff) (metis add_lessD1 length_rev
      length_upt minus_nat.diff_0 nth_mem set_rev set_upt atLeastLessThan_iff)

lemma neighbor_index_less: "neighbor_index dir i n = Some j \<Longrightarrow> i < n \<Longrightarrow> j < n"
  by (auto simp: neighbor_index_def split: if_splits)

lemma resize_total: "\<exists>r. resize tab vp dir step = Some r"
proof (cases "find_path (tab_root tab) (tab_focus tab)")
  case None
  then show ?thesis by (auto simp: resize_def)
next
  case (Some path)
  show ?thesis
  proof (cases "deepest_matching_ancestor (tab_root tab) path (dir_want_axis dir)")
    case None
    with Some show ?thesis by (auto simp: resize_def)
  next
    case d: (Some k)
    have v: "valid_path (tab_root tab) path" using find_path_sound [OF Some] by simp
    have k: "k < length path" using d by (rule deepest_matching_ancestor_less)
    obtain ax cs where b: "node_at_path (tab_root tab) (take k path) = Some (Branch ax cs)" "path ! k < length cs"
      using valid_path_branch [OF v k] by blast
    obtain a where a: "area_at_path (tab_root tab) vp (take k path) = Some a"
      using valid_path_area [OF v] by blast
    show ?thesis
    proof (cases "neighbor_index dir (path ! k) (length cs)")
      case None
      with Some d b show ?thesis by (auto simp: resize_def Let_def)
    next
      case n: (Some j)
      have "j < length cs" using neighbor_index_less [OF n b(2)] .
      then have "\<And>r s. \<exists>n'. set_children_ratios (tab_root tab) (take k path) [(path ! k, r), (j, s)] = Some n'"
        using set_children_ratios_total [OF v k b(1)] b(2) by simp
      with Some d b a n \<open>j < length cs\<close> show ?thesis by (auto simp: resize_def Let_def)
    qed
  qed
qed

lemma resize_shape:
  assumes "resize tab vp dir step = Some (changed, tab')"
  shows "\<exists>n'. tab' = tab\<lparr>tab_root := n'\<rparr> \<and> same_shape n' (tab_root tab) \<and> (\<not> changed \<longrightarrow> n' = tab_root tab)"
  using assms
  by (auto simp: resize_def Let_def dest: set_children_ratios_shape
      split: option.splits Node.splits if_splits)

lemma first_difference_Some:
  "first_difference pa pb = Some k \<Longrightarrow> k < length pa \<and> k < length pb \<and> take k pa = take k pb"
  unfolding first_difference_def find_Some_iff
  by (auto simp: nth_append intro!: nth_equalityI)

lemma set_seam_pos_total: "\<exists>r. set_seam_pos tab vp a b pos = Some r"
proof (cases "\<exists>pa pb k. find_path (tab_root tab) a = Some pa \<and> find_path (tab_root tab) b = Some pb
    \<and> first_difference pa pb = Some k")
  case False
  then show ?thesis by (auto simp: set_seam_pos_def split: option.splits)
next
  case True
  then obtain pa pb k where p: "find_path (tab_root tab) a = Some pa" "find_path (tab_root tab) b = Some pb"
    and k: "first_difference pa pb = Some k" by blast
  note kk = first_difference_Some [OF k]
  have v: "valid_path (tab_root tab) pa" "valid_path (tab_root tab) pb"
    using find_path_sound p by auto
  obtain ax cs where br: "node_at_path (tab_root tab) (take k pa) = Some (Branch ax cs)" "pa ! k < length cs"
    using valid_path_branch [OF v(1)] kk by blast
  have "pb ! k < length cs" using valid_path_branch [OF v(2)] kk br by fastforce
  moreover obtain ar where "area_at_path (tab_root tab) vp (take k pa) = Some ar"
    using valid_path_area [OF v(1)] by blast
  moreover have "\<And>r s. \<exists>n'. set_children_ratios (tab_root tab) (take k pa) [(pa ! k, r), (pb ! k, s)] = Some n'"
    using set_children_ratios_total [OF v(1) _ br(1)] kk br(2) calculation(1) by simp
  ultimately show ?thesis using p k br by (auto simp: set_seam_pos_def Let_def)
qed

lemma set_seam_pos_shape:
  assumes "set_seam_pos tab vp a b pos = Some (changed, tab')"
  shows "\<exists>n'. tab' = tab\<lparr>tab_root := n'\<rparr> \<and> same_shape n' (tab_root tab) \<and> (\<not> changed \<longrightarrow> n' = tab_root tab)"
  using assms
  by (auto simp: set_seam_pos_def Let_def dest: set_children_ratios_shape
      split: option.splits Node.splits if_splits)

section \<open>Normalizing a sound tree keeps its shape\<close>

lemma same_shape_trans: "same_shape a b \<Longrightarrow> same_shape b c \<Longrightarrow> same_shape a c"
  and same_shape_children_trans:
  "same_shape_children as bs \<Longrightarrow> same_shape_children bs cs \<Longrightarrow> length as = length bs \<Longrightarrow>
     length bs = length cs \<Longrightarrow> same_shape_children as cs"
proof (induction a b and as bs arbitrary: c and cs rule: same_shape_same_shape_children.induct)
  case (2 ax ac bx bc)
  then show ?case by (cases c) auto
next
  case (4 r a as s b bs)
  then show ?case by (cases cs) auto
qed (auto simp: same_shape_children.simps elim: same_shape.elims)

lemma same_shape_children_Cons:
  "same_shape a (snd x) \<Longrightarrow> same_shape_children as cs \<Longrightarrow> same_shape_children ((r, a) # as) (x # cs)"
  by (cases x) simp

lemma splice_child_other:
  "same_shape m c \<Longrightarrow> wf_node (Some axis) c \<Longrightarrow> splice_child axis r m = [(r, m)]"
  by (cases m; cases c) (auto simp: splice_child_def)

lemma same_shape_children_map:
  "same_shape_children (map (\<lambda>(r, n). (f r, n)) xs) ys = same_shape_children xs ys"
proof (induction xs arbitrary: ys)
  case (Cons x xs)
  then show ?case by (cases x; cases ys) auto
qed simp

lemma same_shape_children_renormalize [simp]:
  "same_shape_children (renormalize xs) ys = same_shape_children xs ys"
  by (simp add: renormalize_def Let_def same_shape_children_map)

lemma normalize_same_shape: "wf_node p n \<Longrightarrow> same_shape (normalize_node n) n"
  and merge_same_shape: "wf_children a cs \<Longrightarrow>
    same_shape_children (merge_children a cs) cs \<and> length (merge_children a cs) = length cs"
proof (induction n and a cs arbitrary: p rule: normalize_node_merge_children.induct)
  case (2 axis cs)
  then show ?case by (auto simp: Let_def)
next
  case (4 axis r c cs)
  then have "splice_child axis r (normalize_node c) = [(r, normalize_node c)]"
    by (auto intro: splice_child_other)
  with 4 show ?case by auto
qed auto

section \<open>Closing undoes splitting\<close>

lemma remove_scan_skip:
  "new \<notin> set (leaves_walk xs) \<Longrightarrow>
     remove_scan (xs @ ys) new = map_option (\<lambda>(i, res). (length xs + i, res)) (remove_scan ys new)"
proof (induction xs)
  case Nil
  then show ?case by (simp add: option.map_ident_strong split_beta)
next
  case (Cons x xs)
  then have "remove_leaf (snd x) new = None" by (cases x) (simp add: remove_leaf_None_iff)
  with Cons show ?case by (cases x) (simp add: option.map_comp comp_def split_beta)
qed

lemma leaves_walk_snd: "map snd xs = map snd ys \<Longrightarrow> leaves_walk xs = leaves_walk ys"
proof (induction xs arbitrary: ys)
  case (Cons x xs)
  then obtain y ys' where ys: "ys = y # ys'" "snd x = snd y" "map snd xs = map snd ys'" by auto
  with Cons.IH show ?case by (cases x; cases y) simp
qed simp

lemma split_remove:
  "split_node n t ax b new = Some n' \<Longrightarrow> new \<notin> set (leaves n) \<Longrightarrow> wf_node p n \<Longrightarrow>
     \<exists>m. remove_leaf n' new = Some (Some m) \<and> same_shape m n"
  and split_children_remove:
  "split_children cs t ax b new = Some cs' \<Longrightarrow> new \<notin> set (leaves_walk cs) \<Longrightarrow> wf_children a cs \<Longrightarrow>
     \<exists>i m. remove_scan cs' new = Some (i, Some m) \<and> i < length cs' \<and> length cs' = length cs \<and>
       same_shape_children (cs'[i := (fst (cs' ! i), m)]) cs"
proof (induction n t ax b new and cs t ax b new arbitrary: n' p and cs' a
    rule: split_node_split_children.induct)
  case (1 i t ax b new)
  then show ?case by (auto simp: Let_def remove_nth_def split: if_splits)
next
  case (2 axis cs t ax b new)
  show ?case
  proof (cases "if axis = ax then position (\<lambda>c. is_leaf t (snd c)) cs else None")
    case None
    with "2.prems" obtain cs' where cs': "split_children cs t ax b new = Some cs'" "n' = Branch axis cs'"
      by auto
    have "new \<notin> set (leaves_walk cs)" "wf_children axis cs" using "2.prems" by simp_all
    with "2.IH" [OF None] cs'(1) obtain i m where "remove_scan cs' new = Some (i, Some m)"
      "i < length cs'" "length cs' = length cs" "same_shape_children (cs'[i := (fst (cs' ! i), m)]) cs"
      by blast
    with cs' show ?thesis by simp
  next
    case (Some idx)
    then have i: "idx < length cs" "snd (cs ! idx) = Leaf t"
      using position_SomeD [of "\<lambda>c. is_leaf t (snd c)" cs idx] by (auto split: if_splits)
    define h where "h = f32_div (fst (cs ! idx)) (Fin 2)"
    define ds where "ds = cs[idx := (h, Leaf t)]"
    define k where "k = (if b then idx else idx + 1)"
    have n': "n' = Branch axis (insert_at k (h, Leaf new) ds)"
      using Some "2.prems"(1) by (simp add: Let_def h_def ds_def k_def)
    have kl: "k \<le> length ds" using i by (simp add: k_def ds_def)
    have snd_ds: "map snd ds = map snd cs" using i
      by (auto simp: ds_def map_update list_update_same_conv)
    then have lw: "leaves_walk ds = leaves_walk cs"
      by (rule leaves_walk_snd)
    then have fresh: "new \<notin> set (leaves_walk (take k ds))"
      using "2.prems"(2) by (metis append_take_drop_id leaves.simps(2) leaves_walk_append Un_iff set_append)
    have sc: "remove_scan (insert_at k (h, Leaf new) ds) new = Some (k, None)"
      using remove_scan_skip [OF fresh] kl by (simp add: insert_at_def)
    have rn: "remove_nth k (insert_at k (h, Leaf new) ds) = ds"
      using kl by (simp add: remove_nth_def insert_at_def)
    have len: "length ds = length cs" "2 \<le> length cs" using "2.prems"(3) by (auto simp: ds_def)
    have "same_shape_children (map (\<lambda>(r, n). (f32_mul r s, n)) ds) cs" for s
      using snd_ds by (simp add: same_shape_children_map same_shape_children_snd)
    with n' sc rn len show ?thesis by (simp add: Let_def)
  qed
next
  case (4 r c cs t ax b new)
  show ?case
  proof (cases "split_node c t ax b new")
    case None
    with "4.prems" obtain ds where ds: "split_children cs t ax b new = Some ds" "cs' = (r, c) # ds" by auto
    have "new \<notin> set (leaves_walk cs)" "wf_children a cs" using "4.prems" by simp_all
    with "4.IH"(2) [OF None ds(1)] obtain i m where "remove_scan ds new = Some (i, Some m)"
      "i < length ds" "length ds = length cs" "same_shape_children (ds[i := (fst (ds ! i), m)]) cs" by blast
    moreover have "remove_leaf c new = None" using "4.prems"(2) by (simp add: remove_leaf_None_iff)
    ultimately show ?thesis using ds by (intro exI [of _ "Suc i"] exI [of _ m]) simp
  next
    case (Some c')
    have "new \<notin> set (leaves c)" "wf_node (Some a) c" using "4.prems" by simp_all
    with "4.IH"(1) [OF Some] obtain m where "remove_leaf c' new = Some (Some m)" "same_shape m c"
      by blast
    with Some "4.prems"(1) show ?thesis by (intro exI [of _ 0] exI [of _ m]) auto
  qed
qed simp

section \<open>The invariant checker\<close>

fun sums_ok :: "Node \<Rightarrow> bool" and sums_ok_children :: "children \<Rightarrow> bool" where
  "sums_ok (Leaf i) = True"
| "sums_ok (Branch a cs) = (\<not> sum_off cs \<and> sums_ok_children cs)"
| "sums_ok_children [] = True"
| "sums_ok_children ((r, c) # cs) = (sums_ok c \<and> sums_ok_children cs)"

lemma inv_walk_result:
  "\<exists>more. inv_walk n (ids, errs) parent = (ids \<union> set (leaves n), errs @ more) \<and>
     (more = [] \<longleftrightarrow> wf_node parent n \<and> distinct (leaves n) \<and> set (leaves n) \<inter> ids = {} \<and> sums_ok n)"
  and inv_walk_children_result:
  "\<exists>more. inv_walk_children cs (ids, errs) axis = (ids \<union> set (leaves_walk cs), errs @ more) \<and>
     (more = [] \<longleftrightarrow> wf_children axis cs \<and> distinct (leaves_walk cs) \<and> set (leaves_walk cs) \<inter> ids = {}
        \<and> sums_ok_children cs)"
proof (induction n and cs arbitrary: ids errs parent and ids errs axis rule: leaves_leaves_walk.induct)
  case (1 i)
  then show ?case by auto
next
  case (2 a cs)
  let ?pre = "(if length cs < 2 then [ShortBranch (length cs)] else [])
      @ (if parent = Some a then [NestedSameAxis] else [])
      @ (if sum_off cs then [RatioSum (f32_sum (map fst cs))] else [])"
  from 2 [of ids "errs @ ?pre" a] obtain more where
    m: "inv_walk_children cs (ids, errs @ ?pre) a = (ids \<union> set (leaves_walk cs), (errs @ ?pre) @ more)"
    and e: "more = [] \<longleftrightarrow> wf_children a cs \<and> distinct (leaves_walk cs) \<and> set (leaves_walk cs) \<inter> ids = {}
        \<and> sums_ok_children cs" by blast
  have "inv_walk (Branch a cs) (ids, errs) parent = (ids \<union> set (leaves_walk cs), errs @ (?pre @ more))"
    using m by simp
  moreover have "?pre @ more = [] \<longleftrightarrow> wf_node parent (Branch a cs) \<and> distinct (leaves (Branch a cs)) \<and>
      set (leaves (Branch a cs)) \<inter> ids = {} \<and> sums_ok (Branch a cs)"
    using e by auto
  ultimately show ?case by (metis leaves.simps(2))
next
  case 3
  then show ?case by auto
next
  case (4 r c cs)
  from "4.IH"(1) [of ids errs "Some axis"] obtain m1 where
    w1: "inv_walk c (ids, errs) (Some axis) = (ids \<union> set (leaves c), errs @ m1)" and
    e1: "m1 = [] \<longleftrightarrow> wf_node (Some axis) c \<and> distinct (leaves c) \<and> set (leaves c) \<inter> ids = {} \<and> sums_ok c"
    by blast
  from "4.IH"(2) [of "ids \<union> set (leaves c)" "errs @ m1" axis] obtain m2 where
    w2: "inv_walk_children cs (ids \<union> set (leaves c), errs @ m1) axis =
       (ids \<union> set (leaves c) \<union> set (leaves_walk cs), (errs @ m1) @ m2)" and
    e2: "m2 = [] \<longleftrightarrow> wf_children axis cs \<and> distinct (leaves_walk cs) \<and>
       set (leaves_walk cs) \<inter> (ids \<union> set (leaves c)) = {} \<and> sums_ok_children cs" by blast
  show ?case
    by (rule exI [of _ "m1 @ m2"]) (use w1 w2 e1 e2 in \<open>auto simp: Un_assoc\<close>)
qed

end
