(* ===== verification/Pane_Steps.thy ===== *)
theory Pane_Steps
  imports Pane_Tab
begin

text \<open>
  A tab as a transition system: one step for every operation of \<open>crates/fno/src/tree.rs\<close> that
  changes it, the proof that each keeps the invariant, and the properties of the single
  operations. The last section holds the concrete tabs on which the properties are instantiated.
\<close>

section \<open>The steps of a tab\<close>

inductive tree_step :: "Tab \<Rightarrow> Tab \<Rightarrow> bool" where
  split: "split_at tab vp t dir new = (Inr (), tab') \<Longrightarrow> new \<notin> set (leaves (tab_root tab)) \<Longrightarrow>
    tree_step tab tab'"
| split_focus: "split_directional tab vp dir new = (Inr (), tab') \<Longrightarrow>
    new \<notin> set (leaves (tab_root tab)) \<Longrightarrow> tree_step tab tab'"
| replace: "replace_leaf tab old new = (True, tab') \<Longrightarrow> new \<notin> set (leaves (tab_root tab)) \<Longrightarrow>
    tree_step tab tab'"
| move: "move_leaf tab vp mover t dir = (Inr (), tab') \<Longrightarrow> tree_step tab tab'"
| close: "close_pane tab vp t = Some (False, tab') \<Longrightarrow> tree_step tab tab'"
| detach: "detach_leaf tab vp t = Some (Inr (Detached f), tab') \<Longrightarrow> tree_step tab tab'"
| graft: "graft_subtree tab vp a dir sub = (Inr (), tab') \<Longrightarrow> populated sub \<Longrightarrow>
    distinct (leaves sub) \<Longrightarrow> set (leaves (tab_root tab)) \<inter> set (leaves sub) = {} \<Longrightarrow>
    tree_step tab tab'"
| substitute: "replace_anchor_with_candidate tab vp a sub = Inr c \<Longrightarrow> populated sub \<Longrightarrow>
    distinct (leaves sub) \<Longrightarrow> (set (leaves (tab_root tab)) - {a}) \<inter> set (leaves sub) = {} \<Longrightarrow>
    f \<in> set (leaves c) \<Longrightarrow> tree_step tab (tab\<lparr>tab_root := c, tab_focus := f\<rparr>)"
| resize: "resize tab vp dir step = Some (b, tab') \<Longrightarrow> tree_step tab tab'"
| seam: "set_seam_pos tab vp a c pos = Some (b, tab') \<Longrightarrow> tree_step tab tab'"
| focus: "navigate (tab_root tab) vp (tab_focus tab) dir = Some f \<Longrightarrow>
    tree_step tab (tab\<lparr>tab_focus := f\<rparr>)"

lemma split_at_tab_ok:
  assumes "tab_ok tab" "new \<notin> set (leaves (tab_root tab))" "split_at tab vp t dir new = (Inr u, tab')"
  shows "tab_ok tab' \<and> spliced (leaves (tab_root tab)) t (snd (dir_axis dir)) [new] (leaves (tab_root tab'))"
proof -
  from split_at_Inr [OF assms(3)] obtain ax b where d: "dir_axis dir = (ax, b)"
    and s: "split_node (tab_root tab) t ax b new = Some (tab_root tab')"
    and f: "tab_focus tab' = tab_focus tab" by blast
  from split_node_tab_ok [OF _ _ assms(2) s] assms(1) f have "tab_ok tab'" by (auto simp: tab_ok_def)
  with split_node_leaves [OF s] d show ?thesis by simp
qed

lemma split_directional_Inr:
  "split_directional tab vp dir new = (Inr u, tab') \<Longrightarrow>
     \<exists>t1. split_at tab vp (tab_focus tab) dir new = (Inr u, t1) \<and> tab' = t1\<lparr>tab_focus := new\<rparr>"
  by (auto simp: split_directional_def split: prod.splits sum.splits)

lemma replace_leaf_present:
  assumes "replace_leaf tab old new = (True, tab')"
  shows "old \<in> set (leaves (tab_root tab))"
proof (rule ccontr)
  assume "old \<notin> set (leaves (tab_root tab))"
  from replace_leaf_node_miss [OF this, of new] assms show False by (simp add: replace_leaf_def)
qed

lemma substitute_ok:
  assumes ok: "tab_ok tab" and r: "replace_anchor_with_candidate tab vp a sub = Inr c"
    and sub: "populated sub" "distinct (leaves sub)"
    and disj: "(set (leaves (tab_root tab)) - {a}) \<inter> set (leaves sub) = {}"
  shows "wf_node None c \<and> distinct (leaves c) \<and>
    substituted (leaves (tab_root tab)) a (leaves sub) (leaves c) \<and> \<not> any_below_min c vp"
proof -
  from r obtain c0 where c0: "replace_anchor_node (tab_root tab) a sub = Some c0"
    and c: "c = normalize_node c0" "\<not> any_below_min c vp"
    by (auto simp: replace_anchor_with_candidate_def Let_def split: option.splits if_splits)
  have "populated c0"
    using replace_anchor_populated [OF wf_populated sub(1) c0] ok by (auto simp: tab_ok_def)
  then have "wf_node None c" by (simp add: c normalize_wf)
  moreover have s: "substituted (leaves (tab_root tab)) a (leaves sub) (leaves c)"
    using replace_anchor_leaves [OF c0] c by simp
  moreover have "distinct (leaves c)" using s ok sub(2) disj by (auto simp: substituted_def tab_ok_def)
  ultimately show ?thesis using c by blast
qed

lemma navigate_leaf: "navigate n vp f dir = Some i \<Longrightarrow> i \<in> set (leaves n)"
  by (auto simp: navigate_def Let_def split: option.splits dest!: find_in_direction_in)
     (metis fst_conv fst_set_layout image_eqI)

lemma tree_step_ok: "tree_step tab tab' \<Longrightarrow> tab_ok tab \<Longrightarrow> tab_ok tab'"
proof (induction rule: tree_step.induct)
  case (split_focus tab vp dir new tab')
  then obtain t1 where t1: "split_at tab vp (tab_focus tab) dir new = (Inr (), t1)"
    "tab' = t1\<lparr>tab_focus := new\<rparr>" using split_directional_Inr by blast
  from split_at_tab_ok [OF split_focus(3,2) t1(1)] show ?case
    by (auto simp: t1(2) tab_ok_def dest: spliced_set)
next
  case (replace tab old new tab')
  from replace_leaf_Some [OF replace(3) replace_leaf_present [OF replace(1)] replace(2)] replace(1)
  show ?case by auto
next
  case (close tab vp t tab')
  from close_pane_ok [OF close(2,1)] show ?case by simp
next
  case (detach tab vp t f tab')
  from detach_leaf_close [OF detach(2,1)] have "close_pane tab vp t = Some (False, tab')" by simp
  from close_pane_ok [OF detach(2) this] show ?case by simp
next
  case (substitute tab vp a sub c f)
  from substitute_ok [OF substitute(6,1-4)] substitute(5) show ?case by (simp add: tab_ok_def)
next
  case (resize tab vp dir step b tab')
  then show ?case using resize_shape reshaped_tab_ok by blast
next
  case (seam tab vp a c pos b tab')
  then show ?case using set_seam_pos_shape reshaped_tab_ok by blast
next
  case (focus tab vp dir f)
  then show ?case using navigate_leaf by (auto simp: tab_ok_def)
next
  case (split tab vp t dir new tab')
  from split_at_tab_ok [OF split(3,2,1)] show ?case by (rule conjunct1)
next
  case (move tab vp mover t dir tab')
  from move_leaf_Inr [OF move(2,1)] show ?case by (rule conjunct1)
next
  case (graft tab vp a dir sub tab')
  from graft_subtree_Inr [OF graft(5,2-4,1)] show ?case by (rule conjunct1)
qed

interpretation tree: transition_system tree_step tab_ok
  by unfold_locales (rule tree_step_ok)

section \<open>Concrete tabs\<close>

definition screen :: Rect where
  "screen = \<lparr>rx = 0, ry = 0, rrows = 24, rcols = 80\<rparr>"

definition single_tab :: Tab where
  "single_tab = \<lparr>tab_id = 1, tab_root = Leaf 1, tab_focus = 1, tab_name = None\<rparr>"

definition pair_tab :: Tab where
  "pair_tab = \<lparr>tab_id = 1, tab_root = Branch Horizontal [(half, Leaf 1), (half, Leaf 2)],
     tab_focus = 2, tab_name = None\<rparr>"

lemma single_tab_ok: "tab_ok single_tab" by (simp add: tab_ok_def single_tab_def)

lemma pair_tab_ok: "tab_ok pair_tab" by (simp add: tab_ok_def pair_tab_def)

lemma split_single: "split_directional single_tab screen DRight 2 = (Inr (), pair_tab)"
  by code_simp

section \<open>Properties\<close>

text \<open>
  Splitting a pane with a fresh id: on success the new pane stands immediately before the
  target (left, up) or immediately after it (right, down) in the order of the leaves, every pane of
  the new layout has the minimum size, and the tab is sound; on failure the tab is unchanged and
  the error says which of the two refusals it was.
\<close>

theorem split_at_spec:
  assumes "tab_ok tab" "new \<notin> set (leaves (tab_root tab))"
  shows "case split_at tab vp t dir new of
      (Inr _, tab') \<Rightarrow> tab_ok tab' \<and> tab_focus tab' = tab_focus tab \<and>
         (\<exists>xs ys. leaves (tab_root tab) = xs @ t # ys \<and>
            leaves (tab_root tab') = xs @ (if dir = DLeft \<or> dir = DUp then [new, t] else [t, new]) @ ys) \<and>
         (\<forall>p\<in>set (layout (tab_root tab') vp). MIN_ROWS \<le> rrows (snd p) \<and> MIN_COLS \<le> rcols (snd p))
    | (Inl e, tab') \<Rightarrow> tab' = tab \<and>
         (e = FocusNotFound t \<and> t \<notin> set (leaves (tab_root tab)) \<or>
          e = SplitTooSmall MIN_ROWS MIN_COLS \<and> t \<in> set (leaves (tab_root tab)))"
proof (cases "split_at tab vp t dir new")
  case (Pair r tab')
  show ?thesis
  proof (cases r)
    case (Inl e)
    with Pair show ?thesis using split_at_Inl [of tab vp t dir new e tab'] by simp
  next
    case (Inr u)
    note s = Pair [unfolded Inr]
    have d: "snd (dir_axis dir) = (dir = DLeft \<or> dir = DUp)" by (cases dir) (auto simp: dir_axis_def)
    have "\<exists>xs ys. leaves (tab_root tab) = xs @ t # ys \<and>
        leaves (tab_root tab') = xs @ (if dir = DLeft \<or> dir = DUp then [new, t] else [t, new]) @ ys"
      using split_at_tab_ok [OF assms s] unfolding d spliced_def append_Cons append_Nil by blast
    with split_at_tab_ok [OF assms s] split_at_Inr [OF s] show ?thesis
      by (simp add: s any_below_min_iff) blast
  qed
qed

theorem split_at_spec_witness:
  "fst (split_at single_tab screen 1 DLeft 2) = Inr () \<and>
   leaves (tab_root (snd (split_at single_tab screen 1 DLeft 2))) = [2, 1]"
proof -
  have "fst (split_at single_tab screen 1 DLeft 2) = Inr ()" by code_simp
  with split_at_spec [OF single_tab_ok, where new = 2 and vp = screen and t = 1 and dir = DLeft] show ?thesis
    by (auto simp: single_tab_def Cons_eq_append_conv split: prod.splits)
qed

text \<open>
  C4. Closing a pane of a sound tab never reaches the \<open>unreachable!\<close> branch. It reports the
  last-pane signal exactly when the tab is that one pane, and then changes nothing; otherwise the
  leaves are those of the tab without the closed pane, in the same order, the invariant holds, and
  the focus moves only if the closed pane had it.
\<close>

theorem close_pane_spec:
  assumes "tab_ok tab"
  shows "\<exists>was_last tab'. close_pane tab vp t = Some (was_last, tab') \<and>
     (was_last \<longleftrightarrow> tab_root tab = Leaf t) \<and> (was_last \<longrightarrow> tab' = tab) \<and>
     (\<not> was_last \<longrightarrow> tab_ok tab' \<and> leaves (tab_root tab') = removeAll t (leaves (tab_root tab)) \<and>
        (tab_focus tab \<noteq> t \<longrightarrow> tab_focus tab' = tab_focus tab))"
proof -
  obtain w tab' where c: "close_pane tab vp t = Some (w, tab')" using close_pane_total by fast
  have w: "w \<longleftrightarrow> tab_root tab = Leaf t"
    using c by (auto simp: close_pane_def Let_def split: if_splits option.splits)
  from close_pane_ok [OF assms c] c w show ?thesis by (cases w) auto
qed

theorem close_pane_spec_witness:
  "\<exists>tab'. close_pane pair_tab screen 2 = Some (False, tab') \<and> leaves (tab_root tab') = [1] \<and> tab_ok tab'"
  using close_pane_spec [OF pair_tab_ok, of screen 2] by (auto simp: pair_tab_def)

text \<open>
  C2. Closing a freshly split pane restores the tree: the same branches and panes in the same
  places, up to the ratios.
\<close>

theorem close_undoes_split:
  assumes ok: "tab_ok tab" and fresh: "new \<notin> set (leaves (tab_root tab))"
    and s: "split_directional tab vp dir new = (Inr (), tab1)"
  shows "\<exists>tab2. close_pane tab1 vp' new = Some (False, tab2) \<and>
     same_shape (tab_root tab2) (tab_root tab) \<and> tab_ok tab2"
proof -
  from split_directional_Inr [OF s] obtain t1 where
    t1: "split_at tab vp (tab_focus tab) dir new = (Inr (), t1)" "tab1 = t1\<lparr>tab_focus := new\<rparr>" by blast
  from split_at_Inr [OF t1(1)] t1(2) obtain ax b where
    n: "split_node (tab_root tab) (tab_focus tab) ax b new = Some (tab_root tab1)" by auto
  have wf: "wf_node None (tab_root tab)" using ok by (simp add: tab_ok_def)
  from split_remove [OF n fresh wf] obtain m where
    m: "remove_leaf (tab_root tab1) new = Some (Some m)" "same_shape m (tab_root tab)" by blast
  then have wfm: "wf_node None m" using same_shape_keeps wf by blast
  have ok1: "tab_ok tab1" using tree_step_ok [OF split_focus [OF s fresh] ok] .
  from close_pane_total obtain w tab2 where c: "close_pane tab1 vp' new = Some (w, tab2)" by fast
  have "tab_root tab1 \<noteq> Leaf new" using m(1) by auto
  then have "\<not> w \<and> tab_root tab2 = normalize_node m"
    using c m(1) by (auto simp: close_pane_def Let_def split: if_splits option.splits)
  moreover have "same_shape (normalize_node m) (tab_root tab)"
    using same_shape_trans [OF normalize_same_shape [OF wfm] m(2)] .
  ultimately show ?thesis using c close_pane_ok [OF ok1 c] by auto
qed

theorem close_undoes_split_witness:
  "\<exists>tab2. close_pane pair_tab screen 2 = Some (False, tab2) \<and> same_shape (tab_root tab2) (Leaf 1)"
  using close_undoes_split [OF single_tab_ok _ split_single, of screen] by (auto simp: single_tab_def)

text \<open>
  Moving a pane onto another: on success the panes are the same, the mover has the focus and
  stands right beside the target on the requested side, every pane has the minimum size and the
  arrangement has really changed; on any error the tab is unchanged.
\<close>

theorem move_leaf_spec:
  assumes "tab_ok tab"
  shows "case move_leaf tab vp mover target dir of
      (Inr _, tab') \<Rightarrow> tab_ok tab' \<and> tab_focus tab' = mover \<and>
         mset (leaves (tab_root tab')) = mset (leaves (tab_root tab)) \<and>
         spliced (removeAll mover (leaves (tab_root tab))) target (dir = DLeft \<or> dir = DUp) [mover]
           (leaves (tab_root tab')) \<and>
         \<not> same_shape (tab_root tab') (tab_root tab) \<and> \<not> any_below_min (tab_root tab') vp
    | (Inl e, tab') \<Rightarrow> tab' = tab"
proof -
  have d: "snd (dir_axis dir) = (dir = DLeft \<or> dir = DUp)" by (cases dir) (auto simp: dir_axis_def)
  show ?thesis
  proof (cases "move_leaf tab vp mover target dir")
    case (Pair r tab')
    then show ?thesis
      using move_leaf_Inl [of tab vp mover target dir _ tab'] move_leaf_Inr [OF assms, of vp mover target dir _ tab']
      by (cases r) (auto simp: d)
  qed
qed

theorem move_leaf_spec_witness:
  "fst (move_leaf pair_tab screen 2 1 DLeft) = Inr () \<and>
   tab_ok (snd (move_leaf pair_tab screen 2 1 DLeft)) \<and>
   leaves (tab_root (snd (move_leaf pair_tab screen 2 1 DLeft))) = [2, 1]"
proof -
  have "fst (move_leaf pair_tab screen 2 1 DLeft) = Inr ()" by code_simp
  with move_leaf_spec [OF pair_tab_ok, where vp = screen and mover = 2 and target = 1 and dir = DLeft] show ?thesis
    by (auto simp: pair_tab_def spliced_def Cons_eq_append_conv split: prod.splits)
qed

text \<open>
  C6. Detaching a pane is closing it: same resulting tab, with \<open>TabEmptied\<close> where closing reports
  the last pane and \<open>PaneGone\<close> where the pane is absent; it never panics on a sound tab, and the
  focus it reports is the focus of the tab it leaves.
\<close>

theorem detach_leaf_spec:
  assumes "tab_ok tab"
  shows "\<exists>r tab'. detach_leaf tab vp t = Some (r, tab') \<and> (case r of
      Inl e \<Rightarrow> e = PaneGone \<and> t \<notin> set (leaves (tab_root tab)) \<and> close_pane tab vp t = Some (False, tab')
    | Inr TabEmptied \<Rightarrow> close_pane tab vp t = Some (True, tab')
    | Inr (Detached f) \<Rightarrow> t \<in> set (leaves (tab_root tab)) \<and> close_pane tab vp t = Some (False, tab')
        \<and> f = tab_focus tab')"
  using detach_leaf_total [OF assms] detach_leaf_close [OF assms] by fast

theorem detach_leaf_spec_witness:
  "\<exists>r tab'. detach_leaf pair_tab screen 2 = Some (r, tab') \<and> r = Inr (Detached 1) \<and>
     close_pane pair_tab screen 2 = Some (False, tab')"
proof -
  have "map_option fst (detach_leaf pair_tab screen 2) = Some (Inr (Detached 1))" by code_simp
  with detach_leaf_spec [OF pair_tab_ok, of screen 2] show ?thesis by (auto split: prod.splits)
qed

text \<open>
  Grafting a subtree with fresh, distinct panes (any axes, at least one pane per branch) beside
  an anchor: on success its leaves stand next to the anchor on the requested side in their own
  order, the result is normalized and every pane has the minimum size; on error nothing changes.
\<close>

theorem graft_subtree_spec:
  assumes "tab_ok tab" "populated sub" "distinct (leaves sub)"
    and "set (leaves (tab_root tab)) \<inter> set (leaves sub) = {}"
  shows "case graft_subtree tab vp a dir sub of
      (Inr _, tab') \<Rightarrow> tab_ok tab' \<and> tab_focus tab' = tab_focus tab \<and> \<not> any_below_min (tab_root tab') vp \<and>
         spliced (leaves (tab_root tab)) a (dir = DLeft \<or> dir = DUp) (leaves sub) (leaves (tab_root tab'))
    | (Inl e, tab') \<Rightarrow> tab' = tab"
proof -
  have d: "snd (dir_axis dir) = (dir = DLeft \<or> dir = DUp)" by (cases dir) (auto simp: dir_axis_def)
  show ?thesis
  proof (cases "graft_subtree tab vp a dir sub")
    case (Pair r tab')
    then show ?thesis
      using graft_subtree_Inl [of tab vp a dir sub _ tab'] graft_subtree_Inr [OF assms, of vp a dir _ tab']
      by (cases r) (auto simp: d)
  qed
qed

lemma stack_ratios:
  "f32_mul half half = Fin (1 / 4)" "f32_sum [Fin (1 / 4), Fin (1 / 4), half] = Fin 1"
  "f32_sum [half, half] = Fin 1" "f32_div half (Fin 1) = half"
  "f32_round (1 / 4) = Fin (1 / 4)" "fp_lt (Fin 0) (Fin 1)"
  "child_len 22 (Fin (1 / 4)) = 5"
  by code_simp+

lemma stack_graft:
  "graft_subtree single_tab screen 1 DUp (Branch Vertical [(half, Leaf 3), (half, Leaf 4)]) =
     (Inr (), single_tab\<lparr>tab_root := Branch Vertical
        [(Fin (1 / 4), Leaf 3), (Fin (1 / 4), Leaf 4), (half, Leaf 1)]\<rparr>)"
  by (simp add: graft_subtree_def single_tab_def dir_axis_def renormalize_def splice_child_def
      stack_ratios any_below_min_def layout_def child_areas_def axis_len_def place_child_def
      screen_def sat_sub_def below_min_def MIN_ROWS_def MIN_COLS_def)

theorem graft_subtree_spec_witness:
  "tab_ok (single_tab\<lparr>tab_root := Branch Vertical
     [(Fin (1 / 4), Leaf 3), (Fin (1 / 4), Leaf 4), (half, Leaf 1)]\<rparr>)"
  using graft_subtree_spec [OF single_tab_ok,
    where sub = "Branch Vertical [(half, Leaf 3), (half, Leaf 4)]" and vp = screen and a = 1 and dir = DUp]
  unfolding stack_graft by (simp add: single_tab_def)

text \<open>
  The two resizes never panic, whatever the tab, the viewport, the step and the position: each
  returns a tab that differs from the given one in the ratios only, and in nothing at all when it
  reports no change.
\<close>

theorem resize_spec:
  "(\<exists>changed n'. resize tab vp dir step = Some (changed, tab\<lparr>tab_root := n'\<rparr>) \<and>
     same_shape n' (tab_root tab) \<and> (changed \<or> n' = tab_root tab)) \<and>
   (\<exists>changed n'. set_seam_pos tab vp a b pos = Some (changed, tab\<lparr>tab_root := n'\<rparr>) \<and>
     same_shape n' (tab_root tab) \<and> (changed \<or> n' = tab_root tab))"
proof -
  obtain c1 t1 where r: "resize tab vp dir step = Some (c1, t1)" using resize_total by fast
  obtain c2 t2 where s: "set_seam_pos tab vp a b pos = Some (c2, t2)" using set_seam_pos_total by fast
  from resize_shape [OF r] obtain n1 where "t1 = tab\<lparr>tab_root := n1\<rparr>" "same_shape n1 (tab_root tab)"
    "c1 \<or> n1 = tab_root tab" by blast
  moreover from set_seam_pos_shape [OF s] obtain n2 where "t2 = tab\<lparr>tab_root := n2\<rparr>"
    "same_shape n2 (tab_root tab)" "c2 \<or> n2 = tab_root tab" by blast
  ultimately show ?thesis
    using r s by (intro conjI exI [of _ c1] exI [of _ n1] exI [of _ c2] exI [of _ n2]) simp_all
qed


text \<open>
  C1. Any sequence of operations leads from a sound tab to a sound tab: no two sibling branches of
  one axis nest, no branch has fewer than two children, no pane occurs twice, and the focus is a
  live pane.
\<close>

theorem tree_run_ok:
  "tree_step\<^sup>*\<^sup>* tab tab' \<Longrightarrow> tab_ok tab \<Longrightarrow> tab_ok tab'"
  by (rule tree.run_good)

theorem tree_run_ok_witness: "tree_step\<^sup>*\<^sup>* single_tab pair_tab \<and> tab_ok pair_tab"
proof -
  have "tree_step single_tab pair_tab"
    by (rule tree_step.split_focus [OF split_single]) (simp add: single_tab_def)
  then have r: "tree_step\<^sup>*\<^sup>* single_tab pair_tab" by simp
  with tree_run_ok [OF r single_tab_ok] show ?thesis by simp
qed

end
