(* ===== verification/Pane_Geometry.thy ===== *)
theory Pane_Geometry
  imports Pane_Steps
begin

text \<open>
  What the tiling of \<open>crates/fno/src/tree.rs\<close> promises: the children of a branch tile its area along
  the axis with one divider cell between neighbours, panes never overlap and never leave the
  viewport, and directional navigation picks the nearest pane on the requested side. The bound on
  the ratios takes the rounding of the \<open>f32\<close> product into account; the last section shows that a
  resize clamped to the minimum ratio may still lose a cell to that rounding.
\<close>

section \<open>Extents\<close>

definition extent :: "Axis \<Rightarrow> Rect \<Rightarrow> nat \<times> nat" where
  "extent axis r = (unat (rect_start axis r), unat (axis_len axis r))"

text \<open>Consecutive spans from \<open>s\<close> to \<open>e\<close>, one cell apart.\<close>

fun tiled :: "nat \<Rightarrow> (nat \<times> nat) list \<Rightarrow> nat \<Rightarrow> bool" where
  "tiled s [] e = False"
| "tiled s [(a, l)] e = (a = s \<and> a + l = e)"
| "tiled s ((a, l) # p # ps) e = (a = s \<and> tiled (a + l + 1) (p # ps) e)"

fun cross :: "Axis \<Rightarrow> Axis" where
  "cross Horizontal = Vertical"
| "cross Vertical = Horizontal"

text \<open>
  The ratios that the layout reads (every child but the last) are finite, not negative, and leave
  the last child at least one part in \<open>2 ^ 24\<close>, the rounding error of an \<open>f32\<close> product.
\<close>

definition ratio_of :: "fp \<times> Node \<Rightarrow> rat" where
  "ratio_of c = (case fst c of Fin q \<Rightarrow> q | _ \<Rightarrow> 0)"

definition fits :: "children \<Rightarrow> bool" where
  "fits cs \<longleftrightarrow> length cs \<le> 65536 \<and> (\<forall>c\<in>set (butlast cs). fst c = Fin (ratio_of c) \<and> 0 \<le> ratio_of c) \<and>
     sum_list (map ratio_of (butlast cs)) \<le> 1 - 1 / 2 ^ 24"

definition cells :: "Rect \<Rightarrow> (nat \<times> nat) set" where
  "cells r = {(x, y). unat (rx r) \<le> x \<and> x < unat (rx r) + unat (rcols r) \<and>
                      unat (ry r) \<le> y \<and> y < unat (ry r) + unat (rrows r)}"

definition on_screen :: "Rect \<Rightarrow> bool" where
  "on_screen r \<longleftrightarrow> unat (rx r) + unat (rcols r) < 65536 \<and> unat (ry r) + unat (rrows r) < 65536"

fun all_fit :: "Node \<Rightarrow> bool" and all_fit_children :: "children \<Rightarrow> bool" where
  "all_fit (Leaf i) = True"
| "all_fit (Branch a cs) = (fits cs \<and> all_fit_children cs)"
| "all_fit_children [] = True"
| "all_fit_children ((r, c) # cs) = (all_fit c \<and> all_fit_children cs)"

section \<open>One branch\<close>

lemma child_len_bound:
  assumes "0 \<le> q" "q \<le> 1"
  shows "rat_of_nat (unat (child_len av (Fin q))) \<le> rat_of_nat (unat av) * q * (1 + 1 / 2 ^ 24)"
proof -
  have b: "rat_of_nat (unat av) < 2 ^ 23"
    using unat_u16_bound [of av] by (simp add: of_nat_less_iff [symmetric, where 'a = rat] del: of_nat_less_iff)
  have "rat_of_nat (unat av) * q \<le> rat_of_nat (unat av)" by (rule mult_left_le [OF assms(2) of_nat_0_le_iff])
  with b have x: "0 \<le> rat_of_nat (unat av) * q" "rat_of_nat (unat av) * q < 2 ^ 23"
    by (intro mult_nonneg_nonneg of_nat_0_le_iff assms(1), linarith)
  obtain r where r: "f32_round (rat_of_nat (unat av) * q) = Fin r" "0 \<le> r"
    "rat_of_int \<lfloor>r\<rfloor> \<le> rat_of_nat (unat av) * q * (1 + 1 / 2 ^ 24)"
    using f32_floor_bound [OF x] by blast
  have f: "child_len av (Fin q) = word_of_nat (min 65535 (nat \<lfloor>r\<rfloor>))"
    using r by (simp add: child_len_def f32_of_u16_def fp_to_u16_def)
  have "unat (child_len av (Fin q)) \<le> nat \<lfloor>r\<rfloor>" unfolding f by (simp add: u16_unat)
  then have "rat_of_nat (unat (child_len av (Fin q))) \<le> rat_of_int \<lfloor>r\<rfloor>"
    using r(2) by (metis of_int_le_iff of_int_of_nat_eq zle_int int_nat_eq zero_le_floor)
  with r(3) show ?thesis by linarith
qed

fun lens_total :: "u16 \<Rightarrow> fp list \<Rightarrow> nat" where
  "lens_total av [] = 0"
| "lens_total av [r] = 0"
| "lens_total av (r # r' # rs) = unat (child_len av r) + lens_total av (r' # rs)"

lemma lens_total_bound:
  assumes "\<forall>c\<in>set (butlast cs). fst c = Fin (ratio_of c) \<and> 0 \<le> ratio_of c"
    and "sum_list (map ratio_of (butlast cs)) \<le> 1"
  shows "rat_of_nat (lens_total av (map fst cs)) \<le>
    rat_of_nat (unat av) * (1 + 1 / 2 ^ 24) * sum_list (map ratio_of (butlast cs))"
  using assms
proof (induction cs rule: induct_list012)
  case (3 c c' cs)
  let ?k = "rat_of_nat (unat av) * (1 + 1 / 2 ^ 24)"
  have pos: "0 \<le> sum_list (map ratio_of (butlast (c' # cs)))"
    using "3.prems"(1) by (intro sum_list_nonneg) auto
  have c: "fst c = Fin (ratio_of c)" "0 \<le> ratio_of c" "ratio_of c \<le> 1"
    using "3.prems" pos by auto
  have "rat_of_nat (unat (child_len av (fst c))) \<le> ?k * ratio_of c"
    using child_len_bound [OF c(2,3), of av] c(1) by (simp add: algebra_simps)
  moreover have "rat_of_nat (lens_total av (map fst (c' # cs))) \<le>
      ?k * sum_list (map ratio_of (butlast (c' # cs)))"
    using "3.IH"(2) "3.prems" c by auto
  ultimately show ?case by (simp add: distrib_left)
qed simp_all

lemma fits_lens:
  assumes "fits cs" shows "lens_total av (map fst cs) \<le> unat av"
proof -
  let ?s = "sum_list (map ratio_of (butlast cs))"
  have f: "\<forall>c\<in>set (butlast cs). fst c = Fin (ratio_of c) \<and> 0 \<le> ratio_of c" "?s \<le> 1 - 1 / 2 ^ 24"
    using assms by (auto simp: fits_def)
  then have "?s \<le> 1" by simp
  from lens_total_bound [OF f(1) this, of av]
  have "rat_of_nat (lens_total av (map fst cs)) \<le> rat_of_nat (unat av) * ((1 + 1 / 2 ^ 24) * ?s)"
    by (simp add: mult.assoc)
  also have "\<dots> \<le> rat_of_nat (unat av) * 1"
  proof (rule mult_left_mono)
    have "(1 + 1 / 2 ^ 24) * ?s \<le> (1 + 1 / 2 ^ 24) * (1 - 1 / 2 ^ 24)"
      using f(2) by (rule mult_left_mono) simp
    then show "(1 + 1 / 2 ^ 24) * ?s \<le> 1" by simp
  qed (rule of_nat_0_le_iff)
  finally show ?thesis by (simp only: mult_1_right of_nat_le_iff)
qed

lemma extent_place_child:
  "unat (rect_start axis area) + unat offset < 65536 \<Longrightarrow>
   extent axis (place_child axis area offset len) = (unat (rect_start axis area) + unat offset, unat len)"
  by (cases axis) (simp_all add: extent_def place_child_def rect_start_def axis_len_def u16_unat)

lemma child_areas_loop_tiled:
  assumes "rs \<noteq> []" "unat used + lens_total av rs \<le> unat av"
    and "unat (rect_start axis area) + unat offset + (unat av - unat used) + (length rs - 1) < 65536"
  shows "tiled (unat (rect_start axis area) + unat offset)
     (map (extent axis) (child_areas_loop axis area av offset used rs))
     (unat (rect_start axis area) + unat offset + (unat av - unat used) + (length rs - 1))"
  using assms
proof (induction axis area av offset used rs rule: child_areas_loop.induct)
  case (2 axis area av offset used r)
  then show ?case by (simp add: extent_place_child u16_unat)
next
  case (3 axis area av offset used r r' rs)
  let ?l = "child_len av r"
  have off: "unat (offset + ?l + 1) = unat offset + unat ?l + 1"
  proof -
    have a: "unat (offset + ?l) = unat offset + unat ?l" using "3.prems" by (intro unat_add_no_wrap) simp
    show ?thesis using "3.prems" a by (subst unat_add_no_wrap) simp_all
  qed
  have us: "unat (used + ?l) = unat used + unat ?l"
    using "3.prems" unat_u16_bound [of av] by (intro unat_add_no_wrap) simp
  obtain y ys where y: "child_areas_loop axis area av (offset + ?l + 1) (used + ?l) (r' # rs) = y # ys"
    by (metis length_child_areas_loop length_Suc_conv length_Cons)
  let ?s = "unat (rect_start axis area) + unat offset"
  have "tiled (unat (rect_start axis area) + unat (offset + ?l + 1))
     (map (extent axis) (child_areas_loop axis area av (offset + ?l + 1) (used + ?l) (r' # rs)))
     (unat (rect_start axis area) + unat (offset + ?l + 1) + (unat av - unat (used + ?l)) + (length (r' # rs) - 1))"
    using "3.prems" by (intro "3.IH") (simp_all add: off us)
  moreover have "unat (rect_start axis area) + unat (offset + ?l + 1) = ?s + unat ?l + 1" by (simp add: off)
  moreover have "unat (rect_start axis area) + unat (offset + ?l + 1) + (unat av - unat (used + ?l)) +
      (length (r' # rs) - 1) = ?s + (unat av - unat used) + (length (r # r' # rs) - 1)"
    using "3.prems"(2) by (simp add: off us)
  ultimately have "tiled (?s + unat ?l + 1) (map (extent axis) (y # ys))
      (?s + (unat av - unat used) + (length (r # r' # rs) - 1))" by (simp only: y)
  moreover have "?s < 65536" using "3.prems"(3) by simp
  ultimately show ?case by (simp add: Let_def extent_place_child y)
qed simp

lemma cross_place_child:
  "rect_start (cross axis) (place_child axis area offset len) = rect_start (cross axis) area"
  "axis_len (cross axis) (place_child axis area offset len) = axis_len (cross axis) area"
  by (cases axis; simp add: place_child_def rect_start_def axis_len_def)+

lemma child_areas_loop_placed:
  "r \<in> set (child_areas_loop axis area av offset used rs) \<Longrightarrow> \<exists>off len. r = place_child axis area off len"
  by (induction axis area av offset used rs rule: child_areas_loop.induct) (auto simp: Let_def)

lemma child_areas_cross:
  "r \<in> set (child_areas axis area cs) \<Longrightarrow> extent (cross axis) r = extent (cross axis) area"
  by (auto simp: child_areas_def Let_def extent_def cross_place_child split: if_splits
      dest!: child_areas_loop_placed)

lemma child_areas_tiled:
  assumes "cs \<noteq> []" "fits cs" "length cs - 1 \<le> unat (axis_len axis area)"
    and "unat (rect_start axis area) + unat (axis_len axis area) < 65536"
  shows "tiled (unat (rect_start axis area)) (map (extent axis) (child_areas axis area cs))
     (unat (rect_start axis area) + unat (axis_len axis area))"
proof -
  define av where "av = sat_sub (axis_len axis area) (word_of_nat (length cs - 1))"
  have "length cs - 1 < 65536" using assms(2) by (auto simp: fits_def)
  then have av: "unat av = unat (axis_len axis area) - (length cs - 1)"
    by (simp only: av_def unat_sat_sub unat_word_of_nat_u16)
  have "tiled (unat (rect_start axis area) + unat (0::u16))
     (map (extent axis) (child_areas_loop axis area av 0 0 (map fst cs)))
     (unat (rect_start axis area) + unat (0::u16) + (unat av - unat (0::u16)) + (length (map fst cs) - 1))"
    using assms fits_lens [OF assms(2), of av] by (intro child_areas_loop_tiled) (simp_all add: av)
  then show ?thesis using assms by (simp add: child_areas_def Let_def av) (simp add: av_def)
qed

section \<open>Disjoint panes\<close>

lemma tiled_le: "tiled s ps e \<Longrightarrow> s \<le> e"
  by (induction s ps e rule: tiled.induct) auto

lemma tiled_within: "tiled s ps e \<Longrightarrow> p \<in> set ps \<Longrightarrow> s \<le> fst p \<and> fst p + snd p \<le> e"
proof (induction s ps e rule: tiled.induct)
  case (3 s a l q ps e)
  from "3.prems"(1) have t: "a = s" "tiled (a + l + 1) (q # ps) e" by auto
  show ?case
  proof (cases "p = (a, l)")
    case True
    then show ?thesis using t tiled_le [OF t(2)] by simp
  next
    case False
    then have "a + l + 1 \<le> fst p \<and> fst p + snd p \<le> e" using "3.prems" by (intro "3.IH" t(2)) simp
    then show ?thesis using t by simp
  qed
qed auto

lemma tiled_apart: "tiled s ps e \<Longrightarrow> sorted_wrt (\<lambda>p q. fst p + snd p < fst q) ps"
proof (induction s ps e rule: tiled.induct)
  case (3 s a l p ps e)
  then have "\<forall>q\<in>set (p # ps). a + l < fst q" using tiled_within [of "a + l + 1" "p # ps" e] by fastforce
  moreover have "sorted_wrt (\<lambda>p q. fst p + snd p < fst q) (p # ps)"
    using "3.prems" by (intro "3.IH") auto
  ultimately show ?case by simp
qed simp_all

definition in_extent :: "nat \<Rightarrow> nat \<times> nat \<Rightarrow> bool" where
  "in_extent x p \<longleftrightarrow> fst p \<le> x \<and> x < fst p + snd p"

lemma cells_extents: "cells r = {(x, y). in_extent x (extent Horizontal r) \<and> in_extent y (extent Vertical r)}"
  by (auto simp: cells_def in_extent_def extent_def rect_start_def axis_len_def)

lemma mem_cells: "(x, y) \<in> cells r \<longleftrightarrow>
   in_extent (if axis = Horizontal then x else y) (extent axis r) \<and>
   in_extent (if axis = Horizontal then y else x) (extent (cross axis) r)"
  by (cases axis) (auto simp: cells_extents)

lemma on_screen_extents:
  "on_screen r \<longleftrightarrow> fst (extent axis r) + snd (extent axis r) < 65536 \<and>
     fst (extent (cross axis) r) + snd (extent (cross axis) r) < 65536"
  by (cases axis) (auto simp: on_screen_def extent_def rect_start_def axis_len_def)

lemma child_len_zero: "child_len 0 (Fin q) = 0"
  by (simp add: child_len_def f32_of_u16_def f32_round_def fround_def fp_to_u16_def)

lemma child_areas_loop_zero:
  assumes "\<forall>r\<in>set (butlast rs). \<exists>q. r = Fin q" "a \<in> set (child_areas_loop axis area 0 off 0 rs)"
  shows "axis_len axis a = 0"
  using assms
proof (induction rs arbitrary: off rule: induct_list012)
  case (3 r r' rs)
  then show ?case
    by (cases axis) (auto simp: Let_def child_len_zero place_child_def axis_len_def)
qed (cases axis; simp add: place_child_def axis_len_def sat_sub_def)+

lemma child_areas_zero:
  assumes "fits cs" "unat (axis_len axis area) < length cs - 1" "a \<in> set (child_areas axis area cs)"
  shows "axis_len axis a = 0"
proof -
  have "length cs - 1 < 65536" "\<forall>r\<in>set (butlast (map fst cs)). \<exists>q. r = Fin q"
    using assms(1) by (auto simp: fits_def map_butlast [symmetric])
  then have "sat_sub (axis_len axis area) (word_of_nat (length cs - 1)) = 0"
    using assms(2) by (simp only: unat_eq_0 [symmetric] unat_sat_sub unat_word_of_nat_u16)
  with assms(3) \<open>\<forall>r\<in>set (butlast (map fst cs)). \<exists>q. r = Fin q\<close> show ?thesis
    by (auto simp: child_areas_def Let_def intro: child_areas_loop_zero split: if_splits)
qed

lemma child_areas_inside:
  assumes "fits cs" "on_screen area"
  shows "(\<forall>a\<in>set (child_areas axis area cs). cells a \<subseteq> cells area \<and> on_screen a) \<and>
    sorted_wrt (\<lambda>a b. cells a \<inter> cells b = {}) (child_areas axis area cs)"
proof (cases "cs = [] \<or> unat (axis_len axis area) < length cs - 1")
  case True
  have z: "snd (extent axis a) = 0" if "a \<in> set (child_areas axis area cs)" for a
    using True that child_areas_zero [OF assms(1), of axis area a]
    by (auto simp: extent_def child_areas_def)
  then have e: "cells a = {}" if "a \<in> set (child_areas axis area cs)" for a
    using that by (auto simp: mem_cells [where axis = axis] in_extent_def)
  have "on_screen a" if "a \<in> set (child_areas axis area cs)" for a
    using z [OF that] child_areas_cross [OF that] assms(2) unat_u16_bound
    by (simp add: on_screen_extents [where axis = axis] extent_def)
  with e show ?thesis by (auto simp: sorted_wrt_iff_nth_less)
next
  case False
  then have t: "tiled (fst (extent axis area)) (map (extent axis) (child_areas axis area cs))
      (fst (extent axis area) + snd (extent axis area))"
    using assms child_areas_tiled [of cs axis area]
    by (simp add: on_screen_extents [where axis = axis] extent_def)
  have w: "fst (extent axis area) \<le> fst (extent axis a) \<and>
      fst (extent axis a) + snd (extent axis a) \<le> fst (extent axis area) + snd (extent axis area)"
    if "a \<in> set (child_areas axis area cs)" for a using tiled_within [OF t] that by auto
  have "cells a \<subseteq> cells area \<and> on_screen a" if "a \<in> set (child_areas axis area cs)" for a
    using w [OF that] child_areas_cross [OF that] assms(2)
    by (auto simp: mem_cells [where axis = axis] in_extent_def on_screen_extents [where axis = axis])
  moreover have "sorted_wrt (\<lambda>a b. cells a \<inter> cells b = {}) (child_areas axis area cs)"
    using tiled_apart [OF t] unfolding sorted_wrt_map
    by (rule sorted_wrt_mono_rel [rotated]) (auto simp: mem_cells [where axis = axis] in_extent_def)
  ultimately show ?thesis by blast
qed

lemma layout_into_disjoint:
  "all_fit n \<Longrightarrow> on_screen area \<Longrightarrow> (\<forall>p\<in>set (layout_into n area). cells (snd p) \<subseteq> cells area) \<and>
     sorted_wrt (\<lambda>p q. cells (snd p) \<inter> cells (snd q) = {}) (layout_into n area)"
  and layout_children_disjoint:
  "all_fit_children cs \<Longrightarrow> \<forall>a\<in>set as. on_screen a \<Longrightarrow> sorted_wrt (\<lambda>a b. cells a \<inter> cells b = {}) as \<Longrightarrow>
     (\<forall>p\<in>set (layout_children cs as). \<exists>a\<in>set as. cells (snd p) \<subseteq> cells a) \<and>
     sorted_wrt (\<lambda>p q. cells (snd p) \<inter> cells (snd q) = {}) (layout_children cs as)"
proof (induction n area and cs as rule: layout_into_layout_children.induct)
  case (2 axis cs area)
  have f: "fits cs" "all_fit_children cs" using "2.prems" by simp_all
  note ins = child_areas_inside [OF f(1) "2.prems"(2), of axis]
  have "\<forall>a\<in>set (child_areas axis area cs). on_screen a" using ins by blast
  from "2.IH" [OF f(2) this] ins show ?case by (simp; blast)
next
  case (3 r c cs a as)
  have c: "\<forall>p\<in>set (layout_into c a). cells (snd p) \<subseteq> cells a"
    "sorted_wrt (\<lambda>p q. cells (snd p) \<inter> cells (snd q) = {}) (layout_into c a)"
    using "3.IH"(1) "3.prems" by simp_all
  have r: "\<forall>p\<in>set (layout_children cs as). \<exists>b\<in>set as. cells (snd p) \<subseteq> cells b"
    "sorted_wrt (\<lambda>p q. cells (snd p) \<inter> cells (snd q) = {}) (layout_children cs as)"
    using "3.IH"(2) "3.prems" by simp_all
  have "cells (snd p) \<inter> cells (snd q) = {}"
    if p: "p \<in> set (layout_into c a)" and q: "q \<in> set (layout_children cs as)" for p q
  proof -
    obtain b where b: "b \<in> set as" "cells (snd q) \<subseteq> cells b" using r(1) q by blast
    then have "cells a \<inter> cells b = {}" using "3.prems"(3) by simp
    with b c(1) p show ?thesis by blast
  qed
  with c r show ?case by (auto simp: sorted_wrt_append)
qed auto

section \<open>Properties\<close>

text \<open>
  One branch: its children's areas follow one another along the axis from the area's start to
  its very end with exactly one divider cell between neighbours, and each spans the whole area
  across. No cell is lost to rounding and none is given twice.
\<close>

theorem child_areas_tile:
  assumes "cs \<noteq> []" "fits cs" "length cs - 1 \<le> unat (axis_len axis area)" "on_screen area"
  shows "tiled (fst (extent axis area)) (map (extent axis) (child_areas axis area cs))
      (fst (extent axis area) + snd (extent axis area)) \<and>
    (\<forall>r\<in>set (child_areas axis area cs). extent (cross axis) r = extent (cross axis) area)"
  using child_areas_tiled [OF assms(1-3)] child_areas_cross assms(4)
  by (simp add: extent_def on_screen_extents [where axis = axis])

theorem child_areas_tile_witness:
  "tiled 0 (map (extent Horizontal) (child_areas Horizontal screen [(half, Leaf 1), (half, Leaf 2)])) 80"
  using child_areas_tile [of "[(half, Leaf 1), (half, Leaf 2)]" Horizontal screen]
  by (simp add: fits_def ratio_of_def half_def axis_len_def screen_def on_screen_def extent_def rect_start_def)

text \<open>
  C4. The whole tree: no two panes of a layout share a cell, and every pane lies within the
  viewport, however deep the tree and however small the viewport.
\<close>

theorem layout_disjoint:
  assumes "all_fit n" "on_screen viewport"
  shows "(\<forall>p\<in>set (layout n viewport). cells (snd p) \<subseteq> cells viewport) \<and>
    (\<forall>i j. i < j \<longrightarrow> j < length (layout n viewport) \<longrightarrow>
       cells (snd (layout n viewport ! i)) \<inter> cells (snd (layout n viewport ! j)) = {})"
  using layout_into_disjoint [OF assms] by (auto simp: layout_def sorted_wrt_iff_nth_less)

theorem layout_disjoint_witness:
  "cells (snd (layout (tab_root pair_tab) screen ! 0)) \<inter> cells (snd (layout (tab_root pair_tab) screen ! 1)) = {}"
proof -
  have "all_fit (tab_root pair_tab)" "on_screen screen"
    by (simp_all add: fits_def ratio_of_def half_def screen_def on_screen_def pair_tab_def)
  moreover have "1 < length (layout (tab_root pair_tab) screen)" by code_simp
  ultimately show ?thesis using layout_disjoint [of "tab_root pair_tab" screen] by simp
qed

text \<open>The shared edge of a pane with the one navigated from, in cells.\<close>

definition facing :: "Dir \<Rightarrow> Rect \<Rightarrow> Rect \<Rightarrow> u16" where
  "facing dir from r =
     (if dir = DLeft \<or> dir = DRight then range_overlap_amount (ry r) (rrows r) (ry from) (rrows from)
      else range_overlap_amount (rx r) (rcols r) (rx from) (rcols from))"

lemma direction_key_facing:
  "\<exists>c. direction_key dir from (k, i, r) = (unat (edge_distance from r dir), - int (unat (facing dir from r)), c, k)"
  by (simp add: direction_key_def facing_def Let_def)

lemma key_order:
  "(a :: nat, - int b, c :: nat, d :: nat) \<le> (a', - int b', c', d') \<Longrightarrow> a < a' \<or> a = a' \<and> b' \<le> b"
  by (auto simp: less_eq_prod_def less_prod_def)

lemma direction_key_le:
  assumes "direction_key dir from (k, i, r) \<le> direction_key dir from (k', j, s)"
  shows "edge_distance from r dir < edge_distance from s dir \<or>
     edge_distance from r dir = edge_distance from s dir \<and> facing dir from s \<le> facing dir from r"
proof -
  obtain c c' where "direction_key dir from (k, i, r) =
      (unat (edge_distance from r dir), - int (unat (facing dir from r)), c, k)"
    and "direction_key dir from (k', j, s) =
      (unat (edge_distance from s dir), - int (unat (facing dir from s)), c', k')"
    using direction_key_facing by meson
  with key_order assms show ?thesis
    unfolding word_less_nat_alt word_le_nat_alt word_unat_eq_iff by metis
qed

lemma find_in_direction_Some:
  assumes "find_in_direction panes from ex dir = Some i"
  shows "\<exists>r. (i, r) \<in> set panes \<and> Some i \<noteq> ex \<and> beyond dir from r \<and>
    (\<forall>p\<in>set panes. Some (fst p) \<noteq> ex \<and> beyond dir from (snd p) \<longrightarrow>
       edge_distance from r dir < edge_distance from (snd p) dir \<or>
       edge_distance from r dir = edge_distance from (snd p) dir \<and> facing dir from (snd p) \<le> facing dir from r)"
proof -
  let ?c = "filter (\<lambda>(index, i, r). Some i \<noteq> ex \<and> beyond dir from r) (zip [0..<length panes] panes)"
  from assms obtain k r where m: "min_by_key (direction_key dir from) ?c = Some (k, i, r)"
    by (auto simp: find_in_direction_def)
  from min_by_key_in [OF m] have in_c: "(k, i, r) \<in> set (zip [0..<length panes] panes)"
    "Some i \<noteq> ex" "beyond dir from r" by auto
  have "edge_distance from r dir < edge_distance from (snd p) dir \<or>
      edge_distance from r dir = edge_distance from (snd p) dir \<and> facing dir from (snd p) \<le> facing dir from r"
    if p: "p \<in> set panes" "Some (fst p) \<noteq> ex" "beyond dir from (snd p)" for p
  proof -
    from p(1) obtain k' where "k' < length panes" "panes ! k' = p" by (auto simp: in_set_conv_nth)
    then have "(k', fst p, snd p) \<in> set ?c" using p by (force simp: set_zip)
    from direction_key_le [OF min_by_key_least [OF m this]] show ?thesis .
  qed
  moreover have "(i, r) \<in> set panes" using in_c(1) by (rule set_zip_rightD)
  ultimately show ?thesis using in_c(2,3) by (intro exI [of _ r]) simp
qed

lemma find_in_direction_None:
  assumes "find_in_direction panes from ex dir = None" "p \<in> set panes" "Some (fst p) \<noteq> ex"
  shows "\<not> beyond dir from (snd p)"
proof
  assume b: "beyond dir from (snd p)"
  from assms(2) obtain k where "k < length panes" "panes ! k = p" by (auto simp: in_set_conv_nth)
  then have "(k, fst p, snd p) \<in> set (zip [0..<length panes] panes)" by (force simp: set_zip)
  with assms b show False by (auto simp: find_in_direction_def filter_empty_conv)
qed

text \<open>
  C5. Navigation from a pane goes to another pane that lies beyond it in the requested direction
  and shares rows (or columns) with it; no such pane is nearer, and among the equally near none
  shares a longer edge. It answers nothing exactly when the pane is absent or no pane lies there.
\<close>

theorem navigate_spec:
  "case navigate n vp f dir of
     None \<Rightarrow> f \<notin> set (leaves n) \<or>
       (\<exists>from. rect_of (layout n vp) f = Some from \<and>
          (\<forall>p\<in>set (layout n vp). fst p \<noteq> f \<longrightarrow> \<not> beyond dir from (snd p)))
   | Some i \<Rightarrow> (\<exists>from r. rect_of (layout n vp) f = Some from \<and> (i, r) \<in> set (layout n vp) \<and> i \<noteq> f \<and>
       beyond dir from r \<and>
       (\<forall>p\<in>set (layout n vp). fst p \<noteq> f \<and> beyond dir from (snd p) \<longrightarrow>
          edge_distance from r dir < edge_distance from (snd p) dir \<or>
          edge_distance from r dir = edge_distance from (snd p) dir \<and>
          facing dir from (snd p) \<le> facing dir from r))"
proof (cases "rect_of (layout n vp) f")
  case None
  moreover from None have "f \<notin> set (leaves n)" by (simp add: rect_of_None_iff fst_set_layout)
  ultimately show ?thesis by (simp add: navigate_def)
next
  case (Some src)
  show ?thesis
  proof (cases "find_in_direction (layout n vp) src (Some f) dir")
    case None
    with Some find_in_direction_None [OF None] show ?thesis by (simp add: navigate_def)
  next
    case (Some i)
    with \<open>rect_of (layout n vp) f = Some src\<close> find_in_direction_Some [OF Some] show ?thesis
      by (simp add: navigate_def)
  qed
qed

theorem navigate_spec_witness:
  "navigate (tab_root pair_tab) screen 1 DRight = Some 2 \<and>
   (\<exists>from r. rect_of (layout (tab_root pair_tab) screen) 1 = Some from \<and>
      (2, r) \<in> set (layout (tab_root pair_tab) screen) \<and> beyond DRight from r)"
proof -
  have n: "navigate (tab_root pair_tab) screen 1 DRight = Some 2" by code_simp
  from navigate_spec [where n = "tab_root pair_tab" and vp = screen and f = 1 and dir = DRight] show ?thesis
    unfolding n by auto
qed

text \<open>
  C12. The clamp of a seam move does not keep the minimum size. Two even panes on a screen of 42
  columns, 20 and 21 columns wide; the operator drags the seam to the left edge. The clamp allows
  the minimum ratio \<open>8 / 41\<close>, which as an \<open>f32\<close> lies below \<open>8 / 41\<close>, and the floor of the layout
  turns it into 7 columns, one below the minimum the engine documents.
\<close>

definition narrow_screen :: Rect where
  "narrow_screen = \<lparr>rx = 0, ry = 0, rrows = 24, rcols = 42\<rparr>"

theorem seam_below_minimum:
  "\<not> any_below_min (tab_root pair_tab) narrow_screen \<and>
   (case set_seam_pos pair_tab narrow_screen 1 2 0 of
      Some (changed, tab') \<Rightarrow> changed \<and> any_below_min (tab_root tab') narrow_screen \<and>
        map (\<lambda>p. unat (rcols (snd p))) (layout (tab_root tab') narrow_screen) = [7, 34]
    | None \<Rightarrow> False)"
  by code_simp

text \<open>
  C14. A seam move does not conserve the ratio sum exactly: on a screen of 21 columns, dragging the
  seam of two even panes to column 8 leaves ratios that sum to one plus one part in \<open>2 ^ 25\<close>.
\<close>

theorem seam_sum_drift:
  "map_option (\<lambda>r. case tab_root (snd r) of Branch _ cs \<Rightarrow> sum_list (map ratio_of cs) | Leaf _ \<Rightarrow> 1)
     (set_seam_pos pair_tab (narrow_screen\<lparr>rcols := 21\<rparr>) 1 2 8) = Some (1 + 1 / 2 ^ 25)"
  by code_simp

end
