(* ===== verification/Pane_Refinement.thy ===== *)
theory Pane_Refinement
  imports Pane_Steps
begin

text \<open>
  What a tab promises, without its tree: a strip of panes in reading order, one of them focused. The
  strip's steps say what each command may do to the order and the focus and nothing about sizes; the
  steps of the split tree implement them.
\<close>

section \<open>Simulations\<close>

text \<open>A component that implements another: what it does is, seen through \<open>abs\<close>, a step of the other or nothing.\<close>

locale simulation = transition_system step good
  for step :: "'c \<Rightarrow> 'c \<Rightarrow> bool" and good :: "'c \<Rightarrow> bool" +
  fixes astep :: "'a \<Rightarrow> 'a \<Rightarrow> bool" and abs :: "'c \<Rightarrow> 'a"
  assumes simulates: "step c d \<Longrightarrow> good c \<Longrightarrow> astep\<^sup>*\<^sup>* (abs c) (abs d)"
begin

lemma run_simulates: "step\<^sup>*\<^sup>* c d \<Longrightarrow> good c \<Longrightarrow> astep\<^sup>*\<^sup>* (abs c) (abs d)"
proof (induction rule: rtranclp_induct)
  case (step d e)
  then have "good d" using run_good by blast
  with step show ?case using simulates [of d e] by (meson rtranclp_trans)
qed simp

end

section \<open>Strips\<close>

record strip =
  panes :: "PaneId list"
  focused :: PaneId

definition strip_of :: "Tab \<Rightarrow> strip" where
  "strip_of tab = \<lparr>panes = leaves (tab_root tab), focused = tab_focus tab\<rparr>"

text \<open>
  Panes are put in beside a pane that is there; a pane goes while another remains, and the focus
  moves only if it was on it; a pane moves beside another and takes the focus; a pane gives way to
  others; the focus goes to a pane that is there.
\<close>

inductive strip_step :: "strip \<Rightarrow> strip \<Rightarrow> bool" where
  put: "spliced ps t before ins qs \<Longrightarrow> ins \<noteq> [] \<Longrightarrow> distinct qs \<Longrightarrow>
    strip_step \<lparr>panes = ps, focused = f\<rparr> \<lparr>panes = qs, focused = f\<rparr>"
| drop: "t \<in> set ps \<Longrightarrow> qs = removeAll t ps \<Longrightarrow> g \<in> set qs \<Longrightarrow> (f \<noteq> t \<longrightarrow> g = f) \<Longrightarrow>
    strip_step \<lparr>panes = ps, focused = f\<rparr> \<lparr>panes = qs, focused = g\<rparr>"
| shift: "m \<in> set ps \<Longrightarrow> spliced (removeAll m ps) t before [m] qs \<Longrightarrow>
    strip_step \<lparr>panes = ps, focused = f\<rparr> \<lparr>panes = qs, focused = m\<rparr>"
| give_way: "substituted ps t ins qs \<Longrightarrow> ins \<noteq> [] \<Longrightarrow> distinct qs \<Longrightarrow> g \<in> set qs \<Longrightarrow>
    strip_step \<lparr>panes = ps, focused = f\<rparr> \<lparr>panes = qs, focused = g\<rparr>"
| look_at: "g \<in> set ps \<Longrightarrow> strip_step \<lparr>panes = ps, focused = f\<rparr> \<lparr>panes = ps, focused = g\<rparr>"

definition strip_ok :: "strip \<Rightarrow> bool" where
  "strip_ok s \<longleftrightarrow> distinct (panes s) \<and> focused s \<in> set (panes s)"

lemma strip_step_ok: "strip_step s s' \<Longrightarrow> strip_ok s \<Longrightarrow> strip_ok s'"
proof (induction rule: strip_step.induct)
  case (shift m ps t before qs f)
  then have "distinct qs" using spliced_distinct [OF shift(2)] by (simp add: strip_ok_def distinct_removeAll)
  then show ?case using spliced_set [OF shift(2)] by (simp add: strip_ok_def)
qed (auto simp: strip_ok_def distinct_removeAll dest: spliced_set)

interpretation strip: transition_system strip_step strip_ok
  by unfold_locales (rule strip_step_ok)

section \<open>The tree implements the strip\<close>

lemma same_shape_strip: "same_shape n (tab_root tab) \<Longrightarrow> strip_of (tab\<lparr>tab_root := n\<rparr>) = strip_of tab"
  using same_shape_keeps [of n "tab_root tab"] by (simp add: strip_of_def)

lemma close_simulates:
  assumes "tab_ok tab" "close_pane tab vp t = Some (False, tab')"
  shows "strip_step\<^sup>*\<^sup>* (strip_of tab) (strip_of tab')"
proof -
  note c = close_pane_ok [OF assms, simplified]
  show ?thesis
  proof (cases "t \<in> set (leaves (tab_root tab))")
    case True
    have "strip_step (strip_of tab) (strip_of tab')"
      unfolding strip_of_def by (rule strip_step.drop [OF True]) (use c in \<open>auto simp: tab_ok_def\<close>)
    then show ?thesis ..
  next
    case False
    then have "tab_focus tab' = tab_focus tab" "leaves (tab_root tab') = leaves (tab_root tab)"
      using c assms(1) by (auto simp: tab_ok_def removeAll_id)
    then show ?thesis by (simp add: strip_of_def)
  qed
qed

lemma split_simulates:
  assumes "tab_ok tab" "new \<notin> set (leaves (tab_root tab))" "split_at tab vp t dir new = (Inr (), tab')"
  shows "strip_step (strip_of tab) (strip_of tab')"
proof -
  have f: "tab_focus tab' = tab_focus tab" using split_at_Inr [OF assms(3)] by blast
  show ?thesis
    unfolding strip_of_def f
    by (rule strip_step.put) (use split_at_tab_ok [OF assms] in \<open>auto simp: tab_ok_def\<close>)
qed

lemma tree_simulates: "tree_step tab tab' \<Longrightarrow> tab_ok tab \<Longrightarrow> strip_step\<^sup>*\<^sup>* (strip_of tab) (strip_of tab')"
proof (induction rule: tree_step.induct)
  case (split tab vp t dir new tab')
  then show ?case using split_simulates by blast
next
  case (split_focus tab vp dir new tab')
  then obtain t1 where t1: "split_at tab vp (tab_focus tab) dir new = (Inr (), t1)" "tab' = t1\<lparr>tab_focus := new\<rparr>"
    using split_directional_Inr by blast
  have "new \<in> set (leaves (tab_root t1))" using split_at_tab_ok [OF split_focus(3,2) t1(1)] by (auto dest: spliced_set)
  then have "strip_step (strip_of t1) (strip_of tab')" by (simp add: strip_of_def t1(2) strip_step.look_at)
  with split_simulates [OF split_focus(3,2) t1(1)] show ?case by (meson rtranclp.rtrancl_into_rtrancl r_into_rtranclp)
next
  case (replace tab old new tab')
  have ok: "tab_ok tab'" by (rule tree_step_ok [OF tree_step.replace [OF replace(1,2)] replace(3)])
  show ?case
    unfolding strip_of_def
    by (rule r_into_rtranclp, rule strip_step.give_way [of _ old "[new]"])
      (use replace_leaf_Some [OF replace(3) replace_leaf_present [OF replace(1)] replace(2)] replace(1) ok in
        \<open>auto simp: tab_ok_def\<close>)
next
  case (move tab vp mover t dir tab')
  have "mover \<in> set (leaves (tab_root tab'))" "set (leaves (tab_root tab')) = set (leaves (tab_root tab))"
    using move_leaf_Inr [OF move(2,1)] by (auto simp: tab_ok_def dest: mset_eq_setD)
  then have "strip_step (strip_of tab) (strip_of tab')"
    unfolding strip_of_def using move_leaf_Inr [OF move(2,1)] by (auto intro: strip_step.shift)
  then show ?case ..
next
  case (close tab vp t tab')
  then show ?case using close_simulates by blast
next
  case (detach tab vp t f tab')
  then show ?case using detach_leaf_close [OF detach(2,1)] close_simulates by auto
next
  case (graft tab vp a dir sub tab')
  note g = graft_subtree_Inr [OF graft(5,2-4,1)]
  have "strip_step (strip_of tab) (strip_of tab')"
    unfolding strip_of_def conjunct1 [OF conjunct2 [OF g]]
    by (rule strip_step.put) (use g populated_leaves [OF graft(2)] in \<open>auto simp: tab_ok_def\<close>)
  then show ?case ..
next
  case (substitute tab vp a sub c f)
  have "strip_step (strip_of tab) (strip_of (tab\<lparr>tab_root := c, tab_focus := f\<rparr>))"
    unfolding strip_of_def
    by (rule strip_step.give_way) (use substitute_ok [OF substitute(6,1-4)] substitute(5) populated_leaves [OF substitute(2)] in auto)
  then show ?case ..
next
  case (resize tab vp dir step b tab')
  then show ?case using resize_shape same_shape_strip by (metis rtranclp.rtrancl_refl)
next
  case (seam tab vp a c pos b tab')
  then show ?case using set_seam_pos_shape same_shape_strip by (metis rtranclp.rtrancl_refl)
next
  case (focus tab vp dir f)
  then have "strip_step (strip_of tab) (strip_of (tab\<lparr>tab_focus := f\<rparr>))"
    unfolding strip_of_def using navigate_leaf by (auto intro: strip_step.look_at)
  then show ?case ..
qed

interpretation tree_strip: simulation tree_step tab_ok strip_step strip_of
  by unfold_locales (rule tree_simulates)



end
