(* ===== verification/Squad.thy ===== *)
theory Squad
  imports Pane_Steps
begin

text \<open>
  The container model of \<open>crates/fno/src/squad.rs\<close>: a session holds squads (workspaces), a squad
  holds tabs, a tab holds a pane tree. Strings are byte lists, as Rust's are; ids are natural
  numbers (the source's \<open>u64\<close> counters never come near wrapping). The git subprocess is a
  parameter. \<open>None\<close> stands for the panics of \<open>expect\<close> and of an index.
\<close>

section \<open>Data\<close>

record Squad =
  sq_id :: nat
  sq_origins :: "string list"
  sq_name :: "string option"
  sq_key :: string
  sq_tabs :: "Tab list"
  sq_active_tab :: nat

record TabDictEntry =
  td_ordinal :: nat
  td_tab_id :: TabId
  td_name :: "string option"

datatype TabSel = SelActive | SelIndex nat | SelId TabId | SelName string | SelNew

datatype SelError =
    OrdinalZero | NoOrdinal nat | NoTabId TabId | AmbiguousName string | NoName string | SelectNew

record Session =
  ss_squads :: "Squad list"
  ss_active_squad :: "nat option"
  ss_next_tab_id :: TabId

datatype RemoveOutcome = TabRemoved | SquadRemoved | SessionEmpty

datatype MoveTabOutcome = Moved | MovedSquadRemoved | Refused string

section \<open>One squad\<close>

definition canonical_cwd :: "Squad \<Rightarrow> string" where
  "canonical_cwd q = (case sq_origins q of [] \<Rightarrow> [] | o1 # _ \<Rightarrow> o1)"

definition owns_origin :: "string \<Rightarrow> string \<Rightarrow> bool" where
  "owns_origin path o1 =
     (path = o1 \<or> (case strip_prefix path o1 of Some (c # r) \<Rightarrow> c = CHR ''/'' | _ \<Rightarrow> False))"

definition owning_origin_len :: "Squad \<Rightarrow> string \<Rightarrow> nat option" where
  "owning_origin_len q path =
     (case map length (filter (owns_origin path) (sq_origins q)) of
        [] \<Rightarrow> None
      | l # ls \<Rightarrow> Some (foldl max l ls))"

definition owns_path :: "Squad \<Rightarrow> string \<Rightarrow> bool" where
  "owns_path q path = (owning_origin_len q path \<noteq> None)"

definition tab_dict :: "Squad \<Rightarrow> nat \<Rightarrow> TabDictEntry option" where
  "tab_dict q idx =
     (if idx < length (sq_tabs q)
      then Some \<lparr>td_ordinal = idx + 1, td_tab_id = tab_id (sq_tabs q ! idx),
                 td_name = tab_name (sq_tabs q ! idx)\<rparr>
      else None)"

definition resolve_tab :: "Squad \<Rightarrow> TabSel \<Rightarrow> SelError + nat" where
  "resolve_tab q sel =
     (case sel of
        SelActive \<Rightarrow> Inr (min (sq_active_tab q) (length (sq_tabs q) - 1))
      | SelIndex n \<Rightarrow>
          if n = 0 then Inl OrdinalZero
          else if n \<le> length (sq_tabs q) then Inr (n - 1)
          else Inl (NoOrdinal n)
      | SelId i \<Rightarrow>
          (case position (\<lambda>t. tab_id t = i) (sq_tabs q) of
             Some k \<Rightarrow> Inr k | None \<Rightarrow> Inl (NoTabId i))
      | SelName n \<Rightarrow>
          (case filter (\<lambda>(k, t). tab_name t = Some n) (zip [0..<length (sq_tabs q)] (sq_tabs q)) of
             [] \<Rightarrow> Inl (NoName n)
           | [(k, t)] \<Rightarrow> Inr k
           | _ \<Rightarrow> Inl (AmbiguousName n))
      | SelNew \<Rightarrow> Inl SelectNew)"

definition tab_label :: "Squad \<Rightarrow> nat \<Rightarrow> string" where
  "tab_label q idx =
     (if idx < length (sq_tabs q)
      then (case tab_name (sq_tabs q ! idx) of
              Some n \<Rightarrow> n
            | None \<Rightarrow> CHR 0xC2 # CHR 0xB7 # decimal (idx + 1))
      else ''-'')"

section \<open>The session\<close>

definition mint_tab_id :: "Session \<Rightarrow> TabId \<times> Session" where
  "mint_tab_id s =
     (let n = ss_next_tab_id s + 1 in (n, s\<lparr>ss_next_tab_id := n\<rparr>))"

fun find_tab_in :: "Squad list \<Rightarrow> TabId \<Rightarrow> (nat \<times> nat) option" where
  "find_tab_in [] tid = None"
| "find_tab_in (q # qs) tid =
     (case position (\<lambda>t. tab_id t = tid) (sq_tabs q) of
        Some idx \<Rightarrow> Some (sq_id q, idx)
      | None \<Rightarrow> find_tab_in qs tid)"

definition find_tab :: "Session \<Rightarrow> TabId \<Rightarrow> (nat \<times> nat) option" where
  "find_tab s tid = find_tab_in (ss_squads s) tid"

definition squad :: "Session \<Rightarrow> nat \<Rightarrow> Squad option" where
  "squad s i = List.find (\<lambda>q. sq_id q = i) (ss_squads s)"

text \<open>\<open>squad_mut\<close> hands out the first squad with the id: the update \<open>f\<close> is what the caller does to it.\<close>

fun update_first :: "nat \<Rightarrow> (Squad \<Rightarrow> Squad) \<Rightarrow> Squad list \<Rightarrow> Squad list" where
  "update_first i f [] = []"
| "update_first i f (q # qs) = (if sq_id q = i then f q # qs else q # update_first i f qs)"

definition squad_mut :: "Session \<Rightarrow> nat \<Rightarrow> (Squad \<Rightarrow> Squad) \<Rightarrow> Session" where
  "squad_mut s i f = s\<lparr>ss_squads := update_first i f (ss_squads s)\<rparr>"

type_synonym rank = "(nat \<times> bool) \<times> nat"

definition best_squad :: "string \<Rightarrow> rank option \<Rightarrow> Squad \<Rightarrow> rank option" where
  "best_squad cwd best q =
     (case owning_origin_len q cwd of
        None \<Rightarrow> best
      | Some len \<Rightarrow>
          (let rank = (len, sq_name q \<noteq> None)
           in case best of
                None \<Rightarrow> Some (rank, sq_id q)
              | Some (best_rank, i) \<Rightarrow> if best_rank < rank then Some (rank, sq_id q) else best))"

definition find_by_cwd :: "Session \<Rightarrow> string \<Rightarrow> nat option" where
  "find_by_cwd s cwd =
     (if cwd = [] then None else map_option snd (foldl (best_squad cwd) None (ss_squads s)))"

definition add_squad :: "Session \<Rightarrow> nat \<Rightarrow> string list \<Rightarrow> string option \<Rightarrow> Tab \<Rightarrow> Session" where
  "add_squad s i origins name first_tab =
     s\<lparr>ss_next_tab_id := max (ss_next_tab_id s) (tab_id first_tab),
       ss_squads := ss_squads s @
         [\<lparr>sq_id = i, sq_origins = origins, sq_name = name, sq_key = [], sq_tabs = [first_tab],
           sq_active_tab = 0\<rparr>],
       ss_active_squad := Some i\<rparr>"

definition holds_pane :: "PaneId \<Rightarrow> Tab \<Rightarrow> bool" where
  "holds_pane pid t = (pid \<in> set (leaves (tab_root t)))"

fun find_pane_in :: "Squad list \<Rightarrow> PaneId \<Rightarrow> (nat \<times> nat) option" where
  "find_pane_in [] pid = None"
| "find_pane_in (q # qs) pid =
     (case position (holds_pane pid) (sq_tabs q) of
        Some ti \<Rightarrow> Some (sq_id q, ti)
      | None \<Rightarrow> find_pane_in qs pid)"

definition find_pane :: "Session \<Rightarrow> PaneId \<Rightarrow> (nat \<times> nat) option" where
  "find_pane s pid = find_pane_in (ss_squads s) pid"

text \<open>The re-clamp of the active tab that both removals share.\<close>

definition drop_tab :: "Squad \<Rightarrow> nat \<Rightarrow> Squad" where
  "drop_tab q tab_idx =
     (let ts = remove_nth tab_idx (sq_tabs q);
          a = sq_active_tab q
      in q\<lparr>sq_tabs := ts,
           sq_active_tab := (if ts = [] then a
                             else if a \<ge> length ts then length ts - 1
                             else if a > tab_idx then a - 1 else a)\<rparr>)"

definition remove_tab :: "Session \<Rightarrow> nat \<Rightarrow> nat \<Rightarrow> RemoveOutcome \<times> Session" where
  "remove_tab s squad_id tab_idx =
     (case position (\<lambda>q. sq_id q = squad_id) (ss_squads s) of
        None \<Rightarrow> (TabRemoved, s)
      | Some pos \<Rightarrow>
          (let q = ss_squads s ! pos in
           if tab_idx \<ge> length (sq_tabs q) then (TabRemoved, s)
           else let q' = drop_tab q tab_idx in
           if sq_tabs q' \<noteq> [] then (TabRemoved, s\<lparr>ss_squads := (ss_squads s)[pos := q']\<rparr>)
           else let rest = remove_nth pos (ss_squads s) in
           if rest = [] then (SessionEmpty, s\<lparr>ss_squads := [], ss_active_squad := None\<rparr>)
           else (SquadRemoved,
                 s\<lparr>ss_squads := rest,
                   ss_active_squad := (if ss_active_squad s = Some squad_id then Some (sq_id (hd rest))
                                       else ss_active_squad s)\<rparr>)))"

definition move_tab :: "Session \<Rightarrow> TabId \<Rightarrow> nat \<Rightarrow> (MoveTabOutcome \<times> Session) option" where
  "move_tab s tid dst =
     (case find_tab s tid of
        None \<Rightarrow> Some (Refused ''no such tab'', s)
      | Some (src_id, tab_idx) \<Rightarrow>
      if squad s dst = None then Some (Refused ''no such workspace'', s)
      else if src_id = dst then Some (Refused ''already there'', s)
      else case position (\<lambda>q. sq_id q = src_id) (ss_squads s) of
        None \<Rightarrow> None
      | Some src_pos \<Rightarrow>
          (let src = ss_squads s ! src_pos in
           if tab_idx \<ge> length (sq_tabs src) then None
           else let moved = sq_tabs src ! tab_idx;
                    detached = s\<lparr>ss_squads := (ss_squads s)[src_pos := drop_tab src tab_idx]\<rparr>;
                    s' = squad_mut detached dst (\<lambda>q. q\<lparr>sq_tabs := sq_tabs q @ [moved]\<rparr>)
           in if sq_tabs (ss_squads s' ! src_pos) = []
              then let rest = remove_nth src_pos (ss_squads s') in
                if ss_active_squad s' = Some src_id
                then (case rest of
                        [] \<Rightarrow> None
                      | q # _ \<Rightarrow> Some (MovedSquadRemoved,
                                   s'\<lparr>ss_squads := rest, ss_active_squad := Some (sq_id q)\<rparr>))
                else Some (MovedSquadRemoved, s'\<lparr>ss_squads := rest\<rparr>)
              else Some (Moved, s')))"

section \<open>Display names\<close>

definition trim_slashes :: "string \<Rightarrow> string" where
  "trim_slashes p = rev (dropWhile (\<lambda>c. c = CHR ''/'') (rev p))"

text \<open>\<open>rsplit('/').next()\<close>: what follows the last slash; \<open>rfind\<close>: the part before it, if any.\<close>

definition last_segment :: "string \<Rightarrow> string" where
  "last_segment p = rev (takeWhile (\<lambda>c. c \<noteq> CHR ''/'') (rev p))"

definition before_last_slash :: "string \<Rightarrow> string option" where
  "before_last_slash p =
     (case dropWhile (\<lambda>c. c \<noteq> CHR ''/'') (rev p) of [] \<Rightarrow> None | _ # r \<Rightarrow> Some (rev r))"

definition base_name :: "string \<Rightarrow> string" where
  "base_name p = last_segment (trim_slashes p)"

definition parent_seg :: "string \<Rightarrow> string option" where
  "parent_seg p =
     (case before_last_slash (trim_slashes p) of
        None \<Rightarrow> None
      | Some parent \<Rightarrow> let seg = last_segment parent in if seg = [] then None else Some seg)"

definition display_name :: "string list \<Rightarrow> string list \<Rightarrow> nat \<Rightarrow> string" where
  "display_name cwds names i =
     (let name = names ! i;
          dup = (\<exists>j < length names. j \<noteq> i \<and> names ! j = name)
      in case (dup, parent_seg (cwds ! i)) of
           (True, Some parent) \<Rightarrow> parent @ ''/'' @ name
         | _ \<Rightarrow> name)"

definition display_names :: "string list \<Rightarrow> string list" where
  "display_names canonical_cwds =
     (let names = map base_name canonical_cwds
      in map (display_name canonical_cwds names) [0..<length names])"

section \<open>Canonical roots\<close>

definition root_from_common_dir :: "string \<Rightarrow> string" where
  "root_from_common_dir common_dir =
     (let trimmed = trim_slashes common_dir
      in case before_last_slash trimmed of
           Some parent \<Rightarrow>
             if last_segment trimmed = ''.git'' then (if parent \<noteq> [] then parent else ''/'') else trimmed
         | None \<Rightarrow> trimmed)"

text \<open>
  \<open>is_dir\<close> and \<open>common_dir\<close> (the git run within its deadline, \<open>None\<close> on any failure) are the
  outside world.
\<close>

definition canonical_root :: "(string \<Rightarrow> bool) \<Rightarrow> (string \<Rightarrow> string option) \<Rightarrow> string \<Rightarrow> string option" where
  "canonical_root is_dir common_dir cwd =
     (if \<not> is_dir cwd then None else map_option root_from_common_dir (common_dir cwd))"

definition resolve_key :: "(string \<Rightarrow> bool) \<Rightarrow> (string \<Rightarrow> string option) \<Rightarrow> string \<Rightarrow> string" where
  "resolve_key is_dir common_dir cwd =
     (case canonical_root is_dir common_dir cwd of Some r \<Rightarrow> r | None \<Rightarrow> cwd)"

record Resolver =
  rs_cache :: "string \<rightharpoonup> string"

definition cached :: "Resolver \<Rightarrow> string \<Rightarrow> string option" where
  "cached r cwd = rs_cache r cwd"

definition resolver_insert :: "Resolver \<Rightarrow> string \<Rightarrow> string \<Rightarrow> Resolver" where
  "resolver_insert r cwd key = r\<lparr>rs_cache := (rs_cache r)(cwd \<mapsto> key)\<rparr>"

definition resolve ::
  "(string \<Rightarrow> bool) \<Rightarrow> (string \<Rightarrow> string option) \<Rightarrow> Resolver \<Rightarrow> string \<Rightarrow> string \<times> Resolver" where
  "resolve is_dir common_dir r cwd =
     (case cached r cwd of
        Some hit \<Rightarrow> (hit, r)
      | None \<Rightarrow> let key = resolve_key is_dir common_dir cwd in (key, resolver_insert r cwd key))"

end
