(* ===== verification/Squad_Session.thy ===== *)
theory Squad_Session
  imports Squad
begin

text \<open>
  The invariant of a session and its preservation by every operation of
  \<open>crates/fno/src/squad.rs\<close> that changes it, with the behaviour of each operation.
\<close>

section \<open>The invariant\<close>

definition tabs_of :: "Squad list \<Rightarrow> Tab list" where
  "tabs_of qs = concat (map sq_tabs qs)"

abbreviation all_tabs :: "Session \<Rightarrow> Tab list" where
  "all_tabs s \<equiv> tabs_of (ss_squads s)"

abbreviation panes :: "Tab \<Rightarrow> PaneId list" where
  "panes t \<equiv> leaves (tab_root t)"

definition squad_ok :: "Squad \<Rightarrow> bool" where
  "squad_ok q \<longleftrightarrow> sq_active_tab q < length (sq_tabs q)"

definition tabs_ok :: "TabId \<Rightarrow> Tab list \<Rightarrow> bool" where
  "tabs_ok n ts \<longleftrightarrow> distinct (map tab_id ts) \<and> distinct (concat (map panes ts)) \<and>
     (\<forall>t\<in>set ts. tab_ok t \<and> tab_id t \<le> n)"

definition session_ok :: "Session \<Rightarrow> bool" where
  "session_ok s \<longleftrightarrow> distinct (map sq_id (ss_squads s)) \<and> (\<forall>q\<in>set (ss_squads s). squad_ok q) \<and>
     tabs_ok (ss_next_tab_id s) (all_tabs s) \<and>
     (case ss_active_squad s of None \<Rightarrow> ss_squads s = [] | Some a \<Rightarrow> a \<in> sq_id ` set (ss_squads s))"

inductive session_step :: "Session \<Rightarrow> Session \<Rightarrow> bool" where
  new_squad: "mint_tab_id s = (tid, s1) \<Longrightarrow> i \<notin> sq_id ` set (ss_squads s) \<Longrightarrow> tab_ok t \<Longrightarrow>
    tab_id t = tid \<Longrightarrow> set (panes t) \<inter> \<Union> (set ` panes ` set (all_tabs s)) = {} \<Longrightarrow>
    session_step s (add_squad s1 i origins name t)"
| new_tab: "mint_tab_id s = (tid, s1) \<Longrightarrow> tab_ok t \<Longrightarrow> tab_id t = tid \<Longrightarrow>
    set (panes t) \<inter> \<Union> (set ` panes ` set (all_tabs s)) = {} \<Longrightarrow>
    session_step s (squad_mut s1 i (\<lambda>q. q\<lparr>sq_tabs := sq_tabs q @ [t]\<rparr>))"
| remove: "remove_tab s i k = (out, s') \<Longrightarrow> session_step s s'"
| move: "move_tab s tid dst = Some (out, s') \<Longrightarrow> session_step s s'"
| mint: "mint_tab_id s = (tid, s') \<Longrightarrow> session_step s s'"

section \<open>Lists of tabs up to order\<close>

lemma mset_concat_map: "mset (concat (map f xs)) = sum_mset (image_mset (\<lambda>x. mset (f x)) (mset xs))"
  by (induction xs) auto

lemma tabs_ok_perm:
  assumes "mset ts = mset us" shows "tabs_ok n ts = tabs_ok n us"
proof -
  have "distinct (map tab_id ts) = distinct (map tab_id us)"
    using assms by (intro mset_eq_imp_distinct_iff) simp
  moreover have "distinct (concat (map panes ts)) = distinct (concat (map panes us))"
    using assms by (intro mset_eq_imp_distinct_iff) (simp only: mset_concat_map)
  moreover have "set ts = set us" using assms by (rule mset_eq_setD)
  ultimately show ?thesis by (simp add: tabs_ok_def)
qed

lemma tabs_ok_append:
  "tabs_ok n (ts @ us) \<longleftrightarrow> tabs_ok n ts \<and> tabs_ok n us \<and> tab_id ` set ts \<inter> tab_id ` set us = {} \<and>
     \<Union> (set ` panes ` set ts) \<inter> \<Union> (set ` panes ` set us) = {}"
  by (auto simp: tabs_ok_def)

lemma tabs_ok_less:
  assumes "mset us = mset ts + m" "tabs_ok n us" shows "tabs_ok n ts"
proof -
  obtain vs where "m = mset vs" by (metis ex_mset)
  then have "mset us = mset (ts @ vs)" using assms(1) by simp
  with assms(2) show ?thesis using tabs_ok_perm tabs_ok_append by blast
qed

lemma tabs_ok_mono: "tabs_ok n ts \<Longrightarrow> n \<le> m \<Longrightarrow> tabs_ok m ts"
  by (force simp: tabs_ok_def)

lemma tabs_of_append [simp]: "tabs_of (xs @ ys) = tabs_of xs @ tabs_of ys"
  by (simp add: tabs_of_def)

lemma tabs_of_simps [simp]: "tabs_of [] = []" "tabs_of (q # qs) = sq_tabs q @ tabs_of qs"
  by (simp_all add: tabs_of_def)

lemma mset_tabs_of_update:
  "pos < length qs \<Longrightarrow> mset (tabs_of (qs[pos := q])) + mset (sq_tabs (qs ! pos)) = mset (tabs_of qs) + mset (sq_tabs q)"
  using arg_cong [OF id_take_nth_drop, of pos qs "\<lambda>x. mset (tabs_of x)"]
  by (simp add: upd_conv_take_nth_drop)

lemma mset_tabs_of_remove:
  "pos < length qs \<Longrightarrow> mset (tabs_of (remove_nth pos qs)) + mset (sq_tabs (qs ! pos)) = mset (tabs_of qs)"
  using arg_cong [OF id_take_nth_drop, of pos qs "\<lambda>x. mset (tabs_of x)"]
  by (simp add: remove_nth_def)

section \<open>Finding a squad\<close>

lemma position_id:
  assumes "distinct (map sq_id qs)" "pos < length qs" "sq_id (qs ! pos) = i"
  shows "position (\<lambda>q. sq_id q = i) qs = Some pos"
  using assms by (auto simp: position_Some_iff distinct_conv_nth)

lemma find_position: "List.find P xs = map_option ((!) xs) (position P xs)"
  by (induction xs) (auto simp: option.map_comp comp_def)

lemma squad_Some:
  assumes "distinct (map sq_id (ss_squads s))"
  shows "squad s i = Some q \<longleftrightarrow> q \<in> set (ss_squads s) \<and> sq_id q = i"
proof
  assume "squad s i = Some q"
  then show "q \<in> set (ss_squads s) \<and> sq_id q = i" by (auto simp: squad_def find_Some_iff)
next
  assume q: "q \<in> set (ss_squads s) \<and> sq_id q = i"
  then obtain pos where "pos < length (ss_squads s)" "ss_squads s ! pos = q" by (metis in_set_conv_nth)
  with position_id [OF assms this(1)] q show "squad s i = Some q" by (simp add: squad_def find_position)
qed

lemma squad_None_iff: "squad s i = None \<longleftrightarrow> i \<notin> sq_id ` set (ss_squads s)"
  by (auto simp: squad_def find_None_iff)

lemma update_first_ids [simp]: "(\<And>q. sq_id (f q) = sq_id q) \<Longrightarrow> map sq_id (update_first i f qs) = map sq_id qs"
  by (induction qs) auto

lemma update_first_nth:
  "distinct (map sq_id qs) \<Longrightarrow> pos < length qs \<Longrightarrow> sq_id (qs ! pos) = i \<Longrightarrow>
     update_first i f qs = qs[pos := f (qs ! pos)]"
proof (induction qs arbitrary: pos)
  case (Cons q qs)
  show ?case
  proof (cases pos)
    case (Suc k)
    with Cons.prems have "sq_id q \<noteq> i" by (metis distinct.simps(2) length_Cons list.simps(9) length_map
      nth_Cons_Suc nth_map nth_mem Suc_less_eq)
    with Suc Cons show ?thesis by simp
  qed (use Cons.prems in simp)
qed simp

lemma update_first_absent: "i \<notin> sq_id ` set qs \<Longrightarrow> update_first i f qs = qs"
  by (induction qs) auto

section \<open>Dropping a tab from a squad\<close>

lemma sq_id_drop_tab [simp]: "sq_id (drop_tab q k) = sq_id q"
  by (simp add: drop_tab_def Let_def)

lemma sq_tabs_drop_tab [simp]: "sq_tabs (drop_tab q k) = remove_nth k (sq_tabs q)"
  by (simp add: drop_tab_def Let_def)

lemma drop_tab_ok:
  "squad_ok q \<Longrightarrow> k < length (sq_tabs q) \<Longrightarrow> remove_nth k (sq_tabs q) \<noteq> [] \<Longrightarrow> squad_ok (drop_tab q k)"
  by (auto simp: squad_ok_def drop_tab_def Let_def length_remove_nth simp flip: length_greater_0_conv)

lemma nth_remove_nth: "k < length xs \<Longrightarrow> remove_nth k xs ! j = (if j < k then xs ! j else xs ! Suc j)"
  by (auto simp: remove_nth_def nth_append)

lemma drop_tab_keeps_active:
  assumes "squad_ok q" "k < length (sq_tabs q)" "k \<noteq> sq_active_tab q"
  shows "sq_tabs (drop_tab q k) ! sq_active_tab (drop_tab q k) = sq_tabs q ! sq_active_tab q"
proof -
  have "remove_nth k (sq_tabs q) \<noteq> []"
    using assms by (auto simp: squad_ok_def length_remove_nth simp flip: length_greater_0_conv)
  then have "sq_active_tab (drop_tab q k) = (if k < sq_active_tab q then sq_active_tab q - 1 else sq_active_tab q)"
    using assms by (auto simp: drop_tab_def Let_def length_remove_nth squad_ok_def)
  with assms show ?thesis by (auto simp: nth_remove_nth)
qed

lemma drop_tab_active_gone:
  assumes "k < length (sq_tabs q)" "k = sq_active_tab q" "1 < length (sq_tabs q)"
  shows "sq_tabs (drop_tab q k) ! sq_active_tab (drop_tab q k) =
    (if Suc k < length (sq_tabs q) then sq_tabs q ! Suc k else sq_tabs q ! (k - 1))"
proof -
  have l: "length (remove_nth k (sq_tabs q)) = length (sq_tabs q) - 1" using assms by (simp add: length_remove_nth)
  then have "remove_nth k (sq_tabs q) \<noteq> []" using assms(3) by auto
  then have "sq_active_tab (drop_tab q k) = (if Suc k < length (sq_tabs q) then k else k - 1)"
    using assms l by (auto simp: drop_tab_def Let_def)
  with assms show ?thesis by (auto simp: nth_remove_nth)
qed

section \<open>The operations keep the invariant\<close>

lemma session_ok_mint: "mint_tab_id s = (tid, s') \<Longrightarrow> session_ok s \<Longrightarrow> session_ok s'"
  by (auto simp: mint_tab_id_def Let_def session_ok_def intro: tabs_ok_mono split: option.splits)

lemma minted_tab_ok:
  assumes "session_ok s" "mint_tab_id s = (tid, s1)" "tab_ok t" "tab_id t = tid"
    and "set (panes t) \<inter> \<Union> (set ` panes ` set (all_tabs s)) = {}"
  shows "tabs_ok (ss_next_tab_id s1) (all_tabs s @ [t])"
proof -
  have n: "tid = Suc (ss_next_tab_id s)" "ss_next_tab_id s1 = tid"
    using assms(2) by (auto simp: mint_tab_id_def Let_def)
  have ts: "tabs_ok (ss_next_tab_id s) (all_tabs s)" using assms(1) by (simp add: session_ok_def)
  then have "tid \<notin> tab_id ` set (all_tabs s)" by (auto simp: tabs_ok_def n(1))
  moreover have "tabs_ok tid [t]" using assms(3,4) by (auto simp: tabs_ok_def tab_ok_def)
  moreover have "tabs_ok tid (all_tabs s)" using ts by (rule tabs_ok_mono) (simp add: n)
  ultimately show ?thesis using assms(4,5) by (auto simp: tabs_ok_append n(2))
qed

lemma session_ok_add_squad:
  assumes "session_ok s" "mint_tab_id s = (tid, s1)" "i \<notin> sq_id ` set (ss_squads s)" "tab_ok t"
    "tab_id t = tid" "set (panes t) \<inter> \<Union> (set ` panes ` set (all_tabs s)) = {}"
  shows "session_ok (add_squad s1 i origins name t)"
proof -
  have s1: "ss_squads s1 = ss_squads s" "ss_next_tab_id s1 = tid"
    using assms(2) by (auto simp: mint_tab_id_def Let_def)
  from minted_tab_ok [OF assms(1,2,4-6)] assms(1,3,5) s1 show ?thesis
    by (auto simp: session_ok_def add_squad_def squad_ok_def max_def)
qed

lemma session_ok_new_tab:
  assumes "session_ok s" "mint_tab_id s = (tid, s1)" "tab_ok t" "tab_id t = tid"
    "set (panes t) \<inter> \<Union> (set ` panes ` set (all_tabs s)) = {}"
  shows "session_ok (squad_mut s1 i (\<lambda>q. q\<lparr>sq_tabs := sq_tabs q @ [t]\<rparr>))"
proof (cases "i \<in> sq_id ` set (ss_squads s)")
  case False
  have "ss_squads s1 = ss_squads s" using assms(2) by (auto simp: mint_tab_id_def Let_def)
  with False have "squad_mut s1 i f = s1" for f
    by (cases s1) (simp add: squad_mut_def update_first_absent)
  with session_ok_mint [OF assms(2,1)] show ?thesis by simp
next
  case True
  have s1: "ss_squads s1 = ss_squads s" "ss_active_squad s1 = ss_active_squad s"
    using assms(2) by (auto simp: mint_tab_id_def Let_def)
  from True obtain pos where pos: "pos < length (ss_squads s)" "sq_id (ss_squads s ! pos) = i"
    by (auto simp: in_set_conv_nth)
  let ?q = "ss_squads s ! pos"
  let ?q' = "?q\<lparr>sq_tabs := sq_tabs ?q @ [t]\<rparr>"
  let ?qs = "(ss_squads s)[pos := ?q']"
  have d: "distinct (map sq_id (ss_squads s))" using assms(1) by (simp add: session_ok_def)
  have ids: "map sq_id ?qs = map sq_id (ss_squads s)"
    using pos by (simp add: map_update list_update_same_conv)
  have "mset (tabs_of ?qs) = mset (all_tabs s @ [t])"
    using mset_tabs_of_update [OF pos(1), of ?q'] by simp
  then have "tabs_ok (ss_next_tab_id s1) (tabs_of ?qs)"
    using minted_tab_ok [OF assms] tabs_ok_perm by blast
  moreover have "\<forall>q\<in>set ?qs. squad_ok q"
    using assms(1) pos by (auto simp: session_ok_def squad_ok_def less_Suc_eq dest!: set_update_subset_insert [THEN subsetD])
  moreover have "sq_id ` set ?qs = sq_id ` set (ss_squads s)" using ids by (metis list.set_map)
  moreover have "?qs = [] \<longleftrightarrow> ss_squads s = []" by simp
  ultimately show ?thesis
    using assms(1) d ids s1 update_first_nth [OF d pos]
    by (auto simp: session_ok_def squad_mut_def split: option.splits)
qed

lemma drop_tab_mset:
  assumes "pos < length qs" "k < length (sq_tabs (qs ! pos))"
  shows "add_mset (sq_tabs (qs ! pos) ! k) (mset (tabs_of (qs[pos := drop_tab (qs ! pos) k]))) =
    mset (tabs_of qs)"
proof -
  let ?q = "qs ! pos"
  have "add_mset (sq_tabs ?q ! k) (mset (tabs_of (qs[pos := drop_tab ?q k]))) +
      mset (remove_nth k (sq_tabs ?q)) = mset (tabs_of qs) + mset (remove_nth k (sq_tabs ?q))"
    using mset_tabs_of_update [OF assms(1), of "drop_tab ?q k"]
    by (simp flip: mset_remove_nth [OF assms(2)])
  then show ?thesis by (rule add_right_imp_eq)
qed

lemma removed_squads_ok:
  assumes "session_ok s" "pos < length (ss_squads s)" "k < length (sq_tabs (ss_squads s ! pos))"
    "remove_nth k (sq_tabs (ss_squads s ! pos)) \<noteq> []"
  shows "session_ok (s\<lparr>ss_squads := (ss_squads s)[pos := drop_tab (ss_squads s ! pos) k]\<rparr>) \<and>
    add_mset (sq_tabs (ss_squads s ! pos) ! k)
      (mset (tabs_of ((ss_squads s)[pos := drop_tab (ss_squads s ! pos) k]))) = mset (all_tabs s)"
proof -
  let ?q = "ss_squads s ! pos"
  let ?qs = "(ss_squads s)[pos := drop_tab ?q k]"
  have ids: "map sq_id ?qs = map sq_id (ss_squads s)"
    using assms(2) by (simp add: map_update list_update_same_conv)
  have m: "add_mset (sq_tabs ?q ! k) (mset (tabs_of ?qs)) = mset (all_tabs s)"
    using assms(2,3) by (rule drop_tab_mset)
  then have "tabs_ok (ss_next_tab_id s) (tabs_of ?qs)"
    using assms(1) tabs_ok_less [of "all_tabs s" "tabs_of ?qs" "{#sq_tabs ?q ! k#}"]
    by (auto simp: session_ok_def)
  moreover have "squad_ok ?q" using assms(1,2) by (auto simp: session_ok_def)
  then have "\<forall>q\<in>set ?qs. squad_ok q"
    using assms drop_tab_ok by (auto simp: session_ok_def dest!: set_update_subset_insert [THEN subsetD])
  moreover have "sq_id ` set ?qs = sq_id ` set (ss_squads s)" using ids by (metis list.set_map)
  moreover have "?qs = [] \<longleftrightarrow> ss_squads s = []" by simp
  ultimately show ?thesis using assms(1) ids m by (auto simp: session_ok_def split: option.splits)
qed

lemma remove_nth_ids:
  "distinct (map sq_id qs) \<Longrightarrow> pos < length qs \<Longrightarrow>
     sq_id ` set (remove_nth pos qs) = sq_id ` set qs - {sq_id (qs ! pos)}"
proof -
  assume d: "distinct (map sq_id qs)" and p: "pos < length qs"
  have q: "qs = take pos qs @ qs ! pos # drop (Suc pos) qs" using p by (rule id_take_nth_drop)
  have "sq_id (qs ! pos) \<notin> sq_id ` (set (take pos qs) \<union> set (drop (Suc pos) qs))"
    using d by (subst (asm) q) (auto simp: image_iff)
  moreover have "sq_id ` set qs = insert (sq_id (qs ! pos)) (sq_id ` (set (take pos qs) \<union> set (drop (Suc pos) qs)))"
    by (subst q) auto
  ultimately show ?thesis by (auto simp: remove_nth_def)
qed

lemma drop_squad_ok:
  assumes "distinct (map sq_id qs)" "pos < length qs" "remove_nth pos qs \<noteq> []"
    and "\<forall>q\<in>set (remove_nth pos qs). squad_ok q" "tabs_ok n (tabs_of (remove_nth pos qs))"
    and "a \<in> sq_id ` set qs"
  shows "session_ok \<lparr>ss_squads = remove_nth pos qs,
    ss_active_squad = (if a = sq_id (qs ! pos) then Some (sq_id (hd (remove_nth pos qs))) else Some a),
    ss_next_tab_id = n\<rparr>"
proof -
  have "sq_id (hd (remove_nth pos qs)) \<in> sq_id ` set (remove_nth pos qs)" using assms(3) by simp
  with assms distinct_map_remove_nth [OF assms(1)] remove_nth_ids [OF assms(1,2)] show ?thesis
    by (simp add: session_ok_def)
qed

lemma remove_tab_unknown:
  "(\<And>q. squad s i = Some q \<Longrightarrow> length (sq_tabs q) \<le> k) \<Longrightarrow> remove_tab s i k = (TabRemoved, s)"
  by (auto simp: remove_tab_def squad_def find_position Let_def split: option.splits)

lemma remove_tab_known:
  assumes ok: "session_ok s" and q: "squad s i = Some q" "k < length (sq_tabs q)"
    and r: "remove_tab s i k = (out, s')"
  shows "session_ok s' \<and> add_mset (sq_tabs q ! k) (mset (all_tabs s')) = mset (all_tabs s) \<and>
    ss_next_tab_id s' = ss_next_tab_id s \<and>
    out = (if 1 < length (sq_tabs q) then TabRemoved
           else if 1 < length (ss_squads s) then SquadRemoved else SessionEmpty) \<and>
    squad s' i = (if 1 < length (sq_tabs q) then Some (drop_tab q k) else None)"
proof -
  have d: "distinct (map sq_id (ss_squads s))" using ok by (simp add: session_ok_def)
  from q(1) obtain pos where pos: "position (\<lambda>q. sq_id q = i) (ss_squads s) = Some pos"
    "ss_squads s ! pos = q" by (auto simp: squad_def find_position)
  then have p: "pos < length (ss_squads s)" "sq_id q = i"
    using position_SomeD [OF pos(1)] by auto
  have e: "remove_nth k (sq_tabs q) = [] \<longleftrightarrow> \<not> 1 < length (sq_tabs q)"
    using q(2) length_remove_nth [OF q(2)] by (metis length_greater_0_conv less_diff_conv add_0)
  show ?thesis
  proof (cases "1 < length (sq_tabs q)")
    case True
    then have r': "out = TabRemoved" "s' = s\<lparr>ss_squads := (ss_squads s)[pos := drop_tab q k]\<rparr>"
      using r pos q(2) e by (auto simp: remove_tab_def Let_def)
    note ok' = removed_squads_ok [OF ok p(1), of k, unfolded pos(2), OF q(2)]
    have d': "distinct (map sq_id (ss_squads s'))"
      using ok' True e r' by (auto simp: session_ok_def)
    have "drop_tab q k \<in> set (ss_squads s')" using p r' by (simp add: set_update_memI)
    then have "squad s' i = Some (drop_tab q k)" by (simp add: squad_Some [OF d'] p)
    with True e ok' r' show ?thesis by simp
  next
    case False
    then have one: "sq_tabs q = [sq_tabs q ! k]" using q(2) by (cases "sq_tabs q") auto
    let ?rest = "remove_nth pos (ss_squads s)"
    have m: "add_mset (sq_tabs q ! k) (mset (tabs_of ?rest)) = mset (all_tabs s)"
      using mset_tabs_of_remove [OF p(1)] pos(2) one by (metis add_mset_add_single mset.simps(1,2))
    have re: "?rest = [] \<longleftrightarrow> \<not> 1 < length (ss_squads s)"
      using p(1) length_remove_nth [OF p(1)] by (metis length_greater_0_conv less_diff_conv add_0)
    have t: "tabs_ok (ss_next_tab_id s) (tabs_of ?rest)"
      using ok m tabs_ok_less [of "all_tabs s" "tabs_of ?rest" "{#sq_tabs q ! k#}"]
      by (auto simp: session_ok_def)
    have so: "\<forall>q\<in>set ?rest. squad_ok q" using ok set_remove_nth_subset by (fastforce simp: session_ok_def)
    obtain a where a: "ss_active_squad s = Some a" "a \<in> sq_id ` set (ss_squads s)"
      using ok p(1) by (auto simp: session_ok_def split: option.splits)
    have gone: "i \<notin> sq_id ` set ?rest" using remove_nth_ids [OF d p(1)] pos p by auto
    show ?thesis
    proof (cases "?rest = []")
      case True
      then have "out = SessionEmpty" "s' = s\<lparr>ss_squads := [], ss_active_squad := None\<rparr>"
        using r pos q(2) e False by (auto simp: remove_tab_def Let_def)
      with True False re m t show ?thesis
        by (auto simp: session_ok_def squad_None_iff tabs_ok_def)
    next
      case rest: False
      then have r': "out = SquadRemoved" "s' = \<lparr>ss_squads = ?rest,
          ss_active_squad = (if a = sq_id (ss_squads s ! pos) then Some (sq_id (hd ?rest)) else Some a),
          ss_next_tab_id = ss_next_tab_id s\<rparr>"
        using r pos q(2) e False a p by (cases s; auto simp: remove_tab_def Let_def)+
      with rest False re m drop_squad_ok [OF d p(1) rest so t a(2)] gone show ?thesis
        by (simp add: squad_None_iff)
    qed
  qed
qed

lemma find_tab_in_sound:
  "find_tab_in qs tid = Some (i, k) \<Longrightarrow> \<exists>pos<length qs. sq_id (qs ! pos) = i \<and>
     k < length (sq_tabs (qs ! pos)) \<and> tab_id (sq_tabs (qs ! pos) ! k) = tid"
proof (induction qs)
  case (Cons q qs)
  show ?case
  proof (cases "position (\<lambda>t. tab_id t = tid) (sq_tabs q)")
    case None
    with Cons obtain pos where "pos < length qs" "sq_id (qs ! pos) = i"
      "k < length (sq_tabs (qs ! pos))" "tab_id (sq_tabs (qs ! pos) ! k) = tid" by auto
    then show ?thesis by (intro exI [of _ "Suc pos"]) simp
  next
    case (Some j)
    with Cons.prems position_SomeD [OF Some] show ?thesis by (intro exI [of _ 0]) simp
  qed
qed simp

lemma find_tab_in_None: "find_tab_in qs tid = None \<longleftrightarrow> tid \<notin> tab_id ` set (tabs_of qs)"
proof (induction qs)
  case (Cons q qs)
  show ?case
  proof (cases "position (\<lambda>t. tab_id t = tid) (sq_tabs q)")
    case None
    then have "tid \<notin> tab_id ` set (sq_tabs q)" by (auto simp: position_None_iff)
    with None Cons show ?thesis by (simp add: image_Un)
  next
    case (Some j)
    then have "tid \<in> tab_id ` set (sq_tabs q)" using position_SomeD [OF Some] by auto
    with Some show ?thesis by auto
  qed
qed simp

lemma set_remove_nth:
  assumes "i < length xs"
  shows "x \<in> set (remove_nth i xs) \<longleftrightarrow> (\<exists>j<length xs. j \<noteq> i \<and> xs ! j = x)"
proof
  assume "x \<in> set (remove_nth i xs)"
  then obtain j where "j < length xs - 1" "remove_nth i xs ! j = x"
    using assms by (auto simp: in_set_conv_nth length_remove_nth)
  then show "\<exists>j<length xs. j \<noteq> i \<and> xs ! j = x"
    using assms by (intro exI [of _ "if j < i then j else Suc j"]) (auto simp: nth_remove_nth)
next
  assume "\<exists>j<length xs. j \<noteq> i \<and> xs ! j = x"
  then obtain j where j: "j < length xs" "j \<noteq> i" "xs ! j = x" by blast
  let ?k = "if j < i then j else j - 1"
  have "?k < length (remove_nth i xs)" "remove_nth i xs ! ?k = x"
    using assms j by (auto simp: nth_remove_nth length_remove_nth)
  then show "x \<in> set (remove_nth i xs)" by (metis nth_mem)
qed

text \<open>The vector surgery of a move, from the squad at \<open>pos\<close> to the one at \<open>dp\<close>.\<close>

definition relocated :: "Squad list \<Rightarrow> nat \<Rightarrow> nat \<Rightarrow> nat \<Rightarrow> Squad list" where
  "relocated qs pos k dp = qs[pos := drop_tab (qs ! pos) k,
     dp := (qs ! dp)\<lparr>sq_tabs := sq_tabs (qs ! dp) @ [sq_tabs (qs ! pos) ! k]\<rparr>]"

lemma relocated_basic:
  assumes "pos < length qs" "dp < length qs" "dp \<noteq> pos"
  shows "map sq_id (relocated qs pos k dp) = map sq_id qs" "length (relocated qs pos k dp) = length qs"
    "relocated qs pos k dp ! pos = drop_tab (qs ! pos) k"
    "relocated qs pos k dp ! dp = (qs ! dp)\<lparr>sq_tabs := sq_tabs (qs ! dp) @ [sq_tabs (qs ! pos) ! k]\<rparr>"
proof -
  have "map sq_id (qs[pos := drop_tab (qs ! pos) k]) = map sq_id qs"
    using assms by (simp add: map_update list_update_same_conv)
  then show "map sq_id (relocated qs pos k dp) = map sq_id qs"
    using assms by (simp add: relocated_def map_update list_update_same_conv [THEN iffD2])
qed (use assms in \<open>simp_all add: relocated_def\<close>)

lemma relocated_tabs:
  assumes "pos < length qs" "dp < length qs" "dp \<noteq> pos" "k < length (sq_tabs (qs ! pos))"
  shows "mset (tabs_of (relocated qs pos k dp)) = mset (tabs_of qs)"
  using mset_tabs_of_update [of dp "qs[pos := drop_tab (qs ! pos) k]"
      "(qs ! dp)\<lparr>sq_tabs := sq_tabs (qs ! dp) @ [sq_tabs (qs ! pos) ! k]\<rparr>"]
    assms drop_tab_mset [OF assms(1,4)] by (simp add: relocated_def)

lemma relocated_squad_ok:
  assumes "\<forall>q\<in>set qs. squad_ok q" "dp < length qs" "j < length qs" "j \<noteq> pos"
  shows "squad_ok (relocated qs pos k dp ! j)"
  using assms by (cases "j = dp") (auto simp: relocated_def squad_ok_def less_Suc_eq)

lemma relocated_update:
  assumes "distinct (map sq_id qs)" "pos < length qs" "dp < length qs" "dp \<noteq> pos" "sq_id (qs ! dp) = dst"
  shows "update_first dst (\<lambda>q. q\<lparr>sq_tabs := sq_tabs q @ [sq_tabs (qs ! pos) ! k]\<rparr>) (qs[pos := drop_tab (qs ! pos) k])
    = relocated qs pos k dp"
proof -
  have "map sq_id (qs[pos := drop_tab (qs ! pos) k]) = map sq_id qs"
    using assms by (simp add: map_update list_update_same_conv)
  with assms show ?thesis
    using update_first_nth [of "qs[pos := drop_tab (qs ! pos) k]" dp dst] by (simp add: relocated_def)
qed

lemma relocated_squad:
  assumes "distinct (map sq_id (ss_squads s))" "q \<in> set (ss_squads s)" "sq_id q = i"
  shows "squad s i = Some q"
  using assms by (simp add: squad_Some)

lemma move_tab_moves:
  assumes ok: "session_ok s" and f: "find_tab s tid = Some (src_id, k)"
    and dst: "squad s dst = Some qd" and ne: "src_id \<noteq> dst"
  shows "\<exists>out s' t. move_tab s tid dst = Some (out, s') \<and> session_ok s' \<and>
    mset (all_tabs s') = mset (all_tabs s) \<and> tab_id t = tid \<and>
    squad s' dst = Some (qd\<lparr>sq_tabs := sq_tabs qd @ [t]\<rparr>) \<and>
    out = (if squad s' src_id = None then MovedSquadRemoved else Moved)"
proof -
  let ?qs = "ss_squads s"
  have d: "distinct (map sq_id ?qs)" using ok by (simp add: session_ok_def)
  from find_tab_in_sound [of ?qs tid src_id k] f obtain pos where pos: "pos < length ?qs"
    "sq_id (?qs ! pos) = src_id" "k < length (sq_tabs (?qs ! pos))" "tab_id (sq_tabs (?qs ! pos) ! k) = tid"
    by (auto simp: find_tab_def)
  have "qd \<in> set ?qs" "sq_id qd = dst" using dst squad_Some [OF d] by auto
  then obtain dp where dp: "dp < length ?qs" "?qs ! dp = qd" "sq_id (?qs ! dp) = dst"
    by (metis in_set_conv_nth)
  have dne: "dp \<noteq> pos" using pos dp ne by auto
  define q2 where "q2 = relocated ?qs pos k dp"
  define t where "t = sq_tabs (?qs ! pos) ! k"
  note basic = relocated_basic [OF pos(1) dp(1) dne, of k, folded q2_def, unfolded dp(2), folded t_def]
  have m2: "mset (tabs_of q2) = mset (all_tabs s)"
    unfolding q2_def using pos(1) dp(1) dne pos(3) by (rule relocated_tabs)
  have t2: "tabs_ok (ss_next_tab_id s) (tabs_of q2)"
    using ok tabs_ok_perm [OF m2] by (simp add: session_ok_def)
  have so: "j < length ?qs \<Longrightarrow> j \<noteq> pos \<Longrightarrow> squad_ok (q2 ! j)" for j
    unfolding q2_def using ok dp(1) by (intro relocated_squad_ok) (auto simp: session_ok_def)
  have d2: "distinct (map sq_id q2)" using d basic(1) by simp
  obtain a where a: "ss_active_squad s = Some a" "a \<in> sq_id ` set ?qs"
    using ok pos(1) by (auto simp: session_ok_def split: option.splits)
  then have a2: "a \<in> sq_id ` set q2" using basic(1) by (metis list.set_map)
  have mv: "move_tab s tid dst = (if sq_tabs (drop_tab (?qs ! pos) k) = [] then
      let rest = remove_nth pos q2 in if a = src_id then (case rest of [] \<Rightarrow> None
        | q # _ \<Rightarrow> Some (MovedSquadRemoved, s\<lparr>ss_squads := rest, ss_active_squad := Some (sq_id q)\<rparr>))
        else Some (MovedSquadRemoved, s\<lparr>ss_squads := rest\<rparr>)
      else Some (Moved, s\<lparr>ss_squads := q2\<rparr>))"
    using f dst ne position_id [OF d pos(1,2)] pos(3) a(1)
      relocated_update [OF d pos(1) dp(1) dne dp(3), of k] basic(3)
    by (simp add: move_tab_def Let_def squad_mut_def q2_def [symmetric] split: list.splits)
  have q1: "sq_id (q2 ! pos) = src_id" using pos by (simp add: basic)
  have pl: "pos < length q2" "dp < length q2" using pos dp basic by simp_all
  show ?thesis
  proof (cases "sq_tabs (drop_tab (?qs ! pos) k) = []")
    case True
    let ?rest = "remove_nth pos q2"
    have dr: "q2 ! dp \<in> set ?rest" using set_remove_nth [OF pl(1)] pl(2) dne by auto
    then have rne: "?rest \<noteq> []" by auto
    have so': "\<forall>q\<in>set ?rest. squad_ok q" using set_remove_nth [OF pl(1)] so basic(2) by auto
    have mr: "mset (tabs_of ?rest) = mset (all_tabs s)"
      using mset_tabs_of_remove [OF pl(1)] basic True m2 by simp
    have tr: "tabs_ok (ss_next_tab_id s) (tabs_of ?rest)" using tabs_ok_perm mr m2 t2 by metis
    define s' where "s' = \<lparr>ss_squads = ?rest,
      ss_active_squad = (if a = src_id then Some (sq_id (hd ?rest)) else Some a), ss_next_tab_id = ss_next_tab_id s\<rparr>"
    have ok': "session_ok s'"
      using drop_squad_ok [OF d2 pl(1) rne so' tr a2] q1 by (simp add: s'_def)
    have "move_tab s tid dst = Some (MovedSquadRemoved, s')"
      using mv True rne a(1) by (cases s; cases ?rest) (auto simp: s'_def)
    moreover have "squad s' dst = Some (q2 ! dp)"
      using dr dp ok' basic by (intro relocated_squad) (auto simp: s'_def session_ok_def)
    moreover have "squad s' src_id = None"
      using remove_nth_ids [OF d2 pl(1)] q1 by (simp add: squad_None_iff s'_def)
    ultimately show ?thesis using ok' mr pos(4) basic
      by (intro exI [of _ MovedSquadRemoved] exI [of _ s'] exI [of _ t]) (simp add: s'_def t_def)
  next
    case False
    then have "squad_ok (q2 ! pos)"
      using ok pos drop_tab_ok [of "?qs ! pos" k] by (auto simp: session_ok_def basic)
    then have sq: "\<forall>q\<in>set q2. squad_ok q" using so basic(2) by (metis in_set_conv_nth)
    have ok': "session_ok (s\<lparr>ss_squads := q2\<rparr>)" using ok d2 t2 sq a a2 by (auto simp: session_ok_def)
    moreover have "squad (s\<lparr>ss_squads := q2\<rparr>) dst = Some (q2 ! dp)"
      using d2 nth_mem [OF pl(2)] dp basic(4) by (intro relocated_squad) simp_all
    moreover have "squad (s\<lparr>ss_squads := q2\<rparr>) src_id = Some (q2 ! pos)"
      using d2 nth_mem [OF pl(1)] q1 by (intro relocated_squad) simp_all
    ultimately show ?thesis using mv False m2 pos(4) basic
      by (intro exI [of _ Moved] exI [of _ "s\<lparr>ss_squads := q2\<rparr>"] exI [of _ t]) (simp add: t_def)
  qed
qed

end
