(* ===== verification/Squad_Props.thy ===== *)
theory Squad_Props
  imports Squad_Session
begin

text \<open>
  The session as a transition system, and what the container model of
  \<open>crates/fno/src/squad.rs\<close> promises: moves conserve tabs, removal re-anchors, the most specific
  workspace claims a directory, the identifier forms of a tab agree, and display names separate
  what they can.
\<close>

section \<open>Runs of a session\<close>

lemma remove_tab_ok: "session_ok s \<Longrightarrow> remove_tab s i k = (out, s') \<Longrightarrow> session_ok s'"
proof -
  assume ok: "session_ok s" and r: "remove_tab s i k = (out, s')"
  show ?thesis
  proof (cases "\<exists>q. squad s i = Some q \<and> k < length (sq_tabs q)")
    case True
    then obtain q where "squad s i = Some q" "k < length (sq_tabs q)" by blast
    from remove_tab_known [OF ok this r] show ?thesis by blast
  next
    case False
    then have "remove_tab s i k = (TabRemoved, s)" by (intro remove_tab_unknown) (meson not_less)
    with ok r show ?thesis by simp
  qed
qed

lemma move_tab_total:
  assumes "session_ok s"
  shows "\<exists>out s'. move_tab s tid dst = Some (out, s') \<and> session_ok s' \<and> mset (all_tabs s') = mset (all_tabs s)"
proof (cases "\<exists>src k qd. find_tab s tid = Some (src, k) \<and> squad s dst = Some qd \<and> src \<noteq> dst")
  case True
  then obtain src k qd where "find_tab s tid = Some (src, k)" "squad s dst = Some qd" "src \<noteq> dst" by blast
  from move_tab_moves [OF assms this] show ?thesis by blast
next
  case False
  then have "\<exists>m. move_tab s tid dst = Some (Refused m, s)"
    by (auto simp: move_tab_def split: option.splits)
  with assms show ?thesis by blast
qed

lemma session_step_ok: "session_step s s' \<Longrightarrow> session_ok s \<Longrightarrow> session_ok s'"
proof (induction rule: session_step.induct)
  case (new_squad s tid s1 i t origins name)
  then show ?case by (intro session_ok_add_squad)
next
  case (new_tab s tid s1 t i)
  then show ?case by (intro session_ok_new_tab)
next
  case (remove s i k out s')
  then show ?case using remove_tab_ok by blast
next
  case (move s tid dst out s')
  with move_tab_total [of s tid dst] show ?case by auto
next
  case (mint s tid s')
  then show ?case using session_ok_mint by blast
qed

interpretation sess: transition_system session_step session_ok
  by unfold_locales (rule session_step_ok)

section \<open>Paths\<close>

definition under :: "string \<Rightarrow> string \<Rightarrow> bool" where
  "under path o1 \<longleftrightarrow> path = o1 \<or> (\<exists>r. path = o1 @ ''/'' @ r)"

lemma owns_origin_under: "owns_origin path o1 \<longleftrightarrow> under path o1"
proof -
  have "(case strip_prefix path o1 of Some (c # r) \<Rightarrow> c = CHR ''/'' | _ \<Rightarrow> False) \<longleftrightarrow>
      (\<exists>r. path = o1 @ ''/'' @ r)"
  proof
    assume "case strip_prefix path o1 of Some (c # r) \<Rightarrow> c = CHR ''/'' | _ \<Rightarrow> False"
    then obtain r where "take (length o1) path = o1" "drop (length o1) path = CHR ''/'' # r"
      by (auto simp: strip_prefix_def split: option.splits if_splits list.splits)
    then have "path = o1 @ ''/'' @ r" by (metis append_take_drop_id append_Cons append_Nil)
    then show "\<exists>r. path = o1 @ ''/'' @ r" by blast
  qed (auto simp: strip_prefix_def)
  then show ?thesis by (simp add: owns_origin_def under_def)
qed

lemma foldl_max: "foldl max (l :: nat) ls \<in> set (l # ls) \<and> (\<forall>x\<in>set (l # ls). x \<le> foldl max l ls)"
proof (induction ls arbitrary: l)
  case (Cons x ls)
  from Cons [of "max l x"] show ?case by (auto simp: max_def split: if_splits)
qed simp

lemma owning_origin_len_Some:
  "owning_origin_len q path = Some n \<longleftrightarrow>
     (\<exists>o1\<in>set (sq_origins q). under path o1 \<and> length o1 = n) \<and>
     (\<forall>o1\<in>set (sq_origins q). under path o1 \<longrightarrow> length o1 \<le> n)"
proof -
  let ?ls = "map length (filter (owns_origin path) (sq_origins q))"
  have m: "n \<in> set ?ls \<and> (\<forall>l\<in>set ?ls. l \<le> n) \<longleftrightarrow>
     (\<exists>o1\<in>set (sq_origins q). under path o1 \<and> length o1 = n) \<and>
     (\<forall>o1\<in>set (sq_origins q). under path o1 \<longrightarrow> length o1 \<le> n)"
    by (auto simp: owns_origin_under)
  have "owning_origin_len q path = Some n \<longleftrightarrow> n \<in> set ?ls \<and> (\<forall>l\<in>set ?ls. l \<le> n)"
  proof (cases ?ls)
    case Nil
    then show ?thesis by (simp add: owning_origin_len_def)
  next
    case (Cons l ls)
    then have "owning_origin_len q path = Some (foldl max l ls)" by (simp add: owning_origin_len_def)
    with foldl_max [of l ls] show ?thesis unfolding Cons by (metis option.inject order_antisym)
  qed
  with m show ?thesis by simp
qed

lemma owning_origin_len_None:
  "owning_origin_len q path = None \<longleftrightarrow> (\<forall>o1\<in>set (sq_origins q). \<not> under path o1)"
  by (auto simp: owning_origin_len_def filter_empty_conv owns_origin_under split: list.splits)
     (metis filter_empty_conv list.distinct(1) map_is_Nil_conv owns_origin_under)

abbreviation named :: "Squad \<Rightarrow> bool" where
  "named q \<equiv> sq_name q \<noteq> None"

definition best_at :: "string \<Rightarrow> Squad list \<Rightarrow> nat \<Rightarrow> nat \<Rightarrow> bool" where
  "best_at cwd qs k len \<longleftrightarrow> k < length qs \<and> owning_origin_len (qs ! k) cwd = Some len \<and>
     (\<forall>j<length qs. \<forall>l. owning_origin_len (qs ! j) cwd = Some l \<longrightarrow>
        (l, named (qs ! j)) \<le> (len, named (qs ! k)) \<and> (j < k \<longrightarrow> (l, named (qs ! j)) < (len, named (qs ! k))))"

lemma best_squad_fold:
  "case foldl (best_squad cwd) None qs of
     None \<Rightarrow> \<forall>q\<in>set qs. owning_origin_len q cwd = None
   | Some (rank, i) \<Rightarrow> \<exists>k len. best_at cwd qs k len \<and> rank = (len, named (qs ! k)) \<and> i = sq_id (qs ! k)"
proof (induction qs rule: rev_induct)
  case (snoc q qs)
  show ?case
  proof (cases "owning_origin_len q cwd")
    case None
    then have f: "foldl (best_squad cwd) None (qs @ [q]) = foldl (best_squad cwd) None qs"
      by (simp add: best_squad_def)
    have b: "best_at cwd qs k len \<Longrightarrow> best_at cwd (qs @ [q]) k len" for k len
      using None by (auto simp: best_at_def nth_append less_Suc_eq)
    have n: "best_at cwd qs k len \<Longrightarrow> (qs @ [q]) ! k = qs ! k" for k len
      by (simp add: best_at_def nth_append)
    from snoc None b n show ?thesis unfolding f by (fastforce split: option.splits prod.splits)
  next
    case (Some len)
    let ?r = "(len, named q)"
    show ?thesis
    proof (cases "foldl (best_squad cwd) None qs")
      case None
      with snoc have "\<forall>q\<in>set qs. owning_origin_len q cwd = None" by simp
      then have "best_at cwd (qs @ [q]) (length qs) len"
        using Some by (auto simp: best_at_def nth_append less_Suc_eq)
      moreover have "foldl (best_squad cwd) None (qs @ [q]) = Some (?r, sq_id q)"
        by (simp only: foldl_append foldl.simps None) (simp add: best_squad_def Some)
      ultimately show ?thesis by auto
    next
      case best: (Some p)
      with snoc obtain k l where k: "best_at cwd qs k l" "p = ((l, named (qs ! k)), sq_id (qs ! k))"
        by (cases p) auto
      show ?thesis
      proof (cases "(l, named (qs ! k)) < ?r")
        case True
        then have "best_at cwd (qs @ [q]) (length qs) len"
          using Some k(1) by (auto simp: best_at_def nth_append less_Suc_eq intro: order.strict_implies_order
            order.strict_trans1)
        moreover have "foldl (best_squad cwd) None (qs @ [q]) = Some (?r, sq_id q)"
          using True by (simp only: foldl_append foldl.simps best k(2)) (simp add: best_squad_def Some)
        ultimately show ?thesis by auto
      next
        case False
        then have "best_at cwd (qs @ [q]) k l" "(qs @ [q]) ! k = qs ! k"
          using Some k(1) by (auto simp: best_at_def nth_append less_Suc_eq not_less)
        moreover have "foldl (best_squad cwd) None (qs @ [q]) = Some ((l, named (qs ! k)), sq_id (qs ! k))"
          using False by (simp only: foldl_append foldl.simps best k(2)) (simp add: best_squad_def Some)
        ultimately show ?thesis by auto
      qed
    qed
  qed
qed simp

section \<open>Segments\<close>

lemma last_segment_no_slash: "CHR ''/'' \<notin> set (last_segment p)"
  by (auto simp: last_segment_def dest: set_takeWhileD)

lemma takeWhile_no_slash: "CHR ''/'' \<notin> set b \<Longrightarrow> takeWhile (\<lambda>c. c \<noteq> CHR ''/'') (rev b) = rev b"
  by (subst takeWhile_eq_all_conv) auto

lemma last_segment_append: "CHR ''/'' \<notin> set b \<Longrightarrow> last_segment (p @ ''/'' @ b) = b"
  by (simp add: last_segment_def takeWhile_append takeWhile_no_slash)

lemma last_segment_plain: "CHR ''/'' \<notin> set b \<Longrightarrow> last_segment b = b"
  by (simp add: last_segment_def takeWhile_no_slash)

lemma base_name_no_slash: "CHR ''/'' \<notin> set (base_name p)"
  by (simp add: base_name_def last_segment_no_slash)

lemma display_names_nth:
  "i < length cwds \<Longrightarrow> display_names cwds ! i =
     (case parent_seg (cwds ! i) of
        Some parent \<Rightarrow> if \<exists>j<length cwds. j \<noteq> i \<and> base_name (cwds ! j) = base_name (cwds ! i)
          then parent @ ''/'' @ base_name (cwds ! i) else base_name (cwds ! i)
      | None \<Rightarrow> base_name (cwds ! i))"
  by (auto simp: display_names_def display_name_def Let_def split: option.splits bool.splits)

lemma last_segment_display:
  "i < length cwds \<Longrightarrow> last_segment (display_names cwds ! i) = base_name (cwds ! i)"
  by (simp add: display_names_nth last_segment_append [unfolded append_Cons append_Nil]
      last_segment_plain base_name_no_slash split: option.splits)

section \<open>Concrete sessions\<close>

definition second_tab :: Tab where
  "second_tab = \<lparr>tab_id = 2, tab_root = Leaf 2, tab_focus = 2, tab_name = Some ''log''\<rparr>"

definition third_tab :: Tab where
  "third_tab = \<lparr>tab_id = 3, tab_root = Leaf 3, tab_focus = 3, tab_name = None\<rparr>"

definition two_squads :: Session where
  "two_squads = \<lparr>ss_squads =
     [\<lparr>sq_id = 1, sq_origins = [''/home''], sq_name = None, sq_key = [], sq_tabs = [single_tab], sq_active_tab = 0\<rparr>,
      \<lparr>sq_id = 2, sq_origins = [''/home/a''], sq_name = None, sq_key = [], sq_tabs = [second_tab, third_tab],
       sq_active_tab = 1\<rparr>],
     ss_active_squad = Some 1, ss_next_tab_id = 3\<rparr>"

lemma two_squads_ok: "session_ok two_squads"
  by (simp add: session_ok_def two_squads_def squad_ok_def tabs_ok_def tab_ok_def single_tab_def
      second_tab_def third_tab_def)

section \<open>Properties\<close>

text \<open>
  C6. Every sequence of session operations (new squad, new tab, removal, move, mint) keeps squad
  ids, tab ids and panes unique, every squad non-empty with a live active tab, every tab's tree
  sound, no tab id above the mint, and the active squad live whenever there is a squad.
\<close>

theorem session_run_ok: "session_step\<^sup>*\<^sup>* s s' \<Longrightarrow> session_ok s \<Longrightarrow> session_ok s'"
  by (rule sess.run_good)

theorem session_run_ok_witness: "session_ok (snd (the (move_tab two_squads 1 2)))"
proof -
  obtain out s' where m: "move_tab two_squads 1 2 = Some (out, s')" using move_tab_total [OF two_squads_ok] by blast
  then have "session_step\<^sup>*\<^sup>* two_squads s'" by (intro r_into_rtranclp session_step.move)
  from session_run_ok [OF this two_squads_ok] m show ?thesis by simp
qed

text \<open>
  Moving a tab never panics, never loses or duplicates a tab, and keeps the session sound. It
  refuses, changing nothing, exactly when the tab or the destination is missing or the tab is
  already there; otherwise the tab is the destination's last, the destination's other tabs and its
  active tab are untouched, and the source squad is gone exactly when that was reported.
\<close>

theorem move_tab_spec:
  assumes "session_ok s"
  shows "\<exists>out s'. move_tab s tid dst = Some (out, s') \<and> session_ok s' \<and>
     mset (all_tabs s') = mset (all_tabs s) \<and>
     (case (find_tab s tid, squad s dst) of
        (Some (src_id, k), Some qd) \<Rightarrow>
          if src_id = dst then out = Refused ''already there'' \<and> s' = s
          else (\<exists>t. tab_id t = tid \<and> squad s' dst = Some (qd\<lparr>sq_tabs := sq_tabs qd @ [t]\<rparr>)) \<and>
               out = (if squad s' src_id = None then MovedSquadRemoved else Moved)
      | (Some _, None) \<Rightarrow> out = Refused ''no such workspace'' \<and> s' = s
      | (None, _) \<Rightarrow> out = Refused ''no such tab'' \<and> s' = s)"
proof (cases "\<exists>src k qd. find_tab s tid = Some (src, k) \<and> squad s dst = Some qd \<and> src \<noteq> dst")
  case True
  then obtain src k qd where f: "find_tab s tid = Some (src, k)" "squad s dst = Some qd" "src \<noteq> dst" by blast
  from move_tab_moves [OF assms f] f show ?thesis by auto
next
  case False
  with assms show ?thesis by (auto simp: move_tab_def split: option.splits)
qed

theorem move_tab_spec_witness:
  "\<exists>out s'. move_tab two_squads 1 2 = Some (out, s') \<and> session_ok s' \<and> out = MovedSquadRemoved"
proof -
  have "find_tab two_squads 1 = Some (1, 0)"
    by (simp add: find_tab_def two_squads_def single_tab_def)
  moreover have "squad two_squads 2 = Some (ss_squads two_squads ! 1)"
    by (simp add: squad_def two_squads_def)
  moreover have "map_option fst (move_tab two_squads 1 2) = Some MovedSquadRemoved" by code_simp
  ultimately show ?thesis using move_tab_spec [OF two_squads_ok, of 1 2] by auto
qed

text \<open>
  Removing a tab removes exactly that tab and reports what went with it: the tab alone, its
  squad when it was the last tab, the session when that was the last squad. If another tab than
  the active one goes, the active tab stays the same tab; if the active one goes, its successor
  takes its place, or its predecessor when it was the last.
\<close>

theorem remove_tab_spec:
  assumes "session_ok s" "squad s i = Some q" "k < length (sq_tabs q)"
  shows "\<exists>s'. remove_tab s i k =
       ((if 1 < length (sq_tabs q) then TabRemoved
         else if 1 < length (ss_squads s) then SquadRemoved else SessionEmpty), s') \<and>
     session_ok s' \<and> add_mset (sq_tabs q ! k) (mset (all_tabs s')) = mset (all_tabs s) \<and>
     (case squad s' i of
        None \<Rightarrow> length (sq_tabs q) = 1
      | Some q' \<Rightarrow> sq_tabs q' ! sq_active_tab q' =
          (if k \<noteq> sq_active_tab q then sq_tabs q ! sq_active_tab q
           else if Suc k < length (sq_tabs q) then sq_tabs q ! Suc k else sq_tabs q ! (k - 1)))"
proof -
  obtain out s' where r: "remove_tab s i k = (out, s')" by fastforce
  have q: "squad_ok q" using assms(1,2) squad_Some [of s i q] by (auto simp: session_ok_def)
  note active = drop_tab_active_gone [OF assms(3)]
  with remove_tab_known [OF assms r] drop_tab_keeps_active [OF q assms(3)] r assms(3) show ?thesis
    by auto
qed

theorem remove_tab_spec_witness:
  "\<exists>s'. remove_tab two_squads 2 0 = (TabRemoved, s') \<and> session_ok s'"
proof -
  have q: "squad two_squads 2 = Some (ss_squads two_squads ! 1)" by (simp add: squad_def two_squads_def)
  have "0 < length (sq_tabs (ss_squads two_squads ! 1))" by (simp add: two_squads_def)
  from remove_tab_spec [OF two_squads_ok q this] show ?thesis by (auto simp: two_squads_def)
qed

text \<open>
  A directory goes to a workspace that owns it through an origin no shorter than any other
  workspace's owning origin; among equally long ones a named workspace wins, and among those the
  first. Nothing is found only for the empty path or when no workspace owns the directory.
\<close>

theorem find_by_cwd_spec:
  "case find_by_cwd s cwd of
     None \<Rightarrow> cwd = [] \<or> (\<forall>q\<in>set (ss_squads s). \<forall>o1\<in>set (sq_origins q). \<not> under cwd o1)
   | Some i \<Rightarrow> (\<exists>k<length (ss_squads s). sq_id (ss_squads s ! k) = i \<and>
       (\<exists>o1\<in>set (sq_origins (ss_squads s ! k)). under cwd o1 \<and>
         (\<forall>j<length (ss_squads s). \<forall>o2\<in>set (sq_origins (ss_squads s ! j)). under cwd o2 \<longrightarrow>
            length o2 \<le> length o1 \<and>
            (length o2 = length o1 \<and> named (ss_squads s ! j) \<longrightarrow> named (ss_squads s ! k) \<and> k \<le> j) \<and>
            (length o2 = length o1 \<and> j < k \<longrightarrow> named (ss_squads s ! k)))))"
proof (cases "foldl (best_squad cwd) None (ss_squads s)")
  case None
  with best_squad_fold [where cwd = cwd and qs = "ss_squads s"] show ?thesis
    by (simp add: find_by_cwd_def owning_origin_len_None)
next
  case (Some p)
  let ?qs = "ss_squads s"
  from Some best_squad_fold [where cwd = cwd and qs = ?qs] obtain k len where
    k: "best_at cwd ?qs k len" "p = ((len, named (?qs ! k)), sq_id (?qs ! k))" by (cases p) auto
  then obtain o1 where o1: "o1 \<in> set (sq_origins (?qs ! k))" "under cwd o1" "length o1 = len"
    using owning_origin_len_Some [of "?qs ! k" cwd len] by (auto simp: best_at_def)
  have best: "length o2 \<le> length o1 \<and>
      (length o2 = length o1 \<and> named (?qs ! j) \<longrightarrow> named (?qs ! k) \<and> k \<le> j) \<and>
      (length o2 = length o1 \<and> j < k \<longrightarrow> named (?qs ! k))"
    if j: "j < length ?qs" "o2 \<in> set (sq_origins (?qs ! j))" "under cwd o2" for j o2
  proof -
    obtain l where l: "owning_origin_len (?qs ! j) cwd = Some l"
      using j owning_origin_len_None [of "?qs ! j" cwd] by fastforce
    then have "length o2 \<le> l" using j owning_origin_len_Some [of "?qs ! j" cwd l] by blast
    moreover have "(l, named (?qs ! j)) \<le> (len, named (?qs ! k)) \<and>
        (j < k \<longrightarrow> (l, named (?qs ! j)) < (len, named (?qs ! k)))"
      using k(1) j l by (simp add: best_at_def)
    ultimately show ?thesis using o1(3)
      by (auto simp: less_eq_prod_def less_prod_def not_less not_le[symmetric])
  qed
  show ?thesis
  proof (cases "cwd = []")
    case False
    then have "find_by_cwd s cwd = Some (sq_id (?qs ! k))" using Some k(2) by (simp add: find_by_cwd_def)
    moreover have "k < length ?qs" using k(1) by (simp add: best_at_def)
    ultimately show ?thesis using o1(1,2) best by (simp only: option.case) blast
  qed (simp add: find_by_cwd_def)
qed

theorem find_by_cwd_spec_witness:
  "find_by_cwd two_squads ''/home/a/src'' = Some 2 \<and>
   (\<exists>k<length (ss_squads two_squads). sq_id (ss_squads two_squads ! k) = 2)"
proof -
  have f: "find_by_cwd two_squads ''/home/a/src'' = Some 2" by code_simp
  from find_by_cwd_spec [where s = two_squads and cwd = "''/home/a/src''"] show ?thesis unfolding f by auto
qed

text \<open>
  C22. A workspace rooted at the file system root owns no absolute path but \<open>/\<close> itself (and paths
  that begin with two slashes): the child test strips the origin \<open>/\<close> and then asks for another
  slash. The resolver does produce this origin, for a repository whose git directory is \<open>/.git\<close>.
\<close>

theorem root_origin_owns_nothing:
  "root_from_common_dir ''/.git'' = ''/'' \<and>
   (sq_origins q = [''/''] \<and> c \<noteq> CHR ''/'' \<longrightarrow> \<not> owns_path q (CHR ''/'' # c # p))"
proof -
  have "owning_origin_len q (CHR ''/'' # c # p) = None" if "sq_origins q = [''/'']" "c \<noteq> CHR ''/''"
    using that by (auto simp: owning_origin_len_None under_def)
  moreover have "root_from_common_dir ''/.git'' = ''/''" by code_simp
  ultimately show ?thesis by (simp add: owns_path_def)
qed

theorem root_origin_owns_nothing_witness:
  "\<not> owns_path \<lparr>sq_id = 1, sq_origins = [''/''], sq_name = None, sq_key = [], sq_tabs = [single_tab],
     sq_active_tab = 0\<rparr> ''/home''"
  using root_origin_owns_nothing [of "\<lparr>sq_id = 1, sq_origins = [''/''], sq_name = None, sq_key = [],
    sq_tabs = [single_tab], sq_active_tab = 0\<rparr>" "CHR ''h''" "''ome''"] by simp

lemma filter_zip_unique:
  assumes "k < length ts" "P (ts ! k)" "\<And>j. j < length ts \<Longrightarrow> j \<noteq> k \<Longrightarrow> \<not> P (ts ! j)"
  shows "filter (\<lambda>(i, t). P t) (zip [0..<length ts] ts) = [(k, ts ! k)]"
proof -
  let ?f = "filter (\<lambda>(i, t). P t) (zip [0..<length ts] ts)"
  have s: "set ?f = {(k, ts ! k)}" using assms by (force simp: set_zip)
  moreover have "distinct ?f" by (simp add: distinct_zipI1)
  ultimately have "length ?f = 1" using distinct_card [of ?f] by simp
  then obtain x where "?f = [x]" by (auto simp: length_Suc_conv)
  with s show ?thesis by simp
qed

text \<open>
  The three identifier forms of a tab agree: the ordinal and the id its dictionary entry shows
  resolve back to it, and so does its name when no other tab of the squad has it.
\<close>

theorem resolve_tab_dict:
  assumes "distinct (map tab_id (sq_tabs q))" "k < length (sq_tabs q)"
  shows "\<exists>e. tab_dict q k = Some e \<and> resolve_tab q (SelIndex (td_ordinal e)) = Inr k \<and>
     resolve_tab q (SelId (td_tab_id e)) = Inr k \<and>
     (\<forall>n. td_name e = Some n \<and> (\<forall>j<length (sq_tabs q). j \<noteq> k \<longrightarrow> tab_name (sq_tabs q ! j) \<noteq> Some n) \<longrightarrow>
        resolve_tab q (SelName n) = Inr k)"
proof -
  have "position (\<lambda>t. tab_id t = tab_id (sq_tabs q ! k)) (sq_tabs q) = Some k"
    using assms by (auto simp: position_Some_iff distinct_conv_nth)
  moreover have "filter (\<lambda>(i, t). tab_name t = Some n) (zip [0..<length (sq_tabs q)] (sq_tabs q)) = [(k, sq_tabs q ! k)]"
    if "tab_name (sq_tabs q ! k) = Some n" "\<forall>j<length (sq_tabs q). j \<noteq> k \<longrightarrow> tab_name (sq_tabs q ! j) \<noteq> Some n" for n
    using that assms(2) by (intro filter_zip_unique) auto
  ultimately show ?thesis using assms(2) by (simp add: tab_dict_def resolve_tab_def)
qed

theorem resolve_tab_dict_witness:
  "resolve_tab (ss_squads two_squads ! 1) (SelName ''log'') = Inr 0"
proof -
  let ?q = "ss_squads two_squads ! 1"
  have d: "distinct (map tab_id (sq_tabs ?q))" "0 < length (sq_tabs ?q)"
    by (simp_all add: two_squads_def second_tab_def third_tab_def)
  from resolve_tab_dict [OF d] obtain e where e: "tab_dict ?q 0 = Some e"
    "\<forall>n. td_name e = Some n \<and> (\<forall>j<length (sq_tabs ?q). j \<noteq> 0 \<longrightarrow> tab_name (sq_tabs ?q ! j) \<noteq> Some n) \<longrightarrow>
        resolve_tab ?q (SelName n) = Inr 0" by blast
  moreover have "td_name e = Some ''log''" using e(1) by (auto simp: tab_dict_def two_squads_def second_tab_def)
  moreover have "\<forall>j<length (sq_tabs ?q). j \<noteq> 0 \<longrightarrow> tab_name (sq_tabs ?q ! j) \<noteq> Some ''log''"
    by (auto simp: two_squads_def third_tab_def less_Suc_eq)
  ultimately show ?thesis by blast
qed

text \<open>
  Two rows of the sideline show the same name exactly when both the last and the last but one
  segment of their roots agree; so a shared base name is told apart by the parent segment, and
  roots that share both stay indistinguishable.
\<close>

theorem display_names_clash:
  assumes "i < length cwds" "j < length cwds" "i \<noteq> j"
  shows "display_names cwds ! i = display_names cwds ! j \<longleftrightarrow>
    base_name (cwds ! i) = base_name (cwds ! j) \<and> parent_seg (cwds ! i) = parent_seg (cwds ! j)"
proof (cases "base_name (cwds ! i) = base_name (cwds ! j)")
  case False
  then show ?thesis using last_segment_display assms(1,2) by metis
next
  case True
  have dup: "\<exists>j'<length cwds. j' \<noteq> i \<and> base_name (cwds ! j') = base_name (cwds ! i)"
    "\<exists>i'<length cwds. i' \<noteq> j \<and> base_name (cwds ! i') = base_name (cwds ! j)"
    using True assms by metis+
  have "parent @ CHR ''/'' # base_name (cwds ! j) \<noteq> base_name (cwds ! j)" for parent
    using base_name_no_slash [of "cwds ! j"] by (metis in_set_conv_decomp)
  with True show ?thesis
    using dup assms(1,2) by (auto simp: display_names_nth split: option.splits if_splits dest: sym)
qed

theorem display_names_clash_witness:
  "display_names [''/work/api'', ''/oss/api''] ! 0 \<noteq> display_names [''/work/api'', ''/oss/api''] ! 1"
proof -
  have "parent_seg ''/work/api'' \<noteq> parent_seg ''/oss/api''" by code_simp
  with display_names_clash [of 0 "[''/work/api'', ''/oss/api'']" 1] show ?thesis by simp
qed

text \<open>
  C18. Resolution is paid once per directory: whatever git answers later, a directory that was
  resolved keeps the key it got first, and resolving one directory never changes another's.
  The first answer is the root above the common \<open>.git\<close> directory, or the directory itself when it
  is missing or git fails.
\<close>

theorem resolve_cached:
  assumes "resolve is_dir common r cwd = (key, r')"
  shows "resolve is_dir' common' r' cwd = (key, r') \<and>
     (\<forall>other. other \<noteq> cwd \<longrightarrow> cached r' other = cached r other) \<and>
     (cached r cwd = None \<longrightarrow>
        key = (case common cwd of Some c \<Rightarrow> if is_dir cwd then root_from_common_dir c else cwd | None \<Rightarrow> cwd))"
  using assms
  by (auto simp: resolve_def cached_def resolver_insert_def resolve_key_def canonical_root_def Let_def
      split: option.splits if_splits)

theorem resolve_cached_witness:
  "fst (resolve (\<lambda>_. False) (\<lambda>_. None)
     (snd (resolve (\<lambda>_. True) (\<lambda>_. Some ''/code/fno/.git'') \<lparr>rs_cache = Map.empty\<rparr> ''/code/fno/src''))
     ''/code/fno/src'') = ''/code/fno''"
proof -
  obtain key r' where r: "resolve (\<lambda>_. True) (\<lambda>_. Some ''/code/fno/.git'') \<lparr>rs_cache = Map.empty\<rparr> ''/code/fno/src'' = (key, r')"
    by fastforce
  have "root_from_common_dir ''/code/fno/.git'' = ''/code/fno''" by code_simp
  with resolve_cached [OF r, of "\<lambda>_. False" "\<lambda>_. None"] show ?thesis by (simp add: r cached_def)
qed

end
