(* ===== verification/Templates.thy ===== *)
theory Templates
  imports Squad_Props
begin

text \<open>
  Layout templates, \<open>crates/fno/src/templates.rs\<close>, with the parts of the server that use them:
  named shapes with numbered slots, typed layout trees with their validation and realization, and
  the automatic reflow of a tab (\<open>server/reflow.rs\<close>). The wire types are those of \<open>proto.rs\<close> and
  \<open>proto_slot.rs\<close>. \<open>None\<close> stands for the panics of \<open>expect\<close> and of an index.
\<close>

section \<open>Named templates\<close>

datatype TemplateName = MainLeft | MainTop | RowThirds | ColThirds | Grid2x2

datatype TemplateError = Arity nat nat bool

definition even_ratios :: "nat \<Rightarrow> fp list" where
  "even_ratios n =
     (let each = f32_div (Fin 1) (f32_round (of_nat n));
          rest = f32_sum (replicate (n - 1) each)
      in replicate (n - 1) each @ [f32_sub (Fin 1) rest])"

definition leaf_branch :: "Axis \<Rightarrow> nat \<Rightarrow> nat \<Rightarrow> Node" where
  "leaf_branch axis lo hi = Branch axis (zip (even_ratios (hi - lo)) (map Leaf [lo..<hi]))"

definition rest_node :: "Axis \<Rightarrow> nat \<Rightarrow> Node" where
  "rest_node axis k = (if k - 1 = 1 then Leaf 1 else leaf_branch axis 1 k)"

definition topology :: "TemplateName \<Rightarrow> nat \<Rightarrow> TemplateError + Node" where
  "topology name k =
     (case name of
        MainLeft \<Rightarrow>
          if k < 2 then Inl (Arity 2 k True)
          else Inr (Branch Horizontal [(half, Leaf 0), (half, rest_node Vertical k)])
      | MainTop \<Rightarrow>
          if k < 2 then Inl (Arity 2 k True)
          else Inr (Branch Vertical [(half, Leaf 0), (half, rest_node Horizontal k)])
      | RowThirds \<Rightarrow>
          if k \<noteq> 3 then Inl (Arity 3 k False) else Inr (leaf_branch Horizontal 0 3)
      | ColThirds \<Rightarrow>
          if k \<noteq> 3 then Inl (Arity 3 k False) else Inr (leaf_branch Vertical 0 3)
      | Grid2x2 \<Rightarrow>
          if k \<noteq> 4 then Inl (Arity 4 k False)
          else Inr (Branch Vertical
                 [(half, leaf_branch Horizontal 0 2), (half, leaf_branch Horizontal 2 4)]))"

definition pick_template :: "nat \<Rightarrow> Rect \<Rightarrow> TemplateName option" where
  "pick_template leaf_count vp =
     (if leaf_count = 2 \<or> leaf_count = 3
      then Some (if rcols vp \<ge> rrows vp then MainLeft else MainTop)
      else if leaf_count = 4 then Some Grid2x2 else None)"

section \<open>Typed layout trees\<close>

definition MAX_LAYOUT_LEAVES :: nat where "MAX_LAYOUT_LEAVES = 24"
definition MAX_LAYOUT_DEPTH :: nat where "MAX_LAYOUT_DEPTH = 16"

text \<open>A child is its weight and its tree (\<open>LayoutTreeChild\<close>).\<close>

datatype LayoutTreeSpec = Slot string | Split Axis "(fp \<times> LayoutTreeSpec) list"

type_synonym LayoutTreeChild = "fp \<times> LayoutTreeSpec"

datatype LayoutBinding = Anchor | Fno string | Shell

record PortalSlot =
  portal_index :: "8 word"
  portal_row :: string
  portal_harness :: "string option"
  portal_session_id :: "string option"

record LayoutSlot =
  slot_name :: string
  slot_binding :: LayoutBinding
  slot_cwd :: "string option"
  slot_portal :: "PortalSlot option"
  slot_pane_id :: "PaneId option"

record AnchoredLayoutSpec =
  spec_version :: nat
  spec_tree :: LayoutTreeSpec
  spec_slots :: "LayoutSlot list"

fun node_to_spec :: "Node \<Rightarrow> string list \<Rightarrow> LayoutTreeSpec option"
  and children_to_spec :: "children \<Rightarrow> string list \<Rightarrow> LayoutTreeChild list option" where
  "node_to_spec (Leaf i) slot_names = (if i < length slot_names then Some (Slot (slot_names ! i)) else None)"
| "node_to_spec (Branch axis cs) slot_names = map_option (Split axis) (children_to_spec cs slot_names)"
| "children_to_spec [] slot_names = Some []"
| "children_to_spec ((w, c) # cs) slot_names =
     (case node_to_spec c slot_names of
        None \<Rightarrow> None
      | Some t \<Rightarrow> map_option ((#) (w, t)) (children_to_spec cs slot_names))"

definition template_to_tree :: "TemplateName \<Rightarrow> string list \<Rightarrow> (TemplateError + LayoutTreeSpec) option" where
  "template_to_tree name slot_names =
     (case topology name (length slot_names) of
        Inl e \<Rightarrow> Some (Inl e)
      | Inr node \<Rightarrow> map_option Inr (node_to_spec node slot_names))"

definition spec_weight :: "fp \<Rightarrow> nat \<Rightarrow> fp \<Rightarrow> fp" where
  "spec_weight wsum n weight =
     (let each = (if fp_lt (Fin 0) wsum then f32_div (Fin 1) (f32_round (of_nat n)) else Fin 0)
      in if fp_lt (Fin 0) wsum then f32_div weight wsum else each)"

fun realize_spec_tree :: "LayoutTreeSpec \<Rightarrow> (string \<rightharpoonup> PaneId) \<Rightarrow> Node option"
  and realize_children :: "LayoutTreeChild list \<Rightarrow> (string \<rightharpoonup> PaneId) \<Rightarrow> Node list option" where
  "realize_spec_tree (Slot name) pane_of = map_option Leaf (pane_of name)"
| "realize_spec_tree (Split axis cs) pane_of =
     (let wsum = f32_sum (map fst cs)
      in map_option (\<lambda>ns. Branch axis (zip (map (spec_weight wsum (length cs) \<circ> fst) cs) ns))
           (realize_children cs pane_of))"
| "realize_children [] pane_of = Some []"
| "realize_children ((w, t) # cs) pane_of =
     (case realize_spec_tree t pane_of of
        None \<Rightarrow> None
      | Some n \<Rightarrow> map_option ((#) n) (realize_children cs pane_of))"

section \<open>Validation\<close>

datatype SpecError =
    LeafCount nat | Depth nat | FewChildren nat | BadWeight | AnchorCount nat
  | UnreferencedSlot string | UnknownSlot string | DuplicateReference string | Version nat

fun count_leaves :: "LayoutTreeSpec \<Rightarrow> nat" and count_leaves_all :: "LayoutTreeChild list \<Rightarrow> nat" where
  "count_leaves (Slot name) = 1"
| "count_leaves (Split axis cs) = count_leaves_all cs"
| "count_leaves_all [] = 0"
| "count_leaves_all ((w, t) # cs) = count_leaves t + count_leaves_all cs"

fun spec_depth :: "LayoutTreeSpec \<Rightarrow> nat" and max_depth :: "LayoutTreeChild list \<Rightarrow> nat" where
  "spec_depth (Slot name) = 1"
| "spec_depth (Split axis cs) = 1 + max_depth cs"
| "max_depth [] = 0"
| "max_depth ((w, t) # cs) = max (spec_depth t) (max_depth cs)"

fun validate_node :: "LayoutTreeSpec \<Rightarrow> SpecError + unit"
  and validate_children :: "LayoutTreeChild list \<Rightarrow> SpecError + unit" where
  "validate_node (Slot name) = Inr ()"
| "validate_node (Split axis cs) =
     (if length cs < 2 then Inl (FewChildren (length cs)) else validate_children cs)"
| "validate_children [] = Inr ()"
| "validate_children ((w, t) # cs) =
     (if \<not> fp_is_finite w \<or> fp_le w (Fin 0) then Inl BadWeight
      else case validate_node t of Inl e \<Rightarrow> Inl e | Inr _ \<Rightarrow> validate_children cs)"

fun collect_refs :: "LayoutTreeSpec \<Rightarrow> string list"
  and collect_refs_all :: "LayoutTreeChild list \<Rightarrow> string list" where
  "collect_refs (Slot name) = [name]"
| "collect_refs (Split axis cs) = collect_refs_all cs"
| "collect_refs_all [] = []"
| "collect_refs_all ((w, t) # cs) = collect_refs t @ collect_refs_all cs"

text \<open>The loop over the slots: the anchors counted and the names seen.\<close>

fun scan_slots :: "LayoutSlot list \<Rightarrow> nat \<Rightarrow> string set \<Rightarrow> SpecError + (nat \<times> string set)" where
  "scan_slots [] anchors defined = Inr (anchors, defined)"
| "scan_slots (slot # slots) anchors defined =
     (let anchors' = (if slot_binding slot = Anchor then anchors + 1 else anchors)
      in if slot_name slot \<in> defined then Inl (DuplicateReference (slot_name slot))
         else scan_slots slots anchors' (insert (slot_name slot) defined))"

text \<open>
  The references are counted in a hash map, which hands out its keys in no specified order:
  \<open>keys_order\<close> puts the names that occur in an order of its own.
\<close>

definition validate_anchored_spec ::
  "(string list \<Rightarrow> string list) \<Rightarrow> AnchoredLayoutSpec \<Rightarrow> SpecError + unit" where
  "validate_anchored_spec keys_order spec =
     (if spec_version spec \<noteq> 1 then Inl (Version (spec_version spec))
      else let n = count_leaves (spec_tree spec) in
      if n = 0 \<or> n > MAX_LAYOUT_LEAVES then Inl (LeafCount n)
      else let d = spec_depth (spec_tree spec) in
      if d > MAX_LAYOUT_DEPTH then Inl (Depth d)
      else case validate_node (spec_tree spec) of
        Inl e \<Rightarrow> Inl e
      | Inr _ \<Rightarrow>
      case scan_slots (spec_slots spec) 0 {} of
        Inl e \<Rightarrow> Inl e
      | Inr (anchors, defined) \<Rightarrow>
      if anchors \<noteq> 1 then Inl (AnchorCount anchors)
      else let refs = collect_refs (spec_tree spec); keys = keys_order (remdups refs) in
      case List.find (\<lambda>name. name \<notin> defined) keys of
        Some name \<Rightarrow> Inl (UnknownSlot name)
      | None \<Rightarrow>
      case List.find (\<lambda>name. count_list refs name > 1) keys of
        Some name \<Rightarrow> Inl (DuplicateReference name)
      | None \<Rightarrow>
      case List.find (\<lambda>slot. count_list refs (slot_name slot) = 0) (spec_slots spec) of
        Some slot \<Rightarrow> Inl (UnreferencedSlot (slot_name slot))
      | None \<Rightarrow> Inr ())"

section \<open>Reflow\<close>

fun substitute_leaves :: "Node \<Rightarrow> (nat \<rightharpoonup> PaneId) \<Rightarrow> Node"
  and substitute_children :: "children \<Rightarrow> (nat \<rightharpoonup> PaneId) \<Rightarrow> children" where
  "substitute_leaves (Leaf slot) pane_of = Leaf (case pane_of slot of Some p \<Rightarrow> p | None \<Rightarrow> slot)"
| "substitute_leaves (Branch axis cs) pane_of = Branch axis (substitute_children cs pane_of)"
| "substitute_children [] pane_of = []"
| "substitute_children ((r, c) # cs) pane_of = (r, substitute_leaves c pane_of) # substitute_children cs pane_of"

definition flat_row :: "PaneId list \<Rightarrow> Node" where
  "flat_row ps =
     (if length ps = 1 then Leaf (ps ! 0) else Branch Horizontal (zip (even_ratios (length ps)) (map Leaf ps)))"

definition tab_index_by_id :: "Session \<Rightarrow> nat \<Rightarrow> TabId \<Rightarrow> nat option" where
  "tab_index_by_id s sid tid =
     (case squad s sid of None \<Rightarrow> None | Some q \<Rightarrow> position (\<lambda>t. tab_id t = tid) (sq_tabs q))"

text \<open>\<open>tab_rect\<close> is the viewport the server keeps for the tab.\<close>

definition reflow_tab ::
  "Rect \<Rightarrow> Session \<Rightarrow> nat \<Rightarrow> TabId \<Rightarrow> TemplateName \<Rightarrow> ((TemplateError + unit) \<times> Session) option" where
  "reflow_tab tab_rect s sid tid template =
     (case (tab_index_by_id s sid tid, squad s sid) of
        (Some ti, Some q) \<Rightarrow>
          (let leaf_ids = leaves (tab_root (sq_tabs q ! ti))
           in case topology template (length leaf_ids) of
                Inl e \<Rightarrow> Some (Inl e, s)
              | Inr shape \<Rightarrow>
                  if any_below_min shape tab_rect then Some (Inr (), s)
                  else let pane_of = map_of (zip [0..<length leaf_ids] leaf_ids);
                           new_root = substitute_leaves shape pane_of
                       in Some (Inr (), squad_mut s sid
                            (\<lambda>q. q\<lparr>sq_tabs := (sq_tabs q)[ti := (sq_tabs q ! ti)\<lparr>tab_root := new_root\<rparr>]\<rparr>)))
      | _ \<Rightarrow> None)"

definition maybe_reflow :: "Rect \<Rightarrow> Session \<Rightarrow> nat \<Rightarrow> TabId \<Rightarrow> Session option" where
  "maybe_reflow tab_rect s sid tid =
     (case (tab_index_by_id s sid tid, squad s sid) of
        (Some ti, Some q) \<Rightarrow>
          (case pick_template (length (leaves (tab_root (sq_tabs q ! ti)))) tab_rect of
             None \<Rightarrow> Some s
           | Some template \<Rightarrow> map_option snd (reflow_tab tab_rect s sid tid template))
      | _ \<Rightarrow> None)"

end
