(* ===== verification/Template_Props.thy ===== *)
theory Template_Props
  imports Templates
begin

text \<open>
  Properties of the layout templates: the slots of every shape, what validation accepts, the
  realization of a validated tree and its use as a graft, and the automatic reflow of a tab.
\<close>

section \<open>Shapes\<close>

lemma length_even_ratios [simp]: "0 < n \<Longrightarrow> length (even_ratios n) = n"
  by (simp add: even_ratios_def Let_def)

lemma leaves_walk_zip_Leaf [simp]: "length rs = length xs \<Longrightarrow> leaves_walk (zip rs (map Leaf xs)) = xs"
  by (induction rs xs rule: list_induct2) auto

lemma wf_children_zip_Leaf [simp]: "wf_children a (zip rs (map Leaf xs))"
  by (auto simp: wf_children_iff dest!: set_zip_rightD)

lemma leaf_branch_ok:
  "lo + 2 \<le> hi \<Longrightarrow> leaves (leaf_branch a lo hi) = [lo..<hi] \<and> (p \<noteq> Some a \<longrightarrow> wf_node p (leaf_branch a lo hi))"
  by (auto simp: leaf_branch_def)

lemma rest_node_ok:
  "2 \<le> k \<Longrightarrow> leaves (rest_node a k) = [1..<k] \<and> (p \<noteq> Some a \<longrightarrow> wf_node p (rest_node a k))"
  using leaf_branch_ok [of 1 k a p] by (cases "k = 2") (auto simp: rest_node_def upt_rec)

lemma main_branch_ok:
  assumes "2 \<le> k" "a \<noteq> b" and n: "n = Branch a [(half, Leaf 0), (half, rest_node b k)]"
  shows "leaves n = [0..<k] \<and> wf_node None n"
  using rest_node_ok [of k b "Some a"] assms upt_conv_Cons [of 0 k] by simp

lemma grid_ok: "leaves (leaf_branch Horizontal 0 2) @ leaves (leaf_branch Horizontal 2 4) = [0..<4]"
  by (simp add: leaf_branch_ok upt_rec)

lemma topology_ok: "topology name k = Inr n \<Longrightarrow> leaves n = [0..<k] \<and> wf_node None n"
  using leaf_branch_ok [of 0 3 _ None] leaf_branch_ok [of 0 2 Horizontal "Some Vertical"] grid_ok
    leaf_branch_ok [of 2 4 Horizontal "Some Vertical"] main_branch_ok [of k Horizontal Vertical n]
    main_branch_ok [of k Vertical Horizontal n]
  by (cases name) (auto simp: topology_def split: if_splits)

lemma leaves_substitute:
  "leaves (substitute_leaves n m) = map (\<lambda>i. case m i of Some p \<Rightarrow> p | None \<Rightarrow> i) (leaves n)"
  and leaves_substitute_children:
  "leaves_walk (substitute_children cs m) = map (\<lambda>i. case m i of Some p \<Rightarrow> p | None \<Rightarrow> i) (leaves_walk cs)"
  by (induction n and cs rule: leaves_leaves_walk.induct) auto

lemma substitute_children_ratios [simp]:
  "map fst (substitute_children cs m) = map fst cs" "length (substitute_children cs m) = length cs"
  by (induction cs) auto

lemma wf_substitute [simp]: "wf_node p (substitute_leaves n m) = wf_node p n"
  and wf_substitute_children [simp]: "wf_children a (substitute_children cs m) = wf_children a cs"
  by (induction p n and a cs rule: wf_node_wf_children.induct) auto

lemma sums_substitute [simp]: "sums_ok (substitute_leaves n m) = sums_ok n"
  and sums_substitute_children [simp]: "sums_ok_children (substitute_children cs m) = sums_ok_children cs"
  by (induction n and cs rule: leaves_leaves_walk.induct) (auto simp: sum_off_def)

lemma slots_to_panes:
  "length xs = k \<Longrightarrow> map (\<lambda>i. case map_of (zip [0..<k] xs) i of Some p \<Rightarrow> p | None \<Rightarrow> i) [0..<k] = xs"
proof (rule nth_equalityI)
  fix i assume k: "length xs = k"
    and i: "i < length (map (\<lambda>i. case map_of (zip [0..<k] xs) i of Some p \<Rightarrow> p | None \<Rightarrow> i) [0..<k])"
  then have "map_of (zip [0..<k] xs) ([0..<k] ! i) = Some (xs ! i)" by (intro map_of_zip_nth) auto
  with i show "map (\<lambda>i. case map_of (zip [0..<k] xs) i of Some p \<Rightarrow> p | None \<Rightarrow> i) [0..<k] ! i = xs ! i" by simp
qed simp

lemma reflow_root:
  assumes "topology name (length ids) = Inr shape" "root' = substitute_leaves shape (map_of (zip [0..<length ids] ids))"
  shows "leaves root' = ids \<and> wf_node None root'"
  using topology_ok [OF assms(1)] slots_to_panes [OF refl, of ids] by (simp add: assms(2) leaves_substitute)

text \<open>The shapes that reflow uses have ratio sums within the tolerance of the checker.\<close>

lemma even_pair: "even_ratios 2 = [half, half]"
  by code_simp

lemma half_pair_sum: "\<not> sum_off [(half, m), (half, n)]"
proof -
  have "\<not> sum_off [(half, Leaf 0), (half, Leaf 0)]" by code_simp
  then show ?thesis by (simp add: sum_off_def)
qed

lemma leaf_pair_sums: "j = i + 2 \<Longrightarrow> sums_ok (leaf_branch a i j)"
  by (simp add: leaf_branch_def even_pair upt_rec half_pair_sum)

lemma picked_sums:
  "pick_template k vp = Some name \<Longrightarrow> \<exists>n. topology name k = Inr n \<and> sums_ok n"
  by (auto simp: pick_template_def topology_def rest_node_def leaf_pair_sums half_pair_sum split: if_splits)

section \<open>Reflow of a tab\<close>

lemma tab_index_Some:
  "tab_index_by_id s sid tid = Some ti \<longleftrightarrow> (\<exists>q. squad s sid = Some q \<and> position (\<lambda>t. tab_id t = tid) (sq_tabs q) = Some ti)"
  by (auto simp: tab_index_by_id_def split: option.splits)

lemma exchange_mset:
  assumes "Q' + {#x#} = Q + {#y#}" "A + Q = C + Q'"
  shows "add_mset x A = add_mset y C"
proof -
  have "A + {#x#} + Q = C + {#y#} + Q" using assms by (metis add.assoc add.commute)
  then show ?thesis by simp
qed

text \<open>Replacing the tree of one tab by a sound tree over the same panes keeps the session sound.\<close>

lemma session_ok_reroot:
  assumes ok: "session_ok s" and q: "squad s sid = Some q" and ti: "ti < length (sq_tabs q)"
    and n: "wf_node None n" "leaves n = panes (sq_tabs q ! ti)"
  shows "session_ok (squad_mut s sid (\<lambda>q. q\<lparr>sq_tabs := (sq_tabs q)[ti := (sq_tabs q ! ti)\<lparr>tab_root := n\<rparr>]\<rparr>))"
proof -
  have d: "distinct (map sq_id (ss_squads s))" using ok by (simp add: session_ok_def)
  from q squad_Some [OF d] obtain pos where pos: "pos < length (ss_squads s)" "sq_id (ss_squads s ! pos) = sid"
      "ss_squads s ! pos = q" by (auto simp: in_set_conv_nth)
  let ?t = "(sq_tabs q ! ti)\<lparr>tab_root := n\<rparr>"
  let ?q = "q\<lparr>sq_tabs := (sq_tabs q)[ti := ?t]\<rparr>"
  let ?qs = "(ss_squads s)[pos := ?q]"
  have ids: "map sq_id ?qs = map sq_id (ss_squads s)" using pos by (simp add: map_update list_update_same_conv)
  have m: "add_mset (sq_tabs q ! ti) (mset (tabs_of ?qs)) = add_mset ?t (mset (all_tabs s))"
  proof -
    have "mset (sq_tabs ?q) + {#sq_tabs q ! ti#} = mset (sq_tabs q) + {#?t#}"
      using ti by (simp add: mset_update)
    moreover have "mset (tabs_of ?qs) + mset (sq_tabs q) = mset (all_tabs s) + mset (sq_tabs ?q)"
      using mset_tabs_of_update [OF pos(1), of ?q] pos(3) by (simp only:)
    ultimately show ?thesis by (rule exchange_mset)
  qed
  obtain rest where rest: "mset (all_tabs s) = add_mset (sq_tabs q ! ti) (mset rest)"
  proof -
    have "sq_tabs q ! ti \<in># mset (all_tabs s)" using q squad_Some [OF d] ti nth_mem by (fastforce simp: tabs_of_def)
    then show ?thesis using that by (metis ex_mset insert_DiffM)
  qed
  with m have m': "mset (tabs_of ?qs) = mset (?t # rest)" by simp
  have "tabs_ok (ss_next_tab_id s) (sq_tabs q ! ti # rest)"
    using ok rest tabs_ok_perm [of "all_tabs s" "sq_tabs q ! ti # rest"] by (simp add: session_ok_def)
  then have "tabs_ok (ss_next_tab_id s) (?t # rest)" using n by (auto simp: tabs_ok_def tab_ok_def)
  with m' have "tabs_ok (ss_next_tab_id s) (tabs_of ?qs)" using tabs_ok_perm by blast
  moreover have "\<forall>q\<in>set ?qs. squad_ok q"
    using ok pos by (auto simp: session_ok_def squad_ok_def dest!: set_update_subset_insert [THEN subsetD])
  moreover have "sq_id ` set ?qs = sq_id ` set (ss_squads s)" using ids by (metis list.set_map)
  moreover have "?qs = [] \<longleftrightarrow> ss_squads s = []" by simp
  ultimately show ?thesis
    using ok d ids pos(3) update_first_nth [OF d pos(1,2)]
    by (auto simp: session_ok_def squad_mut_def split: option.splits)
qed

lemma reflow_tab_ok:
  assumes ok: "session_ok s" and i: "tab_index_by_id s sid tid = Some ti" and q: "squad s sid = Some q"
  shows "\<exists>r s'. reflow_tab vp s sid tid name = Some (r, s') \<and> session_ok s' \<and>
    (s' = s \<or> (\<exists>shape n. topology name (length (panes (sq_tabs q ! ti))) = Inr shape \<and> \<not> any_below_min shape vp \<and>
       n = substitute_leaves shape (map_of (zip [0..<length (panes (sq_tabs q ! ti))] (panes (sq_tabs q ! ti)))) \<and>
       wf_node None n \<and> leaves n = panes (sq_tabs q ! ti) \<and>
       s' = squad_mut s sid (\<lambda>q. q\<lparr>sq_tabs := (sq_tabs q)[ti := (sq_tabs q ! ti)\<lparr>tab_root := n\<rparr>]\<rparr>)))"
proof (cases "topology name (length (panes (sq_tabs q ! ti)))")
  case (Inl e)
  with ok i q show ?thesis by (simp add: reflow_tab_def Let_def)
next
  case (Inr shape)
  have ti: "ti < length (sq_tabs q)" using i q by (auto simp: tab_index_Some dest: position_SomeD)
  note n = reflow_root [OF Inr refl]
  show ?thesis
    using session_ok_reroot [OF ok q ti, of "substitute_leaves shape (map_of (zip [0..<length (panes (sq_tabs q ! ti))] (panes (sq_tabs q ! ti))))"]
      n ok i q Inr by (cases "any_below_min shape vp") (simp_all add: reflow_tab_def Let_def)
qed

lemma sound_checked: "tab_ok tab \<Longrightarrow> sums_ok (tab_root tab) \<Longrightarrow> check_invariants tab = Inr ()"
  using inv_walk_result [of "tab_root tab" "{}" "[]" None]
  by (auto simp: check_invariants_def tab_ok_def Let_def split: if_splits)

lemma layout_substitute:
  "map snd (layout_into (substitute_leaves n m) vp) = map snd (layout_into n vp)"
  and layout_substitute_children:
  "map snd (layout_children (substitute_children cs m) as) = map snd (layout_children cs as)"
  by (induction n vp and cs as rule: layout_into_layout_children.induct)
     (auto simp: child_areas_def Let_def)

lemma below_min_substitute [simp]: "any_below_min (substitute_leaves n m) vp = any_below_min n vp"
proof -
  have "any_below_min n vp \<longleftrightarrow> (\<exists>r\<in>set (map snd (layout n vp)). below_min r)" for n
    by (simp add: any_below_min_def)
  then show ?thesis by (simp only: layout_def layout_substitute)
qed

section \<open>Layout trees\<close>

text \<open>Every split has at least two children, each with a finite positive weight.\<close>

fun splits_ok :: "LayoutTreeSpec \<Rightarrow> bool" and splits_ok_all :: "LayoutTreeChild list \<Rightarrow> bool" where
  "splits_ok (Slot name) = True"
| "splits_ok (Split axis cs) = (2 \<le> length cs \<and> splits_ok_all cs)"
| "splits_ok_all [] = True"
| "splits_ok_all ((w, t) # cs) = ((\<exists>x. w = Fin x \<and> 0 < x) \<and> splits_ok t \<and> splits_ok_all cs)"

lemma weight_ok: "fp_is_finite w \<and> \<not> fp_le w (Fin 0) \<longleftrightarrow> (\<exists>x. w = Fin x \<and> 0 < x)"
  by (cases w) (auto simp: fp_le_def)

lemma validate_node_iff: "validate_node t = Inr () \<longleftrightarrow> splits_ok t"
  and validate_children_iff: "validate_children cs = Inr () \<longleftrightarrow> splits_ok_all cs"
  by (induction t and cs rule: validate_node_validate_children.induct)
     (auto simp: weight_ok [symmetric] split: sum.splits)

lemma count_leaves_refs: "count_leaves t = length (collect_refs t)"
  and count_leaves_refs_all: "count_leaves_all cs = length (collect_refs_all cs)"
  by (induction t and cs rule: count_leaves_count_leaves_all.induct) auto

definition anchors :: "LayoutSlot list \<Rightarrow> nat" where
  "anchors slots = length (filter (\<lambda>slot. slot_binding slot = Anchor) slots)"

lemma scan_slots_iff:
  "scan_slots slots a defined = Inr (a', defined') \<longleftrightarrow>
     distinct (map slot_name slots) \<and> set (map slot_name slots) \<inter> defined = {} \<and> a' = a + anchors slots \<and>
     defined' = defined \<union> set (map slot_name slots)"
  by (induction slots a defined rule: scan_slots.induct) (auto simp: Let_def anchors_def)

lemma distinct_count_list_le: "distinct xs \<Longrightarrow> count_list xs r \<le> Suc 0"
  by (induction xs) (auto simp: count_list_0_iff)

lemma count_one_distinct: "\<forall>r\<in>set xs. count_list xs r \<le> Suc 0 \<Longrightarrow> distinct xs"
proof (induction xs)
  case (Cons x xs)
  then have "count_list (x # xs) x \<le> Suc 0" by (metis list.set_intros(1))
  then have "x \<notin> set xs" by (simp add: count_list_0_iff)
  moreover have "\<forall>r\<in>set xs. count_list xs r \<le> Suc 0"
    using Cons.prems \<open>x \<notin> set xs\<close> by (metis count_list.simps(2) list.set_intros(2))
  ultimately show ?case using Cons.IH by simp
qed simp

lemma mset_eq_iff_covers:
  assumes "distinct names"
  shows "mset refs = mset names \<longleftrightarrow>
    (\<forall>r\<in>set refs. r \<in> set names \<and> count_list refs r \<le> 1) \<and> (\<forall>r\<in>set names. count_list refs r \<noteq> 0)"
proof
  assume m: "mset refs = mset names"
  then have "set refs = set names" by (rule mset_eq_setD)
  moreover from m assms have "distinct refs" using mset_eq_imp_distinct_iff by blast
  ultimately show "(\<forall>r\<in>set refs. r \<in> set names \<and> count_list refs r \<le> 1) \<and> (\<forall>r\<in>set names. count_list refs r \<noteq> 0)"
    by (simp add: distinct_count_list_le count_list_0_iff)
next
  assume a: "(\<forall>r\<in>set refs. r \<in> set names \<and> count_list refs r \<le> 1) \<and> (\<forall>r\<in>set names. count_list refs r \<noteq> 0)"
  then have "set refs = set names" by (auto simp: count_list_0_iff)
  moreover have "distinct refs" using a by (simp add: count_one_distinct)
  ultimately show "mset refs = mset names" using assms set_eq_iff_mset_eq_distinct by blast
qed

lemma realize_ok:
  "splits_ok t \<Longrightarrow> \<forall>r\<in>set (collect_refs t). pane_of r \<noteq> None \<Longrightarrow>
     \<exists>n. realize_spec_tree t pane_of = Some n \<and> leaves n = map (the \<circ> pane_of) (collect_refs t) \<and> populated n"
  and realize_all_ok:
  "splits_ok_all cs \<Longrightarrow> \<forall>r\<in>set (collect_refs_all cs). pane_of r \<noteq> None \<Longrightarrow>
     \<exists>ns. realize_children cs pane_of = Some ns \<and> length ns = length cs \<and>
       concat (map leaves ns) = map (the \<circ> pane_of) (collect_refs_all cs) \<and> list_all populated ns"
proof (induction t pane_of and cs pane_of rule: realize_spec_tree_realize_children.induct)
  case (2 axis cs pane_of)
  then obtain ns where ns: "realize_children cs pane_of = Some ns" "length ns = length cs"
    "concat (map leaves ns) = map (the \<circ> pane_of) (collect_refs_all cs)" "list_all populated ns" by auto
  have "populated_children (zip ws ns)" for ws
    using ns(4) by (auto simp: populated_children_iff list_all_iff dest!: set_zip_rightD)
  moreover have "leaves_walk (zip ws ns) = concat (map leaves ns)" if "length ws = length ns" for ws
    using that by (induction ws ns rule: list_induct2) auto
  moreover have "zip (map f cs) ns \<noteq> []" for f :: "LayoutTreeChild \<Rightarrow> fp"
    using ns(2) 2(2) by (cases cs; cases ns) auto
  ultimately show ?case using ns(1-3) by (simp add: Let_def)
qed auto

lemma the_image_iff: "S \<subseteq> dom m \<Longrightarrow> p \<in> (the \<circ> m) ` S \<longleftrightarrow> Some p \<in> m ` S"
  by (auto simp: image_iff dom_def subset_iff) (metis option.sel)+

lemma inj_on_the: "S \<subseteq> dom m \<Longrightarrow> inj_on m S \<Longrightarrow> inj_on (the \<circ> m) S"
  by (auto simp: inj_on_def dom_def subset_iff) (metis option.sel)

lemma find_keys_None:
  "set (keys (remdups refs)) = set refs \<Longrightarrow> List.find P (keys (remdups refs)) = None \<longleftrightarrow> (\<forall>r\<in>set refs. \<not> P r)"
  by (auto simp: find_None_iff)

lemma validate_anchored_spec_iff_lemma:
  assumes "\<And>xs. set (keys_order xs) = set xs"
  shows "validate_anchored_spec keys_order spec = Inr () \<longleftrightarrow>
    spec_version spec = 1 \<and> count_leaves (spec_tree spec) \<le> MAX_LAYOUT_LEAVES \<and>
    spec_depth (spec_tree spec) \<le> MAX_LAYOUT_DEPTH \<and> splits_ok (spec_tree spec) \<and>
    distinct (map slot_name (spec_slots spec)) \<and> anchors (spec_slots spec) = 1 \<and>
    mset (collect_refs (spec_tree spec)) = mset (map slot_name (spec_slots spec))" (is "?v \<longleftrightarrow> ?r")
proof -
  let ?refs = "collect_refs (spec_tree spec)" and ?names = "map slot_name (spec_slots spec)"
  let ?covers = "(\<forall>r\<in>set ?refs. r \<in> set ?names \<and> count_list ?refs r \<le> 1) \<and> (\<forall>r\<in>set ?names. count_list ?refs r \<noteq> 0)"
  have k: "set (keys_order (remdups ?refs)) = set ?refs" using assms by simp
  have f: "List.find (\<lambda>slot. count_list ?refs (slot_name slot) = 0) (spec_slots spec) = None \<longleftrightarrow>
      (\<forall>r\<in>set ?names. count_list ?refs r \<noteq> 0)" by (auto simp: find_None_iff)
  have v: "?v \<longleftrightarrow> spec_version spec = 1 \<and> count_leaves (spec_tree spec) \<noteq> 0 \<and>
      count_leaves (spec_tree spec) \<le> MAX_LAYOUT_LEAVES \<and> spec_depth (spec_tree spec) \<le> MAX_LAYOUT_DEPTH \<and>
      splits_ok (spec_tree spec) \<and> (\<exists>d. scan_slots (spec_slots spec) 0 {} = Inr (1, d) \<and>
        List.find (\<lambda>name. name \<notin> d) (keys_order (remdups ?refs)) = None \<and>
        List.find (\<lambda>name. count_list ?refs name > 1) (keys_order (remdups ?refs)) = None \<and>
        List.find (\<lambda>slot. count_list ?refs (slot_name slot) = 0) (spec_slots spec) = None)"
    by (auto simp: validate_anchored_spec_def Let_def validate_node_iff [symmetric] not_less
        split: sum.splits option.splits if_splits)
  have "anchors (spec_slots spec) = 1 \<Longrightarrow> ?names \<noteq> []" by (auto simp: anchors_def)
  then have nz: "anchors (spec_slots spec) = 1 \<Longrightarrow> mset ?refs = mset ?names \<Longrightarrow> count_leaves (spec_tree spec) \<noteq> 0"
    by (auto simp: count_leaves_refs dest!: mset_eq_length)
  show ?thesis
    unfolding v scan_slots_iff find_keys_None [of keys_order, OF k] f
    using mset_eq_iff_covers [of ?names ?refs] nz by (auto simp: not_less)
qed

lemma compiled_shape:
  "\<forall>i\<in>set (leaves n). i < length slots \<and> pane_of (slots ! i) = m i \<and> m i \<noteq> None \<Longrightarrow>
     \<exists>t n'. node_to_spec n slots = Some t \<and> collect_refs t = map ((!) slots) (leaves n) \<and>
       realize_spec_tree t pane_of = Some n' \<and> same_shape n' (substitute_leaves n m)"
  and compiled_shape_children:
  "\<forall>i\<in>set (leaves_walk cs). i < length slots \<and> pane_of (slots ! i) = m i \<and> m i \<noteq> None \<Longrightarrow>
     \<exists>ts ns. children_to_spec cs slots = Some ts \<and> collect_refs_all ts = map ((!) slots) (leaves_walk cs) \<and>
       realize_children ts pane_of = Some ns \<and> length ts = length cs \<and> length ns = length cs \<and>
       (\<forall>ws. length ws = length ns \<longrightarrow> same_shape_children (zip ws ns) (substitute_children cs m))"
proof (induction n slots and cs slots rule: node_to_spec_children_to_spec.induct)
  case (2 axis cs slots)
  then obtain ts ns where "children_to_spec cs slots = Some ts" "collect_refs_all ts = map ((!) slots) (leaves_walk cs)"
    "realize_children ts pane_of = Some ns" "length ts = length cs" "length ns = length cs"
    "\<forall>ws. length ws = length ns \<longrightarrow> same_shape_children (zip ws ns) (substitute_children cs m)" by auto
  then show ?case by (simp add: Let_def)
next
  case (4 w c cs slots)
  from 4(3) have "\<forall>i\<in>set (leaves c). i < length slots \<and> pane_of (slots ! i) = m i \<and> m i \<noteq> None"
    "\<forall>i\<in>set (leaves_walk cs). i < length slots \<and> pane_of (slots ! i) = m i \<and> m i \<noteq> None" by auto
  with 4(1,2) obtain t n' ts ns where "node_to_spec c slots = Some t" "collect_refs t = map ((!) slots) (leaves c)"
    "realize_spec_tree t pane_of = Some n'" "same_shape n' (substitute_leaves c m)"
    "children_to_spec cs slots = Some ts" "collect_refs_all ts = map ((!) slots) (leaves_walk cs)"
    "realize_children ts pane_of = Some ns" "length ts = length cs" "length ns = length cs"
    "\<forall>ws. length ws = length ns \<longrightarrow> same_shape_children (zip ws ns) (substitute_children cs m)" by blast
  then show ?case by (auto simp: length_Suc_conv)
qed auto

section \<open>Properties\<close>

text \<open>
  Every shape of a template has one leaf per slot, numbered in order, and is a normalized tree;
  a slot count is refused exactly when the template cannot take it, and the error says what it
  takes.
\<close>

theorem topology_spec:
  "case topology name k of
     Inr n \<Rightarrow> leaves n = [0..<k] \<and> wf_node None n \<and>
       (case name of MainLeft \<Rightarrow> 2 \<le> k | MainTop \<Rightarrow> 2 \<le> k | RowThirds \<Rightarrow> k = 3 | ColThirds \<Rightarrow> k = 3 | Grid2x2 \<Rightarrow> k = 4)
   | Inl (Arity want got variadic) \<Rightarrow> got = k \<and> (if variadic then k < want else k \<noteq> want) \<and>
       (name, want, variadic) \<in> {(MainLeft, 2, True), (MainTop, 2, True), (RowThirds, 3, False),
         (ColThirds, 3, False), (Grid2x2, 4, False)}"
proof (cases "topology name k")
  case (Inr n)
  with topology_ok [OF this] show ?thesis by (auto simp: topology_def split: TemplateName.splits if_splits)
qed (auto simp: topology_def split: TemplateName.splits if_splits)

text \<open>
  C11. Reflowing a live tab of a sound session never panics and keeps the session sound. Either
  nothing changes, or exactly that tab gets a new tree: over the same panes in the same order, with
  its focus and name, every pane at least the minimum size, and accepted by the runtime checker.
\<close>

theorem maybe_reflow_spec:
  assumes "session_ok s" "squad s sid = Some q" "position (\<lambda>t. tab_id t = tid) (sq_tabs q) = Some ti"
  shows "\<exists>s'. maybe_reflow vp s sid tid = Some s' \<and> session_ok s' \<and>
    (s' = s \<or> (\<exists>n. leaves n = panes (sq_tabs q ! ti) \<and> \<not> any_below_min n vp \<and>
       check_invariants ((sq_tabs q ! ti)\<lparr>tab_root := n\<rparr>) = Inr () \<and>
       s' = squad_mut s sid (\<lambda>q. q\<lparr>sq_tabs := (sq_tabs q)[ti := (sq_tabs q ! ti)\<lparr>tab_root := n\<rparr>]\<rparr>)))"
proof (cases "pick_template (length (panes (sq_tabs q ! ti))) vp")
  case None
  with assms show ?thesis by (simp add: maybe_reflow_def tab_index_by_id_def)
next
  case (Some name)
  have i: "tab_index_by_id s sid tid = Some ti" using assms by (simp add: tab_index_Some)
  have ti: "ti < length (sq_tabs q)" using assms(3) by (auto dest: position_SomeD)
  have d: "distinct (map sq_id (ss_squads s))" using assms(1) by (simp add: session_ok_def)
  have "tab_ok (sq_tabs q ! ti)"
    using assms(1,2) squad_Some [OF d] ti nth_mem by (fastforce simp: session_ok_def tabs_ok_def tabs_of_def)
  moreover from picked_sums [OF Some] obtain shape where sh: "topology name (length (panes (sq_tabs q ! ti))) = Inr shape"
    "sums_ok shape" by blast
  moreover from reflow_tab_ok [OF assms(1) i assms(2), of vp name] obtain r s' where
    "reflow_tab vp s sid tid name = Some (r, s')" "session_ok s'" and
    "s' = s \<or> (\<exists>n. \<not> any_below_min shape vp \<and>
       n = substitute_leaves shape (map_of (zip [0..<length (panes (sq_tabs q ! ti))] (panes (sq_tabs q ! ti)))) \<and>
       wf_node None n \<and> leaves n = panes (sq_tabs q ! ti) \<and>
       s' = squad_mut s sid (\<lambda>q. q\<lparr>sq_tabs := (sq_tabs q)[ti := (sq_tabs q ! ti)\<lparr>tab_root := n\<rparr>]\<rparr>))"
    using sh(1) by auto
  ultimately show ?thesis
    using assms(2) i Some by (auto simp: maybe_reflow_def sound_checked tab_ok_def)
qed

definition trio_tab :: Tab where
  "trio_tab = \<lparr>tab_id = 1, tab_root = Branch Vertical [(half, Leaf 4), (Fin (1 / 4), Leaf 5), (Fin (1 / 4), Leaf 6)],
     tab_focus = 5, tab_name = None\<rparr>"

definition trio :: Session where
  "trio = \<lparr>ss_squads = [\<lparr>sq_id = 1, sq_origins = [''/home''], sq_name = None, sq_key = [], sq_tabs = [trio_tab],
     sq_active_tab = 0\<rparr>], ss_active_squad = Some 1, ss_next_tab_id = 1\<rparr>"

theorem maybe_reflow_spec_witness:
  "\<exists>s'. maybe_reflow screen trio 1 1 = Some s' \<and> session_ok s' \<and> s' \<noteq> trio"
proof -
  have "session_ok trio"
    by (simp add: session_ok_def trio_def squad_ok_def tabs_ok_def tab_ok_def trio_tab_def)
  moreover have "squad trio 1 = Some (ss_squads trio ! 0)"
    "position (\<lambda>t. tab_id t = 1) (sq_tabs (ss_squads trio ! 0)) = Some 0"
    by (simp_all add: trio_def squad_def trio_tab_def)
  ultimately obtain s' where s': "maybe_reflow screen trio 1 1 = Some s'" "session_ok s'"
    using maybe_reflow_spec [of trio 1 "ss_squads trio ! 0" 1 0 screen] by blast
  moreover have "map_option (\<lambda>s. tab_root (sq_tabs (ss_squads s ! 0) ! 0)) (maybe_reflow screen trio 1 1) \<noteq>
      Some (tab_root (sq_tabs (ss_squads trio ! 0) ! 0))" by code_simp
  ultimately show ?thesis by auto
qed

text \<open>
  Validation accepts a layout exactly when it is of version 1 and within the bounds, every split
  has at least two children with finite positive weights, one slot is the anchor, slot names are
  different, and the tree mentions every slot exactly once and nothing else. The verdict does not
  depend on the order in which the hash map of references hands out its keys.
\<close>

theorem validate_anchored_spec_iff:
  assumes "\<And>xs. set (keys_order xs) = set xs"
  shows "validate_anchored_spec keys_order spec = Inr () \<longleftrightarrow>
    spec_version spec = 1 \<and> count_leaves (spec_tree spec) \<le> MAX_LAYOUT_LEAVES \<and>
    spec_depth (spec_tree spec) \<le> MAX_LAYOUT_DEPTH \<and> splits_ok (spec_tree spec) \<and>
    distinct (map slot_name (spec_slots spec)) \<and> anchors (spec_slots spec) = 1 \<and>
    mset (collect_refs (spec_tree spec)) = mset (map slot_name (spec_slots spec))"
  using assms by (rule validate_anchored_spec_iff_lemma)

definition plain_slot :: "string \<Rightarrow> LayoutBinding \<Rightarrow> LayoutSlot" where
  "plain_slot name binding =
     \<lparr>slot_name = name, slot_binding = binding, slot_cwd = None, slot_portal = None, slot_pane_id = None\<rparr>"

definition side_spec :: AnchoredLayoutSpec where
  "side_spec = \<lparr>spec_version = 1,
     spec_tree = Split Horizontal [(Fin 2, Slot ''main''), (Fin 1, Slot ''side'')],
     spec_slots = [plain_slot ''main'' Anchor, plain_slot ''side'' Shell]\<rparr>"

theorem validate_anchored_spec_iff_witness: "validate_anchored_spec rev side_spec = Inr ()"
  by (subst validate_anchored_spec_iff)
     (simp_all add: side_spec_def plain_slot_def anchors_def MAX_LAYOUT_LEAVES_def MAX_LAYOUT_DEPTH_def)

text \<open>
  Grafting a validated layout is safe: when every slot is bound to a pane of its own, the anchor
  slot to the anchor, and the other panes are not in the tab, the tree is realized without a panic,
  its leaves are the bound panes in the order of the tree, and if the substitution accepts it the tab
  with the new tree is sound, has the anchor replaced by those leaves and no pane below the minimum.
\<close>

theorem graft_spec_ok:
  assumes ok: "tab_ok tab" and keys: "\<And>xs. set (keys_order xs) = set xs"
    and valid: "validate_anchored_spec keys_order spec = Inr ()"
    and bound: "set (map slot_name (spec_slots spec)) \<subseteq> dom pane_of"
    and own: "inj_on pane_of (set (map slot_name (spec_slots spec)))"
    and anchor: "slot \<in> set (spec_slots spec)" "pane_of (slot_name slot) = Some a"
    and fresh: "\<And>p. p \<in> set (leaves (tab_root tab)) - {a} \<Longrightarrow> Some p \<notin> pane_of ` set (map slot_name (spec_slots spec))"
  shows "\<exists>sub. realize_spec_tree (spec_tree spec) pane_of = Some sub \<and>
    leaves sub = map (the \<circ> pane_of) (collect_refs (spec_tree spec)) \<and>
    (case replace_anchor_with_candidate tab vp a sub of
       Inr c \<Rightarrow> tab_ok (tab\<lparr>tab_root := c\<rparr>) \<and> substituted (leaves (tab_root tab)) a (leaves sub) (leaves c) \<and>
         \<not> any_below_min c vp
     | Inl e \<Rightarrow> e = PaneGone \<and> a \<notin> set (leaves (tab_root tab)) \<or> e = MoveTooSmall MIN_ROWS MIN_COLS)"
proof -
  let ?refs = "collect_refs (spec_tree spec)" and ?names = "map slot_name (spec_slots spec)"
  from valid have v: "splits_ok (spec_tree spec)" "distinct ?names" "mset ?refs = mset ?names"
    by (simp_all add: validate_anchored_spec_iff_lemma [of keys_order spec, OF keys])
  then have refs: "set ?refs = set ?names" "distinct ?refs"
    using mset_eq_setD [OF v(3)] mset_eq_imp_distinct_iff [OF v(3)] by (simp_all only:)
  with bound have "\<forall>r\<in>set ?refs. pane_of r \<noteq> None" by auto
  from realize_ok [OF v(1) this] obtain sub where sub: "realize_spec_tree (spec_tree spec) pane_of = Some sub"
    "leaves sub = map (the \<circ> pane_of) ?refs" "populated sub" by blast
  have in_sub: "p \<in> set (leaves sub) \<longleftrightarrow> Some p \<in> pane_of ` set ?names" for p
    using the_image_iff [OF bound, of p] by (simp only: sub(2) set_map refs(1))
  have "inj_on (the \<circ> pane_of) (set ?refs)"
    using inj_on_the [OF bound own] by (simp only: refs(1))
  then have dist: "distinct (leaves sub)" using sub(2) refs(2) by (simp add: distinct_map)
  have disj: "(set (leaves (tab_root tab)) - {a}) \<inter> set (leaves sub) = {}" using fresh in_sub by blast
  have a: "a \<in> set (leaves sub)" using anchor by (simp add: in_sub) (metis image_eqI)
  have "case replace_anchor_with_candidate tab vp a sub of
       Inr c \<Rightarrow> tab_ok (tab\<lparr>tab_root := c\<rparr>) \<and> substituted (leaves (tab_root tab)) a (leaves sub) (leaves c) \<and>
         \<not> any_below_min c vp
     | Inl e \<Rightarrow> e = PaneGone \<and> a \<notin> set (leaves (tab_root tab)) \<or> e = MoveTooSmall MIN_ROWS MIN_COLS"
  proof (cases "replace_anchor_with_candidate tab vp a sub")
    case (Inl e)
    then show ?thesis
      by (auto simp: replace_anchor_with_candidate_def replace_anchor_None_iff Let_def split: option.splits if_splits)
  next
    case (Inr c)
    from substitute_ok [OF ok Inr sub(3) dist disj] have c: "wf_node None c" "distinct (leaves c)" "\<not> any_below_min c vp"
      "substituted (leaves (tab_root tab)) a (leaves sub) (leaves c)" by blast+
    then have "tab_focus tab \<in> set (leaves c)" using ok a by (auto simp: tab_ok_def substituted_def)
    with c Inr show ?thesis by (simp add: tab_ok_def)
  qed
  with sub show ?thesis by blast
qed

theorem graft_spec_ok_witness:
  "\<exists>sub. realize_spec_tree (spec_tree side_spec) [''main'' \<mapsto> 1, ''side'' \<mapsto> 9] = Some sub \<and> leaves sub = [1, 9]"
proof -
  have "validate_anchored_spec rev side_spec = Inr ()" by code_simp
  from graft_spec_ok [OF pair_tab_ok _ this, where pane_of = "[''main'' \<mapsto> 1, ''side'' \<mapsto> 9]"
      and slot = "plain_slot ''main'' Anchor" and a = 1 and vp = screen]
  show ?thesis by (auto simp: side_spec_def plain_slot_def pair_tab_def inj_on_def)
qed

text \<open>
  A named template is a macro over the typed tree: compiling it never panics, mentions the slot
  names once each in their order, and realizing the compiled tree gives the tree that substituting
  the panes into the template's own shape gives, up to the ratios.
\<close>

theorem template_to_tree_spec:
  assumes "length ids = length slots" "\<And>i. i < length slots \<Longrightarrow> pane_of (slots ! i) = Some (ids ! i)"
  shows "case topology name (length slots) of
     Inl e \<Rightarrow> template_to_tree name slots = Some (Inl e)
   | Inr shape \<Rightarrow> (\<exists>t n. template_to_tree name slots = Some (Inr t) \<and> collect_refs t = slots \<and>
       realize_spec_tree t pane_of = Some n \<and>
       same_shape n (substitute_leaves shape (map_of (zip [0..<length slots] ids))))"
proof (cases "topology name (length slots)")
  case (Inr shape)
  have sh: "leaves shape = [0..<length slots]" using topology_ok [OF Inr] by blast
  have m: "map_of (zip [0..<length slots] ids) i = Some (ids ! i)" if "i < length slots" for i
    using map_of_zip_nth [of "[0..<length slots]" ids i] that assms(1) by simp
  obtain t n where tn: "node_to_spec shape slots = Some t" "collect_refs t = map ((!) slots) (leaves shape)"
    "realize_spec_tree t pane_of = Some n" "same_shape n (substitute_leaves shape (map_of (zip [0..<length slots] ids)))"
    using compiled_shape [where n = shape and slots = slots and pane_of = pane_of
        and m = "map_of (zip [0..<length slots] ids)"] sh m assms(2) by auto
  have "map ((!) slots) [0..<length slots] = slots" by (rule map_nth)
  with tn sh Inr show ?thesis by (simp add: template_to_tree_def)
qed (simp add: template_to_tree_def)

theorem template_to_tree_spec_witness:
  "\<exists>t n. template_to_tree MainLeft [''a'', ''b''] = Some (Inr t) \<and>
     realize_spec_tree t [''a'' \<mapsto> 7, ''b'' \<mapsto> 8] = Some n \<and> leaves n = [7, 8]"
proof -
  have p: "[''a'' \<mapsto> 7, ''b'' \<mapsto> 8] ([''a'', ''b''] ! i) = Some ([7, 8 :: nat] ! i)" if "i < length [''a'', ''b'']" for i
    using that by (cases i) auto
  have "leaves (substitute_leaves (Branch Horizontal [(half, Leaf 0), (half, Leaf 1)]) (map_of (zip [0..<2] [7, 8]))) = [7, 8]"
    by (simp add: upt_rec)
  then show ?thesis
    using template_to_tree_spec [of "[7, 8]" "[''a'', ''b'']" "[''a'' \<mapsto> 7, ''b'' \<mapsto> 8]" MainLeft, OF _ p] same_shape_keeps(1)
    by (fastforce simp: topology_def rest_node_def)
qed

text \<open>
  Weights are not always normalized to sum 1: two children of the largest finite weight pass
  validation, but their sum overflows, every ratio becomes zero, and the layout gives the first
  pane no column at all.
\<close>

theorem huge_weights_collapse:
  "let w = Fin (2 ^ 128 - 2 ^ 104); t = Split Horizontal [(w, Slot ''a''), (w, Slot ''b'')]
   in validate_node t = Inr () \<and>
      realize_spec_tree t [''a'' \<mapsto> 1, ''b'' \<mapsto> 2] = Some (Branch Horizontal [(Fin 0, Leaf 1), (Fin 0, Leaf 2)]) \<and>
      any_below_min (Branch Horizontal [(Fin 0, Leaf 1), (Fin 0, Leaf 2)]) screen"
  by code_simp

end
