(* ===== verification/Mouse.thy ===== *)
theory Mouse
  imports Fno_Prelude
begin

unbundle bit_operations_syntax

text \<open>
  Mouse input: the client's parser of SGR reports, \<open>crates/fno/src/mouse.rs\<close>, and the server's
  routing and encoding of mouse events, \<open>crates/fno/src/server/mouse_route.rs\<close>. A byte is a
  \<open>char\<close>.
\<close>

section \<open>Data\<close>

datatype MouseButton = LeftButton | MiddleButton | RightButton

datatype MouseKind =
    Press MouseButton | Release MouseButton | Drag MouseButton | Move | WheelUp | WheelDown

record MouseReport =
  mr_row :: u16
  mr_col :: u16
  mr_kind :: MouseKind
  mr_shift :: bool
  mr_alt :: bool

record MouseEvent =
  me_row :: u16
  me_col :: u16
  me_kind :: MouseKind
  me_alt :: bool

definition esc :: char where "esc = CHR 0x1B"

definition PREFIX :: string where "PREFIX = [esc, CHR ''['', CHR ''<'']"

section \<open>Parsing one report\<close>

datatype Sgr = Complete MouseReport nat | Partial | Malformed

datatype BodyScan = EndAt nat | NoEnd | Junk

text \<open>The loop over the body: it stops at a terminator, at junk, or at the end of the bytes.\<close>

fun scan_body :: "nat \<Rightarrow> string \<Rightarrow> BodyScan" where
  "scan_body k [] = NoEnd"
| "scan_body k (b # bs) =
     (if b = CHR ''M'' \<or> b = CHR ''m'' then EndAt k
      else if \<not> (is_digit b \<or> b = CHR '';'') \<or> k > 24 then Junk
      else scan_body (k + 1) bs)"

definition report_kind :: "u32 \<Rightarrow> bool \<Rightarrow> MouseKind option" where
  "report_kind cb released =
     (if cb AND 64 \<noteq> 0 then Some (if cb AND 1 = 0 then WheelUp else WheelDown)
      else if cb AND 32 \<noteq> 0 \<and> cb AND 3 = 3 then Some Move
      else if cb AND 3 = 3 then None
      else let button = (if cb AND 3 = 0 then LeftButton else if cb AND 3 = 1 then MiddleButton else RightButton)
           in Some (if cb AND 32 \<noteq> 0 then Drag button else if released then Release button else Press button))"

text \<open>One-based to zero-based, saturating at both ends, into 16 bits.\<close>

definition to_cell :: "u32 \<Rightarrow> u16" where
  "to_cell c = ucast (min (sat_sub c 1) 65535)"

definition parse_sgr :: "string \<Rightarrow> Sgr" where
  "parse_sgr s =
     (let body = drop 3 s in
      case scan_body 0 body of
        Junk \<Rightarrow> Malformed
      | NoEnd \<Rightarrow> Partial
      | EndAt end \<Rightarrow>
          (let released = (body ! end = CHR ''m'');
               parts = split_on (CHR '';'') (take end body)
           in if length parts \<noteq> 3 then Malformed
              else case (parse_unsigned 32 (parts ! 0), parse_unsigned 32 (parts ! 1), parse_unsigned 32 (parts ! 2)) of
                (Some n0, Some n1, Some n2) \<Rightarrow>
                  (let cb = word_of_nat n0 :: u32; cx = word_of_nat n1 :: u32; cy = word_of_nat n2 :: u32 in
                   case report_kind cb released of
                     None \<Rightarrow> Malformed
                   | Some kind \<Rightarrow>
                       Complete \<lparr>mr_row = to_cell cy, mr_col = to_cell cx, mr_kind = kind,
                                 mr_shift = (cb AND 4 \<noteq> 0), mr_alt = (cb AND 8 \<noteq> 0)\<rparr> (3 + end + 1))
              | _ \<Rightarrow> Malformed))"

section \<open>Extracting reports from a stream\<close>

lemma scan_body_end: "scan_body k bs = EndAt n \<Longrightarrow> k \<le> n \<and> n < k + length bs"
  by (induction k bs rule: scan_body.induct) (auto split: if_splits)

lemma parse_sgr_length: "parse_sgr s = Complete r n \<Longrightarrow> 4 \<le> n \<and> n \<le> length s"
  using scan_body_end [of 0 "drop 3 s"]
  by (auto simp: parse_sgr_def Let_def split: BodyScan.splits if_splits option.splits)

text \<open>The loop over the buffer: the reports, the bytes passed through, and the carried tail.\<close>

function extract_loop :: "string \<Rightarrow> MouseReport list \<times> string \<times> string" where
  "extract_loop [] = ([], [], [])"
| "extract_loop (b # bs) =
     (let tail = b # bs in
      if length tail \<ge> 3 \<and> take 3 tail = PREFIX then
        (case parse_sgr tail of
           Complete rep len \<Rightarrow> (case extract_loop (drop len tail) of (reports, pass, carry) \<Rightarrow> (rep # reports, pass, carry))
         | Partial \<Rightarrow> ([], [], tail)
         | Malformed \<Rightarrow> (case extract_loop bs of (reports, pass, carry) \<Rightarrow> (reports, b # pass, carry)))
      else (case extract_loop bs of (reports, pass, carry) \<Rightarrow> (reports, b # pass, carry)))"
  by pat_completeness auto
termination by (relation "measure length") (auto dest: parse_sgr_length)

declare extract_loop.simps(2) [simp del]

definition extract_mouse :: "string \<Rightarrow> string \<Rightarrow> MouseReport list \<times> string \<times> string" where
  "extract_mouse carry chunk = extract_loop (carry @ chunk)"

section \<open>Routing and encoding\<close>

record Modes =
  app_cursor :: bool
  app_keypad :: bool
  bracketed_paste :: bool
  focus_in_out :: bool
  mouse_click :: bool
  mouse_drag :: bool
  mouse_motion :: bool
  sgr_mouse :: bool
  utf8_mouse :: bool
  alternate_scroll :: bool
  kitty_flags :: "8 word"

datatype MouseAction = Passthrough | Scroll int | SelectStart | SelectUpdate | SelectRelease | Ignore

definition MOUSE_WHEEL_LINES :: int where "MOUSE_WHEEL_LINES = 1"

definition route_mouse :: "Modes \<Rightarrow> MouseKind \<Rightarrow> MouseAction" where
  "route_mouse modes kind =
     (let reports_mouse = mouse_click modes \<or> mouse_drag modes \<or> mouse_motion modes in
      if reports_mouse \<and> sgr_mouse modes then
        (let wants = (case kind of
               Drag _ \<Rightarrow> mouse_drag modes \<or> mouse_motion modes
             | Move \<Rightarrow> mouse_motion modes
             | _ \<Rightarrow> True)
         in if wants then Passthrough else Ignore)
      else case kind of
          WheelUp \<Rightarrow> Scroll MOUSE_WHEEL_LINES
        | WheelDown \<Rightarrow> Scroll (- MOUSE_WHEEL_LINES)
        | Press LeftButton \<Rightarrow> SelectStart
        | Drag LeftButton \<Rightarrow> SelectUpdate
        | Release LeftButton \<Rightarrow> SelectRelease
        | _ \<Rightarrow> Ignore)"

text \<open>\<open>Ord::clamp\<close> panics when its bounds are crossed; the value is then absent.\<close>

definition bounded_scroll_target :: "int \<Rightarrow> int \<Rightarrow> int \<Rightarrow> int option" where
  "bounded_scroll_target before after cap =
     (if - cap > cap then None else Some (before + max (- cap) (min cap (after - before))))"

definition button_code :: "MouseButton \<Rightarrow> nat" where
  "button_code b = (case b of LeftButton \<Rightarrow> 0 | MiddleButton \<Rightarrow> 1 | RightButton \<Rightarrow> 2)"

definition sgr_mouse_bytes :: "MouseEvent \<Rightarrow> string" where
  "sgr_mouse_bytes event =
     (let (button, released) = (case me_kind event of
            Press b \<Rightarrow> (button_code b, False)
          | Release b \<Rightarrow> (button_code b, True)
          | Drag b \<Rightarrow> (button_code b + 32, False)
          | Move \<Rightarrow> (3 + 32, False)
          | WheelUp \<Rightarrow> (64, False)
          | WheelDown \<Rightarrow> (65, False));
          button' = (if me_alt event then button + 8 else button);
          x = unat (me_col event) + 1;
          y = unat (me_row event) + 1
      in PREFIX @ decimal button' @ '';'' @ decimal x @ '';'' @ decimal y @ (if released then ''m'' else ''M''))"

end
