(* ===== verification/Mouse_Props.thy ===== *)
theory Mouse_Props
  imports Mouse "HOL-Library.Sublist"
begin

unbundle bit_operations_syntax

text \<open>
  The client's parser undoes the server's encoder, for a whole stream of events mixed with
  keystrokes; how a stream is cut into reads does not matter, up to the cut the parser documents;
  what it holds back between reads is bounded.
\<close>

section \<open>Reading on\<close>

lemma scan_body_append:
  "scan_body k (a @ b) = (case scan_body k a of NoEnd \<Rightarrow> scan_body (k + length a) b | r \<Rightarrow> r)"
  by (induction k a rule: scan_body.induct) (auto cong: BodyScan.case_cong)

lemma scan_body_bound: "scan_body k bs = NoEnd \<Longrightarrow> bs = [] \<or> k + length bs \<le> 25"
  by (induction k bs rule: scan_body.induct) (auto split: if_splits)

lemma parse_sgr_append:
  assumes "3 \<le> length s" "parse_sgr s \<noteq> Partial"
  shows "parse_sgr (s @ b) = parse_sgr s"
proof (cases "scan_body 0 (drop 3 s)")
  case (EndAt n)
  then have n: "n < length (drop 3 s)" using scan_body_end by fastforce
  have d: "drop 3 (s @ b) = drop 3 s @ b" using assms(1) by simp
  have t: "take n (drop 3 s @ b) = take n (drop 3 s)" "(drop 3 s @ b) ! n = drop 3 s ! n"
    using n by (simp_all add: nth_append)
  show ?thesis unfolding parse_sgr_def Let_def d scan_body_append EndAt BodyScan.case t by (rule refl)
next
  case NoEnd
  with assms(2) show ?thesis by (simp add: parse_sgr_def)
next
  case Junk
  with assms(1) show ?thesis by (simp add: parse_sgr_def scan_body_append)
qed

text \<open>A read that ends in the first one or two bytes of the prefix.\<close>

definition ends_open :: "string \<Rightarrow> bool" where
  "ends_open s \<longleftrightarrow> suffix [esc] s \<or> suffix [esc, CHR ''[''] s"

lemma ends_open_suffix: "suffix t s \<Longrightarrow> ends_open t \<Longrightarrow> ends_open s"
  unfolding ends_open_def using suffix_order.trans by blast

lemma no_prefix_append:
  assumes "\<not> ends_open t" "t \<noteq> []" "\<not> (3 \<le> length t \<and> take 3 t = PREFIX)"
  shows "take 3 (t @ b) \<noteq> PREFIX"
proof (cases "3 \<le> length t")
  case True
  with assms(3) show ?thesis by simp
next
  case False
  then consider x where "t = [x]" | x y where "t = [x, y]"
    using assms(2) by (cases t; cases "tl t"; cases "tl (tl t)") auto
  then show ?thesis
  proof cases
    case (1 x)
    with assms(1) have "x \<noteq> esc" by (auto simp: ends_open_def)
    with 1 show ?thesis by (simp add: PREFIX_def)
  next
    case (2 x y)
    with assms(1) have "\<not> (x = esc \<and> y = CHR ''['')" by (auto simp: ends_open_def)
    with 2 show ?thesis by (auto simp: PREFIX_def)
  qed
qed

text \<open>One turn of the loop, by what stands at the cursor.\<close>

definition at_prefix :: "string \<Rightarrow> bool" where
  "at_prefix t \<longleftrightarrow> 3 \<le> length t \<and> take 3 t = PREFIX"

lemma extract_turn:
  "at_prefix t \<Longrightarrow> parse_sgr t = Complete rep n \<Longrightarrow>
     extract_loop t = (case extract_loop (drop n t) of (rs, p, c) \<Rightarrow> (rep # rs, p, c))"
  "at_prefix t \<Longrightarrow> parse_sgr t = Partial \<Longrightarrow> extract_loop t = ([], [], t)"
  "at_prefix (x # xs) \<Longrightarrow> parse_sgr (x # xs) = Malformed \<Longrightarrow>
     extract_loop (x # xs) = (case extract_loop xs of (rs, p, c) \<Rightarrow> (rs, x # p, c))"
  "\<not> at_prefix (x # xs) \<Longrightarrow> extract_loop (x # xs) = (case extract_loop xs of (rs, p, c) \<Rightarrow> (rs, x # p, c))"
  by (cases t; auto simp: at_prefix_def extract_loop.simps(2) Let_def)+

lemma extract_induct [case_names Nil Complete Partial Malformed Other]:
  assumes "P []"
    and "\<And>t rep n. at_prefix t \<Longrightarrow> parse_sgr t = Complete rep n \<Longrightarrow> P (drop n t) \<Longrightarrow> P t"
    and "\<And>t. at_prefix t \<Longrightarrow> parse_sgr t = Partial \<Longrightarrow> P t"
    and "\<And>x xs. at_prefix (x # xs) \<Longrightarrow> parse_sgr (x # xs) = Malformed \<Longrightarrow> P xs \<Longrightarrow> P (x # xs)"
    and "\<And>x xs. \<not> at_prefix (x # xs) \<Longrightarrow> P xs \<Longrightarrow> P (x # xs)"
  shows "P s"
proof (induction s rule: extract_loop.induct)
  case (2 x xs)
  show ?case
  proof (cases "at_prefix (x # xs)")
    case True
    then show ?thesis
      using 2(1,2) assms(2,3,4) by (cases "parse_sgr (x # xs)") (auto simp: at_prefix_def)
  next
    case False
    then show ?thesis using 2(3) assms(5) by (auto simp: at_prefix_def)
  qed
qed (rule assms(1))

lemma extract_loop_append:
  "\<not> ends_open s \<Longrightarrow> extract_loop (s @ b) =
     (case extract_loop s of (r1, p1, c1) \<Rightarrow> case extract_loop (c1 @ b) of (r2, p2, c2) \<Rightarrow> (r1 @ r2, p1 @ p2, c2))"
proof (induction s rule: extract_induct)
  case (Complete t rep n)
  then have "at_prefix (t @ b)" "parse_sgr (t @ b) = Complete rep n" "\<not> ends_open (drop n t)" "n \<le> length t"
    using parse_sgr_append [of t b] ends_open_suffix suffix_drop parse_sgr_length by (auto simp: at_prefix_def)
  with Complete show ?case by (simp add: extract_turn(1) split: prod.splits)
next
  case (Malformed x xs)
  then have "at_prefix (x # xs @ b)" "parse_sgr (x # xs @ b) = Malformed" "\<not> ends_open xs"
    using parse_sgr_append [of "x # xs" b] ends_open_suffix [of xs "x # xs"] by (auto simp: at_prefix_def suffix_ConsI)
  with Malformed show ?case by (simp add: extract_turn(3) split: prod.splits)
next
  case (Other x xs)
  then have "\<not> at_prefix (x # xs @ b)" "\<not> ends_open xs"
    using no_prefix_append [of "x # xs" b] ends_open_suffix [of xs "x # xs"] by (auto simp: at_prefix_def suffix_ConsI)
  with Other show ?case by (simp add: extract_turn(4) split: prod.splits)
qed (simp_all add: extract_turn(2))

text \<open>
  Cutting the stream of input bytes into two reads makes no difference: the reports and the bytes
  passed on are those of the first read followed by those of the second, unless the first read ends
  inside the first two bytes of a report's prefix.
\<close>

theorem reads_can_be_cut:
  assumes "\<not> ends_open (carry @ a)"
  shows "extract_mouse carry (a @ b) =
    (case extract_mouse carry a of (reports, pass, carry') \<Rightarrow>
     case extract_mouse carry' b of (reports', pass', carry'') \<Rightarrow> (reports @ reports', pass @ pass', carry''))"
  using extract_loop_append [OF assms, of b] by (simp add: extract_mouse_def)

theorem reads_can_be_cut_witness:
  "extract_mouse [] (''a'' @ ''b'') = ([], ''ab'', [])"
  using reads_can_be_cut [of "[]" "''a''" "''b''"]
  by (simp add: ends_open_def suffix_Cons esc_def extract_mouse_def extract_loop.simps(2))

text \<open>
  Between reads the parser holds back nothing, or an unfinished report of at most 28 bytes that
  begins with the prefix: no input makes the buffer grow.
\<close>

theorem carry_bounded:
  "case extract_mouse carry chunk of (reports, pass, carry') \<Rightarrow>
     carry' = [] \<or> length carry' \<le> 28 \<and> take 3 carry' = PREFIX"
proof -
  have "case extract_loop s of (r, p, c) \<Rightarrow> c = [] \<or> length c \<le> 28 \<and> take 3 c = PREFIX" for s
  proof (induction s rule: extract_induct)
    case (Partial t)
    then have "length t \<le> 28"
      using scan_body_bound [of 0 "drop 3 t"]
      by (auto simp: parse_sgr_def Let_def split: BodyScan.splits if_splits option.splits)
    with Partial show ?case by (simp add: extract_turn(2) at_prefix_def)
  qed (auto simp: extract_turn(1,3,4) split: prod.splits)
  then show ?thesis by (simp add: extract_mouse_def)
qed

section \<open>The encoder and the parser\<close>

lemma decimal_length: "n < 10 ^ Suc d \<Longrightarrow> length (decimal n) \<le> Suc d"
proof (induction d arbitrary: n)
  case 0
  then show ?case by (subst decimal.simps) simp
next
  case (Suc d)
  then have "n div 10 < 10 ^ Suc d" by (simp add: less_mult_imp_div_less)
  with Suc.IH [of "n div 10"] show ?case by (subst decimal.simps) simp
qed

lemma scan_body_fields:
  "\<forall>b\<in>set s. is_digit b \<or> b = CHR '';'' \<Longrightarrow> k + length s \<le> 25 \<Longrightarrow> t = CHR ''M'' \<or> t = CHR ''m'' \<Longrightarrow>
     scan_body k (s @ t # r) = EndAt (k + length s)"
  by (induction s arbitrary: k) (auto dest: digit_neq)

lemma split_on_digits:
  "list_all is_digit a \<Longrightarrow> split_on (CHR '';'') (a @ CHR '';'' # r) = a # split_on (CHR '';'') r"
  "list_all is_digit a \<Longrightarrow> split_on (CHR '';'') a = [a]"
  by (induction a) (auto dest: digit_neq)

lemma to_cell_next: "to_cell (word_of_nat (Suc (unat c))) = c"
proof -
  have c: "unat c < 65536" by (rule unat_u16_bound)
  then have "unat (word_of_nat (Suc (unat c)) :: u32) = Suc (unat c)"
    unfolding unat_of_nat by (intro mod_less) simp
  then have s: "unat (sat_sub (word_of_nat (Suc (unat c))) 1 :: u32) = unat c" by (simp only: unat_sat_sub) simp
  have "sat_sub (word_of_nat (Suc (unat c))) 1 \<le> (65535 :: u32)" unfolding word_le_nat_alt s using c by simp
  then have "to_cell (word_of_nat (Suc (unat c))) = word_of_nat (unat (sat_sub (word_of_nat (Suc (unat c))) 1 :: u32))"
    by (simp only: to_cell_def min_absorb1 of_nat_unat)
  also have "\<dots> = c" unfolding s by simp
  finally show ?thesis .
qed

lemma parse_fields:
  assumes "n0 < 1000" "n1 \<le> 65536" "n2 \<le> 65536" "t = CHR ''M'' \<or> t = CHR ''m''"
    "report_kind (word_of_nat n0) (t = CHR ''m'') = Some kind"
  shows "\<exists>n. parse_sgr (PREFIX @ decimal n0 @ '';'' @ decimal n1 @ '';'' @ decimal n2 @ t # r) =
      Complete \<lparr>mr_row = to_cell (word_of_nat n2), mr_col = to_cell (word_of_nat n1), mr_kind = kind,
        mr_shift = ((word_of_nat n0 :: u32) AND 4 \<noteq> 0), mr_alt = ((word_of_nat n0 :: u32) AND 8 \<noteq> 0)\<rparr> n \<and>
      n = length (PREFIX @ decimal n0 @ '';'' @ decimal n1 @ '';'' @ decimal n2 @ [t])"
proof -
  let ?s = "decimal n0 @ '';'' @ decimal n1 @ '';'' @ decimal n2"
  have len: "length (decimal n0) \<le> 3" "length (decimal n1) \<le> 5" "length (decimal n2) \<le> 5"
    using assms decimal_length [of n0 2] decimal_length [of n1 4] decimal_length [of n2 4] by simp_all
  have dg: "list_all is_digit (decimal n)" for n by (rule decimal_digits)
  have fields: "\<forall>b\<in>set ?s. is_digit b \<or> b = CHR '';''" using dg by (auto simp: list_all_iff)
  have sc: "scan_body 0 (?s @ t # r) = EndAt (length ?s)"
    using scan_body_fields [OF fields, of 0 t r] len assms(4) by simp
  have sp: "split_on (CHR '';'') ?s = [decimal n0, decimal n1, decimal n2]"
    using split_on_digits dg by simp
  have pu: "parse_unsigned 32 (decimal n0) = Some n0" "parse_unsigned 32 (decimal n1) = Some n1"
    "parse_unsigned 32 (decimal n2) = Some n2"
    using assms(1-3) by (simp_all add: parse_unsigned_decimal)
  have d: "drop 3 (PREFIX @ decimal n0 @ '';'' @ decimal n1 @ '';'' @ decimal n2 @ t # r) = ?s @ t # r"
    by (simp add: PREFIX_def)
  have t: "take (length ?s) (?s @ t # r) = ?s" "(?s @ t # r) ! length ?s = t"
    by (simp_all only: take_append nth_append_length) simp
  show ?thesis
    unfolding parse_sgr_def Let_def d sc BodyScan.case t sp
    using assms(5) pu by (simp add: PREFIX_def)
qed

definition report_of :: "MouseEvent \<Rightarrow> MouseReport" where
  "report_of e = \<lparr>mr_row = me_row e, mr_col = me_col e, mr_kind = me_kind e, mr_shift = False, mr_alt = me_alt e\<rparr>"

lemma parse_encoded:
  "parse_sgr (sgr_mouse_bytes e @ r) = Complete (report_of e) (length (sgr_mouse_bytes e))"
proof -
  define cb where "cb = (case me_kind e of Press b \<Rightarrow> button_code b | Release b \<Rightarrow> button_code b
    | Drag b \<Rightarrow> button_code b + 32 | Move \<Rightarrow> 35 | WheelUp \<Rightarrow> 64 | WheelDown \<Rightarrow> 65) + (if me_alt e then 8 else 0)"
  define t where "t = (case me_kind e of Release b \<Rightarrow> CHR ''m'' | _ \<Rightarrow> CHR ''M'')"
  have bytes: "sgr_mouse_bytes e = PREFIX @ decimal cb @ '';'' @ decimal (unat (me_col e) + 1) @ '';'' @
      decimal (unat (me_row e) + 1) @ [t]"
    by (simp add: sgr_mouse_bytes_def cb_def t_def Let_def split: MouseKind.splits)
  have cb: "cb < 1000" by (simp add: cb_def button_code_def split: MouseKind.splits MouseButton.splits)
  have kind: "report_kind (word_of_nat cb) (t = CHR ''m'') = Some (me_kind e)" "(word_of_nat cb :: u32) AND 4 = 0"
    "((word_of_nat cb :: u32) AND 8 \<noteq> 0) = me_alt e"
    by (simp_all add: cb_def t_def report_kind_def button_code_def split: MouseKind.splits MouseButton.splits)
  have "t = CHR ''M'' \<or> t = CHR ''m''" by (simp add: t_def split: MouseKind.splits)
  moreover have "unat (me_col e) + 1 \<le> 65536" "unat (me_row e) + 1 \<le> 65536"
    using unat_u16_bound [of "me_col e"] unat_u16_bound [of "me_row e"] by simp_all
  ultimately show ?thesis
    using parse_fields [OF cb, of "unat (me_col e) + 1" "unat (me_row e) + 1" t "me_kind e" r] kind
    by (simp add: bytes report_of_def to_cell_next del: of_nat_Suc of_nat_add)
qed

lemma extract_plain:
  "esc \<notin> set k \<Longrightarrow> extract_loop (k @ r) = (case extract_loop r of (rs, p, c) \<Rightarrow> (rs, k @ p, c))"
  by (induction k) (auto simp: extract_turn(4) at_prefix_def PREFIX_def split: prod.splits)

text \<open>A stream of input: mouse events as the server encodes them, and runs of other bytes.\<close>

definition encode_item :: "MouseEvent + string \<Rightarrow> string" where
  "encode_item i = (case i of Inl e \<Rightarrow> sgr_mouse_bytes e | Inr k \<Rightarrow> k)"

lemma encode_item_simps [simp]: "encode_item (Inl e) = sgr_mouse_bytes e" "encode_item (Inr k) = k"
  by (simp_all add: encode_item_def)

definition events_of :: "(MouseEvent + string) list \<Rightarrow> MouseEvent list" where
  "events_of items = filter_map (\<lambda>i. case i of Inl e \<Rightarrow> Some e | Inr k \<Rightarrow> None) items"

definition keys_of :: "(MouseEvent + string) list \<Rightarrow> string" where
  "keys_of items = concat (filter_map (\<lambda>i. case i of Inl e \<Rightarrow> None | Inr k \<Rightarrow> Some k) items)"

lemma stream_extracted:
  assumes "\<forall>k. Inr k \<in> set items \<longrightarrow> esc \<notin> set k"
  shows "extract_mouse [] (concat (map encode_item items)) = (map report_of (events_of items), keys_of items, [])"
proof -
  have "extract_loop (concat (map encode_item items)) = (map report_of (events_of items), keys_of items, [])"
    using assms
  proof (induction items)
    case (Cons i items)
    show ?case
    proof (cases i)
      case (Inl e)
      let ?r = "concat (map encode_item items)"
      have "at_prefix (sgr_mouse_bytes e @ ?r)"
        by (simp add: at_prefix_def sgr_mouse_bytes_def PREFIX_def Let_def split: prod.splits)
      from extract_turn(1) [OF this parse_encoded] Cons Inl show ?thesis
        by (simp add: events_of_def keys_of_def)
    next
      case (Inr k)
      then have "esc \<notin> set k" using Cons.prems by simp
      with Cons Inr show ?thesis by (simp add: events_of_def keys_of_def extract_plain)
    qed
  qed (simp add: events_of_def keys_of_def)
  then show ?thesis by (simp add: extract_mouse_def)
qed

text \<open>
  C16. The client's parser undoes the server's encoder: from a stream in which encoded mouse events are
  mixed with bytes that contain no escape, it recovers every event, in order and with its position,
  kind and modifier, passes on exactly the other bytes, and holds nothing back.
\<close>

theorem stream_roundtrip:
  assumes "\<forall>k. Inr k \<in> set items \<longrightarrow> esc \<notin> set k"
  shows "extract_mouse [] (concat (map encode_item items)) = (map report_of (events_of items), keys_of items, [])"
  using assms by (rule stream_extracted)

theorem stream_roundtrip_witness:
  "extract_mouse [] (concat (map encode_item [Inr ''ab'', Inl \<lparr>me_row = 0, me_col = 65535, me_kind = Drag RightButton, me_alt = True\<rparr>])) =
     ([\<lparr>mr_row = 0, mr_col = 65535, mr_kind = Drag RightButton, mr_shift = False, mr_alt = True\<rparr>], ''ab'', [])"
  using stream_roundtrip [of "[Inr ''ab'', Inl \<lparr>me_row = 0, me_col = 65535, me_kind = Drag RightButton, me_alt = True\<rparr>]"]
  by (simp add: esc_def report_of_def events_of_def keys_of_def)

section \<open>Routing\<close>

text \<open>
  A program that asked for mouse reports in the SGR form is sent what it asked for and nothing is
  interpreted over its head; no other program is ever sent a report.
\<close>

lemma route_mouse_spec:
  "(route_mouse m k = Passthrough \<longleftrightarrow> sgr_mouse m \<and> (mouse_click m \<or> mouse_drag m \<or> mouse_motion m) \<and>
     ((\<exists>b. k = Drag b) \<longrightarrow> mouse_drag m \<or> mouse_motion m) \<and> (k = Move \<longrightarrow> mouse_motion m)) \<and>
   (sgr_mouse m \<and> (mouse_click m \<or> mouse_drag m \<or> mouse_motion m) \<longrightarrow> route_mouse m k \<in> {Passthrough, Ignore})"
  by (auto simp: route_mouse_def split: MouseKind.splits MouseButton.splits if_splits)

lemma bounded_scroll_bound:
  assumes "0 \<le> cap"
  shows "\<exists>t. bounded_scroll_target before after cap = Some t \<and> \<bar>t - before\<bar> \<le> cap \<and>
    (\<bar>after - before\<bar> \<le> cap \<longrightarrow> t = after) \<and> min before after \<le> t \<and> t \<le> max before after"
  using assms by (auto simp: bounded_scroll_target_def)

end
