(* ===== verification/Keys.thy ===== *)
theory Keys
  imports Mouse Pane_Tree
begin

text \<open>
  The key layer of the client, \<open>crates/fno/src/keys.rs\<close>, first half: key specifications, the shipped
  chord table, the resolution of a user's key map and the lookup of a chord. A byte is a \<open>char\<close>; of the
  protocol's commands those the key layer can send are modelled.
\<close>

section \<open>Data\<close>

datatype BlockDir = PrevBlock | NextBlock

datatype Command =
    SplitDir Dir | FocusDir Dir | ResizeDir Dir | ClosePane | ToggleDiffPane "string option" "nat option"
  | NewTab | NextTab | PrevTab | CloseTab | CopySelection | RedrawPane "nat option"
  | MovePane "nat option" "nat option" Dir

datatype Event =
    Forward string | Cmd Command | SelectTabIdx nat | Detach | OpenSelector | OpenAnswers | OpenYard
    | OpenBacklogBoard | CycleSidelineView | OpenTeam | OpenOrgView | OpenFeed | FocusFeed | TogglePanel
    | ToggleComposer | ToggleFullSideline | CycleDensity | ToggleAgentSort | CycleAgentGroup | ToggleCardHead
    | ToggleStatus | ShowPaneIds | ShowKeys | BlockJump BlockDir | BlockSelect BlockDir | BlockRerun
    | DispatchNext | SearchOpen | OpenNav | ToggleBell | OpenMessages | OpenSettings | OpenConnections
    | OpenSweepThreads | LiftHold | ShareFocusedPane | OpenRename | OpenMoveTo | ReorderTab int | CycleSection
    | OpenSidelineMenu | OpenCreate | Bell

datatype KeySection =
    SecGlobal | SecGlobalNoPrefix | SecNavigation | SecWorkspacesTabs | SecPanes | SecSidelineRows | SecMessages

record KeyBinding =
  kb_key :: char
  kb_disp :: string
  kb_event :: Event
  kb_section :: KeySection
  kb_label :: string
  kb_action :: string

definition DEFAULT_PREFIX :: char where "DEFAULT_PREFIX = CHR 0x02"

record Keymap =
  km_prefix :: char
  km_rebinds :: "(string \<times> char) list"

definition default_keymap :: Keymap where
  "default_keymap = \<lparr>km_prefix = DEFAULT_PREFIX, km_rebinds = []\<rparr>"

text \<open>The warnings, with what their sentences name.\<close>

datatype KeymapWarning =
    PrefixIsDigit
  | PrefixUnreadable string
  | NoSuchAction string
  | KeyUnreadable string string
  | KeyIsDigit string
  | KeyIsPrefix string char
  | PrefixIsBound char string
  | KeyShared string char string

section \<open>Key specifications\<close>

definition byte_of :: "char \<Rightarrow> nat" where "byte_of c = of_char c"

definition is_ascii_graphic :: "char \<Rightarrow> bool" where
  "is_ascii_graphic c = (33 \<le> byte_of c \<and> byte_of c \<le> 126)"

definition is_ascii_alphabetic :: "char \<Rightarrow> bool" where
  "is_ascii_alphabetic c = (65 \<le> byte_of c \<and> byte_of c \<le> 90 \<or> 97 \<le> byte_of c \<and> byte_of c \<le> 122)"

definition ctrl_letter :: "char \<Rightarrow> char option" where
  "ctrl_letter c = (if is_ascii_alphabetic c then Some (char_of (byte_of (lower_char c) - 97 + 1)) else None)"

definition strip_spec :: "string \<Rightarrow> string \<Rightarrow> string option" where
  "strip_spec s pre = (if starts_with s pre then Some (drop (length pre) s) else None)"

definition parse_ctrl :: "string \<Rightarrow> char option" where
  "parse_ctrl s =
     (let lower = to_ascii_lowercase s;
          rest = (case strip_spec lower ''ctrl+'' of
              Some r \<Rightarrow> Some r
            | None \<Rightarrow> (case strip_spec lower ''ctrl-'' of Some r \<Rightarrow> Some r | None \<Rightarrow> strip_spec lower ''c-''))
      in case rest of Some [c] \<Rightarrow> ctrl_letter c | _ \<Rightarrow> None)"

definition parse_key :: "string \<Rightarrow> char option" where
  "parse_key spec =
     (let s = trim spec in
      case s of
        [c] \<Rightarrow> if is_ascii_graphic c then Some c else parse_ctrl s
      | [c, d] \<Rightarrow> if c = CHR ''^'' then ctrl_letter d else parse_ctrl s
      | _ \<Rightarrow> parse_ctrl s)"

definition key_disp :: "char \<Rightarrow> string" where
  "key_disp b = (if 1 \<le> byte_of b \<and> byte_of b \<le> 26 then ''ctrl+'' @ [char_of (byte_of b - 1 + 97)] else [b])"

section \<open>The chord table\<close>

definition key_row :: "char \<Rightarrow> string \<Rightarrow> Event \<Rightarrow> KeySection \<Rightarrow> string \<Rightarrow> KeyBinding" where
  "key_row k action ev sec label =
     \<lparr>kb_key = k, kb_disp = key_disp k, kb_event = ev, kb_section = sec, kb_label = label, kb_action = action\<rparr>"

definition default_bindings :: "KeyBinding list" where
  "default_bindings = [
     key_row (CHR ''%'') ''split-right'' (Cmd (SplitDir DRight)) SecPanes ''split right'',
     key_row (CHR 0x22) ''split-down'' (Cmd (SplitDir DDown)) SecPanes ''split down'',
     key_row (CHR 0x00) ''split-up'' (Cmd (SplitDir DUp)) SecPanes ''split up'',
     key_row (CHR 0x00) ''split-left'' (Cmd (SplitDir DLeft)) SecPanes ''split left'',
     key_row (CHR ''h'') ''focus-left'' (Cmd (FocusDir DLeft)) SecPanes ''focus left'',
     key_row (CHR ''j'') ''focus-down'' (Cmd (FocusDir DDown)) SecPanes ''focus down'',
     key_row (CHR ''k'') ''focus-up'' (Cmd (FocusDir DUp)) SecPanes ''focus up'',
     key_row (CHR ''l'') ''focus-right'' (Cmd (FocusDir DRight)) SecPanes ''focus right'',
     key_row (CHR ''H'') ''resize-left'' (Cmd (ResizeDir DLeft)) SecPanes ''resize left'',
     key_row (CHR ''J'') ''resize-down'' (Cmd (ResizeDir DDown)) SecPanes ''resize down'',
     key_row (CHR ''K'') ''resize-up'' (Cmd (ResizeDir DUp)) SecPanes ''resize up'',
     key_row (CHR ''L'') ''resize-right'' (Cmd (ResizeDir DRight)) SecPanes ''resize right'',
     key_row (CHR ''x'') ''close-pane'' (Cmd ClosePane) SecPanes ''close pane'',
     key_row (CHR ''D'') ''diff-pane'' (Cmd (ToggleDiffPane None None)) SecPanes ''toggle git diff pane'',
     key_row (CHR ''c'') ''new-tab'' (Cmd NewTab) SecWorkspacesTabs ''new tab'',
     key_row (CHR ''N'') ''new-workspace'' OpenCreate SecWorkspacesTabs ''new workspace'',
     key_row (CHR ''n'') ''next-tab'' (Cmd NextTab) SecWorkspacesTabs ''next tab'',
     key_row (CHR ''p'') ''prev-tab'' (Cmd PrevTab) SecWorkspacesTabs ''prev tab'',
     key_row (CHR ''&'') ''close-tab'' (Cmd CloseTab) SecWorkspacesTabs ''close tab'',
     key_row (CHR '','') ''rename-tab'' OpenRename SecWorkspacesTabs ''rename tab'',
     key_row (CHR ''z'') ''cycle-section'' CycleSection SecWorkspacesTabs ''cycle active section'',
     key_row (CHR ''<'') ''move-tab-left'' (ReorderTab (- 1)) SecWorkspacesTabs ''move tab left'',
     key_row (CHR ''>'') ''move-tab-right'' (ReorderTab 1) SecWorkspacesTabs ''move tab right'',
     key_row (CHR ''#'') ''move-tab-to'' OpenMoveTo SecWorkspacesTabs ''move tab to an index'',
     key_row (CHR ''['') ''prev-block'' (BlockJump PrevBlock) SecNavigation ''jump prev block'',
     key_row (CHR '']'') ''next-block'' (BlockJump NextBlock) SecNavigation ''jump next block'',
     key_row (CHR ''v'') ''select-block'' (BlockSelect PrevBlock) SecNavigation ''select block'',
     key_row (CHR ''y'') ''copy-selection'' (Cmd CopySelection) SecNavigation ''copy selection'',
     key_row (CHR ''R'') ''redraw-pane'' (Cmd (RedrawPane None)) SecNavigation ''ask the pane to repaint'',
     key_row (CHR ''r'') ''rerun-block'' BlockRerun SecNavigation ''rerun block'',
     key_row (CHR ''/'') ''search'' SearchOpen SecNavigation ''search scrollback'',
     key_row (CHR ''f'') ''find'' OpenNav SecNavigation ''find: goto workspace/tab/pane/agent'',
     key_row (CHR ''w'') ''selector'' OpenSelector SecGlobal ''sideline row selector'',
     key_row (CHR ''a'') ''answers'' OpenAnswers SecGlobal ''answer queue'',
     key_row (CHR ''M'') ''open-messages'' OpenMessages SecGlobal ''open Messages (mail)'',
     key_row (CHR ''A'') ''connections'' OpenConnections SecGlobal ''connections (accounts, combos)'',
     key_row (CHR ''e'') ''feed'' OpenFeed SecGlobal ''activity feed'',
     key_row (CHR ''E'') ''feedfocus'' FocusFeed SecGlobal ''focus the activity feed (arrows, enter)'',
     key_row (CHR ''m'') ''yard'' OpenYard SecGlobal ''the yard (fleet as a menagerie)'',
     key_row (CHR ''P'') ''sideline-menu'' OpenSidelineMenu SecGlobal ''sideline menu (palette)'',
     key_row (CHR ''C'') ''org'' OpenTeam SecGlobal ''the org block (load, census, lanes)'',
     key_row (CHR ''G'') ''org-view'' OpenOrgView SecGlobal ''org view (tree, table, graph)'',
     key_row (CHR ''q'') ''notifications-bell'' ToggleBell SecGlobal ''open notifications for questions and announcements'',
     key_row (CHR ''O'') ''open-backlog-board'' OpenBacklogBoard SecGlobal ''open the backlog board'',
     key_row (CHR ''V'') ''cycle-sideline-view'' CycleSidelineView SecGlobal ''cycle sideline view (agents, backlog, org)'',
     key_row (CHR ''b'') ''toggle-sideline'' TogglePanel SecGlobal ''toggle sideline'',
     key_row (CHR ''i'') ''toggle-composer'' ToggleComposer SecGlobal ''new-agent composer'',
     key_row (CHR ''F'') ''full-sideline'' ToggleFullSideline SecGlobal ''full-screen sideline'',
     key_row (CHR ''B'') ''cycle-density'' CycleDensity SecGlobal ''cycle sideline density'',
     key_row (CHR ''o'') ''sort-agents'' ToggleAgentSort SecGlobal ''sort table columns'',
     key_row (CHR ''W'') ''cycle-agent-group'' CycleAgentGroup SecGlobal ''group agents by workspace, lead, cwd, status, or harness'',
     key_row (CHR ''Y'') ''toggle-card-head'' ToggleCardHead SecGlobal ''show or hide the card header row'',
     key_row (CHR ''s'') ''toggle-status'' ToggleStatus SecGlobal ''toggle status'',
     key_row (CHR ''S'') ''settings'' OpenSettings SecGlobal ''settings (theme, toggles, prefix)'',
     key_row (CHR ''T'') ''sweep-threads'' OpenSweepThreads SecGlobal ''sweep threads (close, reap)'',
     key_row (CHR ''U'') ''lift-hold'' LiftHold SecGlobal ''lift the fleet hold (reserve, overload)'',
     key_row (CHR ''X'') ''share-focused-pane'' ShareFocusedPane SecGlobal ''share the focused pane (experimental)'',
     key_row (CHR 0x5C) ''show-pane-ids'' ShowPaneIds SecPanes ''hold to show pane ids'',
     key_row (CHR ''?'') ''show-keys'' ShowKeys SecGlobal ''this key table'',
     key_row (CHR ''g'') ''grab-work'' DispatchNext SecGlobal ''grab work (dispatch next ready)'',
     key_row (CHR ''d'') ''detach'' Detach SecGlobal ''detach'']"

definition no_key :: char where "no_key = CHR 0x00"

definition set_binding :: "char \<Rightarrow> KeyBinding \<Rightarrow> KeyBinding" where
  "set_binding byte kb = kb\<lparr>kb_key := byte, kb_disp := key_disp byte\<rparr>"

text \<open>The first row of the action gets the byte.\<close>

fun rebind_row :: "string \<Rightarrow> char \<Rightarrow> KeyBinding list \<Rightarrow> KeyBinding list" where
  "rebind_row action byte [] = []"
| "rebind_row action byte (kb # rows) =
     (if kb_action kb = action then set_binding byte kb # rows else kb # rebind_row action byte rows)"

definition bindings_for :: "Keymap \<Rightarrow> KeyBinding list" where
  "bindings_for m =
     foldl (\<lambda>rows (action, byte). rebind_row action byte rows)
       (filter (\<lambda>kb. kb_key kb \<noteq> no_key \<or> kb_action kb \<in> set (map fst (km_rebinds m))) default_bindings)
       (km_rebinds m)"

definition chord_for :: "Keymap \<Rightarrow> char \<Rightarrow> Event" where
  "chord_for m b =
     (if b = km_prefix m then Forward [b]
      else if is_digit b \<and> b \<noteq> CHR ''0'' then SelectTabIdx (byte_of b - 48)
      else case find (\<lambda>kb. kb_key kb = b) (bindings_for m) of Some kb \<Rightarrow> kb_event kb | None \<Rightarrow> Bell)"

definition editable_bindings :: "Keymap \<Rightarrow> KeyBinding list" where
  "editable_bindings m =
     map (\<lambda>kb. let kb' = (if kb_key kb = no_key then kb\<lparr>kb_disp := ''unbound''\<rparr> else kb)
               in case find (\<lambda>(a, _). a = kb_action kb) (km_rebinds m) of
                    Some (_, byte) \<Rightarrow> set_binding byte kb' | None \<Rightarrow> kb') default_bindings"

definition disp_for :: "string \<Rightarrow> KeyBinding list \<Rightarrow> string option" where
  "disp_for action_id bindings = map_option kb_disp (find (\<lambda>kb. kb_action kb = action_id) bindings)"

section \<open>Resolving a key map\<close>

definition default_keys :: "(string \<times> char) list" where
  "default_keys = map (\<lambda>kb. (kb_action kb, kb_key kb)) default_bindings"

definition resolve_prefix :: "string option \<Rightarrow> char \<times> KeymapWarning list" where
  "resolve_prefix prefix_spec =
     (case prefix_spec of
        None \<Rightarrow> (DEFAULT_PREFIX, [])
      | Some spec0 \<Rightarrow>
          (let spec = trim spec0 in
           if spec = [] then (DEFAULT_PREFIX, [])
           else case parse_key spec of
               Some b \<Rightarrow> if is_digit b \<and> b \<noteq> CHR ''0'' then (DEFAULT_PREFIX, [PrefixIsDigit]) else (b, [])
             | None \<Rightarrow> (DEFAULT_PREFIX, [PrefixUnreadable spec])))"

definition propose_one ::
  "(string \<times> char) list \<times> KeymapWarning list \<Rightarrow> string \<times> string \<Rightarrow> (string \<times> char) list \<times> KeymapWarning list" where
  "propose_one acc entry =
     (case acc of (proposed, warnings) \<Rightarrow> case entry of (action0, spec) \<Rightarrow>
       (let action = to_ascii_lowercase (trim action0) in
        if action \<notin> set (map fst default_keys) then (proposed, warnings @ [NoSuchAction action])
        else case parse_key spec of
            None \<Rightarrow> (proposed, warnings @ [KeyUnreadable action spec])
          | Some byte \<Rightarrow>
              if is_digit byte \<and> byte \<noteq> CHR ''0'' then (proposed, warnings @ [KeyIsDigit action])
              else (filter (\<lambda>(a, _). a \<noteq> action) proposed @ [(action, byte)], warnings)))"

fun set_key :: "string \<Rightarrow> char \<Rightarrow> (string \<times> char) list \<Rightarrow> (string \<times> char) list" where
  "set_key action byte [] = []"
| "set_key action byte ((a, k) # m) = (if a = action then (a, byte) # m else (a, k) # set_key action byte m)"

definition final_map :: "(string \<times> char) list \<Rightarrow> (string \<times> char) list" where
  "final_map proposed = foldl (\<lambda>m (action, byte). set_key action byte m) default_keys proposed"

fun find_dup :: "(string \<times> char) list \<Rightarrow> (string \<times> string \<times> char) option" where
  "find_dup [] = None"
| "find_dup ((a, k) # m) =
     (if k = no_key then find_dup m
      else case find (\<lambda>(_, k2). k2 = k) m of Some (a2, _) \<Rightarrow> Some (a, a2, k) | None \<Rightarrow> find_dup m)"

definition find_loser :: "(string \<times> char) list \<Rightarrow> string \<Rightarrow> string \<Rightarrow> (nat \<times> string) option" where
  "find_loser proposed first second =
     (case position (\<lambda>(p, _). p = second) proposed of
        Some i \<Rightarrow> Some (i, second)
      | None \<Rightarrow> (case position (\<lambda>(p, _). p = first) proposed of Some i \<Rightarrow> Some (i, first) | None \<Rightarrow> None))"

text \<open>
  The table read once: the default keys and what the loop below needs of them, that the built-in
  prefix is nobody's key.
\<close>

lemma default_keys_eval:
  "\<forall>(a, k)\<in>set default_keys. k \<noteq> DEFAULT_PREFIX"
  by (simp add: default_keys_def default_bindings_def key_row_def DEFAULT_PREFIX_def)

lemma set_key_mem: "(a, k) \<in> set (set_key b c m) \<Longrightarrow> a \<noteq> b \<Longrightarrow> (a, k) \<in> set m"
  by (induction m) (auto split: if_splits)

lemma final_map_default:
  "(a, k) \<in> set (foldl (\<lambda>m (b, c). set_key b c m) m p) \<Longrightarrow> a \<notin> fst ` set p \<Longrightarrow> (a, k) \<in> set m"
proof (induction p arbitrary: m)
  case (Cons e p)
  then show ?case using set_key_mem [of a k "fst e" "snd e" m] by (cases e) auto
qed simp

lemma find_mem: "find P xs = Some x \<Longrightarrow> x \<in> set xs \<and> P x"
  by (induction xs) (auto split: if_splits)

lemma no_default_conflict:
  assumes "find (\<lambda>(_, k). k = DEFAULT_PREFIX \<and> k \<noteq> no_key) (final_map proposed) = Some (action, k)"
    "position (\<lambda>(a, _). a = action) proposed = None"
  shows False
proof -
  have "(action, DEFAULT_PREFIX) \<in> set (final_map proposed)" using find_mem [OF assms(1)] by auto
  moreover have "action \<notin> fst ` set proposed" using assms(2) by (auto simp: position_None_iff)
  ultimately show False using final_map_default default_keys_eval unfolding final_map_def by fastforce
qed

lemma remove_nth_less: "i < length xs \<Longrightarrow> length (remove_nth i xs) < length xs"
  by (simp add: length_remove_nth)

lemma find_loser_less: "find_loser proposed first second = Some (i, action) \<Longrightarrow> i < length proposed"
  by (auto simp: find_loser_def split: option.splits dest: position_SomeD(1))

text \<open>The rounds: each drops a proposal or gives up the configured prefix, until nothing clashes.\<close>

function resolve_rounds ::
  "char \<Rightarrow> (string \<times> char) list \<Rightarrow> KeymapWarning list \<Rightarrow> char \<times> (string \<times> char) list \<times> KeymapWarning list" where
  "resolve_rounds prefix proposed warnings =
     (let fm = final_map proposed in
      case find (\<lambda>(_, k). k = prefix \<and> k \<noteq> no_key) fm of
        Some (action, _) \<Rightarrow>
          (case position (\<lambda>(a, _). a = action) proposed of
             Some i \<Rightarrow> resolve_rounds prefix (remove_nth i proposed) (warnings @ [KeyIsPrefix action prefix])
           | None \<Rightarrow> resolve_rounds DEFAULT_PREFIX proposed (warnings @ [PrefixIsBound prefix action]))
      | None \<Rightarrow>
          (case find_dup fm of
             None \<Rightarrow> (prefix, proposed, warnings)
           | Some (first, second, byte) \<Rightarrow>
               (case find_loser proposed first second of
                  None \<Rightarrow> (prefix, proposed, warnings)
                | Some (i, action) \<Rightarrow>
                    resolve_rounds prefix (remove_nth i proposed)
                      (warnings @ [KeyShared action byte (if action = first then second else first)]))))"
  by pat_completeness auto
termination
  by (relation "measure (\<lambda>(prefix, proposed, warnings). length proposed + (if prefix = DEFAULT_PREFIX then 0 else 1))")
    (auto dest: no_default_conflict position_SomeD(1) find_loser_less intro: remove_nth_less)

declare resolve_rounds.simps [simp del]

definition resolve_keymap :: "string option \<Rightarrow> (string \<times> string) list \<Rightarrow> Keymap \<times> KeymapWarning list" where
  "resolve_keymap prefix_spec rebinds =
     (case resolve_prefix prefix_spec of (prefix, warnings) \<Rightarrow>
      case foldl propose_one ([], warnings) rebinds of (proposed, warnings') \<Rightarrow>
      case resolve_rounds prefix proposed warnings' of (prefix', proposed', warnings'') \<Rightarrow>
        (\<lparr>km_prefix = prefix', km_rebinds = proposed'\<rparr>, warnings''))"

text \<open>A refusal carries a warning of the resolver, or none.\<close>

definition resolve_prefix_change_with_rebinds ::
  "string \<Rightarrow> (string \<times> char) list \<Rightarrow> KeymapWarning option + Keymap" where
  "resolve_prefix_change_with_rebinds spec live_rebinds =
     (let requested = parse_key spec;
          specs = map (\<lambda>(action, byte). (action, key_disp byte)) live_rebinds
      in case resolve_keymap (Some spec) specs of (m, warnings) \<Rightarrow>
           if requested \<noteq> Some (km_prefix m) \<or> km_rebinds m \<noteq> live_rebinds \<or> warnings \<noteq> []
           then Inl (case warnings of [] \<Rightarrow> None | w # _ \<Rightarrow> Some w)
           else Inr m)"

definition resolve_rebind_with ::
  "char \<Rightarrow> (string \<times> char) list \<Rightarrow> string \<Rightarrow> char \<Rightarrow> KeymapWarning option + Keymap" where
  "resolve_rebind_with prefix live action byte =
     (let default = map_option kb_key (find (\<lambda>kb. kb_action kb = action) default_bindings);
          specs = map (\<lambda>(a, b). (a, key_disp b)) (filter (\<lambda>(a, _). a \<noteq> action) live);
          specs' = (if default \<noteq> Some byte then specs @ [(action, key_disp byte)] else specs)
      in case resolve_keymap (Some (key_disp prefix)) specs' of (m, warnings) \<Rightarrow>
           (case warnings of
              w # _ \<Rightarrow> Inl (Some w)
            | [] \<Rightarrow>
                if \<not> list_ex (\<lambda>kb. kb_action kb = action \<and> kb_key kb = byte) (bindings_for m) then Inl None
                else Inr m))"

section \<open>The key map in force\<close>

text \<open>The process-wide key map is absent until it is installed. A poisoned lock is not modelled.\<close>

type_synonym KeymapCell = "Keymap option"

definition install_keymap :: "Keymap \<Rightarrow> KeymapCell \<Rightarrow> KeymapCell" where
  "install_keymap m cell = (case cell of None \<Rightarrow> Some m | Some _ \<Rightarrow> cell)"

definition reinstall_keymap :: "Keymap \<Rightarrow> KeymapCell \<Rightarrow> KeymapCell" where
  "reinstall_keymap m cell = Some m"

definition prefix_in_force :: "KeymapCell \<Rightarrow> char" where
  "prefix_in_force cell = (case cell of Some m \<Rightarrow> km_prefix m | None \<Rightarrow> DEFAULT_PREFIX)"

definition keymap_in_force :: "KeymapCell \<Rightarrow> Keymap" where
  "keymap_in_force cell = (case cell of Some m \<Rightarrow> m | None \<Rightarrow> fst (resolve_keymap None []))"

definition resolve_prefix_change :: "KeymapCell \<Rightarrow> string \<Rightarrow> KeymapWarning option + Keymap" where
  "resolve_prefix_change cell spec =
     resolve_prefix_change_with_rebinds spec (case cell of Some m \<Rightarrow> km_rebinds m | None \<Rightarrow> [])"

definition resolve_rebind :: "KeymapCell \<Rightarrow> string \<Rightarrow> char \<Rightarrow> KeymapWarning option + Keymap" where
  "resolve_rebind cell action byte =
     (let m = keymap_in_force cell in resolve_rebind_with (km_prefix m) (km_rebinds m) action byte)"

end
