(* ===== verification/Key_Scanner.thy ===== *)
theory Key_Scanner
  imports Keys
begin

text \<open>
  The key layer of the client, \<open>crates/fno/src/keys.rs\<close>, second half: the scanner of the raw input.
  It is a state machine over bytes that survives read boundaries. The clock is a number of
  milliseconds; the key map is the one in force at the time of the read.
\<close>

section \<open>Data\<close>

definition PASTE_OPEN :: string where "PASTE_OPEN = esc # ''[200~''"
definition PASTE_CLOSE :: string where "PASTE_CLOSE = esc # ''[201~''"
definition GLOBAL_CHORD_PREFIX :: string where "GLOBAL_CHORD_PREFIX = esc # ''[1;7''"
definition REPEAT_WINDOW :: nat where "REPEAT_WINDOW = 500"
definition PANE_IDS_REPEAT_WINDOW :: nat where "PANE_IDS_REPEAT_WINDOW = 750"

datatype State = Normal nat | ChordEsc string | PrefixKey | Digits string | PrefixEsc string | Paste nat

datatype RepeatAction = RepeatResize | RepeatShowPaneIds

record RepeatState =
  rs_action :: RepeatAction
  rs_until :: nat

record Scanner =
  sc_state :: State
  sc_repeat :: "RepeatState option"

definition new_scanner :: Scanner where
  "new_scanner = \<lparr>sc_state = Normal 0, sc_repeat = None\<rparr>"

section \<open>Escape sequences\<close>

definition take_lone_esc :: "string \<Rightarrow> bool \<times> string" where
  "take_lone_esc carry = (if carry = [esc] then (True, []) else (False, carry))"

definition roll :: "nat \<Rightarrow> char \<Rightarrow> string \<Rightarrow> nat" where
  "roll idx b marker = (if b = marker ! idx then idx + 1 else if b = marker ! 0 then 1 else 0)"

datatype EscScan = EscComplete Event | EscPartial | EscInvalid

definition arrow :: "char \<Rightarrow> Dir option" where
  "arrow b = (if b = CHR ''A'' then Some DUp else if b = CHR ''B'' then Some DDown
     else if b = CHR ''C'' then Some DRight else if b = CHR ''D'' then Some DLeft else None)"

definition PLAIN_ESC :: string where "PLAIN_ESC = esc # ''[''"
definition CTRL_ESC :: string where "CTRL_ESC = esc # ''[1;5''"
definition SHIFT_ESC :: string where "SHIFT_ESC = esc # ''[1;2''"

text \<open>The tests after the plain arrow, in order.\<close>

definition esc_chord_long :: "string \<Rightarrow> EscScan" where
  "esc_chord_long seq =
     (if length seq = 6 \<and> starts_with seq CTRL_ESC then
        (case arrow (seq ! 5) of Some dir \<Rightarrow> EscComplete (Cmd (ResizeDir dir)) | None \<Rightarrow> EscInvalid)
      else if length seq = 6 \<and> starts_with seq SHIFT_ESC then
        (case arrow (seq ! 5) of Some dir \<Rightarrow> EscComplete (Cmd (MovePane None None dir)) | None \<Rightarrow> EscInvalid)
      else if length seq = 6 \<and> starts_with seq GLOBAL_CHORD_PREFIX then
        (if seq ! 5 = CHR ''D'' then EscComplete OpenSelector else EscInvalid)
      else if length seq < 6 \<and> (starts_with CTRL_ESC seq \<or> starts_with SHIFT_ESC seq \<or> starts_with GLOBAL_CHORD_PREFIX seq)
      then EscPartial
      else if length seq < 3 \<and> starts_with PLAIN_ESC seq then EscPartial
      else EscInvalid)"

definition esc_chord :: "string \<Rightarrow> EscScan" where
  "esc_chord seq =
     (if length seq = 3 \<and> starts_with seq PLAIN_ESC then
        (case arrow (seq ! 2) of
           Some dir \<Rightarrow> EscComplete (Cmd (FocusDir dir))
         | None \<Rightarrow> if seq ! 2 \<noteq> CHR ''1'' then EscInvalid else esc_chord_long seq)
      else esc_chord_long seq)"

definition select_tab_event :: "string \<Rightarrow> Event" where
  "select_tab_event digits = SelectTabIdx (case parse_unsigned 32 digits of Some n \<Rightarrow> n | None \<Rightarrow> 0)"

section \<open>The repeat window\<close>

definition repeat_armed :: "Scanner \<Rightarrow> RepeatAction \<Rightarrow> nat \<Rightarrow> bool" where
  "repeat_armed sc action now =
     (case sc_repeat sc of Some rs \<Rightarrow> rs_action rs = action \<and> now < rs_until rs | None \<Rightarrow> False)"

definition arm_repeat :: "nat \<Rightarrow> Scanner \<Rightarrow> Scanner" where
  "arm_repeat now sc = sc\<lparr>sc_repeat := Some \<lparr>rs_action = RepeatResize, rs_until = now + REPEAT_WINDOW\<rparr>\<rparr>"

definition arm_show_pane_ids :: "nat \<Rightarrow> Scanner \<Rightarrow> Scanner" where
  "arm_show_pane_ids now sc =
     sc\<lparr>sc_repeat := Some \<lparr>rs_action = RepeatShowPaneIds, rs_until = now + PANE_IDS_REPEAT_WINDOW\<rparr>\<rparr>"

definition disarm_repeat :: "Scanner \<Rightarrow> Scanner" where
  "disarm_repeat sc = sc\<lparr>sc_repeat := None\<rparr>"

definition arm_if_repeat :: "Event \<Rightarrow> nat \<Rightarrow> Scanner \<Rightarrow> Scanner" where
  "arm_if_repeat ev now sc =
     (case ev of Cmd (ResizeDir _) \<Rightarrow> arm_repeat now sc | ShowPaneIds \<Rightarrow> arm_show_pane_ids now sc | _ \<Rightarrow> sc)"

section \<open>Output\<close>

text \<open>The bytes waiting to be forwarded and the events so far.\<close>

type_synonym Output = "string \<times> Event list"

definition flush :: "Output \<Rightarrow> Output" where
  "flush po = (case po of (plain, out) \<Rightarrow> if plain \<noteq> [] then ([], out @ [Forward plain]) else (plain, out))"

definition push_event :: "Event \<Rightarrow> Output \<Rightarrow> Output" where
  "push_event ev po = (case po of (plain, out) \<Rightarrow> (plain, out @ [ev]))"

definition push_plain :: "string \<Rightarrow> Output \<Rightarrow> Output" where
  "push_plain bs po = (case po of (plain, out) \<Rightarrow> (plain @ bs, out))"

definition paste_state :: "nat \<Rightarrow> State" where
  "paste_state idx = (if idx = length PASTE_OPEN then Paste 0 else Normal idx)"

definition release_index :: "string \<Rightarrow> nat" where
  "release_index seq = foldl (\<lambda>idx b. roll idx b PASTE_OPEN) 0 seq"

section \<open>One byte\<close>

text \<open>Each arm returns the scanner, the output and whether the byte is to be read again.\<close>

type_synonym Turn = "Scanner \<times> Output \<times> bool"

definition forward_byte :: "Scanner \<Rightarrow> Output \<Rightarrow> nat \<Rightarrow> char \<Rightarrow> Turn" where
  "forward_byte sc po open_idx b =
     ((disarm_repeat sc)\<lparr>sc_state := paste_state (roll open_idx b PASTE_OPEN)\<rparr>, push_plain [b] po, False)"

definition scan_normal :: "Keymap \<Rightarrow> nat \<Rightarrow> Scanner \<Rightarrow> Output \<Rightarrow> nat \<Rightarrow> char \<Rightarrow> Turn" where
  "scan_normal km now sc po open_idx b =
     (if b = km_prefix km then ((disarm_repeat sc)\<lparr>sc_state := PrefixKey\<rparr>, flush po, False)
      else if b = esc then ((disarm_repeat sc)\<lparr>sc_state := ChordEsc [esc]\<rparr>, po, False)
      else if repeat_armed sc RepeatResize now then
        (case chord_for km b of
           Cmd (ResizeDir dir) \<Rightarrow>
             ((arm_repeat now sc)\<lparr>sc_state := Normal 0\<rparr>, push_event (Cmd (ResizeDir dir)) (flush po), False)
         | _ \<Rightarrow> forward_byte sc po open_idx b)
      else if repeat_armed sc RepeatShowPaneIds now \<and> chord_for km b = ShowPaneIds then
        ((arm_show_pane_ids now sc)\<lparr>sc_state := Normal 0\<rparr>, push_event ShowPaneIds (flush po), False)
      else forward_byte sc po open_idx b)"

definition release_held :: "Scanner \<Rightarrow> Output \<Rightarrow> string \<Rightarrow> Turn" where
  "release_held sc po seq =
     (let held = butlast seq in (sc\<lparr>sc_state := paste_state (release_index held)\<rparr>, push_plain held po, True))"

definition scan_chord_esc :: "Scanner \<Rightarrow> Output \<Rightarrow> string \<Rightarrow> char \<Rightarrow> Turn" where
  "scan_chord_esc sc po seq0 b =
     (let seq = seq0 @ [b] in
      if starts_with GLOBAL_CHORD_PREFIX seq then (sc\<lparr>sc_state := ChordEsc seq\<rparr>, po, False)
      else if length seq = 2 \<and> is_digit (seq ! 1) then (sc\<lparr>sc_state := Digits [seq ! 1]\<rparr>, flush po, False)
      else if length seq = length GLOBAL_CHORD_PREFIX + 1 then
        (case esc_chord seq of
           EscComplete ev \<Rightarrow> (sc\<lparr>sc_state := Normal 0\<rparr>, push_event ev (flush po), False)
         | _ \<Rightarrow> release_held sc po seq)
      else release_held sc po seq)"

definition scan_paste :: "Scanner \<Rightarrow> Output \<Rightarrow> nat \<Rightarrow> char \<Rightarrow> Turn" where
  "scan_paste sc po close_idx b =
     (let idx = roll close_idx b PASTE_CLOSE in
      (sc\<lparr>sc_state := if idx = length PASTE_CLOSE then Normal 0 else Paste idx\<rparr>, push_plain [b] po, False))"

definition scan_prefix :: "Keymap \<Rightarrow> nat \<Rightarrow> Scanner \<Rightarrow> Output \<Rightarrow> char \<Rightarrow> Turn" where
  "scan_prefix km now sc po b =
     (if b = esc then (sc\<lparr>sc_state := PrefixEsc [esc]\<rparr>, po, False)
      else if is_digit b then (sc\<lparr>sc_state := Digits [b]\<rparr>, po, False)
      else let ev = chord_for km b in ((arm_if_repeat ev now sc)\<lparr>sc_state := Normal 0\<rparr>, push_event ev po, False))"

definition scan_digits :: "Scanner \<Rightarrow> Output \<Rightarrow> string \<Rightarrow> char \<Rightarrow> Turn" where
  "scan_digits sc po digits b =
     (if is_digit b \<and> length digits < 6 then (sc\<lparr>sc_state := Digits (digits @ [b])\<rparr>, po, False)
      else if b = CHR 0x0D \<or> b = CHR 0x0A then
        (sc\<lparr>sc_state := Normal 0\<rparr>, push_event (select_tab_event digits) (flush po), False)
      else if b = esc then (sc\<lparr>sc_state := Normal 0\<rparr>, po, False)
      else (sc\<lparr>sc_state := Normal 0\<rparr>, push_event (select_tab_event digits) (flush po), True))"

definition scan_prefix_esc :: "nat \<Rightarrow> Scanner \<Rightarrow> Output \<Rightarrow> string \<Rightarrow> char \<Rightarrow> Turn" where
  "scan_prefix_esc now sc po seq0 b =
     (let seq = seq0 @ [b] in
      if seq = PASTE_OPEN then
        (sc\<lparr>sc_state := Paste 0\<rparr>, push_plain PASTE_OPEN (flush (push_event Bell po)), False)
      else if starts_with PASTE_OPEN seq then (sc\<lparr>sc_state := PrefixEsc seq\<rparr>, po, False)
      else if length seq = 2 \<and> is_digit (seq ! 1) then (sc\<lparr>sc_state := Digits [seq ! 1]\<rparr>, po, False)
      else case esc_chord seq of
          EscComplete ev \<Rightarrow> ((arm_if_repeat ev now sc)\<lparr>sc_state := Normal 0\<rparr>, push_event ev po, False)
        | EscPartial \<Rightarrow> (sc\<lparr>sc_state := PrefixEsc seq\<rparr>, po, False)
        | EscInvalid \<Rightarrow> (sc\<lparr>sc_state := Normal 0\<rparr>, push_event Bell po, False))"

definition scan_byte :: "Keymap \<Rightarrow> nat \<Rightarrow> Scanner \<Rightarrow> Output \<Rightarrow> char \<Rightarrow> Turn" where
  "scan_byte km now sc po b =
     (case sc_state sc of
        Normal open_idx \<Rightarrow> scan_normal km now sc po open_idx b
      | ChordEsc seq \<Rightarrow> scan_chord_esc sc po seq b
      | Paste close_idx \<Rightarrow> scan_paste sc po close_idx b
      | PrefixKey \<Rightarrow> scan_prefix km now sc po b
      | Digits digits \<Rightarrow> scan_digits sc po digits b
      | PrefixEsc seq \<Rightarrow> scan_prefix_esc now sc po seq b)"

section \<open>The loop\<close>

definition holds_number :: "State \<Rightarrow> bool" where
  "holds_number st = (case st of ChordEsc _ \<Rightarrow> True | Digits _ \<Rightarrow> True | _ \<Rightarrow> False)"

lemma replay_releases:
  "scan_byte km now sc po b = (sc', po', True) \<Longrightarrow> holds_number (sc_state sc) \<and> \<not> holds_number (sc_state sc')"
  by (auto simp: scan_byte_def scan_normal_def forward_byte_def scan_chord_esc_def release_held_def scan_paste_def
      scan_prefix_def scan_digits_def scan_prefix_esc_def holds_number_def paste_state_def Let_def
      split: State.splits if_splits EscScan.splits Event.splits Command.splits)

function scan_loop :: "Keymap \<Rightarrow> nat \<Rightarrow> Scanner \<Rightarrow> Output \<Rightarrow> string \<Rightarrow> Scanner \<times> Output" where
  "scan_loop km now sc po [] = (sc, po)"
| "scan_loop km now sc po (b # bytes) =
     (case scan_byte km now sc po b of (sc', po', replay) \<Rightarrow>
        if replay then scan_loop km now sc' po' (b # bytes) else scan_loop km now sc' po' bytes)"
  by pat_completeness auto
termination
  by (relation "measure (\<lambda>(km, now, sc, po, bytes). 2 * length bytes + (if holds_number (sc_state sc) then 1 else 0))")
    (auto dest!: replay_releases [OF sym])

declare scan_loop.simps(2) [simp del]

definition scan_input :: "Keymap \<Rightarrow> nat \<Rightarrow> Scanner \<Rightarrow> string \<Rightarrow> Scanner \<times> Event list" where
  "scan_input km now sc bytes =
     (case scan_loop km now sc ([], []) bytes of (sc', po) \<Rightarrow> (sc', snd (flush po)))"

section \<open>Between reads\<close>

definition chord_pending :: "Scanner \<Rightarrow> bool" where
  "chord_pending sc = (case sc_state sc of ChordEsc _ \<Rightarrow> True | _ \<Rightarrow> False)"

text \<open>The flushes take the state out before they look at it, whatever it was.\<close>

definition flush_chord :: "Scanner \<Rightarrow> Event option \<times> Scanner" where
  "flush_chord sc =
     (case sc_state sc of
        ChordEsc seq \<Rightarrow> (if seq \<noteq> [] then Some (Forward seq) else None, sc\<lparr>sc_state := paste_state (release_index seq)\<rparr>)
      | _ \<Rightarrow> (None, sc\<lparr>sc_state := Normal 0\<rparr>))"

definition digits_pending :: "Scanner \<Rightarrow> bool" where
  "digits_pending sc = (case sc_state sc of Digits _ \<Rightarrow> True | _ \<Rightarrow> False)"

definition flush_digits :: "Scanner \<Rightarrow> Event option \<times> Scanner" where
  "flush_digits sc =
     (case sc_state sc of
        Digits digits \<Rightarrow> (if digits \<noteq> [] then Some (select_tab_event digits) else None, sc\<lparr>sc_state := Normal 0\<rparr>)
      | _ \<Rightarrow> (None, sc\<lparr>sc_state := Normal 0\<rparr>))"

definition prefix_pending :: "Scanner \<Rightarrow> bool" where
  "prefix_pending sc = (case sc_state sc of PrefixKey \<Rightarrow> True | PrefixEsc _ \<Rightarrow> True | _ \<Rightarrow> False)"

end
