(* ===== verification/Keys_Props.thy ===== *)
theory Keys_Props
  imports Keys
begin

text \<open>
  What a resolved key map promises: every row of the table that is shown can be typed and runs what
  it says, whatever the user's configuration asked for; printed keys read back as themselves.
\<close>

section \<open>Key specifications\<close>

lemma byte_of_char_of [simp]: "n < 256 \<Longrightarrow> byte_of (char_of n) = n"
  by (simp add: byte_of_def)

lemma char_of_byte_of [simp]: "char_of (byte_of c) = c"
  by (simp add: byte_of_def)

lemma ctrl_letter_lower: "1 \<le> (n :: nat) \<Longrightarrow> n \<le> 26 \<Longrightarrow> ctrl_letter (char_of (n - 1 + 97)) = Some (char_of n)"
  by (simp add: ctrl_letter_def is_ascii_alphabetic_def lower_char_def byte_of_def)

lemma ctrl_letter_range: "ctrl_letter c = Some b \<Longrightarrow> 1 \<le> byte_of b \<and> byte_of b \<le> 26"
  by (auto simp: ctrl_letter_def is_ascii_alphabetic_def lower_char_def byte_of_def Let_def split: if_splits)

lemma parse_ctrl_range: "parse_ctrl s = Some b \<Longrightarrow> 1 \<le> byte_of b \<and> byte_of b \<le> 26"
  by (auto simp: parse_ctrl_def Let_def split: option.splits list.splits dest!: ctrl_letter_range)

text \<open>A key is a control letter or a printable character.\<close>

definition typeable :: "char \<Rightarrow> bool" where
  "typeable b \<longleftrightarrow> 1 \<le> byte_of b \<and> byte_of b \<le> 26 \<or> is_ascii_graphic b"

lemma parse_key_typeable: "parse_key s = Some b \<Longrightarrow> typeable b"
  using ctrl_letter_range parse_ctrl_range
  by (auto simp: parse_key_def Let_def typeable_def split: list.splits if_splits)

lemma graphic_not_space: "is_ascii_graphic c \<Longrightarrow> \<not> is_space c"
  by (auto simp: is_ascii_graphic_def is_space_def byte_of_def)

lemma disp_ctrl:
  assumes "1 \<le> byte_of b" "byte_of b \<le> 26"
  shows "parse_key (''ctrl+'' @ [char_of (byte_of b - 1 + 97)]) = Some b"
proof -
  let ?c = "char_of (byte_of b - 1 + 97) :: char"
  have c: "97 \<le> byte_of ?c" "byte_of ?c \<le> 122" using assms by simp_all
  have "list_all (\<lambda>c. \<not> is_space c) (''ctrl+'' @ [?c])" using c by (simp add: is_space_def byte_of_def)
  then have "trim (''ctrl+'' @ [?c]) = ''ctrl+'' @ [?c]" by (rule trim_no_space)
  moreover have "lower_char ?c = ?c" using c by (simp add: lower_char_def byte_of_def Let_def)
  ultimately show ?thesis
    using ctrl_letter_lower [OF assms]
    by (simp add: parse_key_def parse_ctrl_def to_ascii_lowercase_def lower_char_def strip_spec_def starts_with_def)
qed

text \<open>
  Every key a terminal can send as one byte prints to a label that reads back as that key, and no
  other byte does: a label copied from the key table into the configuration means the same key.
\<close>

theorem key_disp_roundtrip: "parse_key (key_disp b) = Some b \<longleftrightarrow> typeable b"
proof (cases "1 \<le> byte_of b \<and> byte_of b \<le> 26")
  case True
  with disp_ctrl [of b] show ?thesis by (auto simp: key_disp_def typeable_def)
next
  case False
  then have d: "key_disp b = [b]" by (auto simp: key_disp_def)
  show ?thesis
  proof (cases "is_ascii_graphic b")
    case True
    then have "trim [b] = [b]" by (intro trim_no_space) (simp add: graphic_not_space)
    with True d show ?thesis by (simp add: parse_key_def typeable_def)
  next
    case F: False
    with False have "\<not> typeable b" by (auto simp: typeable_def)
    then show ?thesis using parse_key_typeable by metis
  qed
qed

section \<open>The table as shipped\<close>

lemma default_actions_distinct: "distinct (map fst default_keys)"
  by (simp add: default_keys_def default_bindings_def key_row_def)

lemma default_keys_distinct: "distinct (map snd (filter (\<lambda>(a, k). k \<noteq> no_key) default_keys))"
  by (simp add: default_keys_def default_bindings_def key_row_def no_key_def)

lemma default_keys_no_digit: "\<forall>(a, k)\<in>set default_keys. \<not> is_digit k"
  by (simp add: default_keys_def default_bindings_def key_row_def is_digit_def)

lemma default_keys_fst: "map fst default_keys = map kb_action default_bindings"
  by (simp add: default_keys_def)

section \<open>Applying rebinds\<close>

definition key_under :: "(string \<times> char) list \<Rightarrow> string \<Rightarrow> char \<Rightarrow> char" where
  "key_under p a k = (case map_of p a of Some b \<Rightarrow> b | None \<Rightarrow> k)"

lemma set_key_map:
  "distinct (map fst m) \<Longrightarrow> set_key a b m = map (\<lambda>(x, k). (x, if x = a then b else k)) m"
proof (induction m)
  case (Cons e m)
  have "map (\<lambda>(x, k). (x, if x = a then b else k)) m = m" if "a \<notin> fst ` set m"
    using that by (intro map_idI) (auto simp: image_iff)
  with Cons show ?case by (cases e) auto
qed simp

lemma final_map_fold:
  "distinct (map fst m) \<Longrightarrow> distinct (map fst p) \<Longrightarrow>
     foldl (\<lambda>m (a, b). set_key a b m) m p = map (\<lambda>(x, k). (x, key_under p x k)) m"
proof (induction p arbitrary: m)
  case Nil
  show ?case by (simp add: key_under_def case_prod_eta)
next
  case (Cons e p)
  obtain a b where e: "e = (a, b)" by force
  have "distinct (map fst (set_key a b m))"
    using Cons.prems(1) by (simp add: set_key_map comp_def case_prod_unfold)
  then have "foldl (\<lambda>m (a, b). set_key a b m) (set_key a b m) p = map (\<lambda>(x, k). (x, key_under p x k)) (set_key a b m)"
    using Cons by simp
  moreover have "map_of p a = None" using Cons.prems(2) e by (simp add: map_of_eq_None_iff)
  ultimately show ?case
    using Cons.prems(1) e by (auto simp: set_key_map key_under_def)
qed

lemma final_map_eq: "distinct (map fst p) \<Longrightarrow> final_map p = map (\<lambda>(a, k). (a, key_under p a k)) default_keys"
  unfolding final_map_def using final_map_fold default_actions_distinct by blast

lemma rebind_row_map:
  "distinct (map kb_action rows) \<Longrightarrow>
     rebind_row a b rows = map (\<lambda>kb. if kb_action kb = a then set_binding b kb else kb) rows"
proof (induction rows)
  case (Cons kb rows)
  have "map (\<lambda>kb. if kb_action kb = a then set_binding b kb else kb) rows = rows" if "a \<notin> kb_action ` set rows"
    using that by (intro map_idI) auto
  with Cons show ?case by auto
qed simp

definition row_under :: "(string \<times> char) list \<Rightarrow> KeyBinding \<Rightarrow> KeyBinding" where
  "row_under p kb = (case map_of p (kb_action kb) of Some b \<Rightarrow> set_binding b kb | None \<Rightarrow> kb)"

lemma set_binding_simps [simp]:
  "kb_action (set_binding b kb) = kb_action kb" "kb_key (set_binding b kb) = b" "kb_event (set_binding b kb) = kb_event kb"
  "set_binding b (set_binding c kb) = set_binding b kb"
  by (simp_all add: set_binding_def)

lemma rows_fold:
  "distinct (map kb_action rows) \<Longrightarrow> distinct (map fst p) \<Longrightarrow>
     foldl (\<lambda>rows (a, b). rebind_row a b rows) rows p = map (row_under p) rows"
proof (induction p arbitrary: rows)
  case Nil
  show ?case by (simp add: row_under_def)
next
  case (Cons e p)
  obtain a b where e: "e = (a, b)" by force
  have d: "map kb_action (rebind_row a b rows) = map kb_action rows"
    using Cons.prems(1) by (simp add: rebind_row_map)
  moreover have "map_of p a = None" using Cons.prems(2) e by (simp add: map_of_eq_None_iff)
  ultimately have "foldl (\<lambda>rows (a, b). rebind_row a b rows) rows (e # p) = map (row_under p) (rebind_row a b rows)"
    using Cons.prems e Cons.IH [of "rebind_row a b rows"] by simp
  also have "\<dots> = map (row_under (e # p)) rows"
    using Cons.prems \<open>map_of p a = None\<close> e by (auto simp: rebind_row_map row_under_def)
  finally show ?case .
qed

lemma bindings_eq:
  assumes "distinct (map fst (km_rebinds m))"
  shows "bindings_for m = map (row_under (km_rebinds m))
    (filter (\<lambda>kb. kb_key kb \<noteq> no_key \<or> kb_action kb \<in> set (map fst (km_rebinds m))) default_bindings)"
proof -
  have "distinct (map kb_action (filter P default_bindings))" for P
    using default_actions_distinct unfolding default_keys_fst by (rule distinct_map_filter)
  then show ?thesis unfolding bindings_for_def using rows_fold assms by blast
qed

lemma bindings_keys:
  assumes "distinct (map fst (km_rebinds m))" "no_key \<notin> snd ` set (km_rebinds m)"
  shows "map (\<lambda>kb. (kb_action kb, kb_key kb)) (bindings_for m) =
    filter (\<lambda>(a, k). k \<noteq> no_key) (final_map (km_rebinds m))"
proof -
  let ?p = "km_rebinds m"
  have k: "(kb_action (row_under ?p kb), kb_key (row_under ?p kb)) = (kb_action kb, key_under ?p (kb_action kb) (kb_key kb))" for kb
    by (simp add: row_under_def key_under_def split: option.splits)
  have f: "(kb_key kb \<noteq> no_key \<or> kb_action kb \<in> set (map fst ?p)) \<longleftrightarrow> key_under ?p (kb_action kb) (kb_key kb) \<noteq> no_key" for kb
    using assms(2) by (force simp: key_under_def map_of_eq_None_iff image_iff dest: map_of_SomeD split: option.splits)
  show ?thesis
    unfolding bindings_eq [OF assms(1)] final_map_eq [OF assms(1)] default_keys_def f
    by (simp add: k comp_def filter_map)
qed

section \<open>The rounds\<close>

lemma find_dup_None: "find_dup m = None \<Longrightarrow> distinct (map snd (filter (\<lambda>(a, k). k \<noteq> no_key) m))"
  by (induction m rule: find_dup.induct) (auto simp: find_None_iff split: if_splits option.splits)

lemma find_dup_Some:
  "find_dup m = Some (a, b, k) \<Longrightarrow> distinct (map fst m) \<Longrightarrow>
     (a, k) \<in> set m \<and> (b, k) \<in> set m \<and> a \<noteq> b \<and> k \<noteq> no_key"
proof (induction m rule: find_dup.induct)
  case (2 x l m)
  show ?case
  proof (cases "l = no_key \<or> find (\<lambda>(_, k2). k2 = l) m = None")
    case True
    with 2 show ?thesis by (auto split: if_splits)
  next
    case False
    then obtain y where y: "find (\<lambda>(_, k2). k2 = l) m = Some (y, l)" "(y, l) \<in> set m" using find_mem by fastforce
    with False 2(3) have "a = x" "b = y" "k = l" by simp_all
    with y False 2(4) show ?thesis by (auto simp: image_iff)
  qed
qed simp

lemma default_key_owner:
  assumes "(a, k) \<in> set default_keys" "(b, k) \<in> set default_keys" "k \<noteq> no_key"
  shows "a = b"
proof -
  have "inj_on snd (set (filter (\<lambda>(a, k). k \<noteq> no_key) default_keys))"
    using default_keys_distinct by (simp add: distinct_map)
  from inj_onD [OF this, of "(a, k)" "(b, k)"] assms show ?thesis by simp
qed

lemma final_map_actions: "map fst (final_map p) = map fst default_keys"
proof -
  have "map fst (set_key a b m) = map fst m" for a b m by (induction m) auto
  then have "map fst (foldl (\<lambda>m (a, b). set_key a b m) m p) = map fst m" for m
    by (induction p arbitrary: m) auto
  then show ?thesis by (simp add: final_map_def)
qed

lemma dup_has_loser:
  assumes "find_dup (final_map p) = Some (first, second, k)"
  shows "find_loser p first second \<noteq> None"
proof
  assume "find_loser p first second = None"
  then have "first \<notin> fst ` set p" "second \<notin> fst ` set p"
    by (auto simp: find_loser_def position_None_iff split: option.splits)
  moreover have "(first, k) \<in> set (final_map p) \<and> (second, k) \<in> set (final_map p) \<and> first \<noteq> second \<and> k \<noteq> no_key"
    using find_dup_Some [OF assms] default_actions_distinct by (simp add: final_map_actions)
  ultimately show False using final_map_default default_key_owner unfolding final_map_def by metis
qed

definition settled :: "char \<Rightarrow> (string \<times> char) list \<Rightarrow> bool" where
  "settled pf p \<longleftrightarrow> find (\<lambda>(_, k). k = pf \<and> k \<noteq> no_key) (final_map p) = None \<and> find_dup (final_map p) = None"

lemma rounds_result:
  "resolve_rounds prefix p w = (pf, p', w') \<Longrightarrow> distinct (map fst p) \<Longrightarrow>
     set p' \<subseteq> set p \<and> distinct (map fst p') \<and> pf \<in> {prefix, DEFAULT_PREFIX} \<and> settled pf p'"
proof (induction prefix p w rule: resolve_rounds.induct)
  case (1 prefix p w)
  note sub = set_remove_nth_subset distinct_map_remove_nth [OF 1(5)]
  show ?case
  proof (cases "find (\<lambda>(_, k). k = prefix \<and> k \<noteq> no_key) (final_map p)")
    case (Some ak)
    obtain action k where ak: "ak = (action, k)" by force
    show ?thesis
    proof (cases "position (\<lambda>(a, _). a = action) p")
      case None
      then have "resolve_rounds DEFAULT_PREFIX p (w @ [PrefixIsBound prefix action]) = (pf, p', w')"
        using 1(4) Some ak by (subst (asm) resolve_rounds.simps) simp
      from 1(2) [OF refl Some ak [symmetric] None this 1(5)] show ?thesis by auto
    next
      case (Some i)
      then have "resolve_rounds prefix (remove_nth i p) (w @ [KeyIsPrefix action prefix]) = (pf, p', w')"
        using 1(4) \<open>find _ _ = Some ak\<close> ak by (subst (asm) resolve_rounds.simps) simp
      from 1(3) [OF refl \<open>find _ _ = Some ak\<close> ak [symmetric] Some this sub(2)] sub(1) [of i p] show ?thesis by (meson subset_trans)
    qed
  next
    case None
    show ?thesis
    proof (cases "find_dup (final_map p)")
      case n: None
      with None 1(4,5) show ?thesis by (subst (asm) resolve_rounds.simps) (simp add: settled_def)
    next
      case (Some d)
      obtain first second k where d: "d = (first, second, k)" by (cases d)
      then obtain i a where l: "find_loser p first second = Some (i, a)" using dup_has_loser [of p] Some by fastforce
      then have "resolve_rounds prefix (remove_nth i p)
          (w @ [KeyShared a k (if a = first then second else first)]) = (pf, p', w')"
        using 1(4) None Some d by (subst (asm) resolve_rounds.simps) simp
      from 1(1) [OF refl None Some d [symmetric] refl l refl this sub(2)] sub(1) [of i p] show ?thesis by (meson subset_trans)
    qed
  qed
qed

section \<open>Resolved maps\<close>

definition good_proposals :: "(string \<times> char) list \<Rightarrow> bool" where
  "good_proposals p \<longleftrightarrow> distinct (map fst p) \<and>
     (\<forall>(a, k)\<in>set p. a \<in> set (map fst default_keys) \<and> typeable k \<and> \<not> (is_digit k \<and> k \<noteq> CHR ''0''))"

lemma propose_good: "good_proposals p \<Longrightarrow> good_proposals (fst (propose_one (p, w) e))"
  by (cases e) (auto simp: propose_one_def good_proposals_def Let_def distinct_map_filter
      dest: parse_key_typeable split: option.splits)

lemma proposals_good: "good_proposals p \<Longrightarrow> good_proposals (fst (foldl propose_one (p, w) rb))"
proof (induction rb arbitrary: p w)
  case (Cons e rb)
  then show ?case using propose_good [of p w e] by (cases "propose_one (p, w) e") auto
qed simp

lemma typeable_not_no_key: "typeable k \<Longrightarrow> k \<noteq> no_key"
  by (auto simp: typeable_def is_ascii_graphic_def no_key_def byte_of_def)

lemma resolved_map:
  assumes "fst (resolve_keymap ps rb) = m"
  shows "good_proposals (km_rebinds m)" "settled (km_prefix m) (km_rebinds m)"
    "\<not> (is_digit (km_prefix m) \<and> km_prefix m \<noteq> CHR ''0'')"
proof -
  obtain pf w where pf: "resolve_prefix ps = (pf, w)" by force
  obtain p w1 where p: "foldl propose_one ([], w) rb = (p, w1)" by force
  obtain pf' p' w2 where r: "resolve_rounds pf p w1 = (pf', p', w2)" by (cases "resolve_rounds pf p w1")
  have m: "m = \<lparr>km_prefix = pf', km_rebinds = p'\<rparr>" using assms by (simp add: resolve_keymap_def pf p r)
  have g: "good_proposals p" using proposals_good [of "[]" w rb] p by (simp add: good_proposals_def)
  then have res: "set p' \<subseteq> set p \<and> distinct (map fst p') \<and> pf' \<in> {pf, DEFAULT_PREFIX} \<and> settled pf' p'"
    using rounds_result [OF r] by (simp add: good_proposals_def)
  then show "good_proposals (km_rebinds m)" "settled (km_prefix m) (km_rebinds m)"
    using g by (auto simp: m good_proposals_def)
  have "\<not> is_digit DEFAULT_PREFIX" by (simp add: DEFAULT_PREFIX_def is_digit_def)
  moreover have "\<not> (is_digit pf \<and> pf \<noteq> CHR ''0'')" using pf calculation
    by (auto simp: resolve_prefix_def Let_def split: option.splits if_splits)
  ultimately show "\<not> (is_digit (km_prefix m) \<and> km_prefix m \<noteq> CHR ''0'')" using res by (auto simp: m)
qed

lemma find_distinct: "distinct (map f xs) \<Longrightarrow> x \<in> set xs \<Longrightarrow> find (\<lambda>y. f y = f x) xs = Some x"
  by (induction xs) (auto simp: image_iff)

lemma dispatch_row:
  assumes "good_proposals (km_rebinds m)" "settled (km_prefix m) (km_rebinds m)" "kb \<in> set (bindings_for m)"
  shows "chord_for m (kb_key kb) = kb_event kb"
proof -
  let ?fm = "final_map (km_rebinds m)"
  have nk: "no_key \<notin> snd ` set (km_rebinds m)"
    using assms(1) typeable_not_no_key by (fastforce simp: good_proposals_def)
  have d: "distinct (map fst (km_rebinds m))" using assms(1) by (simp add: good_proposals_def)
  note keys = bindings_keys [OF d nk]
  have "map kb_key (bindings_for m) = map snd (filter (\<lambda>(a, k). k \<noteq> no_key) ?fm)"
    using arg_cong [OF keys, of "map snd"] by (simp add: comp_def)
  then have dk: "distinct (map kb_key (bindings_for m))" using assms(2) find_dup_None by (simp add: settled_def)
  have "(kb_action kb, kb_key kb) \<in> set (filter (\<lambda>(a, k). k \<noteq> no_key) ?fm)"
    using assms(3) unfolding keys [symmetric] by simp
  then have fm: "(kb_action kb, kb_key kb) \<in> set ?fm" "kb_key kb \<noteq> no_key" by auto
  then have np: "kb_key kb \<noteq> km_prefix m" using assms(2) by (fastforce simp: settled_def find_None_iff)
  have "\<not> (is_digit (kb_key kb) \<and> kb_key kb \<noteq> CHR ''0'')"
    using fm(1) assms(1) default_keys_no_digit
    by (fastforce simp: final_map_eq [OF d] key_under_def good_proposals_def dest: map_of_SomeD split: option.splits)
  then show ?thesis using np find_distinct [OF dk assms(3)] by (auto simp: chord_for_def)
qed


end
