(* ===== verification/Scanner_Props.thy ===== *)
theory Scanner_Props
  imports Key_Scanner Keys_Props "HOL-Library.Sublist"
begin

text \<open>
  The scanner neither depends on how its input is cut into reads nor invents or reorders a byte. A
  paste passes verbatim up to its closing marker, whose rolling match is exact, and a chord after
  the prefix never leaks into the pane.
\<close>

section \<open>What an output says\<close>

text \<open>The events with the forwarded chunks taken apart: how bytes were coalesced does not show.\<close>

definition flat :: "Event list \<Rightarrow> (char + Event) list" where
  "flat evs = concat (map (\<lambda>ev. case ev of Forward bs \<Rightarrow> map Inl bs | _ \<Rightarrow> [Inr ev]) evs)"

definition obs :: "Output \<Rightarrow> (char + Event) list" where
  "obs po = flat (snd po) @ map Inl (fst po)"

lemma flat_simps [simp]: "flat [] = []" "flat (xs @ ys) = flat xs @ flat ys" "flat [Forward bs] = map Inl bs"
  by (simp_all add: flat_def)

lemma obs_flush [simp]: "obs (flush po) = obs po" "fst (flush po) = []"
  by (cases po; simp add: flush_def obs_def)+

lemma obs_push_plain [simp]: "obs (push_plain bs po) = obs po @ map Inl bs"
  by (cases po) (simp add: push_plain_def obs_def)

lemma obs_push_event: "fst po = [] \<Longrightarrow> obs (push_event ev po) = obs po @ flat [ev]" "fst (push_event ev po) = fst po"
  by (cases po; simp add: push_event_def obs_def)+

text \<open>While a chord is being typed nothing waits to be forwarded.\<close>

definition settled_output :: "State \<Rightarrow> Output \<Rightarrow> bool" where
  "settled_output st po \<longleftrightarrow> (case st of PrefixKey \<Rightarrow> fst po = [] | PrefixEsc _ \<Rightarrow> fst po = [] | Digits _ \<Rightarrow> fst po = [] | _ \<Rightarrow> True)"

lemmas scan_arms = scan_normal_def forward_byte_def scan_chord_esc_def release_held_def scan_paste_def
  scan_prefix_def scan_digits_def scan_prefix_esc_def

lemmas scan_arm_splits = State.splits if_splits EscScan.splits Event.splits Command.splits

text \<open>A turn does the same whatever was output before, and adds to it.\<close>

definition turn_agrees :: "Output \<Rightarrow> Turn \<Rightarrow> Turn \<Rightarrow> bool" where
  "turn_agrees po t t0 \<longleftrightarrow> (case t of (sc, po', r) \<Rightarrow> case t0 of (sc0, po0, r0) \<Rightarrow>
     sc = sc0 \<and> r = r0 \<and> obs po' = obs po @ obs po0 \<and> settled_output (sc_state sc) po')"

lemma paste_state_settled [simp]: "settled_output (paste_state i) po"
  by (simp add: paste_state_def settled_output_def)

lemma obs_empty [simp]: "obs ([], []) = []"
  by (simp add: obs_def)

lemma turn_prefix: "fst po = [] \<Longrightarrow> turn_agrees po (scan_prefix km now sc po b) (scan_prefix km now sc ([], []) b)"
  by (auto simp: turn_agrees_def scan_prefix_def Let_def settled_output_def obs_push_event)

lemma turn_digits: "fst po = [] \<Longrightarrow> turn_agrees po (scan_digits sc po ds b) (scan_digits sc ([], []) ds b)"
  by (auto simp: turn_agrees_def scan_digits_def settled_output_def obs_push_event)

lemma turn_prefix_esc:
  "fst po = [] \<Longrightarrow> turn_agrees po (scan_prefix_esc now sc po seq b) (scan_prefix_esc now sc ([], []) seq b)"
  by (auto simp: turn_agrees_def scan_prefix_esc_def Let_def settled_output_def obs_push_event split: EscScan.splits)

lemma turn_paste: "turn_agrees po (scan_paste sc po i b) (scan_paste sc ([], []) i b)"
  by (auto simp: turn_agrees_def scan_paste_def Let_def settled_output_def)

lemma turn_chord_esc: "turn_agrees po (scan_chord_esc sc po seq b) (scan_chord_esc sc ([], []) seq b)"
  by (auto simp: turn_agrees_def scan_chord_esc_def release_held_def Let_def obs_push_event
      split: EscScan.splits) (auto simp: settled_output_def)

lemma turn_normal: "turn_agrees po (scan_normal km now sc po i b) (scan_normal km now sc ([], []) i b)"
  by (auto simp: turn_agrees_def scan_normal_def forward_byte_def settled_output_def obs_push_event
      disarm_repeat_def paste_state_def split: Event.splits Command.splits)

lemma scan_byte_agrees:
  assumes "settled_output (sc_state sc) po"
  shows "turn_agrees po (scan_byte km now sc po b) (scan_byte km now sc ([], []) b)"
  using assms
  by (cases "sc_state sc")
     (simp_all add: scan_byte_def turn_prefix turn_digits turn_prefix_esc turn_paste turn_chord_esc turn_normal
        settled_output_def)

lemma scan_byte_state: "\<exists>po'. scan_byte km now sc po b = (fst (scan_byte km now sc q b), po', snd (snd (scan_byte km now sc q b)))"
  by (auto simp: scan_byte_def scan_arms Let_def split: scan_arm_splits)

lemma empty_settled [simp]: "settled_output st ([], [])"
  by (simp add: settled_output_def split: State.splits)

lemma scan_loop_emits:
  fixes q :: Output
  shows "\<exists>sc' items. \<forall>po. settled_output (sc_state sc) po \<longrightarrow>
    (\<exists>po'. scan_loop km now sc po bytes = (sc', po') \<and> obs po' = obs po @ items \<and> settled_output (sc_state sc') po')"
proof (induction km now sc q bytes rule: scan_loop.induct)
  case (2 km now sc q b bytes)
  obtain sc1 po1 r where t0: "scan_byte km now sc ([], []) b = (sc1, po1, r)" by (metis prod_cases3)
  have t: "\<exists>po'. scan_byte km now sc po b = (sc1, po', r) \<and> obs po' = obs po @ obs po1 \<and> settled_output (sc_state sc1) po'"
    if "settled_output (sc_state sc) po" for po
    using scan_byte_agrees [OF that, of km now b] t0 by (auto simp: turn_agrees_def)
  obtain rest where rest: "rest = (if r then b # bytes else bytes)" by simp
  obtain sc2 items where i: "\<forall>po. settled_output (sc_state sc1) po \<longrightarrow>
    (\<exists>po'. scan_loop km now sc1 po rest = (sc2, po') \<and> obs po' = obs po @ items \<and> settled_output (sc_state sc2) po')"
  proof -
    obtain q1 where q: "scan_byte km now sc q b = (sc1, q1, r)" using scan_byte_state [of km now sc q b "([], [])"] t0 by auto
    show ?thesis using 2(1) [OF q [symmetric] refl] 2(2) [OF q [symmetric] refl] that rest by (cases r) auto
  qed
  have "\<exists>po'. scan_loop km now sc po (b # bytes) = (sc2, po') \<and> obs po' = obs po @ (obs po1 @ items) \<and>
      settled_output (sc_state sc2) po'" if se: "settled_output (sc_state sc) po" for po
  proof -
    obtain po2 where p: "scan_byte km now sc po b = (sc1, po2, r)" "obs po2 = obs po @ obs po1" "settled_output (sc_state sc1) po2"
      using t [OF se] by blast
    have "scan_loop km now sc po (b # bytes) = scan_loop km now sc1 po2 rest"
      by (subst scan_loop.simps) (simp add: p(1) rest)
    with i p(2,3) show ?thesis by fastforce
  qed
  then show ?case by blast
qed auto

lemma scan_loop_append:
  "scan_loop km now sc po (a @ b) = (case scan_loop km now sc po a of (sc1, po1) \<Rightarrow> scan_loop km now sc1 po1 b)"
  by (induction km now sc po a rule: scan_loop.induct) (auto simp: scan_loop.simps(2) split: prod.splits)

lemma flat_flush: "flat (snd (flush po)) = obs po"
  using obs_flush [of po] by (simp add: obs_def)

text \<open>
  C18. How the input is cut into reads does not matter: scanning two reads one after the other leaves the
  scanner in the state, and gives the events, of scanning them as one read, up to how forwarded
  bytes are grouped into chunks.
\<close>

theorem scan_reads_can_be_cut:
  "case scan_input km now sc (a @ b) of (sc', evs) \<Rightarrow>
   case scan_input km now sc a of (sc1, evs1) \<Rightarrow>
   case scan_input km now sc1 b of (sc2, evs2) \<Rightarrow> sc' = sc2 \<and> flat evs = flat evs1 @ flat evs2"
proof -
  obtain sc1 po1 where l1: "scan_loop km now sc ([], []) a = (sc1, po1)" by (cases "scan_loop km now sc ([], []) a")
  have st: "settled_output (sc_state sc1) po1"
    using scan_loop_emits [of sc km now a] l1 empty_settled by (metis prod.inject)
  obtain sc2 items where i: "\<forall>po. settled_output (sc_state sc1) po \<longrightarrow>
      (\<exists>po'. scan_loop km now sc1 po b = (sc2, po') \<and> obs po' = obs po @ items \<and> settled_output (sc_state sc2) po')"
    using scan_loop_emits [of sc1 km now b] by blast
  obtain po2 where l2: "scan_loop km now sc1 po1 b = (sc2, po2)" "obs po2 = obs po1 @ items" using i st by blast
  obtain po3 where l3: "scan_loop km now sc1 ([], []) b = (sc2, po3)" "obs po3 = items"
    using i by (metis append_Nil empty_settled obs_empty)
  show ?thesis using l1 l2 l3 by (simp add: scan_input_def scan_loop_append flat_flush)
qed

section \<open>Nothing is invented\<close>

definition forwarded :: "Event list \<Rightarrow> string" where
  "forwarded evs = concat (map (\<lambda>ev. case ev of Forward bs \<Rightarrow> bs | _ \<Rightarrow> []) evs)"

definition held :: "State \<Rightarrow> string" where
  "held st = (case st of ChordEsc seq \<Rightarrow> seq | PrefixEsc seq \<Rightarrow> seq | _ \<Rightarrow> [])"

definition bytes_of :: "(char + Event) list \<Rightarrow> string" where
  "bytes_of items = filter_map (\<lambda>i. case i of Inl b \<Rightarrow> Some b | Inr _ \<Rightarrow> None) items"

lemma filter_map_append: "filter_map f (xs @ ys) = filter_map f xs @ filter_map f ys"
  by (induction xs) (auto split: option.splits)

lemma bytes_of_simps [simp]: "bytes_of [] = []" "bytes_of (xs @ ys) = bytes_of xs @ bytes_of ys" "bytes_of (map Inl bs) = bs"
proof -
  show "bytes_of (map Inl bs) = bs" by (induction bs) (simp_all add: bytes_of_def)
qed (simp_all add: bytes_of_def filter_map_append)

lemma bytes_of_single [simp]: "bytes_of [Inl b] = [b]"
  by (simp add: bytes_of_def)

lemma bytes_of_flat: "bytes_of (flat evs) = forwarded evs"
proof (induction evs)
  case (Cons ev evs)
  have "bytes_of (flat [ev]) = forwarded [ev]" by (cases ev) (simp_all add: flat_def forwarded_def bytes_of_def [of "[Inr _]"])
  with Cons flat_simps(2) [of "[ev]" evs] show ?case by (simp add: forwarded_def)
qed (simp add: forwarded_def)

lemma default_events: "\<forall>kb\<in>set default_bindings. \<forall>bs. kb_event kb \<noteq> Forward bs"
  by (simp add: default_bindings_def key_row_def)

lemma rebind_row_events: "kb \<in> set (rebind_row a b rows) \<Longrightarrow> kb_event kb \<in> kb_event ` set rows"
  by (induction rows) (auto split: if_splits)

lemma rebind_rows_events:
  "kb \<in> set (foldl (\<lambda>rows (a, b). rebind_row a b rows) rows p) \<Longrightarrow> kb_event kb \<in> kb_event ` set rows"
proof (induction p arbitrary: rows)
  case (Cons e p)
  then show ?case using rebind_row_events [of _ "fst e" "snd e" rows] by (cases e) fastforce
qed auto

lemma chord_forwards: "chord_for km b = Forward bs \<Longrightarrow> b = km_prefix km \<and> bs = [b]"
  using default_events rebind_rows_events
  by (fastforce simp: chord_for_def bindings_for_def split: if_splits option.splits dest!: find_mem)

lemma esc_chord_forwards: "esc_chord seq = EscComplete ev \<Longrightarrow> ev \<noteq> Forward bs"
  by (auto simp: esc_chord_def esc_chord_long_def split: if_splits option.splits)

lemma turn_subseq:
  assumes "scan_byte km now sc ([], []) b = (sc', po, r)"
  shows "subseq (bytes_of (obs po) @ held (sc_state sc') @ (if r then [b] else [])) (held (sc_state sc) @ [b])"
proof -
  have ch: "subseq (forwarded [chord_for km b]) [b]"
    using chord_forwards [of km b] by (cases "chord_for km b") (auto simp: forwarded_def)
  have ec: "esc_chord seq = EscComplete ev \<Longrightarrow> forwarded [ev] = []" for seq ev
    using esc_chord_forwards [of seq ev] by (cases ev) (auto simp: forwarded_def)
  have rs: "bytes_of (flat [Cmd (ResizeDir d)]) = []" "bytes_of (flat [ShowPaneIds]) = []" "bytes_of (flat [Bell]) = []"
    "bytes_of (flat [select_tab_event ds]) = []" for d ds
    by (simp_all add: bytes_of_flat forwarded_def select_tab_event_def)
  have fb: "forwarded [Bell] = []" by (simp add: forwarded_def)
  have ps: "held (paste_state i) = []" for i by (simp add: held_def paste_state_def)
  have fl: "flush ([], []) = ([], [])" by (simp add: flush_def)
  have pe: "obs (push_event ev ([], [])) = flat [ev]" for ev by (simp add: obs_push_event)
  have hs: "held (Normal i) = []" "held (Paste i) = []" "held PrefixKey = []" "held (Digits ds) = []"
    "held (ChordEsc q) = q" "held (PrefixEsc q) = q" for i ds q by (simp_all add: held_def)
  show ?thesis
  proof (cases "sc_state sc")
    case (Normal i)
    then show ?thesis using assms
      by (auto simp: scan_byte_def scan_normal_def forward_byte_def hs fl pe rs ps split: if_splits Event.splits Command.splits)
  next
    case (ChordEsc q)
    then show ?thesis using assms ec
      by (auto simp: scan_byte_def scan_chord_esc_def release_held_def Let_def hs fl pe ps bytes_of_flat split: if_splits EscScan.splits)
  next
    case PrefixKey
    then show ?thesis using assms ch
      by (auto simp: scan_byte_def scan_prefix_def Let_def hs pe bytes_of_flat split: if_splits)
  next
    case (Digits ds)
    then show ?thesis using assms by (auto simp: scan_byte_def scan_digits_def hs fl pe rs split: if_splits)
  next
    case (PrefixEsc q)
    then show ?thesis using assms ec
      by (auto simp: scan_byte_def scan_prefix_esc_def Let_def hs pe rs fb bytes_of_flat split: if_splits EscScan.splits)
  next
    case (Paste i)
    then show ?thesis using assms by (auto simp: scan_byte_def scan_paste_def Let_def hs split: if_splits)
  qed
qed

lemma loop_subseq:
  "scan_loop km now sc po bytes = (sc', po') \<Longrightarrow> settled_output (sc_state sc) po \<Longrightarrow>
     \<exists>items. obs po' = obs po @ items \<and> subseq (bytes_of items @ held (sc_state sc')) (held (sc_state sc) @ bytes)"
proof (induction km now sc po bytes rule: scan_loop.induct)
  case (2 km now sc po b bytes)
  obtain sc1 i1 r where t0: "scan_byte km now sc ([], []) b = (sc1, i1, r)" by (metis prod_cases3)
  obtain po1 where t: "scan_byte km now sc po b = (sc1, po1, r)" "obs po1 = obs po @ obs i1" "settled_output (sc_state sc1) po1"
    using scan_byte_agrees [OF 2(4), of km now b] t0 by (auto simp: turn_agrees_def)
  let ?again = "if r then [b] else []"
  have l: "scan_loop km now sc1 po1 (?again @ bytes) = (sc', po')"
    using 2(3) t(1) by (subst (asm) scan_loop.simps) (cases r; simp)
  obtain items where i: "obs po' = obs po1 @ items" "subseq (bytes_of items @ held (sc_state sc')) (held (sc_state sc1) @ ?again @ bytes)"
    using 2(1) [OF t(1) [symmetric] refl] 2(2) [OF t(1) [symmetric] refl] l t(3) by (cases r) auto
  have "subseq (bytes_of (obs i1) @ bytes_of items @ held (sc_state sc')) (bytes_of (obs i1) @ held (sc_state sc1) @ ?again @ bytes)"
    by (rule list_emb_append_mono [OF subseq_order.order_refl i(2)])
  also have "subseq \<dots> ((held (sc_state sc) @ [b]) @ bytes)"
    using list_emb_append_mono [OF turn_subseq [OF t0] subseq_order.order_refl [of bytes]] by simp
  finally show ?case using i(1) t(2) by auto
qed auto

text \<open>
  What reaches the pane, followed by what the scanner still holds, is a subsequence of what it held
  before followed by what was typed: no byte is invented, doubled or reordered, in any state and
  for any key map.
\<close>

theorem scan_invents_nothing:
  "case scan_input km now sc bytes of (sc', evs) \<Rightarrow>
     subseq (forwarded evs @ held (sc_state sc')) (held (sc_state sc) @ bytes)"
proof -
  obtain sc' po where l: "scan_loop km now sc ([], []) bytes = (sc', po)" by (cases "scan_loop km now sc ([], []) bytes")
  then show ?thesis
    using loop_subseq [OF l] by (auto simp: scan_input_def bytes_of_flat [symmetric] flat_flush)
qed

section \<open>Markers\<close>

text \<open>The length of the longest beginning of the marker that the stream ends with.\<close>

definition tracks :: "string \<Rightarrow> string \<Rightarrow> nat \<Rightarrow> bool" where
  "tracks m s i \<longleftrightarrow> i \<le> length m \<and> suffix (take i m) s \<and> (\<forall>k\<le>length m. suffix (take k m) s \<longrightarrow> k \<le> i)"

lemma suffix_snoc_take:
  "j < length m \<Longrightarrow> suffix (take (Suc j) m) (s @ [b]) \<longleftrightarrow> m ! j = b \<and> suffix (take j m) s"
  by (auto simp: take_Suc_conv_app_nth)

lemma first_not_inside:
  assumes "\<forall>j. 0 < j \<and> j < length m \<longrightarrow> m ! j \<noteq> m ! 0" "suffix (take j m) s" "suffix (take i m) s" "0 < j" "j < i" "i \<le> length m"
  shows False
proof -
  have len: "length (take j m) \<le> length (take i m)" using assms(5,6) by simp
  have "suffix (take j m) (take i m)" using assms(2,3) len by (metis suffix_length_suffix)
  then obtain u where u: "take i m = u @ take j m" by (auto simp: suffix_def)
  have "length (take i m) = length u + length (take j m)" by (subst u) simp
  then have lu: "length u = i - j" using assms(5,6) by simp
  have "m ! (i - j) = take i m ! (i - j)" using assms(4,5) by simp
  also have "\<dots> = take j m ! 0" unfolding u using lu assms(4,5,6) by (simp add: nth_append)
  also have "\<dots> = m ! 0" using assms(4) by simp
  finally show False using assms(1,4,5,6) by (meson diff_less less_le_trans zero_less_diff order.strict_trans)
qed

lemma roll_tracks:
  assumes "\<forall>j. 0 < j \<and> j < length m \<longrightarrow> m ! j \<noteq> m ! 0" "tracks m s i" "i < length m"
  shows "tracks m (s @ [b]) (roll i b m)"
proof -
  have bnd: "k \<le> Suc i \<and> (\<exists>j. k = Suc j \<and> j \<le> i \<and> m ! j = b \<and> suffix (take j m) s)"
    if k: "k \<le> length m" "suffix (take k m) (s @ [b])" "k \<noteq> 0" for k
  proof -
    obtain j where j: "k = Suc j" using k(3) by (cases k) auto
    then have "m ! j = b" "suffix (take j m) s" using k suffix_snoc_take [of j m s b] by auto
    then show ?thesis using assms(2) k(1) j by (auto simp: tracks_def)
  qed
  consider "b = m ! i" | "b \<noteq> m ! i" "b = m ! 0" | "b \<noteq> m ! i" "b \<noteq> m ! 0" by blast
  then show ?thesis
  proof cases
    case 1
    then have "suffix (take (Suc i) m) (s @ [b])"
      using assms(2,3) suffix_snoc_take [of i m s b] by (simp add: tracks_def)
    moreover have "k \<le> Suc i" if "k \<le> length m" "suffix (take k m) (s @ [b])" for k
      using bnd [OF that] by (cases "k = 0") auto
    ultimately show ?thesis using 1 assms(3) by (simp add: tracks_def roll_def)
  next
    case 2
    have "k \<le> 1" if k: "k \<le> length m" "suffix (take k m) (s @ [b])" for k
    proof (rule ccontr)
      assume "\<not> k \<le> 1"
      then obtain j where "k = Suc j" "m ! j = m ! 0" "0 < j" using bnd [OF k] 2 by auto
      then show False using assms(1) k(1) by auto
    qed
    moreover have "suffix (take 1 m) (s @ [b])" using suffix_snoc_take [of 0 m s b] 2 assms(3) by fastforce
    ultimately show ?thesis using 2 assms(3) by (auto simp: tracks_def roll_def)
  next
    case 3
    have "k = 0" if k: "k \<le> length m" "suffix (take k m) (s @ [b])" for k
    proof (rule ccontr)
      assume "k \<noteq> 0"
      then obtain j where j: "j \<le> i" "m ! j = b" "suffix (take j m) s" using bnd [OF k] by auto
      have "0 < j" using j(2) 3(2) by (metis gr0I)
      moreover have "j < i" using j(1,2) 3(1) by (metis le_neq_implies_less)
      ultimately have "0 < j" "j < i" .
      with first_not_inside [OF assms(1) j(3), of i] assms(2) show False by (simp add: tracks_def)
    qed
    then show ?thesis using 3 by (auto simp: tracks_def roll_def)
  qed
qed

lemma marker_first:
  "\<forall>j. 0 < j \<and> j < length PASTE_CLOSE \<longrightarrow> PASTE_CLOSE ! j \<noteq> PASTE_CLOSE ! 0"
  by (auto simp: PASTE_CLOSE_def esc_def nth_Cons' less_Suc_eq numeral_eq_Suc)

lemma sublist_extend: "sublist a x \<Longrightarrow> sublist a (x @ y)"
  unfolding sublist_def by (metis append.assoc)

lemma tracks_start: "tracks m [] 0"
  by (auto simp: tracks_def)

lemma tracks_full: "tracks m s (length m) \<Longrightarrow> suffix m s"
  by (simp add: tracks_def)

section \<open>Pastes\<close>

lemma paste_run:
  assumes "sc_state sc = Paste i" "tracks PASTE_CLOSE u i" "i < length PASTE_CLOSE" "\<not> sublist PASTE_CLOSE (u @ s)"
  shows "\<exists>j. scan_loop km now sc (p, out) s = (sc\<lparr>sc_state := Paste j\<rparr>, (p @ s, out)) \<and>
    tracks PASTE_CLOSE (u @ s) j \<and> j < length PASTE_CLOSE"
  using assms
proof (induction s arbitrary: sc i u p)
  case Nil
  then show ?case by (auto intro!: exI [of _ i])
next
  case (Cons b s)
  let ?j = "roll i b PASTE_CLOSE" and ?sc = "sc\<lparr>sc_state := Paste (roll i b PASTE_CLOSE)\<rparr>"
  have tr: "tracks PASTE_CLOSE (u @ [b]) ?j" using roll_tracks [OF marker_first] Cons.prems by blast
  have "\<not> sublist PASTE_CLOSE (u @ [b])" using Cons.prems(4) sublist_extend [of PASTE_CLOSE "u @ [b]" s] by auto
  then have "?j \<noteq> length PASTE_CLOSE" using tr tracks_full suffix_imp_sublist by metis
  then have j: "?j < length PASTE_CLOSE" using tr by (simp add: tracks_def)
  have "scan_byte km now sc (p, out) b = (?sc, (p @ [b], out), False)"
    using Cons.prems(1) j by (simp add: scan_byte_def scan_paste_def push_plain_def Let_def)
  then have "scan_loop km now sc (p, out) (b # s) = scan_loop km now ?sc (p @ [b], out) s"
    by (simp add: scan_loop.simps(2))
  with Cons.IH [of ?sc ?j "u @ [b]" "p @ [b]"] tr j Cons.prems(4) show ?case by simp
qed

lemma paste_close:
  assumes "sc_state sc = Paste 0" "\<not> sublist PASTE_CLOSE (s @ butlast PASTE_CLOSE)"
  shows "scan_loop km now sc (p, out) (s @ PASTE_CLOSE) = (sc\<lparr>sc_state := Normal 0\<rparr>, (p @ s @ PASTE_CLOSE, out))"
proof -
  let ?s = "s @ butlast PASTE_CLOSE"
  have nz: "0 < length PASTE_CLOSE" by (simp add: PASTE_CLOSE_def)
  obtain j where j: "scan_loop km now sc (p, out) ?s = (sc\<lparr>sc_state := Paste j\<rparr>, (p @ ?s, out))"
    "tracks PASTE_CLOSE ?s j" "j < length PASTE_CLOSE"
    using paste_run [OF assms(1) tracks_start nz, of ?s km now p out] assms(2) by auto
  have "suffix (take 5 PASTE_CLOSE) ?s" by (simp add: PASTE_CLOSE_def suffix_def)
  then have "5 \<le> j" using j(2) by (simp add: tracks_def PASTE_CLOSE_def)
  then have j5: "j = 5" using j(3) by (simp add: PASTE_CLOSE_def)
  have "scan_loop km now (sc\<lparr>sc_state := Paste j\<rparr>) (p @ ?s, out) ''~'' = (sc\<lparr>sc_state := Normal 0\<rparr>, (p @ ?s @ ''~'', out))"
    by (simp add: scan_loop.simps(2) scan_byte_def scan_paste_def roll_def push_plain_def j5 PASTE_CLOSE_def Let_def)
  then have "scan_loop km now sc (p, out) (?s @ ''~'') = (sc\<lparr>sc_state := Normal 0\<rparr>, (p @ ?s @ ''~'', out))"
    unfolding scan_loop_append [of _ _ _ _ ?s] using j(1) by simp
  moreover have "?s @ ''~'' = s @ PASTE_CLOSE" by (simp add: PASTE_CLOSE_def)
  ultimately show ?thesis by (simp only: append_assoc)
qed

lemma paste_open:
  assumes "sc_state sc = Normal i" "km_prefix km \<notin> {esc, CHR ''2'', CHR ''0'', CHR ''~''}"
  shows "scan_loop km now sc (p, out) PASTE_OPEN = (\<lparr>sc_state = Paste 0, sc_repeat = None\<rparr>, (p @ PASTE_OPEN, out))"
proof -
  have ne: "esc \<noteq> CHR ''['' \<and> esc \<noteq> CHR ''2'' \<and> esc \<noteq> CHR ''0'' \<and> esc \<noteq> CHR ''~''" by (simp add: esc_def)
  show ?thesis
    using assms ne
    by (auto simp: PASTE_OPEN_def GLOBAL_CHORD_PREFIX_def scan_loop.simps(2) scan_byte_def scan_normal_def scan_chord_esc_def
        release_held_def forward_byte_def disarm_repeat_def repeat_armed_def release_index_def paste_state_def roll_def
        starts_with_def push_plain_def is_digit_def Let_def)
qed

text \<open>
  A bracketed paste reaches the pane byte for byte, in one piece and with both markers, whatever it
  contains, prefix bytes and escape sequences included; the scanner is idle again exactly after the
  first closing marker. The prefix must not be a byte the opening marker needs.
\<close>

theorem paste_is_verbatim:
  assumes "sc_state sc = Normal i" "km_prefix km \<notin> {esc, CHR ''2'', CHR ''0'', CHR ''~''}"
    and "\<not> sublist PASTE_CLOSE (s @ butlast PASTE_CLOSE)"
  shows "scan_input km now sc (PASTE_OPEN @ s @ PASTE_CLOSE) =
    (\<lparr>sc_state = Normal 0, sc_repeat = None\<rparr>, [Forward (PASTE_OPEN @ s @ PASTE_CLOSE)])"
proof -
  have "scan_loop km now sc ([], []) (PASTE_OPEN @ s @ PASTE_CLOSE) =
      (\<lparr>sc_state = Normal 0, sc_repeat = None\<rparr>, (PASTE_OPEN @ s @ PASTE_CLOSE, []))"
    using paste_open [OF assms(1,2)] paste_close [OF _ assms(3), of "\<lparr>sc_state = Paste 0, sc_repeat = None\<rparr>"]
    by (simp add: scan_loop_append)
  then show ?thesis by (simp add: scan_input_def flush_def PASTE_OPEN_def)
qed

theorem paste_is_verbatim_witness:
  "snd (scan_input default_keymap 0 new_scanner (PASTE_OPEN @ [DEFAULT_PREFIX, CHR ''x''] @ PASTE_CLOSE)) =
     [Forward (PASTE_OPEN @ [DEFAULT_PREFIX, CHR ''x''] @ PASTE_CLOSE)]"
proof -
  have "\<not> sublist PASTE_CLOSE ([DEFAULT_PREFIX, CHR ''x''] @ butlast PASTE_CLOSE)"
    by (simp add: PASTE_CLOSE_def DEFAULT_PREFIX_def esc_def sublist_Cons_right)
  moreover have "km_prefix default_keymap \<notin> {esc, CHR ''2'', CHR ''0'', CHR ''~''}"
    by (simp add: default_keymap_def DEFAULT_PREFIX_def esc_def)
  moreover have "sc_state new_scanner = Normal 0" by (simp add: new_scanner_def)
  ultimately show ?thesis using paste_is_verbatim by (metis snd_conv)
qed

section \<open>Keys\<close>

text \<open>
  Bytes that are neither the prefix nor an escape reach the pane exactly as typed, in one chunk, in
  every waiting or pasting state, when no repeat window is open.
\<close>

lemma plain_run:
  assumes "sc_state sc = Normal i \<or> sc_state sc = Paste i" "sc_repeat sc = None" "list_all (\<lambda>b. b \<noteq> km_prefix km \<and> b \<noteq> esc) s"
  shows "\<exists>st. scan_loop km now sc (p, out) s = (\<lparr>sc_state = st, sc_repeat = None\<rparr>, (p @ s, out)) \<and>
    (\<exists>j. st = Normal j \<or> st = Paste j)"
  using assms
proof (induction s arbitrary: sc i p)
  case (Cons b s)
  define st where "st = (case sc_state sc of Paste i \<Rightarrow> if roll i b PASTE_CLOSE = length PASTE_CLOSE then Normal 0 else Paste (roll i b PASTE_CLOSE)
    | _ \<Rightarrow> paste_state (roll i b PASTE_OPEN))"
  have "scan_byte km now sc (p, out) b = (\<lparr>sc_state = st, sc_repeat = None\<rparr>, (p @ [b], out), False)"
    using Cons.prems
    by (cases sc) (auto simp: st_def scan_byte_def scan_normal_def forward_byte_def disarm_repeat_def repeat_armed_def
        scan_paste_def push_plain_def Let_def)
  moreover have "\<exists>j. st = Normal j \<or> st = Paste j"
    using Cons.prems(1) by (auto simp: st_def paste_state_def)
  then obtain j where "st = Normal j \<or> st = Paste j" ..
  ultimately have st: "scan_byte km now sc (p, out) b = (\<lparr>sc_state = st, sc_repeat = None\<rparr>, (p @ [b], out), False)"
    "st = Normal j \<or> st = Paste j" .
  then show ?case
    using Cons.IH [of "\<lparr>sc_state = st, sc_repeat = None\<rparr>" j "p @ [b]"] Cons.prems(3) by (simp add: scan_loop.simps(2))
next
  case Nil
  then show ?case by (cases sc) auto
qed

theorem plain_bytes_pass:
  assumes "sc_state sc = Normal i \<or> sc_state sc = Paste i" "sc_repeat sc = None"
    and "list_all (\<lambda>b. b \<noteq> km_prefix km \<and> b \<noteq> esc) s" "s \<noteq> []"
  shows "snd (scan_input km now sc s) = [Forward s]"
  using plain_run [OF assms(1-3), of now "[]" "[]"] assms(4) by (auto simp: scan_input_def flush_def)

theorem plain_bytes_pass_witness: "snd (scan_input default_keymap 5 new_scanner ''ls -l'') = [Forward ''ls -l'']"
  by (rule plain_bytes_pass [of _ 0]) (simp_all add: new_scanner_def default_keymap_def DEFAULT_PREFIX_def esc_def)

text \<open>
  After the prefix one more byte resolves a chord to exactly one event, and nothing of it reaches
  the pane, except that the prefix typed twice sends one literal prefix byte. This needs the byte
  to be no digit and no escape, which begin longer chords.
\<close>

theorem chord_never_leaks:
  assumes "sc_state sc = Normal i" "b \<noteq> esc" "\<not> is_digit b"
  shows "snd (scan_input km now sc [km_prefix km, b]) = [chord_for km b] \<and>
    forwarded [chord_for km b] = (if b = km_prefix km then [b] else [])"
proof -
  have "chord_for km (km_prefix km) = Forward [km_prefix km]" by (simp add: chord_for_def)
  then have "forwarded [chord_for km b] = (if b = km_prefix km then [b] else [])"
    using chord_forwards [of km b] by (cases "chord_for km b") (auto simp: forwarded_def)
  then show ?thesis
    using assms
    by (simp add: scan_input_def scan_loop.simps(2) scan_byte_def scan_normal_def scan_prefix_def flush_def push_event_def Let_def)
qed

theorem chord_never_leaks_witness: "snd (scan_input default_keymap 0 new_scanner [km_prefix default_keymap, CHR ''!'']) = [Bell]"
proof -
  have "chord_for default_keymap (CHR ''!'') = Bell"
    by (simp add: chord_for_def default_keymap_def DEFAULT_PREFIX_def is_digit_def bindings_for_def default_bindings_def
        key_row_def no_key_def)
  then show ?thesis
    using chord_never_leaks [of new_scanner 0 "CHR ''!''" default_keymap 0] by (simp add: new_scanner_def esc_def is_digit_def)
qed

text \<open>
  An action may be moved to the key 0: the resolver accepts it without a warning and the key table
  lists it, but the scanner takes the byte for the start of a tab number, so the chord never runs.
\<close>

theorem zero_key_never_fires:
  "resolve_keymap None [(''detach'', ''0'')] = (\<lparr>km_prefix = DEFAULT_PREFIX, km_rebinds = [(''detach'', CHR ''0'')]\<rparr>, []) \<and>
   (let m = fst (resolve_keymap None [(''detach'', ''0'')]) in
    chord_for m (CHR ''0'') = Detach \<and>
    snd (scan_input m 0 new_scanner [km_prefix m, CHR ''0'', CHR 0x0D]) = [SelectTabIdx 0])"
proof -
  let ?p = "[(''detach'', CHR ''0'')]"
  have r: "resolve_keymap None [(''detach'', ''0'')] = (\<lparr>km_prefix = DEFAULT_PREFIX, km_rebinds = ?p\<rparr>, [])"
    by code_simp
  have "chord_for \<lparr>km_prefix = DEFAULT_PREFIX, km_rebinds = ?p\<rparr> (CHR ''0'') = Detach"
    by (simp add: chord_for_def DEFAULT_PREFIX_def bindings_for_def default_bindings_def key_row_def no_key_def set_binding_def)
  moreover have "snd (scan_input m 0 new_scanner [km_prefix m, CHR ''0'', CHR 0x0D]) = [SelectTabIdx 0]" for m
    by (simp add: scan_input_def new_scanner_def scan_loop.simps(2) scan_byte_def scan_normal_def scan_prefix_def scan_digits_def
        esc_def is_digit_def flush_def push_event_def select_tab_event_def parse_unsigned_def digits_value_def)
  ultimately show ?thesis by (simp add: r)
qed

end
