(* ===== verification/Write_Queue.thy ===== *)
theory Write_Queue
  imports Fno_Prelude
begin

text \<open>
  The bounded queue between callers and a terminal's writer,
  \<open>crates/fno-agents/src/write_queue.rs\<close>. The contract a caller relies on is the locale
  \<open>bounded_fifo\<close>, its consequence for whole runs is proved there once, and the queue of the source
  interprets it.
\<close>

section \<open>The contract\<close>

datatype 'm queue_op = Enq 'm | Deq

text \<open>A run of calls: the messages accepted, the messages delivered, the queue at the end.\<close>

fun queue_run ::
  "('m \<Rightarrow> 'q \<Rightarrow> ('e + unit) \<times> 'q) \<Rightarrow> ('q \<Rightarrow> 'm option \<times> 'q) \<Rightarrow> 'm queue_op list \<Rightarrow> 'q \<Rightarrow>
     'm list \<times> 'm list \<times> 'q" where
  "queue_run enq deq [] q = ([], [], q)"
| "queue_run enq deq (Enq m # ops) q =
     (case enq m q of
        (Inl e, q1) \<Rightarrow> queue_run enq deq ops q1
      | (Inr _, q1) \<Rightarrow> (case queue_run enq deq ops q1 of (acc, out, q2) \<Rightarrow> (m # acc, out, q2)))"
| "queue_run enq deq (Deq # ops) q =
     (case deq q of
        (None, q1) \<Rightarrow> queue_run enq deq ops q1
      | (Some m, q1) \<Rightarrow> (case queue_run enq deq ops q1 of (acc, out, q2) \<Rightarrow> (acc, m # out, q2)))"

locale bounded_fifo =
  fixes enq :: "'m \<Rightarrow> 'q \<Rightarrow> ('e + unit) \<times> 'q"
    and deq :: "'q \<Rightarrow> 'm option \<times> 'q"
    and items :: "'q \<Rightarrow> 'm list"
    and bound :: "'q \<Rightarrow> nat"
  assumes enq_accepts: "length (items q) < bound q \<Longrightarrow>
      \<exists>q'. enq m q = (Inr (), q') \<and> items q' = items q @ [m] \<and> bound q' = bound q"
    and enq_refuses: "\<not> length (items q) < bound q \<Longrightarrow> \<exists>e. enq m q = (Inl e, q)"
    and deq_next: "deq q = (case items q of [] \<Rightarrow> None | m # ms \<Rightarrow> Some m, snd (deq q)) \<and>
      items (snd (deq q)) = tl (items q) \<and> bound (snd (deq q)) = bound q"
begin

lemma run_fifo:
  "queue_run enq deq ops q = (acc, out, q') \<Longrightarrow>
     items q @ acc = out @ items q' \<and> bound q' = bound q \<and>
     (length (items q) \<le> bound q \<longrightarrow> length (items q') \<le> bound q')"
proof (induction ops arbitrary: q acc out)
  case (Cons op ops)
  show ?case
  proof (cases op)
    case (Enq m)
    show ?thesis
    proof (cases "length (items q) < bound q")
      case True
      then obtain q1 where q1: "enq m q = (Inr (), q1)" "items q1 = items q @ [m]" "bound q1 = bound q"
        using enq_accepts by blast
      with Cons.prems Enq obtain acc1 where "queue_run enq deq ops q1 = (acc1, out, q')" "acc = m # acc1"
        by (auto split: prod.splits)
      with Cons.IH [of q1] q1 True show ?thesis by auto
    next
      case False
      then obtain e where "enq m q = (Inl e, q)" using enq_refuses by blast
      with Cons.prems Enq have "queue_run enq deq ops q = (acc, out, q')" by simp
      from Cons.IH [OF this] show ?thesis .
    qed
  next
    case Deq
    obtain r q1 where q1: "deq q = (r, q1)" by (cases "deq q")
    with deq_next [of q] have d: "r = (case items q of [] \<Rightarrow> None | m # ms \<Rightarrow> Some m)" "items q1 = tl (items q)"
      "bound q1 = bound q" by auto
    with Cons.prems Deq q1 Cons.IH [of q1] show ?thesis by (cases "items q") (auto split: prod.splits)
  qed
qed simp

end

section \<open>The queue\<close>

datatype WriteMsg = Bytes "8 word list" | Resize u16 u16

definition byte_len :: "WriteMsg \<Rightarrow> nat" where
  "byte_len msg = (case msg of Bytes b \<Rightarrow> length b | Resize rows cols \<Rightarrow> 0)"

datatype WriteQueueError = Full nat

record WriteQueue =
  q_inner :: "WriteMsg list"
  q_capacity :: nat

definition new_queue :: "nat \<Rightarrow> WriteQueue" where
  "new_queue capacity = \<lparr>q_inner = [], q_capacity = max capacity 1\<rparr>"

definition queue_len :: "WriteQueue \<Rightarrow> nat" where "queue_len q = length (q_inner q)"
definition is_empty :: "WriteQueue \<Rightarrow> bool" where "is_empty q = (q_inner q = [])"
definition is_full :: "WriteQueue \<Rightarrow> bool" where "is_full q = (length (q_inner q) \<ge> q_capacity q)"

definition enqueue :: "WriteMsg \<Rightarrow> WriteQueue \<Rightarrow> (WriteMsg \<times> WriteQueueError + unit) \<times> WriteQueue" where
  "enqueue msg q =
     (if is_full q then (Inl (msg, Full (q_capacity q)), q) else (Inr (), q\<lparr>q_inner := q_inner q @ [msg]\<rparr>))"

definition dequeue :: "WriteQueue \<Rightarrow> WriteMsg option \<times> WriteQueue" where
  "dequeue q = (case q_inner q of [] \<Rightarrow> (None, q) | m # ms \<Rightarrow> (Some m, q\<lparr>q_inner := ms\<rparr>))"

interpretation wq: bounded_fifo enqueue dequeue q_inner q_capacity
  by unfold_locales (auto simp: enqueue_def is_full_def dequeue_def split: list.splits)

section \<open>Properties\<close>

text \<open>
  C12. Whatever the calls, a new queue delivers the messages it accepted in the order it accepted
  them, none lost and none twice: the delivered messages followed by the waiting ones are the
  accepted ones. It never holds more than its capacity, and it holds at least one message before it
  refuses, whatever capacity was asked for.
\<close>

theorem queue_delivers_in_order:
  "case queue_run enqueue dequeue ops (new_queue capacity) of (acc, out, q) \<Rightarrow>
     acc = out @ q_inner q \<and> queue_len q \<le> max capacity 1 \<and> (is_full q \<longrightarrow> \<not> is_empty q) \<and>
     enqueue msg q = (if queue_len q = max capacity 1 then (Inl (msg, Full (max capacity 1)), q)
       else (Inr (), q\<lparr>q_inner := q_inner q @ [msg]\<rparr>))"
proof (cases "queue_run enqueue dequeue ops (new_queue capacity)")
  case (fields acc out q)
  from wq.run_fifo [OF this] show ?thesis
    unfolding fields by (auto simp: new_queue_def queue_len_def is_full_def is_empty_def enqueue_def)
qed

theorem queue_delivers_in_order_witness:
  "fst (snd (queue_run enqueue dequeue [Enq (Bytes [1]), Enq (Resize 24 80), Deq] (new_queue 0))) = [Bytes [1]] \<and>
   (case queue_run enqueue dequeue [Enq (Bytes [1]), Enq (Resize 24 80), Deq] (new_queue 0) of (acc, out, q) \<Rightarrow>
     acc = out @ q_inner q)"
proof -
  have "fst (snd (queue_run enqueue dequeue [Enq (Bytes [1]), Enq (Resize 24 80), Deq] (new_queue 0))) = [Bytes [1]]"
    by (simp add: enqueue_def dequeue_def new_queue_def is_full_def)
  moreover have "case queue_run enqueue dequeue [Enq (Bytes [1]), Enq (Resize 24 80), Deq] (new_queue 0) of (acc, out, q) \<Rightarrow>
     acc = out @ q_inner q"
    using queue_delivers_in_order [where ops = "[Enq (Bytes [1]), Enq (Resize 24 80), Deq]" and capacity = 0
        and msg = "Bytes []"] by (simp only: split_beta)
  ultimately show ?thesis by (rule conjI)
qed

end
