(* ===== verification/Supervisor.thy ===== *)
theory Supervisor
  imports Fno_Prelude Float_Model
begin

text \<open>
  The restart policy of a crashed agent, \<open>crates/fno-agents/src/supervisor.rs\<close>. A duration is a
  number of nanoseconds. The delay is computed in \<open>f64\<close>; \<open>f64::powi\<close>, whose precision Rust leaves
  open, is a parameter, and the bounds on the delay hold whatever it returns.
\<close>

section \<open>The policy\<close>

type_synonym Duration = nat

definition HARD_FAILURE_CEILING :: nat where "HARD_FAILURE_CEILING = 10"

record Backoff =
  bo_base :: Duration
  bo_factor_milli :: nat
  bo_max :: Duration

definition as_millis :: "Duration \<Rightarrow> nat" where "as_millis d = d div 1000000"
definition from_millis :: "nat \<Rightarrow> Duration" where "from_millis ms = ms * 1000000"

definition fp_to_u64 :: "fp \<Rightarrow> nat" where "fp_to_u64 x = fp_to_nat_sat (2 ^ 64 - 1) x"

text \<open>The exponent is cast to \<open>i32\<close>, which wraps.\<close>

definition raw_delay :: "(fp \<Rightarrow> int \<Rightarrow> fp) \<Rightarrow> Backoff \<Rightarrow> nat \<Rightarrow> fp" where
  "raw_delay pow b consecutive_failures =
     (if consecutive_failures \<le> 1 then f64_of_nat (as_millis (min (bo_base b) (bo_max b)))
      else let factor = fp_div f64_round (f64_of_nat (bo_factor_milli b)) (Fin 1000);
               exponent = sint (word_of_nat (consecutive_failures - 1) :: u32);
               base_ms = f64_of_nat (as_millis (bo_base b));
               scaled_ms = fp_mul f64_round base_ms (pow factor exponent);
               capped_ms = fp_min scaled_ms (f64_of_nat (as_millis (bo_max b)))
           in if \<not> fp_is_finite capped_ms \<or> fp_lt capped_ms (Fin 0) then f64_of_nat (as_millis (bo_max b))
              else capped_ms)"

definition delay_for :: "(fp \<Rightarrow> int \<Rightarrow> fp) \<Rightarrow> Backoff \<Rightarrow> nat \<Rightarrow> Duration" where
  "delay_for pow b consecutive_failures =
     from_millis (fp_to_u64 (fp_max (raw_delay pow b consecutive_failures) (Fin 1)))"

definition default_backoff :: Backoff where
  "default_backoff = \<lparr>bo_base = from_millis 500, bo_factor_milli = 2000, bo_max = from_millis 30000\<rparr>"

record RestartPolicy =
  max_consecutive_failures :: nat
  backoff :: Backoff

definition effective_ceiling :: "RestartPolicy \<Rightarrow> nat" where
  "effective_ceiling p = min (max_consecutive_failures p) HARD_FAILURE_CEILING"

datatype RestartDecision = Restart Duration | PermanentDead

definition decide :: "(fp \<Rightarrow> int \<Rightarrow> fp) \<Rightarrow> RestartPolicy \<Rightarrow> nat \<Rightarrow> RestartDecision" where
  "decide pow p consecutive_failures =
     (if consecutive_failures \<ge> effective_ceiling p then PermanentDead
      else Restart (delay_for pow (backoff p) consecutive_failures))"

definition default_policy :: RestartPolicy where
  "default_policy = \<lparr>max_consecutive_failures = 5, backoff = default_backoff\<rparr>"

section \<open>Bounds\<close>

lemma raw_delay_bounds:
  assumes "as_millis (bo_max b) < 2 ^ 53"
  shows "\<exists>x. raw_delay pow b n = Fin x \<and> 0 \<le> x \<and> x \<le> of_nat (as_millis (bo_max b))"
proof (cases "n \<le> 1")
  case True
  have m: "as_millis (min (bo_base b) (bo_max b)) \<le> as_millis (bo_max b)" by (simp add: as_millis_def div_le_mono)
  then have "as_millis (min (bo_base b) (bo_max b)) < 2 ^ 53" using assms by (rule order_le_less_trans)
  with True m show ?thesis by (simp add: raw_delay_def f64_of_nat_exact)
next
  case False
  have cap: "\<exists>x. (if \<not> fp_is_finite (fp_min s (Fin m)) \<or> fp_lt (fp_min s (Fin m)) (Fin 0) then Fin m else fp_min s (Fin m)) = Fin x
      \<and> 0 \<le> x \<and> x \<le> m" if "0 \<le> m" for s m
    using that by (cases s) (auto simp: fp_min_def)
  show ?thesis
    unfolding raw_delay_def Let_def if_not_P [OF False] f64_of_nat_exact [OF assms] by (rule cap) simp
qed

lemma delay_bounds:
  assumes "as_millis (bo_max b) < 2 ^ 53"
  shows "from_millis 1 \<le> delay_for pow b n \<and> delay_for pow b n \<le> from_millis (max 1 (as_millis (bo_max b)))"
proof -
  from raw_delay_bounds [OF assms] obtain x where x: "raw_delay pow b n = Fin x" "0 \<le> x" "x \<le> of_nat (as_millis (bo_max b))"
    by blast
  let ?y = "if x < 1 then 1 else x"
  have y: "1 \<le> ?y" "?y \<le> of_nat (max 1 (as_millis (bo_max b)))" using x(3) by (auto simp: of_nat_max)
  have "\<lfloor>?y\<rfloor> \<le> int (max 1 (as_millis (bo_max b)))" using y(2) by (metis floor_of_nat floor_mono)
  moreover have "1 \<le> \<lfloor>?y\<rfloor>" using y(1) by (simp add: le_floor_iff)
  ultimately have "1 \<le> nat \<lfloor>?y\<rfloor>" "nat \<lfloor>?y\<rfloor> \<le> max 1 (as_millis (bo_max b))" by linarith+
  moreover have "fp_to_u64 (fp_max (Fin x) (Fin 1)) = min (2 ^ 64 - 1) (nat \<lfloor>?y\<rfloor>)"
    using x(2) by (simp add: fp_to_u64_def fp_max_def)
  ultimately have "1 \<le> fp_to_u64 (fp_max (Fin x) (Fin 1))" "fp_to_u64 (fp_max (Fin x) (Fin 1)) \<le> max 1 (as_millis (bo_max b))"
    by auto
  then show ?thesis unfolding delay_for_def from_millis_def x(1) by (meson mult_le_mono1)
qed

lemma as_millis_from_millis [simp]: "as_millis (from_millis ms) = ms"
  by (simp add: as_millis_def from_millis_def)

lemma as_millis_min [simp]: "as_millis (min (from_millis a) (from_millis b)) = min a b"
  by (simp add: as_millis_def from_millis_def min_def)

section \<open>Properties\<close>

text \<open>
  No policy restarts for ever and none restarts without a pause. After the tenth consecutive
  failure, or earlier if the policy asks for fewer, the agent is dead for good; before that it is
  restarted after at least one millisecond and at most the configured maximum, whatever the factor
  and whatever the power function returns.
\<close>

theorem decide_spec:
  assumes "as_millis (bo_max (backoff p)) < 2 ^ 53"
  shows "case decide pow p n of
     PermanentDead \<Rightarrow> n \<ge> max_consecutive_failures p \<or> n \<ge> 10
   | Restart after \<Rightarrow> n < max_consecutive_failures p \<and> n < 10 \<and> from_millis 1 \<le> after \<and>
       after \<le> from_millis (max 1 (as_millis (bo_max (backoff p))))"
  using delay_bounds [OF assms] by (auto simp: decide_def effective_ceiling_def HARD_FAILURE_CEILING_def)

theorem decide_spec_witness:
  "\<exists>after. decide (\<lambda>_ _. NaN) default_policy 3 = Restart after \<and> from_millis 1 \<le> after \<and> after \<le> from_millis 30000"
  using decide_spec [where p = default_policy and pow = "\<lambda>_ _. NaN" and n = 3]
  by (auto simp: default_policy_def default_backoff_def as_millis_def from_millis_def decide_def
      effective_ceiling_def HARD_FAILURE_CEILING_def)

text \<open>
  The default schedule, for a power function that is exact on small powers of two: the first
  four failures wait half a second, one, two and four seconds, and the fifth is final.
\<close>

theorem default_schedule:
  assumes "pow (Fin 2) 1 = Fin 2" "pow (Fin 2) 2 = Fin 4" "pow (Fin 2) 3 = Fin 8"
  shows "map (decide pow default_policy) [1, 2, 3, 4, 5] =
    [Restart (from_millis 500), Restart (from_millis 1000), Restart (from_millis 2000), Restart (from_millis 4000),
     PermanentDead]"
  using assms
  by (simp add: decide_def effective_ceiling_def HARD_FAILURE_CEILING_def default_policy_def delay_for_def raw_delay_def
      default_backoff_def as_millis_from_millis f64_of_nat_exact f64_round_numeral Let_def fp_min_def fp_max_def fp_to_u64_def)

theorem default_schedule_witness:
  "decide (\<lambda>x k. if k = 1 then Fin 2 else if k = 2 then Fin 4 else Fin 8) default_policy 4 = Restart (from_millis 4000)"
  using default_schedule [of "\<lambda>x k. if k = 1 then Fin 2 else if k = 2 then Fin 4 else Fin 8"] by simp

end
