(* ===== verification/Claim_Types.thy ===== *)
theory Claim_Types
  imports Fno_Prelude
begin

text \<open>
  The claim record of \<open>crates/fno-agents/src/claims.rs\<close> and the pure operations on it: key
  encoding, machine identity, validation, ambient identity resolution, the construction of a record
  and its renewal. What the code reads from the operating system (clock, host name, machine id,
  environment variables, process table, fleet registry) is a field of \<open>Env\<close>. Times are
  milliseconds as integers. The opaque JSON metadata is its text.
\<close>

section \<open>Data\<close>

definition SCHEMA_VERSION :: nat where "SCHEMA_VERSION = 1"
definition PID_UNAVAILABLE_SCHEMA_VERSION :: nat where "PID_UNAVAILABLE_SCHEMA_VERSION = 2"
definition MAX_SUPPORTED_SCHEMA_VERSION :: nat where
  "MAX_SUPPORTED_SCHEMA_VERSION = PID_UNAVAILABLE_SCHEMA_VERSION"
definition MAX_KEY_LENGTH :: nat where "MAX_KEY_LENGTH = 256"
definition MAX_ENCODED_FILENAME_BYTES :: nat where "MAX_ENCODED_FILENAME_BYTES = 240"
definition MIN_TTL_MS :: int where "MIN_TTL_MS = 60000"
definition MAX_TTL_MS :: int where "MAX_TTL_MS = 86400000"
definition BLUEPRINT_HOLDER_PREFIX :: string where "BLUEPRINT_HOLDER_PREFIX = ''blueprint-session:''"
definition BLUEPRINT_LEASE_MS :: int where "BLUEPRINT_LEASE_MS = 3600000"
definition UNRESOLVED_GRACE_MS :: int where "UNRESOLVED_GRACE_MS = 30 * 60 * 1000"
definition HOLDER_PROCESS :: string where "HOLDER_PROCESS = ''holder-process''"

datatype ClaimState = Free | Live | Suspect | Stale | Corrupted

record ClaimRecord =
  schema_version :: nat
  key :: string
  holder :: string
  acquired_at :: int
  pid :: "int option"
  host :: string
  pid_unavailable :: bool
  expires_at :: "int option"
  reason :: "string option"
  harness :: "string option"
  session_id :: "string option"
  pid_provenance :: "string option"
  machine_id :: "string option"
  metadata :: string

record AcquireOpts =
  opt_pid :: "u32 option"
  opt_pid_unavailable :: bool
  opt_ttl_ms :: "int option"
  opt_reason :: "string option"
  opt_metadata :: "string option"
  opt_pid_provenance :: "string option"
  opt_identity :: "(string \<times> string) option"
  opt_host :: "string option"

datatype PidProbe = Created int | Absent | Refused

datatype Basis =
    LIVE | OFFHOST | PID_UNAVAILABLE | PID_ABSENT | ACCESS_DENIED | PID_REUSE | TTL_EXPIRED | PID_SHARED
  | REGISTRY_SESSION_LIVE | TRANSCRIPT_LIVE | SESSION_ABSENT | TTL_EXPIRED_UNRESOLVED

datatype SessionLiveness = SessLive Basis | SessAbsent | SessUnresolved

type_synonym SessionWitness = "ClaimRecord \<Rightarrow> SessionLiveness"

record Env =
  now_ms :: int
  hostname :: string
  my_machine_id :: string
  process_id :: u32
  probe_pid :: "int \<Rightarrow> PidProbe"
  env_var :: "string \<Rightarrow> string option"
  durable_session_pid :: "int option"
  registry_session_pid :: "string \<Rightarrow> int option"

section \<open>Keys\<close>

definition unreserved :: "char \<Rightarrow> bool" where
  "unreserved c = (let n = of_char c :: nat in
     65 \<le> n \<and> n \<le> 90 \<or> 97 \<le> n \<and> n \<le> 122 \<or> 48 \<le> n \<and> n \<le> 57 \<or> c \<in> {CHR ''_'', CHR ''.'', CHR ''~'', CHR ''-''})"

definition hex_digit :: "nat \<Rightarrow> char" where
  "hex_digit n = ''0123456789ABCDEF'' ! n"

definition encode_byte :: "char \<Rightarrow> string" where
  "encode_byte c =
     (if unreserved c then [c]
      else let n = of_char c :: nat in [CHR ''%'', hex_digit (n div 16), hex_digit (n mod 16)])"

definition encode_key :: "string \<Rightarrow> string" where
  "encode_key k = concat (map encode_byte k)"

section \<open>Machine and harness\<close>

definition is_same_machine :: "Env \<Rightarrow> string \<Rightarrow> string option \<Rightarrow> bool" where
  "is_same_machine env h machine =
     (case machine of
        Some m \<Rightarrow>
          if m \<noteq> [] then (if my_machine_id env \<noteq> [] then m = my_machine_id env else True)
          else if h = [] then False else h = hostname env
      | None \<Rightarrow> if h = [] then False else h = hostname env)"

definition SHARED_HOST_HARNESSES :: "string list" where
  "SHARED_HOST_HARNESSES = [''codex'']"

definition pid_dies_with_session :: "string option \<Rightarrow> bool" where
  "pid_dies_with_session h =
     (to_ascii_lowercase (trim (case h of Some n \<Rightarrow> n | None \<Rightarrow> [])) \<notin> set SHARED_HOST_HARNESSES)"

definition process_create_time_ms :: "Env \<Rightarrow> int \<Rightarrow> int option" where
  "process_create_time_ms env p = (case probe_pid env p of Created ms \<Rightarrow> Some ms | _ \<Rightarrow> None)"

section \<open>Ambient identity\<close>

definition HARNESS_SESSION_MARKERS :: "(string \<times> string) list" where
  "HARNESS_SESSION_MARKERS =
     [(''CODEX_THREAD_ID'', ''codex''), (''CLAUDE_CODE_SESSION_ID'', ''claude''),
      (''CODEX_SESSION_ID'', ''codex''), (''GEMINI_SESSION_ID'', ''gemini''),
      (''OPENCODE_SESSION_ID'', ''opencode'')]"

definition LEGACY_HARNESS_SESSION_MARKERS :: "(string \<times> string) list" where
  "LEGACY_HARNESS_SESSION_MARKERS = [(''CLAUDE_SESSION_ID'', ''claude'')]"

datatype CanonicalDisposition = CAbsent | CInvalid | CNameOnly | CComplete

definition canonical_identity_from ::
  "(string \<Rightarrow> string option) \<Rightarrow> string option \<times> string option \<times> CanonicalDisposition" where
  "canonical_identity_from get =
     (let raw_name = get ''FNO_HARNESS_NAME'';
          raw_session = get ''FNO_HARNESS_SESSION_ID'';
          name = trim (case raw_name of Some n \<Rightarrow> n | None \<Rightarrow> []);
          session = trim (case raw_session of Some n \<Rightarrow> n | None \<Rightarrow> [])
      in if raw_name = None \<and> raw_session = None then (None, None, CAbsent)
         else if raw_name = None \<or> name = [] \<or> (raw_session \<noteq> None \<and> session = []) then (None, None, CInvalid)
         else if raw_session = None then (None, Some name, CNameOnly)
         else (Some session, Some name, CComplete))"

definition same_session_id :: "string \<Rightarrow> string \<Rightarrow> bool" where
  "same_session_id l r =
     (if starts_with l ''ses_'' \<or> starts_with r ''ses_'' then l = r
      else to_ascii_lowercase l = to_ascii_lowercase r)"

definition marker_value :: "(string \<Rightarrow> string option) \<Rightarrow> string \<Rightarrow> string option" where
  "marker_value get marker =
     (case get marker of
        None \<Rightarrow> None
      | Some v \<Rightarrow> if trim v = [] then None else Some (trim v))"

text \<open>
  The loop over the markers: the family and session seen first, and whether a later marker of the
  same family named another session. \<open>None\<close> is the early return on two families.
\<close>

fun vendor_scan ::
  "(string \<Rightarrow> string option) \<Rightarrow> (string \<times> string) list \<Rightarrow> (string \<times> string) option \<Rightarrow> bool \<Rightarrow>
     ((string \<times> string) option \<times> bool) option" where
  "vendor_scan get [] seen conflicted = Some (seen, conflicted)"
| "vendor_scan get ((marker, h) # ms) seen conflicted =
     (case marker_value get marker of
        None \<Rightarrow> vendor_scan get ms seen conflicted
      | Some value \<Rightarrow>
          (case seen of
             None \<Rightarrow> vendor_scan get ms (Some (h, value)) conflicted
           | Some (previous, session) \<Rightarrow>
               if previous \<noteq> h then None
               else vendor_scan get ms seen (conflicted \<or> \<not> same_session_id session value)))"

definition vendor_identity_from :: "(string \<Rightarrow> string option) \<Rightarrow> (string \<times> string) option \<times> bool" where
  "vendor_identity_from get =
     (case vendor_scan get (HARNESS_SESSION_MARKERS @ LEGACY_HARNESS_SESSION_MARKERS) None False of
        None \<Rightarrow> (None, True)
      | Some (seen, conflicted) \<Rightarrow> if conflicted then (None, True) else (seen, False))"

definition resolve_identity_from :: "(string \<Rightarrow> string option) \<Rightarrow> string option \<times> string option" where
  "resolve_identity_from get =
     (case canonical_identity_from get of (canonical_session, canonical_harness, disposition) \<Rightarrow>
      case vendor_identity_from get of (vendor, vendor_ambiguous) \<Rightarrow>
      case disposition of
        CAbsent \<Rightarrow> (case vendor of None \<Rightarrow> (None, None) | Some (h, s) \<Rightarrow> (Some s, Some h))
      | CInvalid \<Rightarrow> (None, None)
      | CNameOnly \<Rightarrow>
          (case canonical_harness of
             None \<Rightarrow> (None, None)
           | Some h \<Rightarrow>
               if vendor_ambiguous then (None, None)
               else case vendor of
                      Some (vh, s) \<Rightarrow> if vh = h then (Some s, Some h) else (None, None)
                    | None \<Rightarrow> (None, Some h))
      | CComplete \<Rightarrow>
          (case (canonical_session, canonical_harness) of
             (Some s, Some h) \<Rightarrow>
               if vendor_ambiguous then (None, None)
               else (case vendor of
                       Some (vh, vs) \<Rightarrow>
                         if vh \<noteq> h \<or> \<not> same_session_id vs s then (None, None) else (Some s, Some h)
                     | None \<Rightarrow> (Some s, Some h))
           | _ \<Rightarrow> (None, None)))"

section \<open>Validation\<close>

datatype ClaimError =
    UnsupportedSchema | EmptyKeyOrHolder | UnavailableNeedsV2 | V2NeedsUnavailable
  | PidExclusive | UnavailableNeedsTtl | PidNotPositive | PidRequired
  | EmptyKey | KeyTooLong nat | EncodedTooLong nat | EmptyHolder | TtlOutOfRange int

definition validate_record :: "ClaimRecord \<Rightarrow> ClaimError + unit" where
  "validate_record rec =
     (if schema_version rec = 0 \<or> schema_version rec > MAX_SUPPORTED_SCHEMA_VERSION
      then Inl UnsupportedSchema
      else if key rec = [] \<or> holder rec = [] then Inl EmptyKeyOrHolder
      else if pid_unavailable rec \<and> schema_version rec \<noteq> PID_UNAVAILABLE_SCHEMA_VERSION
      then Inl UnavailableNeedsV2
      else if \<not> pid_unavailable rec \<and> schema_version rec = PID_UNAVAILABLE_SCHEMA_VERSION
      then Inl V2NeedsUnavailable
      else case (pid rec, pid_unavailable rec, expires_at rec) of
             (Some p, False, _) \<Rightarrow> if p > 0 then Inr () else Inl PidNotPositive
           | (None, True, Some _) \<Rightarrow> Inr ()
           | (Some _, True, _) \<Rightarrow> Inl PidExclusive
           | (None, True, None) \<Rightarrow> Inl UnavailableNeedsTtl
           | (None, False, _) \<Rightarrow> Inl PidRequired)"

definition validate_inputs ::
  "string \<Rightarrow> string \<Rightarrow> int option \<Rightarrow> u32 option \<Rightarrow> bool \<Rightarrow> ClaimError + unit" where
  "validate_inputs k h ttl p unavailable =
     (if k = [] then Inl EmptyKey
      else if length k > MAX_KEY_LENGTH then Inl (KeyTooLong (length k))
      else if length (encode_key k) > MAX_ENCODED_FILENAME_BYTES
      then Inl (EncodedTooLong (length (encode_key k)))
      else if h = [] then Inl EmptyHolder
      else if unavailable \<and> ttl = None then Inl UnavailableNeedsTtl
      else if unavailable \<and> p \<noteq> None then Inl PidExclusive
      else case ttl of
             Some t \<Rightarrow> if MIN_TTL_MS \<le> t \<and> t \<le> MAX_TTL_MS then Inr () else Inl (TtlOutOfRange t)
           | None \<Rightarrow> Inr ())"

section \<open>Building and renewing a record\<close>

definition stepped_clock_safe_acquired_at :: "int \<Rightarrow> int option \<Rightarrow> int" where
  "stepped_clock_safe_acquired_at wall_ms created_ms =
     (case created_ms of Some created \<Rightarrow> max wall_ms (created + 1) | None \<Rightarrow> wall_ms)"

definition make_claim :: "Env \<Rightarrow> string \<Rightarrow> string \<Rightarrow> AcquireOpts \<Rightarrow> ClaimRecord" where
  "make_claim env k h opts =
     (let p = (if opt_pid_unavailable opts then None
               else Some (sint (case opt_pid opts of Some q \<Rightarrow> q | None \<Rightarrow> process_id env)));
          acquired = stepped_clock_safe_acquired_at (now_ms env)
                       (case p of None \<Rightarrow> None | Some q \<Rightarrow> process_create_time_ms env q);
          (sess, harn) = (case opt_identity opts of
                            Some (s, n) \<Rightarrow> (Some s, Some n)
                          | None \<Rightarrow> resolve_identity_from (env_var env))
      in \<lparr>schema_version = (if opt_pid_unavailable opts then PID_UNAVAILABLE_SCHEMA_VERSION else SCHEMA_VERSION),
          key = k, holder = h, acquired_at = acquired, pid = p,
          host = (case opt_host opts of Some n \<Rightarrow> n | None \<Rightarrow> hostname env),
          pid_unavailable = opt_pid_unavailable opts,
          expires_at = map_option (\<lambda>ttl. acquired + ttl) (opt_ttl_ms opts),
          reason = opt_reason opts,
          harness = harn,
          session_id = (case sess of Some s \<Rightarrow> if trim s = [] then None else Some s | None \<Rightarrow> None),
          pid_provenance = Some (case opt_pid_provenance opts of
             Some v \<Rightarrow> v
           | None \<Rightarrow> if opt_pid opts \<noteq> None \<or> \<not> pid_dies_with_session harn then ''ambient''
                     else ''session-prover''),
          machine_id = (if my_machine_id env = [] then None else Some (my_machine_id env)),
          metadata = (case opt_metadata opts of Some m \<Rightarrow> m | None \<Rightarrow> ''{}'')\<rparr>)"

definition parse_ttl_ms :: "string \<Rightarrow> int option" where
  "parse_ttl_ms s0 =
     (let s = trim s0 in
      if s = [] then None
      else let (num, mult) =
             (case strip_suffix_char s (CHR ''h'') of Some n \<Rightarrow> (n, 3600000)
              | None \<Rightarrow> case strip_suffix_char s (CHR ''m'') of Some n \<Rightarrow> (n, 60000)
              | None \<Rightarrow> case strip_suffix_char s (CHR ''s'') of Some n \<Rightarrow> (n, 1000)
              | None \<Rightarrow> (s, 1000))
      in case parse_i64 (trim num) of
           None \<Rightarrow> None
         | Some v \<Rightarrow> let w = sat_i64 (v * mult) in if w > 0 then Some w else None)"

end
