(* ===== verification/Claim_Classify.thy ===== *)
theory Claim_Classify
  imports Claim_Types
begin

text \<open>
  The claim state ladder of \<open>crates/fno-agents/src/claims_classify.rs\<close>, arm by arm: from a record,
  the clock, a process probe, optional sibling evidence and an optional session witness to a state
  and the basis it rests on.
\<close>

section \<open>Readings\<close>

definition liveness_reading :: "Env \<Rightarrow> ClaimRecord \<Rightarrow> (int \<Rightarrow> PidProbe) \<Rightarrow> bool \<times> Basis" where
  "liveness_reading env rec probe =
     (if pid_unavailable rec then (False, PID_UNAVAILABLE)
      else if \<not> is_same_machine env (host rec) (machine_id rec) then (False, OFFHOST)
      else case pid rec of
             None \<Rightarrow> (False, PID_UNAVAILABLE)
           | Some p \<Rightarrow>
               (case probe p of
                  Created create_ms \<Rightarrow>
                    if create_ms > acquired_at rec then (False, PID_REUSE) else (True, LIVE)
                | Absent \<Rightarrow> (False, PID_ABSENT)
                | Refused \<Rightarrow> (False, ACCESS_DENIED)))"

definition is_live :: "Env \<Rightarrow> ClaimRecord \<Rightarrow> bool" where
  "is_live env rec = fst (liveness_reading env rec (probe_pid env))"

definition is_expired :: "ClaimRecord \<Rightarrow> int \<Rightarrow> bool" where
  "is_expired rec now = (case expires_at rec of Some e \<Rightarrow> now \<ge> e | None \<Rightarrow> False)"

definition pid_verdict :: "Env \<Rightarrow> ClaimRecord \<Rightarrow> (int \<Rightarrow> PidProbe) \<Rightarrow> (ClaimState \<times> Basis) option" where
  "pid_verdict env rec probe =
     (if \<not> is_same_machine env (host rec) (machine_id rec) \<or> pid_unavailable rec \<or> pid rec = None then None
      else let (live, cause) = liveness_reading env rec probe in
        if live then Some (Live, cause)
        else if cause \<noteq> ACCESS_DENIED then Some (Stale, cause) else None)"

definition proven_session_pid :: "ClaimRecord \<Rightarrow> bool" where
  "proven_session_pid rec =
     (pid_provenance rec = Some ''session-prover'' \<and> pid_dies_with_session (harness rec))"

definition has_session :: "ClaimRecord \<Rightarrow> bool" where
  "has_session rec = (case session_id rec of Some s \<Rightarrow> s \<noteq> [] | None \<Rightarrow> False)"

definition node_or_task :: "ClaimRecord \<Rightarrow> bool" where
  "node_or_task rec = (starts_with (key rec) ''node:'' \<or> starts_with (key rec) ''task:'')"

definition blueprint_over :: "ClaimRecord \<Rightarrow> int \<Rightarrow> bool" where
  "blueprint_over rec now =
     (starts_with (holder rec) BLUEPRINT_HOLDER_PREFIX \<and>
      now \<ge> (case expires_at rec of Some e \<Rightarrow> e | None \<Rightarrow> sat_i64 (acquired_at rec + BLUEPRINT_LEASE_MS)))"

section \<open>The ladder\<close>

text \<open>The arms in the order of the source; each is the part below an early return.\<close>

definition classify_window ::
  "Env \<Rightarrow> ClaimRecord \<Rightarrow> (int \<Rightarrow> PidProbe) \<Rightarrow> bool option \<Rightarrow> SessionWitness option \<Rightarrow> ClaimState \<times> Basis" where
  "classify_window env rec probe pid_exclusive witness =
     (let (live, cause) = liveness_reading env rec probe in
      if expires_at rec = None
      then (if live then (Live, cause)
            else if cause = ACCESS_DENIED then (Suspect, cause) else (Stale, cause))
      else let witnessed = (case witness of
                 Some w \<Rightarrow> if has_session rec then Some (w rec) else None | None \<Rightarrow> None) in
        if live \<and> proven_session_pid rec
        then (if pid_exclusive = Some False then (Suspect, PID_SHARED) else (Live, cause))
        else if node_or_task rec \<and> is_same_machine env (host rec) (machine_id rec) \<and> witnessed = Some SessAbsent
        then (Stale, SESSION_ABSENT)
        else if live then (Live, cause)
        else case witnessed of
               Some (SessLive b) \<Rightarrow> (Live, b)
             | _ \<Rightarrow> (Suspect, cause))"

definition classify_witnessed ::
  "Env \<Rightarrow> ClaimRecord \<Rightarrow> int \<Rightarrow> SessionWitness option \<Rightarrow> ClaimState \<times> Basis" where
  "classify_witnessed env rec now witness =
     (case witness of
        Some w \<Rightarrow>
          if has_session rec
          then let session_state = w rec in
            if node_or_task rec \<and> is_same_machine env (host rec) (machine_id rec) \<and> session_state = SessAbsent
            then (Stale, SESSION_ABSENT)
            else case session_state of
                   SessLive b \<Rightarrow> (Live, b)
                 | _ \<Rightarrow>
                     if now < (case expires_at rec of Some e \<Rightarrow> e | None \<Rightarrow> now) + UNRESOLVED_GRACE_MS
                     then (Suspect, TTL_EXPIRED_UNRESOLVED) else (Stale, TTL_EXPIRED_UNRESOLVED)
          else (Stale, TTL_EXPIRED)
      | None \<Rightarrow> (Stale, TTL_EXPIRED))"

definition classify_expired ::
  "Env \<Rightarrow> ClaimRecord \<Rightarrow> int \<Rightarrow> (int \<Rightarrow> PidProbe) \<Rightarrow> bool option \<Rightarrow> SessionWitness option \<Rightarrow>
     ClaimState \<times> Basis" where
  "classify_expired env rec now probe pid_exclusive witness =
     (if starts_with (key rec) ''review:branch:'' \<or> starts_with (key rec) ''merge-slot:''
      then (Stale, TTL_EXPIRED)
      else case (if starts_with (key rec) ''dispatch:'' \<or> pid_provenance rec = Some ''holder-process''
                 then pid_verdict env rec probe else None) of
             Some verdict \<Rightarrow> verdict
           | None \<Rightarrow>
               (let (live, cause) = liveness_reading env rec probe in
                if proven_session_pid rec \<and> live
                then (if pid_exclusive = Some False then (Suspect, PID_SHARED) else (Live, cause))
                else classify_witnessed env rec now witness))"

definition classify_with_basis_and_exclusivity ::
  "Env \<Rightarrow> ClaimRecord \<Rightarrow> int option \<Rightarrow> (int \<Rightarrow> PidProbe) \<Rightarrow> bool option \<Rightarrow> SessionWitness option \<Rightarrow>
     ClaimState \<times> Basis" where
  "classify_with_basis_and_exclusivity env rec now_opt probe pid_exclusive witness =
     (let now = (case now_opt of Some n \<Rightarrow> n | None \<Rightarrow> now_ms env) in
      case (if starts_with (key rec) ''gate:'' then pid_verdict env rec probe else None) of
        Some verdict \<Rightarrow> verdict
      | None \<Rightarrow>
          if blueprint_over rec now then (Stale, TTL_EXPIRED)
          else if \<not> is_expired rec now \<and> \<not> pid_dies_with_session (harness rec) \<and> has_session rec \<and>
                  node_or_task rec \<and> is_same_machine env (host rec) (machine_id rec)
          then (case witness of
                  Some w \<Rightarrow>
                    (case w rec of
                       SessLive b \<Rightarrow> (Live, b)
                     | SessAbsent \<Rightarrow> (Stale, SESSION_ABSENT)
                     | SessUnresolved \<Rightarrow> (Suspect, PID_SHARED))
                | None \<Rightarrow> (Suspect, PID_SHARED))
          else if is_expired rec now then classify_expired env rec now probe pid_exclusive witness
          else case (if pid_provenance rec = Some HOLDER_PROCESS then pid_verdict env rec probe else None) of
                 Some verdict \<Rightarrow> verdict
               | None \<Rightarrow> classify_window env rec probe pid_exclusive witness)"

definition classify_with_basis ::
  "Env \<Rightarrow> ClaimRecord \<Rightarrow> int option \<Rightarrow> (int \<Rightarrow> PidProbe) \<Rightarrow> ClaimState \<times> Basis" where
  "classify_with_basis env rec now probe = classify_with_basis_and_exclusivity env rec now probe None None"

definition classify :: "Env \<Rightarrow> ClaimRecord \<Rightarrow> int option \<Rightarrow> ClaimState" where
  "classify env rec now = fst (classify_with_basis env rec now (probe_pid env))"

definition classify_with_session_witness :: "Env \<Rightarrow> ClaimRecord \<Rightarrow> SessionWitness option \<Rightarrow> ClaimState" where
  "classify_with_session_witness env rec witness =
     fst (classify_with_basis_and_exclusivity env rec (Some (now_ms env)) (probe_pid env) None witness)"

section \<open>The sweep\<close>

datatype SweepBucket = BucketNone | BucketOffhost | BucketSuspect | BucketLive

definition classify_for_sweep ::
  "Env \<Rightarrow> ClaimRecord \<Rightarrow> int option \<Rightarrow> (int \<Rightarrow> PidProbe) \<Rightarrow> bool option \<Rightarrow> SessionWitness option \<Rightarrow>
     bool \<times> SweepBucket" where
  "classify_for_sweep env rec now_opt probe pid_exclusive witness =
     (let now = (case now_opt of Some n \<Rightarrow> n | None \<Rightarrow> now_ms env);
          same_machine = is_same_machine env (host rec) (machine_id rec);
          unidentifiable = (machine_id rec = None)
      in if \<not> same_machine \<and> \<not> (unidentifiable \<and> is_expired rec now) then (False, BucketOffhost)
         else let state = fst (classify_with_basis_and_exclusivity env rec (Some now) probe pid_exclusive witness) in
           if state = Stale then (True, BucketNone)
           else (False, if state = Suspect then BucketSuspect else BucketLive))"

definition identity_of :: "ClaimRecord \<Rightarrow> string" where
  "identity_of rec = (case machine_id rec of Some m \<Rightarrow> m | None \<Rightarrow> host rec)"

definition add_holder ::
  "(string \<times> int \<rightharpoonup> string set) \<Rightarrow> ClaimRecord \<Rightarrow> (string \<times> int \<rightharpoonup> string set)" where
  "add_holder holders rec =
     (case pid rec of
        None \<Rightarrow> holders
      | Some p \<Rightarrow>
          (let k = (identity_of rec, p);
               old = (case holders k of Some hs \<Rightarrow> hs | None \<Rightarrow> {})
           in holders(k \<mapsto> insert (holder rec) old)))"

definition pid_exclusivity :: "ClaimRecord list \<Rightarrow> (string \<times> int \<rightharpoonup> bool)" where
  "pid_exclusivity records = (\<lambda>k. map_option (\<lambda>hs. card hs \<le> 1) (foldl add_holder Map.empty records k))"

section \<open>Renewal\<close>

definition session_anchor :: "Env \<Rightarrow> ClaimRecord \<Rightarrow> int option" where
  "session_anchor env rec =
     (case session_id rec of
        Some sid \<Rightarrow> if sid = [] then None else registry_session_pid env sid
      | None \<Rightarrow> None)"

definition renewal_anchor :: "Env \<Rightarrow> ClaimRecord \<Rightarrow> int option" where
  "renewal_anchor env rec =
     (case session_anchor env rec of
        Some p \<Rightarrow> Some p
      | None \<Rightarrow>
          (case durable_session_pid env of
             None \<Rightarrow> None
           | Some p \<Rightarrow>
               (case process_create_time_ms env p of
                  Some created \<Rightarrow> if created \<le> acquired_at rec then Some p else None
                | None \<Rightarrow> None)))"

definition reanchored :: "Env \<Rightarrow> ClaimRecord \<Rightarrow> ClaimRecord" where
  "reanchored env rec =
     (if \<not> pid_unavailable rec \<and> pid_dies_with_session (harness rec) \<and>
         is_same_machine env (host rec) (machine_id rec) \<and> \<not> is_live env rec
      then (case renewal_anchor env rec of
              Some p \<Rightarrow> rec\<lparr>pid := Some p, host := hostname env,
                 machine_id := (if my_machine_id env = [] then None else Some (my_machine_id env))\<rparr>
            | None \<Rightarrow> rec)
      else rec)"

definition renewed_record :: "Env \<Rightarrow> ClaimRecord \<Rightarrow> int \<Rightarrow> ClaimRecord" where
  "renewed_record env observed ttl_ms =
     (let existing = reanchored env observed;
          sess = (if session_id existing = None then fst (resolve_identity_from (env_var env))
                  else session_id existing)
      in existing\<lparr>session_id := sess, expires_at := Some (now_ms env + ttl_ms)\<rparr>)"

end
