(* ===== verification/Claim_Props.thy ===== *)
theory Claim_Props
  imports Claim_Classify
begin

text \<open>
  What the claim protocol promises of a single record: every verdict of the ladder rests on
  evidence of its own kind, sweeps touch nothing they cannot judge, keys map to distinct safe file
  names, a record the writer builds is one the reader accepts, and an ambiguous environment never
  names an owner.
\<close>

section \<open>Verdicts and their evidence\<close>

abbreviation same_machine :: "Env \<Rightarrow> ClaimRecord \<Rightarrow> bool" where
  "same_machine env rec \<equiv> is_same_machine env (host rec) (machine_id rec)"

definition dead_proof :: "Env \<Rightarrow> ClaimRecord \<Rightarrow> int \<Rightarrow> (int \<Rightarrow> PidProbe) \<Rightarrow> SessionWitness option \<Rightarrow> Basis \<Rightarrow> bool" where
  "dead_proof env rec now probe wit b \<longleftrightarrow> (case b of
     TTL_EXPIRED \<Rightarrow> is_expired rec now \<or> blueprint_over rec now
   | TTL_EXPIRED_UNRESOLVED \<Rightarrow> (\<exists>e. expires_at rec = Some e \<and> e + UNRESOLVED_GRACE_MS \<le> now)
   | SESSION_ABSENT \<Rightarrow> same_machine env rec \<and> node_or_task rec \<and> has_session rec \<and>
       (\<exists>w. wit = Some w \<and> w rec = SessAbsent)
   | PID_ABSENT \<Rightarrow> same_machine env rec \<and> (\<exists>p. pid rec = Some p \<and> probe p = Absent)
   | PID_REUSE \<Rightarrow> same_machine env rec \<and> (\<exists>p c. pid rec = Some p \<and> probe p = Created c \<and> acquired_at rec < c)
   | OFFHOST \<Rightarrow> expires_at rec = None \<and> \<not> same_machine env rec
   | PID_UNAVAILABLE \<Rightarrow> expires_at rec = None \<and> (pid_unavailable rec \<or> pid rec = None)
   | _ \<Rightarrow> False)"

definition live_proof :: "Env \<Rightarrow> ClaimRecord \<Rightarrow> (int \<Rightarrow> PidProbe) \<Rightarrow> SessionWitness option \<Rightarrow> Basis \<Rightarrow> bool" where
  "live_proof env rec probe wit b \<longleftrightarrow>
     b = LIVE \<and> same_machine env rec \<and> (\<exists>p c. pid rec = Some p \<and> probe p = Created c \<and> c \<le> acquired_at rec) \<or>
     has_session rec \<and> (\<exists>w. wit = Some w \<and> w rec = SessLive b)"

definition justified ::
  "Env \<Rightarrow> ClaimRecord \<Rightarrow> int \<Rightarrow> (int \<Rightarrow> PidProbe) \<Rightarrow> SessionWitness option \<Rightarrow> ClaimState \<times> Basis \<Rightarrow> bool" where
  "justified env rec now probe wit v \<longleftrightarrow> (case v of
     (Stale, b) \<Rightarrow> dead_proof env rec now probe wit b
   | (Live, b) \<Rightarrow> live_proof env rec probe wit b
   | (Suspect, b) \<Rightarrow> True
   | _ \<Rightarrow> False)"

lemma liveness_live:
  "liveness_reading env rec probe = (True, c) \<Longrightarrow> justified env rec now probe wit (Live, c)"
  by (auto simp: liveness_reading_def justified_def live_proof_def split: if_splits option.splits PidProbe.splits)

lemma liveness_dead:
  "liveness_reading env rec probe = (False, c) \<Longrightarrow> c \<noteq> ACCESS_DENIED \<Longrightarrow>
     expires_at rec = None \<or> same_machine env rec \<and> \<not> pid_unavailable rec \<and> pid rec \<noteq> None \<Longrightarrow>
     justified env rec now probe wit (Stale, c)"
  by (auto simp: liveness_reading_def justified_def dead_proof_def split: if_splits option.splits PidProbe.splits)

lemma pid_verdict_justified: "pid_verdict env rec probe = Some v \<Longrightarrow> justified env rec now probe wit v"
  by (auto simp: pid_verdict_def Let_def intro: liveness_live liveness_dead split: if_splits prod.splits)

lemma window_justified:
  assumes "\<not> is_expired rec now" shows "justified env rec now probe wit (classify_window env rec probe excl wit)"
proof (cases "liveness_reading env rec probe")
  case (Pair live c)
  have l: "live \<Longrightarrow> justified env rec now probe wit (Live, c)" using Pair liveness_live by simp
  have d: "\<not> live \<Longrightarrow> expires_at rec = None \<Longrightarrow> c \<noteq> ACCESS_DENIED \<Longrightarrow> justified env rec now probe wit (Stale, c)"
    using Pair by (intro liveness_dead) auto
  show ?thesis
    using l d unfolding classify_window_def Pair
    by (auto simp: Let_def justified_def dead_proof_def live_proof_def
        split: option.splits if_splits SessionLiveness.splits)
qed

lemma witnessed_justified:
  "is_expired rec now \<Longrightarrow> justified env rec now probe wit (classify_witnessed env rec now wit)"
  by (auto simp: classify_witnessed_def Let_def justified_def dead_proof_def live_proof_def is_expired_def
      split: option.splits if_splits SessionLiveness.splits)

lemma expired_justified:
  assumes "is_expired rec now" shows "justified env rec now probe wit (classify_expired env rec now probe excl wit)"
proof (cases "liveness_reading env rec probe")
  case (Pair live c)
  have l: "live \<Longrightarrow> justified env rec now probe wit (Live, c)" using Pair liveness_live by simp
  have s: "justified env rec now probe wit (Suspect, b)" for b by (simp add: justified_def)
  have t: "justified env rec now probe wit (Stale, TTL_EXPIRED)" using assms by (simp add: justified_def dead_proof_def)
  show ?thesis
    using l s t witnessed_justified [OF assms] pid_verdict_justified unfolding classify_expired_def Pair
    by (auto split: option.splits)
qed

lemma classify_justified:
  "justified env rec now probe wit (classify_with_basis_and_exclusivity env rec (Some now) probe excl wit)"
proof -
  have t: "blueprint_over rec now \<Longrightarrow> justified env rec now probe wit (Stale, TTL_EXPIRED)"
    by (simp add: justified_def dead_proof_def)
  have w: "has_session rec \<Longrightarrow> node_or_task rec \<Longrightarrow> same_machine env rec \<Longrightarrow>
      justified env rec now probe wit (case wit of Some w \<Rightarrow> (case w rec of SessLive b \<Rightarrow> (Live, b)
        | SessAbsent \<Rightarrow> (Stale, SESSION_ABSENT) | SessUnresolved \<Rightarrow> (Suspect, PID_SHARED)) | None \<Rightarrow> (Suspect, PID_SHARED))"
    by (auto simp: justified_def dead_proof_def live_proof_def split: option.splits SessionLiveness.splits)
  show ?thesis
    unfolding classify_with_basis_and_exclusivity_def
    using t w expired_justified window_justified pid_verdict_justified
    by (auto simp: Let_def split: option.splits)
qed

section \<open>Inside the lease\<close>

lemma window_protected:
  assumes "expires_at rec = Some e" "\<forall>w. wit = Some w \<longrightarrow> w rec \<noteq> SessAbsent"
  shows "fst (classify_window env rec probe excl wit) \<noteq> Stale"
  using assms unfolding classify_window_def
  by (auto simp: Let_def split: option.splits if_splits SessionLiveness.splits prod.splits)

section \<open>Siblings\<close>

lemma add_holder_fold:
  "foldl add_holder m rs k = (case m k of
     None \<Rightarrow> if \<exists>r\<in>set rs. (identity_of r, pid r) = (fst k, Some (snd k))
             then Some (holder ` {r \<in> set rs. (identity_of r, pid r) = (fst k, Some (snd k))}) else None
   | Some hs \<Rightarrow> Some (hs \<union> holder ` {r \<in> set rs. (identity_of r, pid r) = (fst k, Some (snd k))}))"
proof (induction rs arbitrary: m)
  case Nil
  then show ?case by (auto split: option.splits)
next
  case (Cons r rs)
  have hit: "{r' \<in> set (r # rs). P r'} = (if P r then insert r {r' \<in> set rs. P r'} else {r' \<in> set rs. P r'})" for P
    by auto
  show ?case
  proof (cases "(identity_of r, pid r) = (fst k, Some (snd k))")
    case True
    then have "add_holder m r k = Some (insert (holder r) (case m k of Some hs \<Rightarrow> hs | None \<Rightarrow> {}))"
      by (cases k) (auto simp: add_holder_def Let_def)
    with True Cons [of "add_holder m r"] show ?thesis unfolding hit by (auto split: option.splits)
  next
    case False
    then have "add_holder m r k = m k"
      by (cases k) (auto simp: add_holder_def Let_def split: option.splits)
    with False Cons [of "add_holder m r"] show ?thesis unfolding hit by (auto split: option.splits)
  qed
qed

section \<open>File names\<close>

lemma hex_digit_inj: "n < 16 \<Longrightarrow> m < 16 \<Longrightarrow> hex_digit n = hex_digit m \<Longrightarrow> n = m"
proof -
  have d: "distinct ''0123456789ABCDEF''" by simp
  assume "n < 16" "m < 16" "hex_digit n = hex_digit m"
  then show ?thesis using nth_eq_iff_index_eq [OF d, of n m] by (simp add: hex_digit_def)
qed

lemma of_char_div: "(of_char c :: nat) div 16 < 16" "(of_char c :: nat) mod 16 < 16"
  using nat_of_char_less_256 [of c] by (simp_all add: less_mult_imp_div_less)

lemma percent_reserved: "\<not> unreserved (CHR ''%'')"
  by (simp add: unreserved_def)

lemma encode_byte_prefix:
  assumes "encode_byte c @ xs = encode_byte d @ ys" shows "c = d \<and> xs = ys"
proof (cases "unreserved c \<or> unreserved d")
  case True
  with assms show ?thesis using percent_reserved by (auto simp: encode_byte_def Let_def split: if_splits)
next
  case False
  with assms have e: "hex_digit ((of_char c :: nat) div 16) = hex_digit ((of_char d :: nat) div 16)"
    "hex_digit ((of_char c :: nat) mod 16) = hex_digit ((of_char d :: nat) mod 16)" "xs = ys"
    by (auto simp: encode_byte_def Let_def)
  then have "(of_char c :: nat) div 16 = of_char d div 16" "(of_char c :: nat) mod 16 = of_char d mod 16"
    using hex_digit_inj of_char_div by blast+
  then have "(of_char c :: nat) = of_char d" by (metis div_mult_mod_eq)
  with e show ?thesis by simp
qed

lemma encode_byte_nonempty: "encode_byte c \<noteq> []"
  by (simp add: encode_byte_def Let_def)

lemma encode_key_simps [simp]: "encode_key [] = []" "encode_key (c # k) = encode_byte c @ encode_key k"
  by (simp_all add: encode_key_def)

lemma encode_key_inj: "encode_key k = encode_key l \<Longrightarrow> k = l"
proof (induction k arbitrary: l)
  case Nil
  then show ?case using encode_byte_nonempty by (cases l) auto
next
  case (Cons c k)
  then obtain d l' where l: "l = d # l'" using encode_byte_nonempty by (cases l) auto
  with Cons.prems have "encode_byte c @ encode_key k = encode_byte d @ encode_key l'" by simp
  with encode_byte_prefix l Cons.IH show ?case by blast
qed

lemma hex_digit_unreserved: "n < 16 \<Longrightarrow> unreserved (hex_digit n)"
proof -
  have "list_all unreserved ''0123456789ABCDEF''" by (simp add: unreserved_def)
  moreover assume "n < 16"
  ultimately show ?thesis by (simp add: hex_digit_def list_all_length)
qed

lemma encode_byte_chars: "x \<in> set (encode_byte c) \<Longrightarrow> unreserved x \<or> x = CHR ''%''"
  using of_char_div [of c] by (auto simp: encode_byte_def Let_def hex_digit_unreserved split: if_splits)

lemma encode_key_length: "length k \<le> length (encode_key k) \<and> length (encode_key k) \<le> 3 * length k"
  by (induction k) (auto simp: encode_byte_def Let_def)

section \<open>Identity\<close>

lemma vendor_scan_seen:
  "(m, h) \<in> set ms \<Longrightarrow> marker_value get m \<noteq> None \<Longrightarrow> h \<noteq> p \<Longrightarrow> vendor_scan get ms (Some (p, s)) c = None"
proof (induction ms arbitrary: c)
  case (Cons x ms)
  then show ?case by (cases x) (auto split: option.splits)
qed simp

lemma vendor_scan_conflict:
  assumes "(m1, h1) \<in> set ms" "(m2, h2) \<in> set ms" "h1 \<noteq> h2"
    and "marker_value get m1 \<noteq> None" "marker_value get m2 \<noteq> None"
  shows "vendor_scan get ms None c = None"
  using assms(1,2)
proof (induction ms)
  case (Cons x ms)
  obtain m h where x: "x = (m, h)" by fastforce
  show ?case
  proof (cases "marker_value get m")
    case None
    with Cons x assms(4,5) show ?thesis by auto
  next
    case (Some v)
    consider "h \<noteq> h1" "(m1, h1) \<in> set ms" | "h \<noteq> h2" "(m2, h2) \<in> set ms"
      using Cons.prems x assms(3) by auto
    then have "vendor_scan get ms (Some (h, v)) c = None"
      by cases (metis vendor_scan_seen assms(4,5))+
    with Some x show ?thesis by simp
  qed
qed simp

section \<open>Concrete records\<close>

definition desk :: Env where
  "desk = \<lparr>now_ms = 1000000, hostname = ''desk'', my_machine_id = ''m1'', process_id = 7,
     probe_pid = (\<lambda>p. if p = 7 then Created 500 else Absent), env_var = (\<lambda>_. None),
     durable_session_pid = None, registry_session_pid = (\<lambda>_. None)\<rparr>"

definition lease :: ClaimRecord where
  "lease = \<lparr>schema_version = 1, key = ''node:a'', holder = ''w1'', acquired_at = 900000, pid = Some 9,
     host = ''desk'', pid_unavailable = False, expires_at = Some 1200000, reason = None,
     harness = Some ''claude'', session_id = None, pid_provenance = Some ''ambient'',
     machine_id = Some ''m1'', metadata = ''{}''\<rparr>"

definition plain_opts :: AcquireOpts where
  "plain_opts = \<lparr>opt_pid = None, opt_pid_unavailable = False, opt_ttl_ms = Some 60000, opt_reason = None,
     opt_metadata = None, opt_pid_provenance = None, opt_identity = None, opt_host = None\<rparr>"

section \<open>Properties\<close>

text \<open>
  C10. No verdict without evidence. A claim reads stale only with a proof of death of the kind its
  basis names: the lease or planning window is over, the grace after an unresolved session is
  over, the session witness reports the session gone, the process table shows the pid absent or
  reused on this machine, or a claim without a lease has no process that could be looked up. It
  reads live only when the recorded pid is a process of this machine that is older than the claim,
  or the session witness vouches for it. Nothing else is answered but suspect.
\<close>

theorem classify_evidence:
  "case classify_with_basis_and_exclusivity env rec (Some now) probe excl wit of
     (Stale, b) \<Rightarrow> dead_proof env rec now probe wit b
   | (Live, b) \<Rightarrow> live_proof env rec probe wit b
   | (st, b) \<Rightarrow> st = Suspect"
  using classify_justified [of env rec now probe wit excl]
  by (auto simp: justified_def split: prod.splits ClaimState.splits)

text \<open>
  A lease protects its holder. Inside the window of a claim with a time to live, whatever the
  process table says, the claim is not stale, unless its pid is by contract the holder itself
  (gate keys, holder-process leases) or the session witness reports the session gone.
\<close>

theorem lease_protects:
  assumes "expires_at rec = Some e" "now < e"
    and "\<not> starts_with (key rec) ''gate:''" "pid_provenance rec \<noteq> Some HOLDER_PROCESS"
    and "\<forall>w. wit = Some w \<longrightarrow> w rec \<noteq> SessAbsent"
  shows "fst (classify_with_basis_and_exclusivity env rec (Some now) probe excl wit) \<noteq> Stale"
proof -
  have "\<not> blueprint_over rec now" "\<not> is_expired rec now"
    using assms(1,2) by (auto simp: blueprint_over_def is_expired_def)
  then show ?thesis
    using assms(3-5) window_protected [OF assms(1,5)] unfolding classify_with_basis_and_exclusivity_def
    by (auto simp: Let_def split: option.splits SessionLiveness.splits)
qed

theorem lease_protects_witness:
  "fst (classify_with_basis_and_exclusivity desk lease (Some 1000000) (\<lambda>_. Absent) None None) \<noteq> Stale"
  by (rule lease_protects [where e = 1200000])
     (simp_all add: lease_def starts_with_def HOLDER_PROCESS_def)

text \<open>
  A refused probe is never a proof of death: when the operating system refuses to show the
  holder's process, a stale verdict rests on the clock or on the session witness, not on the pid.
\<close>

theorem refused_probe_never_frees:
  assumes "pid rec = Some p" "probe p = Refused" "\<not> pid_unavailable rec" "same_machine env rec"
    and "classify_with_basis_and_exclusivity env rec (Some now) probe excl wit = (Stale, b)"
  shows "b \<in> {TTL_EXPIRED, TTL_EXPIRED_UNRESOLVED, SESSION_ABSENT}"
  using classify_justified [of env rec now probe wit excl] assms
  by (auto simp: justified_def dead_proof_def split: Basis.splits)

theorem refused_probe_never_frees_witness:
  "snd (classify_with_basis_and_exclusivity desk (lease\<lparr>expires_at := Some 950000\<rparr>) (Some 1000000)
     (\<lambda>_. Refused) None None) \<in> {TTL_EXPIRED, TTL_EXPIRED_UNRESOLVED, SESSION_ABSENT}"
proof -
  have "fst (classify_with_basis_and_exclusivity desk (lease\<lparr>expires_at := Some 950000\<rparr>) (Some 1000000)
     (\<lambda>_. Refused) None None) = Stale" by code_simp
  then show ?thesis
    by (intro refused_probe_never_frees [of "lease\<lparr>expires_at := Some 950000\<rparr>" 9 "\<lambda>_. Refused" desk 1000000 None None])
       (simp_all add: lease_def is_same_machine_def desk_def prod_eq_iff)
qed

text \<open>
  A sweep reaps only what it can judge. It frees a record exactly when the ladder reads it
  stale and the record is of this machine, or names no machine and its lease is over; a record of
  another machine that it does free was freed by the clock alone.
\<close>

theorem sweep_sound:
  "fst (classify_for_sweep env rec (Some now) probe excl wit) \<longleftrightarrow>
     (\<exists>b. classify_with_basis_and_exclusivity env rec (Some now) probe excl wit = (Stale, b) \<and>
       (same_machine env rec \<or>
        machine_id rec = None \<and> is_expired rec now \<and> b \<in> {TTL_EXPIRED, TTL_EXPIRED_UNRESOLVED}))"
proof (cases "classify_with_basis_and_exclusivity env rec (Some now) probe excl wit")
  case (Pair st b)
  have "st = Stale \<Longrightarrow> \<not> same_machine env rec \<Longrightarrow> is_expired rec now \<Longrightarrow> b \<in> {TTL_EXPIRED, TTL_EXPIRED_UNRESOLVED}"
    using classify_justified [of env rec now probe wit excl] Pair
    by (auto simp: justified_def dead_proof_def is_expired_def split: Basis.splits option.splits)
  with Pair show ?thesis by (auto simp: classify_for_sweep_def Let_def)
qed

text \<open>
  The exclusivity map of a sweep marks a process exactly when some record names it, and marks
  it shared exactly when two records with different holders do.
\<close>

theorem pid_exclusivity_iff:
  "pid_exclusivity rs (m, p) =
     (if \<exists>r\<in>set rs. identity_of r = m \<and> pid r = Some p
      then Some (\<forall>r\<in>set rs. \<forall>r'\<in>set rs. identity_of r = m \<and> pid r = Some p \<and>
             identity_of r' = m \<and> pid r' = Some p \<longrightarrow> holder r = holder r')
      else None)"
proof -
  let ?H = "holder ` {r \<in> set rs. identity_of r = m \<and> pid r = Some p}"
  have "finite ?H" by simp
  then have "card ?H \<le> 1 \<longleftrightarrow> (\<forall>x\<in>?H. \<forall>y\<in>?H. x = y)" by (auto simp: card_le_Suc0_iff_eq)
  then show ?thesis
    by (auto simp: pid_exclusivity_def add_holder_fold [of Map.empty rs "(m, p)"])
qed

theorem pid_exclusivity_iff_witness:
  "pid_exclusivity [lease, lease\<lparr>holder := ''w2''\<rparr>] (''m1'', 9) = Some False"
  using pid_exclusivity_iff [of "[lease, lease\<lparr>holder := ''w2''\<rparr>]" "''m1''" 9]
  by (simp add: lease_def identity_of_def)

text \<open>
  C21. Different keys never share a lock file, and every file name is made of letters, digits and
  \<open>_ . ~ - %\<close>, so a key can name no other directory; encoding lengthens a key at most threefold.
\<close>

theorem encode_key_safe:
  "(encode_key k = encode_key l \<longleftrightarrow> k = l) \<and> set (encode_key k) \<subseteq> insert (CHR ''%'') {c. unreserved c} \<and>
   length k \<le> length (encode_key k) \<and> length (encode_key k) \<le> 3 * length k"
  using encode_key_inj encode_key_length [of k] encode_byte_chars by (auto simp: encode_key_def)

lemma make_claim_fields:
  "schema_version (make_claim env k h opts) =
     (if opt_pid_unavailable opts then PID_UNAVAILABLE_SCHEMA_VERSION else SCHEMA_VERSION)"
  "key (make_claim env k h opts) = k" "holder (make_claim env k h opts) = h"
  "pid_unavailable (make_claim env k h opts) = opt_pid_unavailable opts"
  "pid (make_claim env k h opts) = (if opt_pid_unavailable opts then None
     else Some (sint (case opt_pid opts of Some q \<Rightarrow> q | None \<Rightarrow> process_id env)))"
  "acquired_at (make_claim env k h opts) = stepped_clock_safe_acquired_at (now_ms env)
     (case pid (make_claim env k h opts) of None \<Rightarrow> None | Some q \<Rightarrow> process_create_time_ms env q)"
  "expires_at (make_claim env k h opts) =
     map_option (\<lambda>ttl. acquired_at (make_claim env k h opts) + ttl) (opt_ttl_ms opts)"
  "host (make_claim env k h opts) = (case opt_host opts of Some n \<Rightarrow> n | None \<Rightarrow> hostname env)"
  "machine_id (make_claim env k h opts) = (if my_machine_id env = [] then None else Some (my_machine_id env))"
  by (simp_all add: make_claim_def Let_def split: prod.splits)

text \<open>
  The writer's record is one every reader accepts: when the inputs validate and the chosen pid
  is positive as a signed 32-bit number, the record validates; and a record whose process shows a
  creation time reads live at once, whatever the wall clock did in between.
\<close>

theorem make_claim_valid:
  assumes "validate_inputs k h (opt_ttl_ms opts) (opt_pid opts) (opt_pid_unavailable opts) = Inr ()"
    and "opt_pid_unavailable opts \<or> 0 < sint (case opt_pid opts of Some q \<Rightarrow> q | None \<Rightarrow> process_id env)"
    and "opt_host opts = None" "my_machine_id env \<noteq> [] \<or> hostname env \<noteq> []"
  shows "validate_record (make_claim env k h opts) = Inr () \<and>
    (\<forall>q. pid (make_claim env k h opts) = Some q \<and> probe_pid env q = Created c \<longrightarrow>
       is_live env (make_claim env k h opts))"
proof
  let ?r = "make_claim env k h opts"
  have "schema_version ?r \<noteq> 0" "schema_version ?r \<le> MAX_SUPPORTED_SCHEMA_VERSION"
    "pid_unavailable ?r \<longleftrightarrow> schema_version ?r = PID_UNAVAILABLE_SCHEMA_VERSION"
    unfolding make_claim_fields by (auto simp: SCHEMA_VERSION_def PID_UNAVAILABLE_SCHEMA_VERSION_def
        MAX_SUPPORTED_SCHEMA_VERSION_def)
  moreover have "key ?r \<noteq> []" "holder ?r \<noteq> []"
    using assms(1) unfolding make_claim_fields by (auto simp: validate_inputs_def split: if_splits)
  moreover have "opt_pid_unavailable opts \<Longrightarrow> opt_ttl_ms opts \<noteq> None"
    using assms(1) by (auto simp: validate_inputs_def split: if_splits)
  ultimately show "validate_record ?r = Inr ()"
    using assms(2) unfolding validate_record_def make_claim_fields by (auto split: option.splits)
  show "\<forall>q. pid ?r = Some q \<and> probe_pid env q = Created c \<longrightarrow> is_live env ?r"
    using assms(3,4) unfolding is_live_def liveness_reading_def is_same_machine_def make_claim_fields
    by (auto simp: stepped_clock_safe_acquired_at_def process_create_time_ms_def)
qed

theorem make_claim_valid_witness: "validate_record (make_claim desk ''node:a'' ''w1'' plain_opts) = Inr ()"
proof -
  have "validate_inputs ''node:a'' ''w1'' (opt_ttl_ms plain_opts) (opt_pid plain_opts)
      (opt_pid_unavailable plain_opts) = Inr ()" by code_simp
  then show ?thesis
    using make_claim_valid [of "''node:a''" "''w1''" plain_opts desk] by (simp add: plain_opts_def desk_def)
qed

text \<open>
  A time to live survives printing: a count of hours, minutes or seconds written in decimal
  with its unit is read back as that many milliseconds, and a bare count is seconds.
\<close>

theorem ttl_roundtrip:
  assumes "0 < n" "int n * 3600000 \<le> I64_MAX"
  shows "parse_ttl_ms (decimal n @ ''h'') = Some (int n * 3600000) \<and>
    parse_ttl_ms (decimal n @ ''m'') = Some (int n * 60000) \<and>
    parse_ttl_ms (decimal n @ ''s'') = Some (int n * 1000) \<and>
    parse_ttl_ms (decimal n) = Some (int n * 1000)"
proof -
  have n: "int n \<le> I64_MAX" "int n * 60000 \<le> I64_MAX" "int n * 1000 \<le> I64_MAX" using assms by auto
  have t: "trim (decimal n @ [u]) = decimal n @ [u]" if "\<not> is_space u" for u
    using that decimal_digits [of n] digit_not_space by (intro trim_no_space) (auto simp: list_all_iff)
  have l: "\<not> is_digit u \<Longrightarrow> last (decimal n) \<noteq> u" for u
    using decimal_digits [of n] decimal_nonempty [of n] by (metis last_in_set list_all_iff)
  have sat: "sat_i64 (int n * m) = int n * m" if "int n * m \<le> I64_MAX" "0 < m" for m
    using that assms(1) by (simp add: sat_i64_def I64_MIN_def)
       (smt (verit) mult_nonneg_nonneg of_nat_0_le_iff zero_less_power)
  have nd: "\<not> is_digit (CHR ''h'')" "\<not> is_digit (CHR ''m'')" "\<not> is_digit (CHR ''s'')"
    "\<not> is_space (CHR ''h'')" "\<not> is_space (CHR ''m'')" "\<not> is_space (CHR ''s'')"
    by (simp_all add: is_digit_def is_space_def)
  show ?thesis
    using assms n
    by (simp add: parse_ttl_ms_def Let_def t nd l strip_suffix_char_def parse_i64_decimal sat decimal_nonempty)
qed

theorem ttl_roundtrip_witness: "parse_ttl_ms (decimal 30 @ ''m'') = Some 1800000"
  using ttl_roundtrip [of 30] by (simp add: I64_MAX_def)

text \<open>
  An environment with session markers of two harness families names no owner at all: neither
  a harness nor a session is attributed, whatever else is set.
\<close>

theorem ambiguous_identity:
  assumes "(m1, h1) \<in> set (HARNESS_SESSION_MARKERS @ LEGACY_HARNESS_SESSION_MARKERS)"
    and "(m2, h2) \<in> set (HARNESS_SESSION_MARKERS @ LEGACY_HARNESS_SESSION_MARKERS)" "h1 \<noteq> h2"
    and "marker_value get m1 \<noteq> None" "marker_value get m2 \<noteq> None"
  shows "resolve_identity_from get = (None, None)"
proof -
  have "vendor_identity_from get = (None, True)"
    using vendor_scan_conflict [OF assms] by (simp add: vendor_identity_from_def)
  then show ?thesis
    by (auto simp: resolve_identity_from_def split: prod.splits CanonicalDisposition.splits option.splits)
qed

theorem ambiguous_identity_witness:
  "resolve_identity_from (\<lambda>v. if v \<in> {''CODEX_THREAD_ID'', ''CLAUDE_CODE_SESSION_ID''} then Some ''x'' else None)
     = (None, None)"
  by (rule ambiguous_identity [of "''CODEX_THREAD_ID''" "''codex''" "''CLAUDE_CODE_SESSION_ID''" "''claude''"])
     (simp_all add: HARNESS_SESSION_MARKERS_def marker_value_def trim_def is_space_def)

text \<open>
  Renewal keeps the identity of the claim and moves its deadline to exactly the requested time
  from now; a claim whose process is live keeps its anchor. But re-anchoring a resumed session does
  not revive the claim: when the registry names a pid whose process started after the claim was
  filed, the renewed record carries that pid and still reads as a reused pid.
\<close>

theorem renewed_record_spec:
  "key (renewed_record env rec ttl) = key rec \<and> holder (renewed_record env rec ttl) = holder rec \<and>
   acquired_at (renewed_record env rec ttl) = acquired_at rec \<and>
   expires_at (renewed_record env rec ttl) = Some (now_ms env + ttl) \<and>
   (is_live env rec \<longrightarrow> pid (renewed_record env rec ttl) = pid rec \<and> host (renewed_record env rec ttl) = host rec) \<and>
   (\<not> is_live env rec \<and> \<not> pid_unavailable rec \<and> pid_dies_with_session (harness rec) \<and> same_machine env rec \<and>
    session_anchor env rec = Some p \<and> probe_pid env p = Created c \<and> acquired_at rec < c \<and>
    my_machine_id env \<noteq> [] \<longrightarrow>
      liveness_reading env (renewed_record env rec ttl) (probe_pid env) = (False, PID_REUSE))"
  by (auto simp: renewed_record_def reanchored_def Let_def renewal_anchor_def liveness_reading_def
      is_same_machine_def split: option.splits)

theorem renewed_record_spec_witness:
  "liveness_reading (desk\<lparr>registry_session_pid := (\<lambda>_. Some 12), probe_pid := (\<lambda>p. if p = 12 then Created 950000 else Absent)\<rparr>)
     (renewed_record (desk\<lparr>registry_session_pid := (\<lambda>_. Some 12), probe_pid := (\<lambda>p. if p = 12 then Created 950000 else Absent)\<rparr>)
       (lease\<lparr>session_id := Some ''s1''\<rparr>) 60000) (\<lambda>p. if p = 12 then Created 950000 else Absent) = (False, PID_REUSE)"
proof -
  let ?env = "desk\<lparr>registry_session_pid := (\<lambda>_. Some 12), probe_pid := (\<lambda>p. if p = 12 then Created 950000 else Absent)\<rparr>"
  let ?rec = "lease\<lparr>session_id := Some ''s1''\<rparr>"
  have "\<not> is_live ?env ?rec" "\<not> pid_unavailable ?rec" "same_machine ?env ?rec" "session_anchor ?env ?rec = Some 12"
    "probe_pid ?env 12 = Created 950000" "acquired_at ?rec < 950000" "my_machine_id ?env \<noteq> []"
    by (simp_all add: is_live_def liveness_reading_def is_same_machine_def desk_def lease_def session_anchor_def)
  moreover have "pid_dies_with_session (harness ?rec)" unfolding lease_def by code_simp
  ultimately have "liveness_reading ?env (renewed_record ?env ?rec 60000) (probe_pid ?env) = (False, PID_REUSE)"
    using renewed_record_spec [of ?env ?rec 60000 12 950000] by blast
  then show ?thesis by simp
qed

end
