(* ===== verification/Claim_Store.thy ===== *)
theory Claim_Store
  imports Claim_Props
begin

text \<open>
  The claim table of \<open>crates/fno-agents/src/claim_store.rs\<close>. The store is a map from keys to rows
  (the table's primary key); each SQL statement is one atomic step on it, read at the store's own
  clock. An operation that reads, decides and then writes is split at its statements, because
  other processes may run between them: the decision takes the row as it was read, the write takes
  the store as it is then.
\<close>

section \<open>The statements\<close>

type_synonym Store = "string \<rightharpoonup> ClaimRecord"

datatype StoreError = Invalid ClaimError | ChangedAfterRefusal | RequiredMissing

datatype AcquireOutcome = Acquired ClaimRecord | HeldByOther string "int option" string

text \<open>\<open>IS\<close> compares null-safely; the parameters of the takeover clause are null without a dead row.\<close>

definition row_is :: "ClaimRecord \<Rightarrow> ClaimRecord option \<Rightarrow> bool" where
  "row_is row dead =
     (map_option holder dead = Some (holder row) \<and> map_option acquired_at dead = Some (acquired_at row) \<and>
      Option.bind dead expires_at = expires_at row)"

definition lease_over_at :: "ClaimRecord \<Rightarrow> int \<Rightarrow> bool" where
  "lease_over_at row clock = (case expires_at row of Some e \<Rightarrow> e \<le> clock | None \<Rightarrow> False)"

definition upsert_claim ::
  "Store \<Rightarrow> int \<Rightarrow> ClaimRecord \<Rightarrow> int option \<Rightarrow> ClaimRecord option \<Rightarrow> bool \<Rightarrow> ClaimRecord option \<times> Store" where
  "upsert_claim st clock rec ttl dead foreign =
     (let excluded = rec\<lparr>acquired_at := clock, expires_at := map_option (\<lambda>t. clock + t) ttl\<rparr> in
      case st (key rec) of
        None \<Rightarrow> (Some excluded, st(key rec \<mapsto> excluded))
      | Some row \<Rightarrow>
          if holder row = holder excluded \<or> row_is row dead \<and> (\<not> foreign \<or> lease_over_at row clock)
          then (let row' = excluded\<lparr>acquired_at := max clock (acquired_at row + 1)\<rparr>
                in (Some row', st(key rec \<mapsto> row')))
          else (None, st))"

section \<open>Acquire\<close>

text \<open>What is decided from the row as it was read.\<close>

definition local_dead :: "Env \<Rightarrow> SessionWitness option \<Rightarrow> ClaimRecord option \<Rightarrow> ClaimRecord option" where
  "local_dead env witness observed =
     (case observed of
        Some r \<Rightarrow> if classify_with_session_witness env r witness \<in> {Live, Suspect} then None else Some r
      | None \<Rightarrow> None)"

definition acquire_prepare ::
  "Env \<Rightarrow> string \<Rightarrow> string \<Rightarrow> AcquireOpts \<Rightarrow> SessionWitness option \<Rightarrow> ClaimRecord option \<Rightarrow>
     StoreError + (ClaimRecord \<times> ClaimRecord option \<times> bool)" where
  "acquire_prepare env k h opts witness observed =
     (case validate_inputs k h (opt_ttl_ms opts) (opt_pid opts) (opt_pid_unavailable opts) of
        Inl e \<Rightarrow> Inl (Invalid e)
      | Inr _ \<Rightarrow>
          (let dead = local_dead env witness observed;
               foreign = (case dead of Some r \<Rightarrow> \<not> is_same_machine env (host r) (machine_id r) | None \<Rightarrow> False);
               rec = make_claim env k h opts
           in case validate_record rec of Inl e \<Rightarrow> Inl (Invalid e) | Inr _ \<Rightarrow> Inr (rec, dead, foreign)))"

definition acquire_report :: "ClaimRecord option \<Rightarrow> ClaimRecord option \<Rightarrow> StoreError + AcquireOutcome" where
  "acquire_report result reread =
     (case result of
        Some r \<Rightarrow> Inr (Acquired r)
      | None \<Rightarrow>
          (case reread of
             Some existing \<Rightarrow> Inr (HeldByOther (holder existing) (pid existing) (host existing))
           | None \<Rightarrow> Inl ChangedAfterRefusal))"

text \<open>With no other process between the statements.\<close>

definition acquire ::
  "Env \<Rightarrow> int \<Rightarrow> SessionWitness option \<Rightarrow> string \<Rightarrow> string \<Rightarrow> AcquireOpts \<Rightarrow> Store \<Rightarrow>
     (StoreError + AcquireOutcome) \<times> Store" where
  "acquire env clock witness k h opts st =
     (case acquire_prepare env k h opts witness (st k) of
        Inl e \<Rightarrow> (Inl e, st)
      | Inr (rec, dead, foreign) \<Rightarrow>
          (case upsert_claim st clock rec (opt_ttl_ms opts) dead foreign of
             (result, st') \<Rightarrow> (acquire_report result (st' k), st')))"

section \<open>Release, renewal, notes\<close>

definition release_claim :: "string \<Rightarrow> string \<Rightarrow> Store \<Rightarrow> ClaimRecord option \<times> Store" where
  "release_claim k h st =
     (case st k of
        Some row \<Rightarrow> if holder row = h then (Some row, st(k := None)) else (None, st)
      | None \<Rightarrow> (None, st))"

definition delete_observed :: "ClaimRecord \<Rightarrow> Store \<Rightarrow> bool \<times> Store" where
  "delete_observed rec st = (if st (key rec) = Some rec then (True, st(key rec := None)) else (False, st))"

definition replace_observed_at :: "ClaimRecord \<Rightarrow> ClaimRecord \<Rightarrow> Store \<Rightarrow> (StoreError + ClaimRecord option) \<times> Store" where
  "replace_observed_at observed next_rec st =
     (case validate_record next_rec of
        Inl e \<Rightarrow> (Inl (Invalid e), st)
      | Inr _ \<Rightarrow>
          if key next_rec = key observed \<and> st (key observed) = Some observed
          then (Inr (Some next_rec), st(key observed \<mapsto> next_rec)) else (Inr None, st))"

text \<open>
  \<open>verdict\<close> is the classification that \<open>claim status\<close> reports; the renewal asks it only for an
  expired lease. \<open>None\<close>: refused before any write.
\<close>

definition renew_prepare ::
  "Env \<Rightarrow> (ClaimRecord \<Rightarrow> ClaimState) \<Rightarrow> string \<Rightarrow> string \<Rightarrow> int \<Rightarrow> ClaimRecord option \<Rightarrow>
     StoreError + ClaimRecord option" where
  "renew_prepare env verdict k h ttl observed =
     (if k = [] \<or> h = [] \<or> ttl \<le> 0 then Inl RequiredMissing
      else case observed of
             None \<Rightarrow> Inr None
           | Some r \<Rightarrow>
               if holder r \<noteq> h \<or> expires_at r = None then Inr None
               else if (case expires_at r of Some e \<Rightarrow> e \<le> now_ms env | None \<Rightarrow> False) \<and> verdict r = Stale
               then Inr None
               else Inr (Some (renewed_record env r ttl)))"

definition renew_commit ::
  "Store \<Rightarrow> int \<Rightarrow> ClaimRecord \<Rightarrow> ClaimRecord \<Rightarrow> int \<Rightarrow> bool \<times> Store" where
  "renew_commit st clock observed next_rec ttl =
     (case st (key observed) of
        Some row \<Rightarrow>
          if holder row = holder observed \<and> acquired_at row = acquired_at observed \<and>
             expires_at row = expires_at observed \<and> pid row = pid observed
          then (True, st(key observed \<mapsto> row\<lparr>expires_at := Some (clock + ttl), pid := pid next_rec,
                  host := host next_rec, machine_id := machine_id next_rec, session_id := session_id next_rec\<rparr>))
          else (False, st)
      | None \<Rightarrow> (False, st))"

definition renew ::
  "Env \<Rightarrow> int \<Rightarrow> (ClaimRecord \<Rightarrow> ClaimState) \<Rightarrow> string \<Rightarrow> string \<Rightarrow> int \<Rightarrow> Store \<Rightarrow> (StoreError + bool) \<times> Store" where
  "renew env clock verdict k h ttl st =
     (case renew_prepare env verdict k h ttl (st k) of
        Inl e \<Rightarrow> (Inl e, st)
      | Inr None \<Rightarrow> (Inr False, st)
      | Inr (Some next_rec) \<Rightarrow>
          (case st k of
             Some observed \<Rightarrow> (case renew_commit st clock observed next_rec ttl of (b, st') \<Rightarrow> (Inr b, st'))
           | None \<Rightarrow> (Inr False, st)))"

definition mark_metadata :: "string \<Rightarrow> string \<Rightarrow> string \<Rightarrow> ClaimRecord option \<Rightarrow> Store \<Rightarrow> (StoreError + bool) \<times> Store" where
  "mark_metadata k h encoded observed st =
     (if k = [] \<or> h = [] then (Inl RequiredMissing, st)
      else case observed of
             None \<Rightarrow> (Inr False, st)
           | Some r \<Rightarrow>
               if holder r \<noteq> h then (Inr False, st)
               else case st k of
                      Some row \<Rightarrow>
                        if holder row = h \<and> acquired_at row = acquired_at r \<and> expires_at row = expires_at r
                        then (Inr True, st(k \<mapsto> row\<lparr>metadata := encoded\<rparr>)) else (Inr False, st)
                    | None \<Rightarrow> (Inr False, st))"

section \<open>Runs of the store\<close>

text \<open>
  The steps of any number of processes, in any order: each write with what its process had read
  and decided, however long ago (\<open>observed\<close> is arbitrary).
\<close>

inductive store_step :: "Store \<Rightarrow> Store \<Rightarrow> bool" where
  take: "acquire_prepare env k h opts witness observed = Inr (rec, dead, foreign) \<Longrightarrow>
    upsert_claim st clock rec (opt_ttl_ms opts) dead foreign = (result, st') \<Longrightarrow> store_step st st'"
| drop: "release_claim k h st = (removed, st') \<Longrightarrow> store_step st st'"
| reap: "delete_observed rec st = (b, st') \<Longrightarrow> store_step st st'"
| replace: "replace_observed_at observed next_rec st = (res, st') \<Longrightarrow> store_step st st'"
| extend: "renew_prepare env verdict (key observed) h ttl (Some observed) = Inr (Some next_rec) \<Longrightarrow>
    validate_record observed = Inr () \<Longrightarrow>
    (\<And>p. renewal_anchor env observed = Some p \<Longrightarrow> 0 < p) \<Longrightarrow>
    renew_commit st clock observed next_rec ttl = (b, st') \<Longrightarrow> store_step st st'"
| note_fact: "mark_metadata k h encoded observed st = (res, st') \<Longrightarrow> store_step st st'"

definition store_ok :: "Store \<Rightarrow> bool" where
  "store_ok st \<longleftrightarrow> (\<forall>k row. st k = Some row \<longrightarrow> key row = k \<and> validate_record row = Inr ())"

lemma acquire_prepare_rec:
  "acquire_prepare env k h opts witness observed = Inr (rec, dead, foreign) \<Longrightarrow>
     rec = make_claim env k h opts \<and> validate_record rec = Inr () \<and> dead = local_dead env witness observed \<and>
     foreign = (case dead of Some r \<Rightarrow> \<not> same_machine env r | None \<Rightarrow> False)"
  by (auto simp: acquire_prepare_def Let_def split: sum.splits)

lemma validate_iff:
  "validate_record r = Inr () \<longleftrightarrow>
     schema_version r \<noteq> 0 \<and> schema_version r \<le> MAX_SUPPORTED_SCHEMA_VERSION \<and> key r \<noteq> [] \<and> holder r \<noteq> [] \<and>
     (pid_unavailable r \<longleftrightarrow> schema_version r = PID_UNAVAILABLE_SCHEMA_VERSION) \<and>
     (if pid_unavailable r then pid r = None \<and> expires_at r \<noteq> None else \<exists>p. pid r = Some p \<and> 0 < p)"
  by (cases "pid_unavailable r"; cases "pid r"; cases "expires_at r") (auto simp: validate_record_def)

lemma upsert_cases:
  assumes "upsert_claim st clock rec ttl dead foreign = (result, st')"
  obtains (fresh) "st (key rec) = None"
      "result = Some (rec\<lparr>acquired_at := clock, expires_at := map_option (\<lambda>t. clock + t) ttl\<rparr>)"
      "st' = st(key rec := result)"
  | (taken) row where "st (key rec) = Some row"
      "holder row = holder rec \<or> row_is row dead \<and> (\<not> foreign \<or> lease_over_at row clock)"
      "result = Some (rec\<lparr>expires_at := map_option (\<lambda>t. clock + t) ttl,
         acquired_at := max clock (acquired_at row + 1)\<rparr>)" "st' = st(key rec := result)"
  | (refused) row where "st (key rec) = Some row" "holder row \<noteq> holder rec"
      "\<not> (row_is row dead \<and> (\<not> foreign \<or> lease_over_at row clock))" "result = None" "st' = st"
  using assms by (auto simp: upsert_claim_def Let_def split: option.splits if_splits)

lemma upsert_ok:
  assumes "store_ok st" "validate_record rec = Inr ()" "expires_at rec = None \<longleftrightarrow> ttl = None"
    and "upsert_claim st clock rec ttl dead foreign = (result, st')"
  shows "store_ok st'"
  using assms(4)
  by (cases rule: upsert_cases) (use assms(1-3) in \<open>auto simp: store_ok_def validate_iff\<close>)

lemma renew_prepare_next:
  "renew_prepare env verdict k h ttl (Some r) = Inr (Some next_rec) \<Longrightarrow>
     next_rec = renewed_record env r ttl \<and> holder r = h \<and> expires_at r \<noteq> None"
  by (auto simp: renew_prepare_def split: if_splits)

lemma renewed_pid:
  "pid (renewed_record env r ttl) = pid r \<or> (\<exists>p. renewal_anchor env r = Some p \<and> \<not> pid_unavailable r \<and>
     pid (renewed_record env r ttl) = Some p)"
  by (auto simp: renewed_record_def reanchored_def Let_def split: option.splits)

lemma renew_commit_cases:
  assumes "renew_commit st clock r next_rec ttl = (b, st')"
  obtains (refused) "\<not> b" "st' = st"
  | (moved) row where "b" "st (key r) = Some row" "holder row = holder r" "acquired_at row = acquired_at r"
      "expires_at row = expires_at r" "pid row = pid r"
      "st' = st(key r \<mapsto> row\<lparr>expires_at := Some (clock + ttl), pid := pid next_rec,
         host := host next_rec, machine_id := machine_id next_rec, session_id := session_id next_rec\<rparr>)"
  using assms by (auto simp: renew_commit_def split: option.splits if_splits)

text \<open>
  The stored row may differ from the observed one in the flag \<open>pid_unavailable\<close> only if their pids
  differ, which the statement excludes.
\<close>

lemma renew_commit_ok:
  assumes "store_ok st" "renew_commit st clock r (renewed_record env r ttl) ttl = (b, st')"
    and "\<And>p. renewal_anchor env r = Some p \<Longrightarrow> 0 < p" "validate_record r = Inr ()"
  shows "store_ok st'"
  using assms(2)
proof (cases rule: renew_commit_cases)
  case refused
  with assms(1) show ?thesis by simp
next
  case (moved row)
  have row: "validate_record row = Inr ()" "key row = key r" using assms(1) moved(2) by (auto simp: store_ok_def)
  then have u: "pid_unavailable row = pid_unavailable r"
    using moved(6) assms(4) by (auto simp: validate_iff split: if_splits)
  have "if pid_unavailable row then pid (renewed_record env r ttl) = None
      else \<exists>p. pid (renewed_record env r ttl) = Some p \<and> 0 < p"
    using renewed_pid [of env r ttl] assms(3,4) u by (auto simp: validate_iff split: if_splits)
  with row moved(7) assms(1) show ?thesis by (auto simp: store_ok_def validate_iff split: if_splits)
qed

lemma store_ok_remove: "store_ok st \<Longrightarrow> store_ok (st(k := None))"
  by (simp add: store_ok_def)

lemma store_ok_put: "store_ok st \<Longrightarrow> validate_record r = Inr () \<Longrightarrow> key r = k \<Longrightarrow> store_ok (st(k \<mapsto> r))"
  by (simp add: store_ok_def)

lemma store_step_ok: "store_step st st' \<Longrightarrow> store_ok st \<Longrightarrow> store_ok st'"
proof (induction rule: store_step.induct)
  case (take env k h opts witness observed rec dead foreign st clock result st')
  note r = acquire_prepare_rec [OF take(1)]
  then have "expires_at rec = None \<longleftrightarrow> opt_ttl_ms opts = None" by (simp add: make_claim_fields(7))
  from upsert_ok [OF take(3) _ this take(2)] r show ?case by blast
next
  case (drop k h st removed st')
  then show ?case by (auto simp: release_claim_def intro: store_ok_remove split: option.splits if_splits)
next
  case (reap rec st b st')
  then show ?case by (auto simp: delete_observed_def intro: store_ok_remove split: if_splits)
next
  case (replace observed next_rec st res st')
  then show ?case by (auto simp: replace_observed_at_def intro: store_ok_put split: sum.splits if_splits)
next
  case (extend env verdict observed h ttl next_rec st clock b st')
  from renew_prepare_next [OF extend(1)] have "next_rec = renewed_record env observed ttl" by simp
  with renew_commit_ok [OF extend(5) _ extend(3,2)] extend(4) show ?case by simp
next
  case (note_fact k h encoded observed st res st')
  have put: "validate_record (row\<lparr>metadata := encoded\<rparr>) = Inr () \<and> key (row\<lparr>metadata := encoded\<rparr>) = k"
    if "st k = Some row" for row
    using that note_fact.prems by (auto simp: store_ok_def validate_iff)
  from note_fact show ?case
    by (auto simp: mark_metadata_def intro!: store_ok_put dest: put split: option.splits if_splits)
qed

interpretation claims: transition_system store_step store_ok
  by unfold_locales (rule store_step_ok)

section \<open>Concrete stores\<close>

definition one_claim :: Store where
  "one_claim = [''node:a'' \<mapsto> lease]"

lemma one_claim_ok: "store_ok one_claim"
  by (simp add: store_ok_def one_claim_def validate_iff lease_def MAX_SUPPORTED_SCHEMA_VERSION_def
      PID_UNAVAILABLE_SCHEMA_VERSION_def)

section \<open>Properties\<close>




definition expired_lease :: ClaimRecord where
  "expired_lease = lease\<lparr>expires_at := Some 950000\<rparr>"

lemma expired_lease_taken:
  "acquire_prepare desk ''node:a'' ''w2'' plain_opts None (Some expired_lease) =
     Inr (make_claim desk ''node:a'' ''w2'' plain_opts, Some expired_lease, False)"
  "upsert_claim [''node:a'' \<mapsto> expired_lease] 1000000 (make_claim desk ''node:a'' ''w2'' plain_opts)
     (opt_ttl_ms plain_opts) (Some expired_lease) False =
     (let row = (make_claim desk ''node:a'' ''w2'' plain_opts)\<lparr>expires_at := Some 1060000, acquired_at := 1000000\<rparr>
      in (Some row, [''node:a'' \<mapsto> row]))"
  by code_simp
     (simp add: upsert_claim_def make_claim_fields row_is_def expired_lease_def lease_def plain_opts_def Let_def)


text \<open>
  C9. Mutual exclusion of a single acquire: while another holder's row reads live or suspect, an
  acquire leaves the table as it is and names that holder (or rejects its own invalid input).
\<close>

theorem acquire_exclusive:
  assumes "st k = Some r" "holder r \<noteq> h" "classify_with_session_witness env r wit \<in> {Live, Suspect}"
  shows "snd (acquire env clock wit k h opts st) = st \<and>
    (case fst (acquire env clock wit k h opts st) of
       Inr out \<Rightarrow> out = HeldByOther (holder r) (pid r) (host r)
     | Inl e \<Rightarrow> \<exists>x. e = Invalid x)"
proof (cases "acquire_prepare env k h opts wit (st k)")
  case (Inl e)
  then have "\<exists>x. e = Invalid x" by (auto simp: acquire_prepare_def Let_def split: sum.splits)
  with Inl show ?thesis by (simp add: acquire_def)
next
  case (Inr p)
  obtain rec dead foreign where q: "p = (rec, dead, foreign)" by (cases p)
  note c = acquire_prepare_rec [OF Inr [unfolded q]]
  have "dead = None" using c assms by (simp add: local_dead_def)
  moreover have "key rec = k" "holder rec = h" using c by (simp_all add: make_claim_fields)
  ultimately have "upsert_claim st clock rec (opt_ttl_ms opts) dead foreign = (None, st)"
    using assms by (simp add: upsert_claim_def Let_def row_is_def)
  with Inr q assms(1) show ?thesis by (simp add: acquire_def acquire_report_def)
qed

theorem acquire_exclusive_witness:
  "snd (acquire desk 1000000 None ''node:a'' ''w2'' plain_opts one_claim) = one_claim"
proof -
  have "classify_with_session_witness desk lease None \<in> {Live, Suspect}" by code_simp
  moreover have "one_claim ''node:a'' = Some lease" "holder lease \<noteq> ''w2''" by (simp_all add: one_claim_def lease_def)
  ultimately show ?thesis
    using acquire_exclusive [of one_claim "''node:a''" lease "''w2''" desk None 1000000 plain_opts] by blast
qed

text \<open>
  A renewal defeats a stale takeover: once the holder has moved its deadline, a rival that had
  read the old row and proved it dead writes nothing.
\<close>

theorem renewal_defeats_takeover:
  assumes "renew_commit st clock r next_rec ttl = (True, st1)" "expires_at r \<noteq> Some (clock + ttl)"
    and "key rec = key r" "holder rec \<noteq> holder r"
  shows "upsert_claim st1 clock' rec ttl' (Some r) foreign = (None, st1)"
  using assms(1)
proof (cases rule: renew_commit_cases)
  case (moved row)
  then have "st1 (key rec) = Some (row\<lparr>expires_at := Some (clock + ttl), pid := pid next_rec,
      host := host next_rec, machine_id := machine_id next_rec, session_id := session_id next_rec\<rparr>)"
    using assms(3) by simp
  with moved(3) assms(2,4) show ?thesis by (simp add: upsert_claim_def Let_def row_is_def)
qed simp

theorem renewal_defeats_takeover_witness:
  "upsert_claim (snd (renew_commit one_claim 1000000 lease lease 500000)) 1300000
     (make_claim desk ''node:a'' ''w2'' plain_opts) (Some 60000) (Some lease) False =
   (None, snd (renew_commit one_claim 1000000 lease lease 500000))"
proof -
  have "renew_commit one_claim 1000000 lease lease 500000 = (True, snd (renew_commit one_claim 1000000 lease lease 500000))"
    by (simp add: renew_commit_def one_claim_def lease_def)
  from renewal_defeats_takeover [OF this] show ?thesis by (simp add: make_claim_fields lease_def)
qed

text \<open>
  Releasing removes the holder's own row and nothing else: another holder's row and every other
  key stay, and releasing again changes nothing.
\<close>

theorem release_only_own:
  "case release_claim k h st of (removed, st') \<Rightarrow>
     removed = (case st k of Some r \<Rightarrow> if holder r = h then Some r else None | None \<Rightarrow> None) \<and>
     st' k = (case st k of Some r \<Rightarrow> if holder r = h then None else Some r | None \<Rightarrow> None) \<and>
     (\<forall>k'. k' = k \<or> st' k' = st k') \<and> release_claim k h st' = (None, st')"
  by (auto simp: release_claim_def split: option.splits)

text \<open>
  The guard against a stepped clock is lost on the way to the store. A process created after
  the store's clock builds a record that reads live, but the insert writes the store's clock
  instead of the record's own time, and the row it gets back reads as a reused pid.
\<close>

theorem clamp_lost_in_store:
  "let env = desk\<lparr>probe_pid := (\<lambda>p. if p = 7 then Created 2000000 else Absent)\<rparr>
   in is_live env (make_claim env ''node:a'' ''w1'' plain_opts) \<and>
      (case fst (acquire env 1000000 None ''node:a'' ''w1'' plain_opts Map.empty) of
         Inr (Acquired row) \<Rightarrow> liveness_reading env row (probe_pid env) = (False, PID_REUSE)
       | _ \<Rightarrow> False)"
  by code_simp

end
