(* ===== verification/Claim_Queue.thy ===== *)
theory Claim_Queue
  imports Claim_Types "HOL-Library.Signed_Division"
begin

text \<open>
  Arrival order for a contended claim, \<open>crates/fno-agents/src/claim_queue.rs\<close>. The queue directory
  is a map from ticket numbers to the text of the ticket's \<open>holder\<close> file, itself optional: a ticket
  whose stamp cannot be read has none. Names in the directory that are not numbers are ignored by
  the source and have no place in the map, and the numbers stand for the padded names the source
  gives its tickets. What the file system may refuse is given by the record \<open>Fs\<close>: creating or
  reading the queue directory, creating a ticket, stamping it, removing it. Ticket numbers are
  unbounded; the source's are 64 bits wide. The process table, clock, host and machine are those of the claims (\<open>Env\<close>).
\<close>

section \<open>Data\<close>

type_synonym QueueDir = "nat \<rightharpoonup> string option"

record Fs =
  fs_create_root :: bool
  fs_read :: bool
  fs_mkdir :: "nat \<Rightarrow> bool"
  fs_write :: bool
  fs_remove :: "nat \<Rightarrow> bool"

datatype QueueError = CannotCreateDir | CannotReadDir | CannotEnqueue nat | CannotStamp nat | TicketGone nat

record Position =
  pos_index :: nat
  pos_total :: nat

record Stamp =
  st_pid :: "int option"
  st_create_time :: "int option"
  st_started_s :: "int option"
  st_machine :: string

definition zero_padded :: "nat \<Rightarrow> nat \<Rightarrow> string" where
  "zero_padded w n = replicate (w - length (decimal n)) (CHR ''0'') @ decimal n"

definition ticket_id :: "nat \<Rightarrow> string" where
  "ticket_id seq = zero_padded 6 seq"

section \<open>Stamps\<close>

definition decimal_int :: "int \<Rightarrow> string" where
  "decimal_int i = (if i < 0 then CHR ''-'' # decimal (nat (- i)) else decimal (nat i))"

definition newline :: char where "newline = char_of (10 :: nat)"

definition write_stamp :: "Env \<Rightarrow> u32 \<Rightarrow> string" where
  "write_stamp env p =
     (let create_line = (case probe_pid env (sint p) of
            Created ct \<Rightarrow> ''create_time='' @ decimal_int ct @ [newline]
          | _ \<Rightarrow> [])
      in ''pid='' @ decimal (unat p) @ [newline] @ create_line @ ''host='' @ hostname env @ [newline] @
         ''machine='' @ my_machine_id env @ [newline] @ ''started='' @ decimal_int (now_ms env) @ [newline])"

text \<open>Splitting into lines and each line at white space is splitting at white space.\<close>

function split_whitespace :: "string \<Rightarrow> string list" where
  "split_whitespace [] = []"
| "split_whitespace (c # s) =
     (if is_space c then split_whitespace s
      else (c # takeWhile (\<lambda>x. \<not> is_space x) s) # split_whitespace (dropWhile (\<lambda>x. \<not> is_space x) s))"
  by pat_completeness auto
termination by (relation "measure length") (auto simp: le_imp_less_Suc length_dropWhile_le)

definition parse_i32 :: "string \<Rightarrow> int option" where
  "parse_i32 s = (case parse_i64 s of
     Some v \<Rightarrow> if - (2 ^ 31) \<le> v \<and> v < 2 ^ 31 then Some v else None | None \<Rightarrow> None)"

definition days_from_civil :: "int \<Rightarrow> int \<Rightarrow> int \<Rightarrow> int" where
  "days_from_civil y0 mo d =
     (let y = (if mo \<le> 2 then y0 - 1 else y0);
          era = (if y \<ge> 0 then y else y - 399) sdiv 400;
          yoe = y - era * 400;
          mp = (mo + 9) smod 12;
          doy = (153 * mp + 2) sdiv 5 + d - 1;
          doe = yoe * 365 + yoe sdiv 4 - yoe sdiv 100 + doy
      in era * 146097 + doe - 719468)"

definition slice :: "string \<Rightarrow> nat \<Rightarrow> nat \<Rightarrow> string" where
  "slice s a b = take (b - a) (drop a s)"

definition iso8601_utc_to_epoch_s :: "string \<Rightarrow> int option" where
  "iso8601_utc_to_epoch_s s =
     (if length s \<noteq> 20 \<or> s ! 4 \<noteq> CHR ''-'' \<or> s ! 7 \<noteq> CHR ''-'' \<or> (s ! 10 \<noteq> CHR ''T'' \<and> s ! 10 \<noteq> CHR '' '') \<or>
         s ! 13 \<noteq> CHR '':'' \<or> s ! 16 \<noteq> CHR '':'' \<or> s ! 19 \<noteq> CHR ''Z''
      then None
      else case (parse_i64 (slice s 0 4), parse_i64 (slice s 5 7), parse_i64 (slice s 8 10),
                 parse_i64 (slice s 11 13), parse_i64 (slice s 14 16), parse_i64 (slice s 17 19)) of
             (Some y, Some mo, Some d, Some h, Some mi, Some sec) \<Rightarrow>
               Some (days_from_civil y mo d * 86400 + h * 3600 + mi * 60 + sec)
           | _ \<Rightarrow> None)"

definition strip_key :: "string \<Rightarrow> string \<Rightarrow> string option" where
  "strip_key k tok = (if starts_with tok k then Some (drop (length k) tok) else None)"

definition read_token :: "Stamp \<Rightarrow> string \<Rightarrow> Stamp" where
  "read_token st tok =
     (case strip_key ''pid='' tok of
        Some v \<Rightarrow> st\<lparr>st_pid := parse_i32 v\<rparr>
      | None \<Rightarrow>
     (case strip_key ''create_time='' tok of
        Some v \<Rightarrow> st\<lparr>st_create_time := parse_i64 v\<rparr>
      | None \<Rightarrow>
     (case strip_key ''started='' tok of
        Some v \<Rightarrow> st\<lparr>st_started_s := iso8601_utc_to_epoch_s v\<rparr>
      | None \<Rightarrow>
     (case strip_key ''machine='' tok of
        Some v \<Rightarrow> st\<lparr>st_machine := v\<rparr>
      | None \<Rightarrow> st))))"

definition read_stamp :: "string option \<Rightarrow> Stamp option" where
  "read_stamp text = map_option (\<lambda>t. foldl read_token
      \<lparr>st_pid = None, st_create_time = None, st_started_s = None, st_machine = []\<rparr> (split_whitespace t)) text"

definition stamp_is_foreign :: "Env \<Rightarrow> Stamp \<Rightarrow> bool" where
  "stamp_is_foreign env stamp =
     (st_machine stamp \<noteq> [] \<and> my_machine_id env \<noteq> [] \<and> st_machine stamp \<noteq> my_machine_id env)"

definition ticket_is_dead :: "Env \<Rightarrow> Stamp \<Rightarrow> bool" where
  "ticket_is_dead env stamp =
     (case st_pid stamp of
        None \<Rightarrow> False
      | Some p \<Rightarrow>
          (case probe_pid env p of
             Absent \<Rightarrow> True
           | Refused \<Rightarrow> False
           | Created actual \<Rightarrow>
               (case st_create_time stamp of
                  Some recorded \<Rightarrow> actual \<noteq> recorded
                | None \<Rightarrow>
                    (case st_started_s stamp of
                       Some started \<Rightarrow> started < actual sdiv 1000 - 60
                     | None \<Rightarrow> False))))"

section \<open>The queue\<close>

text \<open>\<open>remove_dir_all\<close> on a ticket, its outcome ignored.\<close>

definition remove_ticket :: "Fs \<Rightarrow> QueueDir \<Rightarrow> nat \<Rightarrow> QueueDir" where
  "remove_ticket fs q seq = (if fs_remove fs seq then q(seq := None) else q)"

definition scan_names :: "Fs \<Rightarrow> QueueDir \<Rightarrow> QueueError + nat list" where
  "scan_names fs q = (if fs_read fs then Inr (sorted_list_of_set (dom q)) else Inl CannotReadDir)"

definition highest_ticket :: "Fs \<Rightarrow> QueueDir \<Rightarrow> QueueError + nat option" where
  "highest_ticket fs q =
     (case scan_names fs q of
        Inl e \<Rightarrow> Inl e
      | Inr ns \<Rightarrow> Inr (case ns of [] \<Rightarrow> None | m # ms \<Rightarrow> Some (foldl max m ms)))"

text \<open>
  The allocation loop: \<open>create_dir\<close> fails on a number that exists, and the next one is tried. It
  returns when some number is free.
\<close>

partial_function (option) allocate :: "Fs \<Rightarrow> QueueDir \<Rightarrow> nat \<Rightarrow> (QueueError + nat) option" where
  "allocate fs q n =
     (if q n \<noteq> None then allocate fs q (n + 1)
      else if fs_mkdir fs n then Some (Inr n) else Some (Inl (CannotEnqueue n)))"

declare allocate.simps [code]

definition enter_as :: "Env \<Rightarrow> Fs \<Rightarrow> QueueDir \<Rightarrow> u32 \<Rightarrow> ((QueueError + nat) \<times> QueueDir) option" where
  "enter_as env fs q p =
     (if \<not> fs_create_root fs then Some (Inl CannotCreateDir, q)
      else case highest_ticket fs q of
             Inl e \<Rightarrow> Some (Inl e, q)
           | Inr highest \<Rightarrow>
               (case allocate fs q (case highest of None \<Rightarrow> 1 | Some h \<Rightarrow> h + 1) of
                  None \<Rightarrow> None
                | Some (Inl e) \<Rightarrow> Some (Inl e, q)
                | Some (Inr n) \<Rightarrow>
                    if fs_write fs then Some (Inr n, q(n \<mapsto> Some (write_stamp env p)))
                    else Some (Inl (CannotStamp n), remove_ticket fs (q(n \<mapsto> None)) n)))"

definition enter :: "Env \<Rightarrow> Fs \<Rightarrow> QueueDir \<Rightarrow> ((QueueError + nat) \<times> QueueDir) option" where
  "enter env fs q = enter_as env fs q (process_id env)"

definition foreign_ticket :: "Env \<Rightarrow> string option \<Rightarrow> bool" where
  "foreign_ticket env text = (case read_stamp text of Some st \<Rightarrow> stamp_is_foreign env st | None \<Rightarrow> False)"

definition dead_ticket :: "Env \<Rightarrow> string option \<Rightarrow> bool" where
  "dead_ticket env text = (case read_stamp text of Some st \<Rightarrow> ticket_is_dead env st | None \<Rightarrow> False)"

text \<open>The loop of the scan: the survivors so far, whether the own ticket was met, the directory.\<close>

definition scan_one ::
  "Env \<Rightarrow> Fs \<Rightarrow> nat option \<Rightarrow> nat list \<times> bool \<times> QueueDir \<Rightarrow> nat \<Rightarrow> nat list \<times> bool \<times> QueueDir" where
  "scan_one env fs self_seq acc seq =
     (case acc of (survivors, found_self, q) \<Rightarrow>
       (let text = (case q seq of Some t \<Rightarrow> t | None \<Rightarrow> None) in
        if foreign_ticket env text then (survivors, found_self, q)
        else if dead_ticket env text then (survivors, found_self, remove_ticket fs q seq)
        else (survivors @ [seq], found_self \<or> self_seq = Some seq, q)))"

definition scan :: "Env \<Rightarrow> Fs \<Rightarrow> QueueDir \<Rightarrow> nat option \<Rightarrow> (QueueError + nat list \<times> bool) \<times> QueueDir" where
  "scan env fs q self_seq =
     (case scan_names fs q of
        Inl e \<Rightarrow> (Inl e, q)
      | Inr names \<Rightarrow>
          (case foldl (scan_one env fs self_seq) ([], False, q) names of
             (survivors, found_self, q') \<Rightarrow> (Inr (survivors, found_self), q')))"

definition queue_position :: "Env \<Rightarrow> Fs \<Rightarrow> QueueDir \<Rightarrow> nat \<Rightarrow> (QueueError + Position) \<times> QueueDir" where
  "queue_position env fs q seq =
     (case scan env fs q (Some seq) of
        (Inl e, q') \<Rightarrow> (Inl e, q')
      | (Inr (survivors, found_self), q') \<Rightarrow>
          if \<not> found_self then (Inl (TicketGone seq), q')
          else (Inr \<lparr>pos_index = (case position (\<lambda>s. s = seq) survivors of Some i \<Rightarrow> i | None \<Rightarrow> 0),
                     pos_total = length survivors\<rparr>, q'))"

definition leave :: "Fs \<Rightarrow> QueueDir \<Rightarrow> nat \<Rightarrow> QueueDir" where
  "leave fs q seq = remove_ticket fs q seq"

definition queue_depth :: "Env \<Rightarrow> Fs \<Rightarrow> QueueDir \<Rightarrow> nat \<times> QueueDir" where
  "queue_depth env fs q =
     (case scan env fs q None of (Inl _, q') \<Rightarrow> (0, q') | (Inr (survivors, _), q') \<Rightarrow> (length survivors, q'))"

definition waiter_pids :: "Env \<Rightarrow> Fs \<Rightarrow> QueueDir \<Rightarrow> nat list" where
  "waiter_pids env fs q =
     (case scan env fs q None of
        (Inl _, q') \<Rightarrow> []
      | (Inr (survivors, _), q') \<Rightarrow>
          filter_map (\<lambda>seq. case Option.bind (read_stamp (Option.bind (q' seq) id)) st_pid of
              Some p \<Rightarrow> if 0 \<le> p then Some (nat p) else None | None \<Rightarrow> None) survivors)"

section \<open>The command\<close>

text \<open>
  \<open>claim queue enter|front|leave\<close>: the exit code, the line on standard output if there is one, and
  the queue directories by name. Messages on standard error are not modelled.
\<close>

record QueueArgs =
  qa_dir :: "string option"
  qa_ticket :: "nat option"
  qa_pid :: "u32 option"

fun parse_queue_args :: "string list \<Rightarrow> QueueArgs \<Rightarrow> QueueArgs option" where
  "parse_queue_args [] qa = Some qa"
| "parse_queue_args (a # it) qa =
     (if a = ''--dir'' then
        (case it of v # it' \<Rightarrow> parse_queue_args it' (qa\<lparr>qa_dir := Some v\<rparr>) | [] \<Rightarrow> None)
      else if a = ''--pid'' then
        (case it of
           v # it' \<Rightarrow>
             (case parse_unsigned 32 v of
                Some n \<Rightarrow> parse_queue_args it' (qa\<lparr>qa_pid := Some (word_of_nat n)\<rparr>)
              | None \<Rightarrow> None)
         | [] \<Rightarrow> None)
      else if a = ''--ticket'' then
        (case it of
           v # it' \<Rightarrow>
             (case parse_unsigned 64 v of
                Some n \<Rightarrow> parse_queue_args it' (qa\<lparr>qa_ticket := Some n\<rparr>)
              | None \<Rightarrow> None)
         | [] \<Rightarrow> None)
      else None)"

definition queue_enter_cmd :: "Env \<Rightarrow> Fs \<Rightarrow> QueueDir \<Rightarrow> u32 option \<Rightarrow> (nat \<times> string option \<times> QueueDir) option" where
  "queue_enter_cmd env fs q p =
     (case (case p of Some p' \<Rightarrow> enter_as env fs q p' | None \<Rightarrow> enter env fs q) of
        None \<Rightarrow> None
      | Some (Inr t, q') \<Rightarrow> Some (0, Some (ticket_id t), q')
      | Some (Inl e, q') \<Rightarrow> Some (2, None, q'))"

definition queue_front_cmd :: "Env \<Rightarrow> Fs \<Rightarrow> QueueDir \<Rightarrow> nat option \<Rightarrow> nat \<times> string option \<times> QueueDir" where
  "queue_front_cmd env fs q ticket =
     (case ticket of
        None \<Rightarrow>
          (case scan env fs q None of
             (Inr (survivors, _), q') \<Rightarrow> (1, Some (''position=none queued='' @ decimal (length survivors)), q')
           | (Inl e, q') \<Rightarrow> (2, None, q'))
      | Some seq \<Rightarrow>
          (case queue_position env fs q seq of
             (Inr ps, q') \<Rightarrow>
               (if pos_index ps = 0 then 0 else 1,
                Some (''position='' @ decimal (pos_index ps) @ '' queued='' @ decimal (pos_total ps)), q')
           | (Inl e, q') \<Rightarrow> (2, None, q')))"

definition run_queue ::
  "Env \<Rightarrow> Fs \<Rightarrow> (string \<Rightarrow> QueueDir) \<Rightarrow> string list \<Rightarrow> (nat \<times> string option \<times> (string \<Rightarrow> QueueDir)) option" where
  "run_queue env fs dirs args =
     (case args of
        [] \<Rightarrow> Some (2, None, dirs)
      | op # rest \<Rightarrow>
          (case parse_queue_args rest \<lparr>qa_dir = None, qa_ticket = None, qa_pid = None\<rparr> of
             None \<Rightarrow> Some (2, None, dirs)
           | Some qa \<Rightarrow>
               (case qa_dir qa of
                  None \<Rightarrow> Some (2, None, dirs)
                | Some d \<Rightarrow>
                    if op = ''enter'' then
                      map_option (\<lambda>(code, out, q'). (code, out, dirs(d := q'))) (queue_enter_cmd env fs (dirs d) (qa_pid qa))
                    else if op = ''front'' then
                      (case queue_front_cmd env fs (dirs d) (qa_ticket qa) of (code, out, q') \<Rightarrow> Some (code, out, dirs(d := q')))
                    else if op = ''leave'' then
                      (case qa_ticket qa of
                         None \<Rightarrow> Some (2, None, dirs)
                       | Some seq \<Rightarrow> Some (0, None, dirs(d := leave fs (dirs d) seq)))
                    else Some (2, None, dirs))))"

end
