(* ===== verification/Claim_Queue_Props.thy ===== *)
theory Claim_Queue_Props
  imports Claim_Queue Claim_Props
begin

text \<open>
  The ticket queue is first come, first served: a newcomer goes behind every ticket there is, no
  ticket is ever overtaken, a scan reaps exactly the provably dead tickets of this machine, and the
  stamp a ticket carries is read back as it was written. The calendar arithmetic of old stamps is
  compared with the calendar itself.
\<close>

section \<open>The calendar\<close>

definition leap :: "int \<Rightarrow> bool" where
  "leap y \<longleftrightarrow> 4 dvd y \<and> \<not> 100 dvd y \<or> 400 dvd y"

definition month_length :: "int \<Rightarrow> int \<Rightarrow> int" where
  "month_length y m =
     (if m = 2 then (if leap y then 29 else 28) else if m \<in> {4, 6, 9, 11} then 30 else 31)"

definition next_day :: "int \<times> int \<times> int \<Rightarrow> int \<times> int \<times> int" where
  "next_day t = (case t of (y, m, d) \<Rightarrow>
     if d < month_length y m then (y, m, d + 1) else if m < 12 then (y, m + 1, 1) else (y + 1, 1, 1))"

definition valid_day :: "int \<times> int \<times> int \<Rightarrow> bool" where
  "valid_day t \<longleftrightarrow> (case t of (y, m, d) \<Rightarrow> 1 \<le> m \<and> m \<le> 12 \<and> 1 \<le> d \<and> d \<le> month_length y m)"

lemma sdiv_nonneg: "0 \<le> a \<Longrightarrow> 0 < b \<Longrightarrow> a sdiv b = a div (b :: int)"
  by (cases "a = 0") (simp_all add: signed_divide_int_def)

lemma smod_nonneg: "0 \<le> a \<Longrightarrow> 0 < b \<Longrightarrow> a smod b = a mod (b :: int)"
  by (cases "a = 0") (simp_all add: signed_modulo_int_def)

lemma era_floor: "(if y \<ge> 0 then y else y - 399) sdiv 400 = y div (400 :: int)"
proof (cases "0 \<le> y")
  case False
  then have "(y - 399) sdiv 400 = - ((399 - y) div 400)" by (simp add: signed_divide_int_def)
  also have "(399 - y) div 400 = - (y div 400)"
    using mod_mult_div_eq [of y 400] pos_mod_bound [of 400 y] pos_mod_sign [of 400 y]
    by (intro int_div_pos_eq [where r = "399 - y mod 400"]) linarith+
  finally show ?thesis using False by simp
qed (simp add: sdiv_nonneg)

lemma year_days:
  "y div 400 * 146097 + ((y - y div 400 * 400) * 365 + (y - y div 400 * 400) div 4 - (y - y div 400 * 400) div 100) =
     365 * y + y div 4 - y div 100 + y div (400 :: int)"
proof -
  let ?e = "y div 400" and ?r = "y mod 400"
  have y: "y = ?r + ?e * 400" by simp
  have r: "y - ?e * 400 = ?r" by (simp add: minus_div_mult_eq_mod)
  have "(?r + ?e * 100 * 4) div 4 = ?e * 100 + ?r div 4" by (rule div_mult_self1) simp
  moreover have "(?r + ?e * 4 * 100) div 100 = ?e * 4 + ?r div 100" by (rule div_mult_self1) simp
  moreover have "?r + ?e * 100 * 4 = y" "?r + ?e * 4 * 100 = y" using y by linarith+
  ultimately have "y div 4 = ?e * 100 + ?r div 4" "y div 100 = ?e * 4 + ?r div 100" by metis+
  with y show ?thesis unfolding r by linarith
qed

lemma days_closed:
  assumes "1 \<le> m" "m \<le> 12"
  shows "days_from_civil y m d = (let z = (if m \<le> 2 then y - 1 else y) in
    365 * z + z div 4 - z div 100 + z div 400 + (153 * ((m + 9) mod 12) + 2) div 5 + d - 1 - 719468)"
proof -
  have mp: "(m + 9) smod 12 = (m + 9) mod 12" using assms by (simp add: smod_nonneg)
  have doy: "(153 * ((m + 9) mod 12) + 2) sdiv 5 = (153 * ((m + 9) mod 12) + 2) div 5"
    by (rule sdiv_nonneg) simp_all
  have r: "0 \<le> z - z div 400 * 400" for z :: int by (simp add: minus_div_mult_eq_mod)
  show ?thesis
    unfolding days_from_civil_def Let_def era_floor mp doy sdiv_nonneg [OF r zero_less_numeral]
    using year_days [of "if m \<le> 2 then y - 1 else y"] by linarith
qed

lemma div_step: "0 < c \<Longrightarrow> y div c - (y - 1) div c = of_bool (c dvd (y :: int))"
proof -
  assume c: "0 < c"
  show ?thesis
  proof (cases "c dvd y")
    case True
    then obtain k where k: "y = c * k" by blast
    then have "(y - 1) div c = k - 1" using c by (intro int_div_pos_eq [where r = "c - 1"]) (auto simp: algebra_simps)
    with k c True show ?thesis by simp
  next
    case False
    then have "0 < y mod c" using c pos_mod_sign [of c y] by (simp add: dvd_eq_mod_eq_0 order_less_le)
    then have "(y - 1) div c = y div c"
      using c pos_mod_bound [of c y] mult_div_mod_eq [of c y] by (intro int_div_pos_eq [where r = "y mod c - 1"]) linarith+
    with False show ?thesis by simp
  qed
qed

lemma dvd_chain: "400 dvd (y :: int) \<Longrightarrow> 100 dvd y" "100 dvd (y :: int) \<Longrightarrow> 4 dvd y"
  by (simp_all add: dvd_trans [of 100 400 y] dvd_trans [of 4 100 y])

lemma months: "1 \<le> m \<Longrightarrow> m \<le> 12 \<Longrightarrow> m \<in> {1, 2, 3, 4, 5, 6, 7, 8, 9, 10, 11, 12 :: int}"
  by simp presburger

lemma add_steps:
  "a - a' = x \<Longrightarrow> b - b' = z \<Longrightarrow> c - c' = w \<Longrightarrow> x - z + w = l \<Longrightarrow> a - b + c = a' - b' + c' + (l :: int)"
  by simp

lemma days_next:
  assumes "valid_day (y, m, d)"
  shows "(case next_day (y, m, d) of (y', m', d') \<Rightarrow> days_from_civil y' m' d') = days_from_civil y m d + 1"
proof (cases "d < month_length y m")
  case True
  with assms show ?thesis by (simp add: next_day_def valid_day_def days_closed Let_def)
next
  case False
  with assms have d: "d = month_length y m" and m: "1 \<le> m" "m \<le> 12" by (auto simp: valid_day_def)
  consider "m = 2" | "m = 12" | "m \<in> {1, 3, 4, 5, 6, 7, 8, 9, 10, 11}" using months [OF m] by auto
  then show ?thesis
  proof cases
    case 1
    have "of_bool (4 dvd y) - of_bool (100 dvd y) + of_bool (400 dvd y) = (of_bool (leap y) :: int)"
      using dvd_chain [of y] by (auto simp: leap_def)
    then have "y div 4 - y div 100 + y div 400 = (y - 1) div 4 - (y - 1) div 100 + (y - 1) div 400 + of_bool (leap y)"
      using div_step [of 4 y] div_step [of 100 y] div_step [of 400 y] by (intro add_steps) simp_all
    then show ?thesis by (cases "leap y") (simp_all add: 1 next_day_def d month_length_def days_closed Let_def)
  next
    case 2
    show ?thesis by (simp add: 2 next_day_def d month_length_def days_closed Let_def)
  next
    case 3
    then show ?thesis by (elim insertE emptyE) (simp_all add: next_day_def d month_length_def days_closed Let_def)
  qed
qed

text \<open>
  The day count of an old stamp's date is the number of days since 1 January 1970 in the Gregorian
  calendar: that day counts zero, and every day counts one more than the day before.
\<close>

theorem days_from_civil_calendar:
  "days_from_civil 1970 1 1 = 0 \<and>
   (valid_day (y, m, d) \<longrightarrow>
     (case next_day (y, m, d) of (y', m', d') \<Rightarrow> days_from_civil y' m' d' = days_from_civil y m d + 1))"
  using days_next [of y m d] by (auto simp: days_closed)

theorem days_from_civil_calendar_witness: "days_from_civil 2024 3 1 = days_from_civil 2024 2 29 + 1"
  using days_from_civil_calendar [of 2024 2 29] by (simp add: valid_day_def next_day_def month_length_def leap_def)

section \<open>Scanning\<close>

definition stays :: "Env \<Rightarrow> QueueDir \<Rightarrow> nat \<Rightarrow> bool" where
  "stays env q seq \<longleftrightarrow> seq \<in> dom q \<and> \<not> foreign_ticket env (the (q seq)) \<and> \<not> dead_ticket env (the (q seq))"

definition reaped :: "Env \<Rightarrow> Fs \<Rightarrow> QueueDir \<Rightarrow> nat \<Rightarrow> bool" where
  "reaped env fs q seq \<longleftrightarrow> fs_remove fs seq \<and> seq \<in> dom q \<and> \<not> foreign_ticket env (the (q seq)) \<and> dead_ticket env (the (q seq))"

lemma scan_loop:
  "distinct names \<Longrightarrow> set names \<subseteq> dom q \<Longrightarrow>
     foldl (scan_one env fs self) (survivors, found, q) names =
       (survivors @ filter (stays env q) names, found \<or> (\<exists>s. self = Some s \<and> s \<in> set names \<and> stays env q s),
        \<lambda>s. if s \<in> set names \<and> reaped env fs q s then None else q s)"
proof (induction names arbitrary: survivors found q)
  case (Cons n names)
  let ?q = "if reaped env fs q n then q(n := None) else q"
  have t: "(case q n of Some t \<Rightarrow> t | None \<Rightarrow> None) = the (q n)" using Cons.prems by (auto split: option.splits)
  have step: "scan_one env fs self (survivors, found, q) n =
      (if stays env q n then survivors @ [n] else survivors, found \<or> self = Some n \<and> stays env q n, ?q)"
    using Cons.prems by (auto simp: scan_one_def Let_def t stays_def reaped_def remove_ticket_def)
  have same: "s \<in> set names \<Longrightarrow> stays env ?q s = stays env q s \<and> reaped env fs ?q s = reaped env fs q s" for s
    using Cons.prems(1) by (auto simp: stays_def reaped_def dom_def)
  have "filter (stays env ?q) names = filter (stays env q) names" using same by (intro filter_cong) auto
  moreover have "set names \<subseteq> dom ?q" using Cons.prems by auto
  ultimately show ?case using Cons.IH [of ?q] Cons.prems same by (auto simp: step fun_eq_iff)
qed simp

lemma scan_result:
  assumes "finite (dom q)" "fs_read fs"
  shows "scan env fs q self = (Inr (filter (stays env q) (sorted_list_of_set (dom q)), \<exists>s. self = Some s \<and> stays env q s),
    \<lambda>s. if reaped env fs q s then None else q s)"
proof -
  have d: "s \<in> dom q \<and> stays env q s \<longleftrightarrow> stays env q s" "s \<in> dom q \<and> reaped env fs q s \<longleftrightarrow> reaped env fs q s" for s
    by (auto simp: stays_def reaped_def)
  show ?thesis
    using assms scan_loop [of "sorted_list_of_set (dom q)" q env fs self "[]" False]
    by (simp add: scan_def scan_names_def d)
qed

lemma position_sorted:
  "sorted xs \<Longrightarrow> distinct xs \<Longrightarrow> x \<in> set xs \<Longrightarrow> position (\<lambda>s. s = x) xs = Some (card {s \<in> set xs. s < (x :: nat)})"
proof (induction xs)
  case (Cons y ys)
  show ?case
  proof (cases "y = x")
    case True
    then have "{s \<in> set (y # ys). s < x} = {}" using Cons.prems by auto
    then show ?thesis using True by simp
  next
    case False
    then have lt: "y < x" "x \<in> set ys" using Cons.prems by auto
    then have "{s \<in> set (y # ys). s < x} = insert y {s \<in> set ys. s < x}" by auto
    moreover have "y \<notin> {s \<in> set ys. s < x}" using Cons.prems by auto
    ultimately show ?thesis using Cons.IH Cons.prems False lt by simp
  qed
qed simp

section \<open>Tickets\<close>

lemma foldl_max_ge: "m \<le> foldl max m ms \<and> (\<forall>x\<in>set ms. x \<le> foldl max m (ms :: nat list))"
  by (induction ms arbitrary: m) (auto, meson max.cobounded1 order_trans, meson max.cobounded2 order_trans)

lemma allocate_free: "q n = None \<Longrightarrow> allocate fs q n = Some (if fs_mkdir fs n then Inr n else Inl (CannotEnqueue n))"
  by (subst allocate.simps) simp

lemma highest_bound:
  assumes "finite (dom q)" "highest_ticket fs q = Inr h" "s \<in> dom q"
  shows "s < (case h of None \<Rightarrow> 1 | Some m \<Rightarrow> m + 1)"
proof -
  have "\<forall>s\<in>set (sorted_list_of_set (dom q)). s < (case h of None \<Rightarrow> 1 | Some m \<Rightarrow> m + 1)"
    using assms(2) foldl_max_ge
    by (auto simp: highest_ticket_def scan_names_def less_Suc_eq_le split: if_splits list.splits)
  with assms(1,3) show ?thesis by simp
qed

lemma enter_as_result:
  assumes "finite (dom q)"
  shows "\<exists>r q'. enter_as env fs q p = Some (r, q') \<and> (case r of
      Inl e \<Rightarrow> q' = q \<or> (\<exists>n. e = CannotStamp n \<and> \<not> fs_remove fs n \<and> q' = q(n \<mapsto> None) \<and> (\<forall>s\<in>dom q. s < n))
    | Inr n \<Rightarrow> q' = q(n \<mapsto> Some (write_stamp env p)) \<and> (\<forall>s\<in>dom q. s < n))"
proof (cases "highest_ticket fs q")
  case (Inr h)
  let ?n = "case h of None \<Rightarrow> 1 | Some m \<Rightarrow> m + 1"
  have b: "\<forall>s\<in>dom q. s < ?n" using highest_bound [OF assms Inr] by blast
  then have f: "q ?n = None" by blast
  show ?thesis using Inr b allocate_free [of q ?n fs, OF f] f by (simp add: enter_as_def remove_ticket_def fun_upd_idem)
qed (simp add: enter_as_def)

section \<open>Runs\<close>

text \<open>
  The steps of any number of processes: entering, leaving, and the scans that every look at the
  queue performs, each with the process table as it is then.
\<close>

inductive queue_step :: "QueueDir \<Rightarrow> QueueDir \<Rightarrow> bool" where
  arrive: "enter_as env fs q p = Some (r, q') \<Longrightarrow> queue_step q q'"
| look: "scan env fs q self = (r, q') \<Longrightarrow> queue_step q q'"
| depart: "queue_step q (leave fs q seq)"

lemma scan_shrinks: "finite (dom q) \<Longrightarrow> scan env fs q self = (r, q') \<Longrightarrow> dom q' \<subseteq> dom q"
  using scan_result [of q fs env self]
  by (cases "fs_read fs") (auto simp: scan_def scan_names_def split: if_splits)

lemma enter_as_appends:
  assumes "finite (dom q)" "enter_as env fs q p = Some (r, q')"
  shows "q' = q \<or> (\<exists>n x. q' = q(n \<mapsto> x) \<and> (\<forall>s\<in>dom q. s < n))"
proof (cases r)
  case (Inl e)
  with enter_as_result [OF assms(1), of env fs p] assms(2) show ?thesis by auto
next
  case (Inr n)
  with enter_as_result [OF assms(1), of env fs p] assms(2) show ?thesis by auto
qed

lemma queue_step_dom:
  assumes "queue_step q q'" "finite (dom q)"
  shows "finite (dom q') \<and> (\<forall>t\<in>dom q. \<forall>s\<in>dom q'. s < t \<longrightarrow> s \<in> dom q)"
  using assms(1)
proof (cases rule: queue_step.cases)
  case (arrive env fs p r)
  from enter_as_appends [OF assms(2) this] show ?thesis
  proof (elim disjE exE conjE)
    fix n x assume "q' = q(n \<mapsto> x)" "\<forall>s\<in>dom q. s < n"
    then show ?thesis using assms(2) by (auto dest: order.asym)
  qed (use assms(2) in simp)
next
  case (look env fs self r)
  have "dom q' \<subseteq> dom q" using scan_shrinks [OF assms(2) look] .
  then show ?thesis using finite_subset [OF _ assms(2)] by blast
next
  case (depart fs seq)
  have "dom q' \<subseteq> dom q" by (auto simp: depart leave_def remove_ticket_def split: if_splits)
  then show ?thesis using finite_subset [OF _ assms(2)] by blast
qed

interpretation tickets: transition_system queue_step "\<lambda>q. finite (dom q)"
  by unfold_locales (use queue_step_dom in blast)

lemma no_overtaking_run:
  "(\<lambda>a b. queue_step a b \<and> t \<in> dom b)\<^sup>*\<^sup>* q q' \<Longrightarrow> finite (dom q) \<Longrightarrow> t \<in> dom q \<Longrightarrow>
     finite (dom q') \<and> t \<in> dom q' \<and> {s \<in> dom q'. s < t} \<subseteq> {s \<in> dom q. s < t}"
proof (induction rule: rtranclp_induct)
  case (step y z)
  then show ?case using queue_step_dom [of y z] by blast
qed simp

section \<open>Reading back a stamp\<close>

lemma split_word:
  assumes "w \<noteq> []" "list_all (\<lambda>c. \<not> is_space c) w"
  shows "split_whitespace (w @ newline # rest) = w # split_whitespace rest"
proof -
  obtain c v where w: "w = c # v" using assms(1) by (cases w) auto
  have n: "is_space newline" by (simp add: newline_def is_space_def)
  have v: "\<forall>x\<in>set v. \<not> is_space x" "\<not> is_space c" using assms(2) w by (auto simp: list_all_iff)
  have "takeWhile (\<lambda>x. \<not> is_space x) (v @ newline # rest) = v" "dropWhile (\<lambda>x. \<not> is_space x) (v @ newline # rest) = newline # rest"
    using v n by (simp_all add: takeWhile_append2 dropWhile_append2)
  then show ?thesis using v n w by simp
qed

lemma decimal_int_nonneg: "0 \<le> i \<Longrightarrow> decimal_int i = decimal (nat i)"
  by (simp add: decimal_int_def)

lemma no_space_decimal: "list_all (\<lambda>c. \<not> is_space c) (decimal n)"
  using decimal_digits [of n] digit_not_space by (auto simp: list_all_iff)

lemma started_unread: "list_all is_digit s \<Longrightarrow> iso8601_utc_to_epoch_s s = None"
  by (cases "length s = 20") (auto simp: iso8601_utc_to_epoch_s_def list_all_length is_digit_def dest!: spec [of _ 4])

lemma read_tokens:
  "read_token st (''pid='' @ v) = st\<lparr>st_pid := parse_i32 v\<rparr>"
  "read_token st (''create_time='' @ v) = st\<lparr>st_create_time := parse_i64 v\<rparr>"
  "read_token st (''started='' @ v) = st\<lparr>st_started_s := iso8601_utc_to_epoch_s v\<rparr>"
  "read_token st (''machine='' @ v) = st\<lparr>st_machine := v\<rparr>"
  "read_token st (''host='' @ v) = st"
  by (simp_all add: read_token_def strip_key_def starts_with_def)

lemma keys_not_space:
  "list_all (\<lambda>c. \<not> is_space c) ''pid=''" "list_all (\<lambda>c. \<not> is_space c) ''create_time=''"
  "list_all (\<lambda>c. \<not> is_space c) ''started=''" "list_all (\<lambda>c. \<not> is_space c) ''machine=''"
  "list_all (\<lambda>c. \<not> is_space c) ''host=''"
  by (simp_all add: is_space_def)

lemma read_written:
  assumes "list_all (\<lambda>c. \<not> is_space c) (hostname env)" "list_all (\<lambda>c. \<not> is_space c) (my_machine_id env)"
    and "unat p < 2 ^ 31" "0 \<le> now_ms env"
    and ct: "\<And>c. probe_pid env (sint p) = Created c \<Longrightarrow> 0 \<le> c \<and> c \<le> I64_MAX"
  shows "read_stamp (Some (write_stamp env p)) = Some \<lparr>st_pid = Some (int (unat p)),
    st_create_time = (case probe_pid env (sint p) of Created c \<Rightarrow> Some c | _ \<Rightarrow> None), st_started_s = None,
    st_machine = my_machine_id env\<rparr>"
proof -
  let ?create = "case probe_pid env (sint p) of Created c \<Rightarrow> [''create_time='' @ decimal (nat c)] | _ \<Rightarrow> []"
  have "list_all (\<lambda>c. \<not> is_space c) (k @ v)" if "list_all (\<lambda>c. \<not> is_space c) k" "list_all (\<lambda>c. \<not> is_space c) v" for k v
    using that by simp
  note w = this [OF keys_not_space(1) no_space_decimal] this [OF keys_not_space(2) no_space_decimal]
    this [OF keys_not_space(3) no_space_decimal] this [OF keys_not_space(4) assms(2)] this [OF keys_not_space(5) assms(1)]
  have field: "split_whitespace (k @ v @ [newline] @ rest) = (k @ v) # split_whitespace rest"
    if "k @ v \<noteq> []" "list_all (\<lambda>c. \<not> is_space c) (k @ v)" for k v rest
    using split_word [of "k @ v" rest] that by simp
  have last: "split_whitespace (k @ v @ [newline]) = [k @ v]"
    if "k @ v \<noteq> []" "list_all (\<lambda>c. \<not> is_space c) (k @ v)" for k v
    using split_word [of "k @ v" "[]"] that by simp
  note fields = field [OF _ w(1)] field [OF _ w(2)] last [OF _ w(3)] field [OF _ w(4)] field [OF _ w(5)]
  note fields = fields [unfolded append_Cons append_Nil]
  have toks: "split_whitespace (write_stamp env p) = [''pid='' @ decimal (unat p)] @ ?create @
      [''host='' @ hostname env, ''machine='' @ my_machine_id env, ''started='' @ decimal (nat (now_ms env))]"
    using ct
    by (cases "probe_pid env (sint p)")
       (simp_all only: write_stamp_def Let_def decimal_int_nonneg assms(4) PidProbe.case append_assoc append_Nil append_Cons
          fields append_is_Nil_conv list.distinct simp_thms)
  have pid: "parse_i32 (decimal (unat p)) = Some (int (unat p))"
  proof -
    have i: "int (unat p) < 2 ^ 31" using assms(3) by (metis of_nat_less_iff of_nat_numeral of_nat_power)
    then have "parse_i64 (decimal (unat p)) = Some (int (unat p))"
      by (intro parse_i64_decimal) (simp add: I64_MAX_def)
    moreover have "- (2 ^ 31) \<le> int (unat p)" by (rule order_trans [of _ 0]) simp_all
    ultimately show ?thesis unfolding parse_i32_def using i by simp
  qed
  have crt: "parse_i64 (decimal (nat c)) = Some c" if "probe_pid env (sint p) = Created c" for c
    using ct [OF that] by (simp add: parse_i64_decimal)
  show ?thesis
    by (cases "probe_pid env (sint p)")
       (simp_all add: read_stamp_def toks read_tokens pid crt started_unread decimal_digits del: append.simps)
qed

section \<open>Properties of the queue\<close>

text \<open>A process table without processes and a file system that grants everything, for examples.\<close>

definition quiet_env :: Env where
  "quiet_env = \<lparr>now_ms = 0, hostname = ''h'', my_machine_id = ''m'', process_id = 1, probe_pid = (\<lambda>_. Absent),
     env_var = (\<lambda>_. None), durable_session_pid = None, registry_session_pid = (\<lambda>_. None)\<rparr>"

definition granting :: Fs where
  "granting = \<lparr>fs_create_root = True, fs_read = True, fs_mkdir = (\<lambda>_. True), fs_write = True, fs_remove = (\<lambda>_. True)\<rparr>"

lemma stays_card:
  assumes "finite (dom q)"
  shows "length (filter (stays env q) (sorted_list_of_set (dom q))) = card {s. stays env q s}"
    and "stays env q t \<Longrightarrow> position (\<lambda>s. s = t) (filter (stays env q) (sorted_list_of_set (dom q))) =
      Some (card {s. s < t \<and> stays env q s})"
proof -
  let ?xs = "filter (stays env q) (sorted_list_of_set (dom q))"
  have x: "set ?xs = {s. stays env q s}" "distinct ?xs" "sorted ?xs"
    using assms by (auto simp: stays_def sorted_wrt_filter)
  show "length ?xs = card {s. stays env q s}" using x distinct_card by metis
  show "position (\<lambda>s. s = t) ?xs = Some (card {s. s < t \<and> stays env q s})" if "stays env q t"
    using position_sorted [OF x(3,2), of t] that unfolding x(1) by (simp add: conj_commute)
qed

lemma position_result:
  assumes "finite (dom q)"
  shows "queue_position env fs q t =
    (if \<not> fs_read fs then (Inl CannotReadDir, q)
     else (if stays env q t
           then Inr \<lparr>pos_index = card {s. s < t \<and> stays env q s}, pos_total = card {s. stays env q s}\<rparr>
           else Inl (TicketGone t),
           \<lambda>s. if reaped env fs q s then None else q s))"
proof (cases "fs_read fs")
  case True
  show ?thesis
    using assms True by (simp add: queue_position_def scan_result stays_card)
qed (simp add: queue_position_def scan_def scan_names_def)

text \<open>
  Asking for a ticket's place answers, for a ticket that stands, how many tickets of this machine
  that are not provably dead are numbered below it and how many there are in all; for any other
  ticket it fails. The scan removes the dead tickets of this machine that can be removed, nothing
  else; an unreadable directory is an error and is left alone.
\<close>

theorem queue_position_spec:
  assumes "finite (dom q)"
  shows "queue_position env fs q t =
    (if \<not> fs_read fs then (Inl CannotReadDir, q)
     else (if stays env q t
           then Inr \<lparr>pos_index = card {s. s < t \<and> stays env q s}, pos_total = card {s. stays env q s}\<rparr>
           else Inl (TicketGone t),
           \<lambda>s. if reaped env fs q s then None else q s))"
  using assms by (rule position_result)

theorem queue_position_spec_witness:
  "fst (queue_position quiet_env
    granting Map.empty 3) =
    Inl (TicketGone 3)"
  by (subst queue_position_spec) (simp_all add: stays_def granting_def)



definition ahead :: "QueueDir \<Rightarrow> nat \<Rightarrow> nat set" where
  "ahead q t = {s \<in> dom q. s < t}"

lemma ahead_finite: "finite (ahead q t)"
  by (rule finite_subset [of _ "{..<t}"]) (auto simp: ahead_def)

lemma ahead_shrinks: "queue_step q q' \<Longrightarrow> finite (dom q) \<Longrightarrow> t \<in> dom q \<Longrightarrow> ahead q' t \<subseteq> ahead q t"
  using queue_step_dom [of q q'] by (auto simp: ahead_def)

lemma run_ahead:
  assumes "\<And>i. queue_step (\<sigma> i) (\<sigma> (Suc i))" "finite (dom (\<sigma> 0))" "\<And>i. t \<in> dom (\<sigma> i)" "i \<le> j"
  shows "finite (dom (\<sigma> j)) \<and> ahead (\<sigma> j) t \<subseteq> ahead (\<sigma> i) t"
proof -
  have fin: "finite (dom (\<sigma> k))" for k
    by (induction k) (use assms(1,2) tickets.step_good in blast)+
  show ?thesis using assms(4)
  proof (induction rule: dec_induct)
    case (step n)
    then show ?case using ahead_shrinks [OF assms(1) fin assms(3), of n] fin by blast
  qed (simp add: fin)
qed



lemma sint_small: "unat (p :: u32) < 2 ^ 31 \<Longrightarrow> sint p = int (unat p)"
proof -
  assume "unat p < 2 ^ 31"
  then have "uint p < 2 ^ 31" by (metis of_nat_less_iff of_nat_numeral of_nat_power uint_nat)
  then have "signed_take_bit 31 (uint p) = uint p"
    by (intro signed_take_bit_int_eq_self) (simp_all add: order_trans [OF _ uint_ge_0])
  then show ?thesis by (simp add: sint_uint)
qed

text \<open>
  The stamp a process writes on a ticket is read back as it was written, and a ticket so stamped is
  neither foreign nor dead while that process lives, so it keeps its place.
\<close>

theorem stamp_roundtrip:
  assumes "list_all (\<lambda>c. \<not> is_space c) (hostname env)" "list_all (\<lambda>c. \<not> is_space c) (my_machine_id env)"
    and "unat p < 2 ^ 31" "0 \<le> now_ms env" "probe_pid env (sint p) = Created c" "0 \<le> c" "c \<le> I64_MAX"
  shows "read_stamp (Some (write_stamp env p)) = Some \<lparr>st_pid = Some (int (unat p)), st_create_time = Some c,
           st_started_s = None, st_machine = my_machine_id env\<rparr> \<and>
         stays env (q(n \<mapsto> Some (write_stamp env p))) n"
proof -
  have rd: "read_stamp (Some (write_stamp env p)) = Some \<lparr>st_pid = Some (int (unat p)), st_create_time = Some c,
           st_started_s = None, st_machine = my_machine_id env\<rparr>"
    using read_written [of env p] assms by simp
  have "sint p = int (unat p)"
    using assms(3) by (rule sint_small)
  then have "probe_pid env (int (unat p)) = Created c" using assms(5) by (simp only:)
  then show ?thesis
    by (simp add: rd stays_def foreign_ticket_def dead_ticket_def stamp_is_foreign_def ticket_is_dead_def)
qed

theorem stamp_roundtrip_witness:
  "stays (quiet_env\<lparr>probe_pid := \<lambda>_. Created 7\<rparr>) [1 \<mapsto> Some (write_stamp (quiet_env\<lparr>probe_pid := \<lambda>_. Created 7\<rparr>) 42)] 1"
  using stamp_roundtrip [where env = "quiet_env\<lparr>probe_pid := \<lambda>_. Created 7\<rparr>" and p = 42 and c = 7 and q = Map.empty and n = 1]
  by (simp add: quiet_env_def is_space_def I64_MAX_def)

text \<open>
  A ticket whose stamp was never written, because its process died between creating and stamping
  it, is never reaped: no scan in any environment removes it, and no ticket behind it reads the
  front.
\<close>

theorem unstamped_ticket_blocks:
  assumes "finite (dom q)" "q s = Some None" "s < t" "queue_position env fs q t = (Inr ps, q')"
  shows "0 < pos_index ps \<and> q' s = Some None"
proof -
  have st: "stays env q s" "\<not> reaped env fs q s"
    using assms(2) by (auto simp: stays_def reaped_def foreign_ticket_def dead_ticket_def read_stamp_def)
  then have "s \<in> {r. r < t \<and> stays env q r}" using assms(3) by simp
  then have "0 < card {r. r < t \<and> stays env q r}" by (subst card_gt_0_iff) auto
  with st assms(2,4) show ?thesis unfolding position_result [OF assms(1)] by (auto split: if_splits)
qed

theorem unstamped_ticket_blocks_witness:
  "\<exists>ps q'. queue_position quiet_env granting [1 \<mapsto> None, 2 \<mapsto> None] 2 = (Inr ps, q') \<and> 0 < pos_index ps"
proof -
  have "\<exists>ps q'. queue_position quiet_env granting [1 \<mapsto> None, 2 \<mapsto> None] 2 = (Inr ps, q')"
    by (subst position_result) (auto simp: granting_def stays_def foreign_ticket_def dead_ticket_def read_stamp_def)
  then show ?thesis using unstamped_ticket_blocks [where q = "[1 \<mapsto> None, 2 \<mapsto> None]" and s = 1 and t = 2] by fastforce
qed

section \<open>The command\<close>

lemma digits_value_zeros: "digits_value (replicate k (CHR ''0'') @ s) = digits_value s"
  by (induction k) (simp_all add: digits_value_def)

lemma parse_ticket_id: "n < 2 ^ 64 \<Longrightarrow> parse_unsigned 64 (ticket_id n) = Some n"
proof -
  assume n: "n < 2 ^ 64"
  have "is_digit (CHR ''0'')" by (simp add: is_digit_def)
  then have d: "list_all is_digit (ticket_id n)" "ticket_id n \<noteq> []"
    using decimal_digits [of n] decimal_nonempty [of n] by (auto simp: ticket_id_def zero_padded_def list_all_iff)
  then obtain c r where cr: "ticket_id n = c # r" by (cases "ticket_id n") auto
  with d have "c \<noteq> CHR ''+''" by (auto simp: is_digit_def)
  moreover have "digits_value (ticket_id n) = int n"
    by (simp add: ticket_id_def zero_padded_def digits_value_zeros digits_value_decimal)
  ultimately show ?thesis using n d cr by (simp add: parse_unsigned_def)
qed

text \<open>
  The command a script polls: given the id that \<open>enter\<close> printed, \<open>front\<close> exits with 0 exactly when
  the ticket stands with no standing ticket before it, with 1 when it stands further back, and with 2
  when it is gone or the queue cannot be read.
\<close>

theorem front_exit_code:
  assumes "n < 2 ^ 64" "finite (dom (dirs d))"
  shows "\<exists>out dirs'. run_queue env fs dirs [''front'', ''--dir'', d, ''--ticket'', ticket_id n] =
    Some (if \<not> fs_read fs \<or> \<not> stays env (dirs d) n then 2
          else if \<exists>s<n. stays env (dirs d) s then 1 else 0, out, dirs')"
proof -
  have fin: "finite {s. s < n \<and> stays env (dirs d) s}" by simp
  have "card {s. s < n \<and> stays env (dirs d) s} = 0 \<longleftrightarrow> \<not> (\<exists>s<n. stays env (dirs d) s)"
    using card_0_eq [OF fin] by blast
  then have "(if card {s. s < n \<and> stays env (dirs d) s} = 0 then 0 else 1) = (if \<exists>s<n. stays env (dirs d) s then 1 else 0 :: nat)"
    by simp
  then show ?thesis
    by (simp del: card_0_eq card_eq_0_iff add: run_queue_def parse_ticket_id [OF assms(1)] queue_front_cmd_def position_result [OF assms(2)])
qed

theorem front_exit_code_witness:
  "\<exists>out dirs'. run_queue quiet_env
    granting
    (\<lambda>_. [2 \<mapsto> None]) [''front'', ''--dir'', ''q'', ''--ticket'', ticket_id 2] = Some (0, out, dirs')"
  using front_exit_code [where n = 2 and dirs = "\<lambda>_. [2 \<mapsto> None]" and d = "''q''" and env = quiet_env and fs = granting]
  by (simp add: granting_def stays_def foreign_ticket_def dead_ticket_def read_stamp_def)

end
