(* ===== verification/Range_Tiling.thy ===== *)
theory Range_Tiling
  imports Fno_Prelude "HOL-Library.Char_ord" "HOL-Library.List_Lexorder"
begin

text \<open>
  Review coverage of a branch as a chain of attested ranges,
  \<open>crates/fno-agents/src/loopcheck/range_tiling.rs\<close>. What git answers (the merge base, the walk of
  commits from it to the head) and what the event log yields (the attestations in scope, the number
  of review rounds) are arguments; the freshness resolver is an optional function from a pinned head
  to its verdict and label.
\<close>

section \<open>Data\<close>

type_synonym sha = string

definition USIZE_MAX :: nat where "USIZE_MAX = 2 ^ 64 - 1"

record RangeTiling =
  tiled :: bool
  gaps :: "(sha \<times> sha) list"
  dropped :: "sha list"
  chain_heads :: "sha list"
  carried :: "(sha \<times> string) list"
  rounds_used :: int
  rounds_max :: int
  rounds_exhausted :: bool
  hard_blocker :: bool

definition default_tiling :: RangeTiling where
  "default_tiling = \<lparr>tiled = False, gaps = [], dropped = [], chain_heads = [], carried = [],
     rounds_used = 0, rounds_max = 0, rounds_exhausted = False, hard_blocker = False\<rparr>"

text \<open>The fields of an attestation event that are read here.\<close>

record Attestation =
  reviewed_base_sha :: "sha option"
  reviewed_head_sha :: "sha option"
  pinned_head_sha :: "sha option"

section \<open>The chain\<close>

text \<open>The position map is built by inserting the walk in order, so a later equal key wins.\<close>

definition walk_position :: "sha list \<Rightarrow> sha \<Rightarrow> nat option" where
  "walk_position walk = foldl (\<lambda>m (i, s). m(s \<mapsto> i)) Map.empty (zip [0..<length walk] walk)"

definition attested_range :: "Attestation \<Rightarrow> (sha \<times> sha) option" where
  "attested_range att =
     (let range_base = (case reviewed_base_sha att of Some b \<Rightarrow> b | None \<Rightarrow> []);
          range_head = (case reviewed_head_sha att of Some h \<Rightarrow> h | None \<Rightarrow> [])
      in if range_base = [] \<or> range_head = [] then None else Some (range_base, range_head))"

definition attested_ranges :: "Attestation list \<Rightarrow> (sha \<times> sha) list" where
  "attested_ranges chain = filter_map attested_range chain"

text \<open>A range on the walk as first and last position with its head, or the head it is dropped by.\<close>

definition place_range :: "sha \<Rightarrow> sha list \<Rightarrow> sha \<times> sha \<Rightarrow> sha + (nat \<times> nat \<times> sha)" where
  "place_range merge_base walk r =
     (case r of (b, h) \<Rightarrow>
       (let head_pos = walk_position walk h;
            base_pos = (if b = merge_base then Some USIZE_MAX else walk_position walk b)
        in case (base_pos, head_pos) of
             (Some bp, Some hp) \<Rightarrow>
               (let start = (if bp = USIZE_MAX then 0 else bp + 1)
                in if hp + 1 \<ge> start then Inr (start, hp, h) else Inl h)
           | _ \<Rightarrow> Inl h))"

definition valid_ranges :: "sha \<Rightarrow> sha list \<Rightarrow> (sha \<times> sha) list \<Rightarrow> (nat \<times> nat \<times> sha) list" where
  "valid_ranges merge_base walk ranges =
     filter_map (\<lambda>r. case place_range merge_base walk r of Inr v \<Rightarrow> Some v | Inl _ \<Rightarrow> None) ranges"

definition dropped_heads :: "sha \<Rightarrow> sha list \<Rightarrow> (sha \<times> sha) list \<Rightarrow> sha list" where
  "dropped_heads merge_base walk ranges =
     filter_map (\<lambda>r. case place_range merge_base walk r of Inl h \<Rightarrow> Some h | Inr _ \<Rightarrow> None) ranges"

definition mark_range :: "bool list \<Rightarrow> nat \<times> nat \<times> sha \<Rightarrow> bool list" where
  "mark_range covered v =
     (case v of (start, last_pos, h) \<Rightarrow>
       foldl (\<lambda>c i. if i < length c then c[i := True] else c) covered [start..<Suc last_pos])"

definition covered_by :: "nat \<Rightarrow> (nat \<times> nat \<times> sha) list \<Rightarrow> bool list" where
  "covered_by n valid = foldl mark_range (replicate n False) valid"

section \<open>The carry\<close>

type_synonym resolver = "sha \<Rightarrow> bool \<times> string"

text \<open>The first pinned head off the walk whose verdict tiles the whole range.\<close>

fun find_carry :: "sha list \<Rightarrow> resolver \<Rightarrow> Attestation list \<Rightarrow> (sha \<times> string) option" where
  "find_carry walk freshness [] = None"
| "find_carry walk freshness (att # atts) =
     (case pinned_head_sha att of
        None \<Rightarrow> find_carry walk freshness atts
      | Some pinned \<Rightarrow>
          if pinned = [] \<or> walk_position walk pinned \<noteq> None then find_carry walk freshness atts
          else (case freshness pinned of
                  (tiles_whole_range, label) \<Rightarrow>
                    if tiles_whole_range then Some (pinned, label) else find_carry walk freshness atts))"

section \<open>The gaps\<close>

function skip_uncovered :: "bool list \<Rightarrow> nat \<Rightarrow> nat" where
  "skip_uncovered covered i = (if i < length covered \<and> \<not> covered ! i then skip_uncovered covered (i + 1) else i)"
  by pat_completeness auto
termination by (relation "measure (\<lambda>(covered, i). length covered - i)") auto

declare skip_uncovered.simps [simp del]

lemma skip_uncovered_le: "i \<le> skip_uncovered covered i"
  by (induction covered i rule: skip_uncovered.induct) (subst skip_uncovered.simps, auto)

function gap_runs :: "bool list \<Rightarrow> nat \<Rightarrow> (nat \<times> nat) list" where
  "gap_runs covered i =
     (if i < length covered
      then if covered ! i then gap_runs covered (i + 1)
           else let j = skip_uncovered covered i in (i, j - 1) # gap_runs covered j
      else [])"
  by pat_completeness auto
termination
proof (relation "measure (\<lambda>(covered, i). length covered - i)")
  fix covered :: "bool list" and i j :: nat
  assume "i < length covered" "\<not> covered ! i" "j = skip_uncovered covered i"
  then have "i < j" using skip_uncovered_le [of "i + 1" covered] by (subst (asm) skip_uncovered.simps) simp
  then show "((covered, j), covered, i) \<in> measure (\<lambda>(covered, i). length covered - i)"
    using \<open>i < length covered\<close> by simp
qed auto

declare gap_runs.simps [simp del]

definition name_gap :: "sha \<Rightarrow> sha list \<Rightarrow> nat \<times> nat \<Rightarrow> sha \<times> sha" where
  "name_gap merge_base walk run =
     (case run of (start, last_pos) \<Rightarrow> (if start = 0 then merge_base else walk ! (start - 1), walk ! last_pos))"

section \<open>The answer\<close>

definition compute_range_tiling ::
  "sha option \<Rightarrow> sha list option \<Rightarrow> Attestation list \<Rightarrow> int \<Rightarrow> int \<Rightarrow> resolver option \<Rightarrow> RangeTiling" where
  "compute_range_tiling merge_base_out walk_out chain rounds max_rounds resolver =
     (let tiling = default_tiling\<lparr>rounds_used := rounds, rounds_exhausted := (rounds \<ge> max max_rounds 1),
                                  rounds_max := max_rounds\<rparr>
      in case merge_base_out of
           None \<Rightarrow> tiling
         | Some merge_base \<Rightarrow>
      if merge_base = [] then tiling
      else case walk_out of
           None \<Rightarrow> tiling
         | Some walk \<Rightarrow>
      (let ranges = attested_ranges chain;
           valid = valid_ranges merge_base walk ranges;
           covered = covered_by (length walk) valid;
           by_sha = list_all id covered;
           heads = sorted_list_of_set (set (map (snd \<circ> snd) valid));
           carry = (if by_sha then None
                    else case resolver of None \<Rightarrow> None | Some freshness \<Rightarrow> find_carry walk freshness chain);
           covered' = (case carry of Some _ \<Rightarrow> replicate (length covered) True | None \<Rightarrow> covered)
       in tiling\<lparr>tiled := by_sha \<or> carry \<noteq> None,
                 gaps := map (name_gap merge_base walk) (gap_runs covered' 0),
                 dropped := dropped_heads merge_base walk ranges,
                 chain_heads := (case carry of Some (pinned, _) \<Rightarrow> heads @ [pinned] | None \<Rightarrow> heads),
                 carried := (case carry of Some c \<Rightarrow> [c] | None \<Rightarrow> [])\<rparr>))"

end
