(* ===== verification/Range_Tiling_Props.thy ===== *)
theory Range_Tiling_Props
  imports Range_Tiling
begin

text \<open>
  What the range tiling answers: coverage is exactly the union of the attested ranges on the walk,
  the gaps are exactly the maximal uncovered runs, and every failure answers "not tiled".
\<close>

section \<open>Positions\<close>

lemma foldl_upd_other:
  "s \<notin> snd ` set ps \<Longrightarrow> foldl (\<lambda>m (i, s). m(s \<mapsto> i)) m ps s = m s"
  by (induction ps arbitrary: m) auto

lemma foldl_upd_distinct:
  "distinct (map snd ps) \<Longrightarrow> (i, s) \<in> set ps \<Longrightarrow> foldl (\<lambda>m (i, s). m(s \<mapsto> i)) m ps s = Some i"
  by (induction ps arbitrary: m) (auto simp: foldl_upd_other image_iff)

lemma walk_position_iff:
  assumes "distinct walk"
  shows "walk_position walk s = Some i \<longleftrightarrow> i < length walk \<and> walk ! i = s"
proof
  assume a: "i < length walk \<and> walk ! i = s"
  then have "(i, s) \<in> set (zip [0..<length walk] walk)" by (force simp: set_zip)
  then show "walk_position walk s = Some i" using assms by (simp add: walk_position_def foldl_upd_distinct)
next
  assume p: "walk_position walk s = Some i"
  have "s \<in> set walk"
  proof (rule ccontr)
    assume "s \<notin> set walk"
    then have "s \<notin> snd ` set (zip [0..<length walk] walk)" by (auto dest: set_zip_rightD)
    then have "walk_position walk s = None" unfolding walk_position_def by (subst foldl_upd_other) auto
    with p show False by simp
  qed
  then obtain j where j: "j < length walk" "walk ! j = s" by (auto simp: in_set_conv_nth)
  then have "(j, s) \<in> set (zip [0..<length walk] walk)" by (force simp: set_zip)
  then have "walk_position walk s = Some j" using assms by (simp add: walk_position_def foldl_upd_distinct)
  with p j show "i < length walk \<and> walk ! i = s" by simp
qed

lemma walk_position_None: "distinct walk \<Longrightarrow> walk_position walk s = None \<Longrightarrow> s \<notin> set walk"
  by (metis in_set_conv_nth option.distinct(1) walk_position_iff)

section \<open>Coverage\<close>

lemma mark_loop_length [simp]: "length (foldl (\<lambda>c i. if i < length c then c[i := True] else c) c is) = length c"
  by (induction "is" arbitrary: c) auto

lemma mark_loop_nth:
  "k < length c \<Longrightarrow> foldl (\<lambda>c i. if i < length c then c[i := True] else c) c is ! k = (c ! k \<or> k \<in> set is)"
  by (induction "is" arbitrary: c) (auto simp: nth_list_update)

lemma mark_range_length [simp]: "length (mark_range c v) = length c"
  by (cases v) (simp add: mark_range_def)

lemma mark_range_nth: "k < length c \<Longrightarrow> mark_range c (s, e, h) ! k = (c ! k \<or> s \<le> k \<and> k \<le> e)"
  by (auto simp: mark_range_def mark_loop_nth simp del: upt_Suc)

lemma foldl_mark_length [simp]: "length (foldl mark_range c vs) = length c"
  by (induction vs arbitrary: c) auto

lemma foldl_mark_nth:
  "k < length c \<Longrightarrow> foldl mark_range c vs ! k = (c ! k \<or> (\<exists>(s, e, h)\<in>set vs. s \<le> k \<and> k \<le> e))"
proof (induction vs arbitrary: c)
  case (Cons v vs)
  obtain s e h where v: "v = (s, e, h)" by (cases v)
  from Cons.prems have "k < length (mark_range c v)" by simp
  from Cons.IH [OF this] Cons.prems show ?case by (auto simp: v mark_range_nth)
qed simp

lemma covered_by_length [simp]: "length (covered_by n vs) = n"
  by (simp add: covered_by_def)

lemma covered_by_nth: "k < n \<Longrightarrow> covered_by n vs ! k = (\<exists>(s, e, h)\<in>set vs. s \<le> k \<and> k \<le> e)"
  by (simp add: covered_by_def foldl_mark_nth)

text \<open>
  The reference reading of one range: it covers the commits of the walk after its base up to its
  head, the base being the merge base or a commit of the walk.
\<close>

definition range_covers :: "sha \<Rightarrow> sha list \<Rightarrow> sha \<times> sha \<Rightarrow> nat \<Rightarrow> bool" where
  "range_covers merge_base walk r k \<longleftrightarrow>
     (\<exists>e < length walk. walk ! e = snd r \<and> k \<le> e \<and>
        (fst r = merge_base \<or> (\<exists>b < k. walk ! b = fst r)))"

lemma place_range_covers:
  assumes d: "distinct walk" and m: "merge_base \<notin> set walk" and n: "length walk < USIZE_MAX" and k: "k < length walk"
  shows "(\<exists>s e h. place_range merge_base walk (b, h0) = Inr (s, e, h) \<and> s \<le> k \<and> k \<le> e) \<longleftrightarrow>
    range_covers merge_base walk (b, h0) k"
proof (cases "walk_position walk h0")
  case None
  then have "\<not> range_covers merge_base walk (b, h0) k"
    using walk_position_iff [OF d, of h0] by (auto simp: range_covers_def)
  with None show ?thesis by (auto simp: place_range_def Let_def split: option.splits)
next
  case (Some hp)
  have hp: "hp < length walk" "walk ! hp = h0" using Some walk_position_iff [OF d] by blast+
  have rc: "range_covers merge_base walk (b, h0) k \<longleftrightarrow> k \<le> hp \<and> (b = merge_base \<or> (\<exists>j < k. walk ! j = b))"
    unfolding range_covers_def fst_conv snd_conv using d hp nth_eq_iff_index_eq by metis
  show ?thesis
  proof (cases "b = merge_base")
    case True
    with Some show ?thesis unfolding rc by (auto simp: place_range_def Let_def)
  next
    case False
    show ?thesis
    proof (cases "walk_position walk b")
      case None
      then have "\<not> (\<exists>j < k. walk ! j = b)" using walk_position_iff [OF d, of b] k by (metis less_trans option.distinct(1))
      with None False Some show ?thesis by (auto simp: place_range_def Let_def rc)
    next
      case (Some bp)
      have bp: "bp < length walk" "walk ! bp = b" using Some walk_position_iff [OF d] by blast+
      then have "bp \<noteq> USIZE_MAX" using n by simp
      moreover have "(\<exists>j < k. walk ! j = b) \<longleftrightarrow> bp < k"
        using d bp k nth_eq_iff_index_eq by (metis less_trans)
      ultimately show ?thesis
        using Some False \<open>walk_position walk h0 = Some hp\<close> hp
        by (auto simp: place_range_def Let_def rc)
    qed
  qed
qed

lemma case_sum_Some: "(case x of Inr v \<Rightarrow> Some v | Inl _ \<Rightarrow> None) = Some v \<longleftrightarrow> x = Inr v"
  by (cases x) auto

lemma valid_ranges_cover:
  assumes "distinct walk" "merge_base \<notin> set walk" "length walk < USIZE_MAX" "k < length walk"
  shows "covered_by (length walk) (valid_ranges merge_base walk ranges) ! k \<longleftrightarrow>
    (\<exists>r\<in>set ranges. range_covers merge_base walk r k)"
proof -
  have v: "v \<in> set (valid_ranges merge_base walk ranges) \<longleftrightarrow> (\<exists>r\<in>set ranges. place_range merge_base walk r = Inr v)" for v
    by (simp add: valid_ranges_def filter_map_in case_sum_Some)
  have "covered_by (length walk) (valid_ranges merge_base walk ranges) ! k \<longleftrightarrow>
      (\<exists>r\<in>set ranges. \<exists>s e h. place_range merge_base walk r = Inr (s, e, h) \<and> s \<le> k \<and> k \<le> e)"
    unfolding covered_by_nth [OF assms(4)] using v by fastforce
  also have "\<dots> \<longleftrightarrow> (\<exists>r\<in>set ranges. range_covers merge_base walk r k)"
    using place_range_covers [OF assms] by (metis surj_pair)
  finally show ?thesis .
qed

section \<open>Gaps\<close>

lemma skip_uncovered_spec:
  "i \<le> length c \<Longrightarrow> skip_uncovered c i \<le> length c \<and> (\<forall>k. i \<le> k \<and> k < skip_uncovered c i \<longrightarrow> \<not> c ! k) \<and>
     (skip_uncovered c i < length c \<longrightarrow> c ! skip_uncovered c i)"
proof (induction c i rule: skip_uncovered.induct)
  case (1 c i)
  show ?case
  proof (cases "i < length c \<and> \<not> c ! i")
    case True
    then have "skip_uncovered c i = skip_uncovered c (i + 1)" by (subst skip_uncovered.simps) simp
    moreover have "\<not> c ! k" if "i \<le> k" "k < skip_uncovered c (i + 1)" for k
      using True 1 that by (cases "k = i") auto
    ultimately show ?thesis using 1 True by auto
  next
    case False
    then have "skip_uncovered c i = i" by (subst skip_uncovered.simps) auto
    with False 1 show ?thesis by auto
  qed
qed

lemma skip_uncovered_less: "i < length c \<Longrightarrow> \<not> c ! i \<Longrightarrow> i < skip_uncovered c i"
  using skip_uncovered_le [of "i + 1" c] by (subst skip_uncovered.simps) simp

lemma gap_runs_step:
  "i < length c \<Longrightarrow> c ! i \<Longrightarrow> gap_runs c i = gap_runs c (i + 1)"
  "i < length c \<Longrightarrow> \<not> c ! i \<Longrightarrow> gap_runs c i = (i, skip_uncovered c i - 1) # gap_runs c (skip_uncovered c i)"
  "\<not> i < length c \<Longrightarrow> gap_runs c i = []"
  by (subst gap_runs.simps, simp add: Let_def)+

text \<open>The runs list every uncovered position once, in order.\<close>

lemma gap_runs_exact:
  "i \<le> length c \<Longrightarrow> concat (map (\<lambda>(s, e). [s..<Suc e]) (gap_runs c i)) = filter (\<lambda>k. \<not> c ! k) [i..<length c]"
proof (induction c i rule: gap_runs.induct)
  case (1 c i)
  show ?case
  proof (cases "i < length c")
    case True
    show ?thesis
    proof (cases "c ! i")
      case cov: True
      with 1(1) True show ?thesis by (simp add: gap_runs_step upt_conv_Cons)
    next
      case False
      let ?j = "skip_uncovered c i"
      have j: "i < ?j" "?j \<le> length c" "\<forall>k. i \<le> k \<and> k < ?j \<longrightarrow> \<not> c ! k"
        using skip_uncovered_less [OF True False] skip_uncovered_spec [of i c] True by auto
      have "filter (\<lambda>k. \<not> c ! k) [i..<length c] = filter (\<lambda>k. \<not> c ! k) [i..<?j] @ filter (\<lambda>k. \<not> c ! k) [?j..<length c]"
        using j upt_add_eq_append [of i ?j "length c - ?j"] by simp
      moreover have "filter (\<lambda>k. \<not> c ! k) [i..<?j] = [i..<?j]" using j(3) by (simp add: filter_id_conv)
      ultimately show ?thesis using 1(2) [OF True False refl j(2)] True False j(1)
        by (simp add: gap_runs_step del: upt_Suc)
    qed
  qed (simp add: gap_runs_step)
qed

text \<open>Each run is maximal: it starts at the beginning or after a covered position, and ends before one.\<close>

lemma gap_runs_maximal:
  "i \<le> length c \<Longrightarrow> (s, e) \<in> set (gap_runs c i) \<Longrightarrow>
     i \<le> s \<and> s \<le> e \<and> e < length c \<and> \<not> c ! s \<and> (s = i \<or> c ! (s - 1)) \<and> (Suc e < length c \<longrightarrow> c ! Suc e)"
proof (induction c i rule: gap_runs.induct)
  case (1 c i)
  show ?case
  proof (cases "i < length c")
    case True
    show ?thesis
    proof (cases "c ! i")
      case cov: True
      then have "i + 1 \<le> s \<and> s \<le> e \<and> e < length c \<and> \<not> c ! s \<and> (s = i + 1 \<or> c ! (s - 1)) \<and> (Suc e < length c \<longrightarrow> c ! Suc e)"
        using 1(1) [OF True cov] 1(4) True by (simp add: gap_runs_step)
      with cov show ?thesis by auto
    next
      case False
      let ?j = "skip_uncovered c i"
      have j: "i < ?j" "?j \<le> length c" "?j < length c \<longrightarrow> c ! ?j"
        using skip_uncovered_less [OF True False] skip_uncovered_spec [of i c] True by auto
      note IH = 1(2) [OF True False refl j(2)]
      consider "(s, e) = (i, ?j - 1)" | "(s, e) \<in> set (gap_runs c ?j)"
        using 1(4) True False by (auto simp: gap_runs_step)
      then show ?thesis
      proof cases
        case 1
        with j False show ?thesis by auto
      next
        case 2
        then have r: "?j \<le> s" "s \<le> e" "e < length c" "\<not> c ! s" "s = ?j \<or> c ! (s - 1)" "Suc e < length c \<longrightarrow> c ! Suc e"
          using IH by auto
        then have "s \<noteq> ?j" using j(3) by auto
        with r j(1) show ?thesis by auto
      qed
    qed
  next
    case False
    with 1(4) show ?thesis by (simp add: gap_runs_step)
  qed
qed

section \<open>Carry\<close>

lemma find_carry_Some:
  "find_carry walk freshness chain = Some (p, l) \<Longrightarrow>
     (\<exists>att\<in>set chain. pinned_head_sha att = Some p) \<and> p \<noteq> [] \<and> walk_position walk p = None \<and> freshness p = (True, l)"
  by (induction walk freshness chain rule: find_carry.induct) (auto split: option.splits if_splits prod.splits)

lemma gap_runs_covered: "gap_runs c 0 = [] \<longleftrightarrow> list_all id c"
proof -
  have "s \<le> e" if "(s, e) \<in> set (gap_runs c 0)" for s e using gap_runs_maximal [of 0 c s e] that by simp
  then have "gap_runs c 0 = [] \<longleftrightarrow> concat (map (\<lambda>(s, e). [s..<Suc e]) (gap_runs c 0)) = []"
    by (cases "gap_runs c 0") (auto simp del: upt_Suc, metis not_less_eq_eq)
  also have "\<dots> \<longleftrightarrow> list_all id c"
    unfolding gap_runs_exact [OF le0] by (auto simp: filter_empty_conv list_all_length)
  finally show ?thesis .
qed

section \<open>Properties\<close>

text \<open>
  C13. On a walk of different commits from the merge base, the branch is tiled exactly when every
  commit lies in some attested range (after its base, up to its head), or one pinned head that left
  the walk was carried over; it is tiled exactly when no gap is named. Without a carry the gaps are
  the maximal runs of uncovered commits, each uncovered commit in exactly one, named from the commit
  before the run to its last. A carry comes from an attestation in scope whose verdict tiles the
  whole range.
\<close>

theorem range_tiling_exact:
  assumes "distinct walk" "merge_base \<notin> set walk" "merge_base \<noteq> []" "length walk < USIZE_MAX"
    and "t = compute_range_tiling (Some merge_base) (Some walk) chain rounds max_rounds resolver"
    and "covers = (\<lambda>k. \<exists>r\<in>set (attested_ranges chain). range_covers merge_base walk r k)"
  shows "(tiled t \<longleftrightarrow> (\<forall>k < length walk. covers k) \<or> carried t \<noteq> []) \<and>
    (gaps t = [] \<longleftrightarrow> tiled t) \<and>
    (carried t = [] \<longrightarrow> (\<exists>runs. gaps t = map (name_gap merge_base walk) runs \<and>
       concat (map (\<lambda>(s, e). [s..<Suc e]) runs) = filter (\<lambda>k. \<not> covers k) [0..<length walk] \<and>
       (\<forall>(s, e)\<in>set runs. s \<le> e \<and> e < length walk \<and> (s = 0 \<or> covers (s - 1)) \<and>
          (Suc e < length walk \<longrightarrow> covers (Suc e))))) \<and>
    (\<forall>(p, l)\<in>set (carried t). p \<notin> set walk \<and> (\<exists>att\<in>set chain. pinned_head_sha att = Some p) \<and>
       (\<exists>freshness. resolver = Some freshness \<and> freshness p = (True, l)))"
proof -
  define c where "c = covered_by (length walk) (valid_ranges merge_base walk (attested_ranges chain))"
  define carry where "carry = (if list_all id c then None
      else case resolver of None \<Rightarrow> None | Some freshness \<Rightarrow> find_carry walk freshness chain)"
  have len: "length c = length walk" by (simp add: c_def)
  have cov: "k < length walk \<Longrightarrow> c ! k \<longleftrightarrow> covers k" for k
    using valid_ranges_cover [OF assms(1,2,4)] by (simp add: c_def assms(6))
  then have all: "list_all id c \<longleftrightarrow> (\<forall>k < length walk. covers k)" by (simp add: list_all_length len)
  have t: "tiled t \<longleftrightarrow> list_all id c \<or> carry \<noteq> None" "carried t = (case carry of Some x \<Rightarrow> [x] | None \<Rightarrow> [])"
    "gaps t = map (name_gap merge_base walk) (gap_runs (case carry of Some _ \<Rightarrow> replicate (length walk) True | None \<Rightarrow> c) 0)"
    using assms(3) by (simp_all add: assms(5) compute_range_tiling_def Let_def carry_def c_def default_tiling_def
        cong: option.case_cong)
  have "gaps t = [] \<longleftrightarrow> tiled t"
    by (cases carry) (simp_all add: t gap_runs_covered list_all_length)
  moreover have "\<exists>runs. gaps t = map (name_gap merge_base walk) runs \<and>
       concat (map (\<lambda>(s, e). [s..<Suc e]) runs) = filter (\<lambda>k. \<not> covers k) [0..<length walk] \<and>
       (\<forall>(s, e)\<in>set runs. s \<le> e \<and> e < length walk \<and> (s = 0 \<or> covers (s - 1)) \<and>
          (Suc e < length walk \<longrightarrow> covers (Suc e)))" if "carried t = []"
  proof (intro exI [of _ "gap_runs c 0"] conjI)
    show "gaps t = map (name_gap merge_base walk) (gap_runs c 0)" using that by (simp add: t split: option.splits)
    show "concat (map (\<lambda>(s, e). [s..<Suc e]) (gap_runs c 0)) = filter (\<lambda>k. \<not> covers k) [0..<length walk]"
      unfolding gap_runs_exact [OF le0] len by (rule filter_cong) (simp_all add: cov)
    show "\<forall>(s, e)\<in>set (gap_runs c 0). s \<le> e \<and> e < length walk \<and> (s = 0 \<or> covers (s - 1)) \<and>
        (Suc e < length walk \<longrightarrow> covers (Suc e))"
      using gap_runs_maximal [of 0 c] cov by (fastforce simp: len)
  qed
  moreover have "\<forall>(p, l)\<in>set (carried t). p \<notin> set walk \<and> (\<exists>att\<in>set chain. pinned_head_sha att = Some p) \<and>
       (\<exists>freshness. resolver = Some freshness \<and> freshness p = (True, l))"
  proof (cases carry)
    case (Some x)
    then obtain freshness where f: "resolver = Some freshness" "find_carry walk freshness chain = Some (fst x, snd x)"
      by (auto simp: carry_def split: option.splits if_splits)
    from find_carry_Some [OF f(2)] walk_position_None [OF assms(1), of "fst x"] f(1) Some show ?thesis
      by (simp add: t split_beta)
  qed (simp add: t)
  ultimately show ?thesis using t(1,2) all by (auto split: option.splits)
qed

definition two_rounds :: "Attestation list" where
  "two_rounds =
     [\<lparr>reviewed_base_sha = Some ''b'', reviewed_head_sha = Some ''1'', pinned_head_sha = Some ''1''\<rparr>,
      \<lparr>reviewed_base_sha = Some ''1'', reviewed_head_sha = Some ''2'', pinned_head_sha = Some ''2''\<rparr>]"

theorem range_tiling_exact_witness:
  "tiled (compute_range_tiling (Some ''b'') (Some [''1'', ''2'']) two_rounds 2 3 None)"
proof -
  have "carried (compute_range_tiling (Some ''b'') (Some [''1'', ''2'']) two_rounds 2 3 None) = []"
    by (simp add: compute_range_tiling_def Let_def default_tiling_def)
  moreover have "\<exists>r\<in>set (attested_ranges two_rounds). range_covers ''b'' [''1'', ''2''] r k" if "k < 2" for k
    using that by (cases k) (auto simp: two_rounds_def attested_ranges_def attested_range_def range_covers_def
        less_Suc_eq numeral_2_eq_2)
  ultimately show ?thesis
    using range_tiling_exact [of "[''1'', ''2'']" "''b''" _ two_rounds 2 3 None, OF _ _ _ _ refl refl]
    by (simp add: USIZE_MAX_def)
qed

text \<open>
  Everything git cannot answer reads as not tiled: without a merge base, with an empty one, or
  without a walk, the branch is not tiled, whatever was attested; the rounds are still counted. In
  these answers no gap is named.
\<close>

theorem tiling_fails_closed:
  "mb \<in> {None, Some []} \<or> walk_out = None \<Longrightarrow>
     compute_range_tiling mb walk_out chain rounds max_rounds resolver =
       default_tiling\<lparr>rounds_used := rounds, rounds_max := max_rounds, rounds_exhausted := (1 \<le> rounds \<and> max_rounds \<le> rounds)\<rparr> \<and>
     \<not> tiled (compute_range_tiling mb walk_out chain rounds max_rounds resolver) \<and>
     gaps (compute_range_tiling mb walk_out chain rounds max_rounds resolver) = []"
  by (auto simp: compute_range_tiling_def Let_def default_tiling_def split: option.splits)

theorem tiling_fails_closed_witness:
  "\<not> tiled (compute_range_tiling (Some ''b'') None two_rounds 2 3 None)"
  using tiling_fails_closed [of "Some ''b''" None two_rounds 2 3 None] by blast

end
