(* ===== verification/Json.thy ===== *)
theory Json
  imports Fno_Prelude "HOL-Library.AList" "HOL-Library.Char_ord" "HOL-Library.List_Lexorder"
begin

text \<open>
  The \<open>serde_json\<close> values the backlog rows are kept as. The crate is built with
  \<open>preserve_order\<close>, so an object is the list of its members in insertion order: inserting under a
  key that is present replaces the value in place, a new key goes to the end, and
  \<open>shift_remove\<close> closes the gap without reordering. Integers are the numbers \<open>as_i64\<close> can see;
  any other number is kept as its text. An ordered map of vectors
  (\<open>BTreeMap<String, Vec<T>>\<close>) is a list sorted by key.
\<close>

section \<open>Values\<close>

datatype json =
    JNull
  | JBool bool
  | JInt int
  | JFloat string
  | JStr string
  | JArr "json list"
  | JObj "(string \<times> json) list"

type_synonym members = "(string \<times> json) list"

fun as_str :: "json \<Rightarrow> string option" where
  "as_str (JStr s) = Some s"
| "as_str _ = None"

fun as_array :: "json \<Rightarrow> json list option" where
  "as_array (JArr xs) = Some xs"
| "as_array _ = None"

fun as_i64 :: "json \<Rightarrow> int option" where
  "as_i64 (JInt i) = (if in_i64 i then Some i else None)"
| "as_i64 _ = None"

fun as_u64 :: "json \<Rightarrow> nat option" where
  "as_u64 (JInt i) = (if 0 \<le> i \<and> i < 2 ^ 64 then Some (nat i) else None)"
| "as_u64 _ = None"

fun as_object :: "json \<Rightarrow> members option" where
  "as_object (JObj kvs) = Some kvs"
| "as_object _ = None"

definition get_field :: "json \<Rightarrow> string \<Rightarrow> json option" where
  "get_field v k = Option.bind (as_object v) (\<lambda>kvs. map_of kvs k)"

text \<open>\<open>get(k).map(|v| !v.is_null()).unwrap_or(false)\<close>, the presence test used all over the store.\<close>

definition non_null :: "json \<Rightarrow> string \<Rightarrow> bool" where
  "non_null v k = (case get_field v k of None \<Rightarrow> False | Some x \<Rightarrow> x \<noteq> JNull)"

definition str_field :: "json \<Rightarrow> string \<Rightarrow> string option" where
  "str_field v k = Option.bind (get_field v k) as_str"

definition array_field :: "json \<Rightarrow> string \<Rightarrow> json list option" where
  "array_field v k = Option.bind (get_field v k) as_array"

definition has_key :: "json \<Rightarrow> string \<Rightarrow> bool" where
  "has_key v k = (get_field v k \<noteq> None)"

section \<open>Updates\<close>

text \<open>Every update in the store is behind an object test; a value that is not an object is left
  as it is.\<close>

fun set_field :: "string \<Rightarrow> json \<Rightarrow> json \<Rightarrow> json" where
  "set_field k x (JObj kvs) = JObj (AList.update k x kvs)"
| "set_field k x v = v"

fun shift_remove :: "string \<Rightarrow> json \<Rightarrow> json" where
  "shift_remove k (JObj kvs) = JObj (AList.delete k kvs)"
| "shift_remove k v = v"

text \<open>\<open>obj.entry(k).or_insert(x)\<close>\<close>

definition entry_or_insert :: "string \<Rightarrow> json \<Rightarrow> json \<Rightarrow> json" where
  "entry_or_insert k x v = (if has_key v k then v else set_field k x v)"

section \<open>Ordered maps of vectors\<close>

fun btree_push :: "string \<Rightarrow> 'a \<Rightarrow> (string \<times> 'a list) list \<Rightarrow> (string \<times> 'a list) list" where
  "btree_push k x [] = [(k, [x])]"
| "btree_push k x ((k', xs) # m) =
     (if k = k' then (k', xs @ [x]) # m
      else if k < k' then (k, [x]) # (k', xs) # m
      else (k', xs) # btree_push k x m)"

section \<open>Well-formed values\<close>

text \<open>What every value the parser builds satisfies: the keys of an object are distinct, at every
  depth.\<close>

fun json_ok :: "json \<Rightarrow> bool" where
  "json_ok (JArr xs) = (\<forall>x\<in>set xs. json_ok x)"
| "json_ok (JObj kvs) = (distinct (map fst kvs) \<and> (\<forall>p\<in>set kvs. json_ok (snd p)))"
| "json_ok _ = True"

section \<open>Reading after writing\<close>

named_theorems json_simps \<open>reading a field after an update\<close>

lemma as_str_Some [simp]: "as_str v = Some s \<longleftrightarrow> v = JStr s"
  by (cases v) auto

lemma as_array_Some [simp]: "as_array v = Some xs \<longleftrightarrow> v = JArr xs"
  by (cases v) auto

lemma as_object_Some: "as_object v = Some kvs \<longleftrightarrow> v = JObj kvs"
  by (cases v) auto

lemma is_object_set [json_simps]: "as_object (set_field k x v) = map_option (AList.update k x) (as_object v)"
  by (cases v) auto

lemma get_set [json_simps]:
  "get_field (set_field k x v) k' =
     (if k = k' \<and> as_object v \<noteq> None then Some x else get_field v k')"
  by (cases v) (auto simp: get_field_def update_conv')

lemma get_shift_remove [json_simps]:
  "get_field (shift_remove k v) k' = (if k = k' then None else get_field v k')"
  by (cases v) (auto simp: get_field_def delete_conv')

lemma is_object_shift_remove [json_simps]:
  "as_object (shift_remove k v) = map_option (AList.delete k) (as_object v)"
  by (cases v) auto

lemma get_entry_or_insert [json_simps]:
  "get_field (entry_or_insert k x v) k' =
     (if k = k' \<and> as_object v \<noteq> None \<and> get_field v k = None then Some x else get_field v k')"
  by (auto simp: entry_or_insert_def has_key_def get_set)

lemma is_object_entry_or_insert [json_simps]:
  "(as_object (entry_or_insert k x v) = None) = (as_object v = None)"
  by (simp add: entry_or_insert_def is_object_set)

lemma has_key_set [json_simps]:
  "has_key (set_field k x v) k' \<longleftrightarrow> (k = k' \<and> as_object v \<noteq> None) \<or> has_key v k'"
  by (auto simp: has_key_def get_set)

lemma get_field_object: "get_field v k = Some x \<Longrightarrow> as_object v \<noteq> None"
  by (auto simp: get_field_def Option.bind_eq_Some_conv)

lemma str_field_object: "str_field v k = Some s \<Longrightarrow> as_object v \<noteq> None"
  by (auto simp: str_field_def get_field_def Option.bind_eq_Some_conv)

text \<open>The derived readers see a field only through \<open>get_field\<close>.\<close>

lemma readers_cong:
  assumes "get_field v k = get_field w k"
  shows "str_field v k = str_field w k" "array_field v k = array_field w k"
    "non_null v k = non_null w k" "has_key v k = has_key w k"
  using assms by (auto simp: str_field_def array_field_def non_null_def has_key_def)

lemma readers_set [json_simps]:
  "as_object v \<noteq> None \<Longrightarrow> str_field (set_field k x v) k = as_str x"
  "as_object v \<noteq> None \<Longrightarrow> array_field (set_field k x v) k = as_array x"
  "as_object v \<noteq> None \<Longrightarrow> non_null (set_field k x v) k \<longleftrightarrow> x \<noteq> JNull"
  "k \<noteq> k' \<Longrightarrow> str_field (set_field k x v) k' = str_field v k'"
  "k \<noteq> k' \<Longrightarrow> array_field (set_field k x v) k' = array_field v k'"
  "k \<noteq> k' \<Longrightarrow> non_null (set_field k x v) k' = non_null v k'"
  by (auto simp: str_field_def array_field_def non_null_def get_set)

section \<open>Updates keep values well formed\<close>

lemma update_fst_distinct: "distinct (map fst kvs) \<Longrightarrow> distinct (map fst (AList.update k x kvs))"
  by (rule distinct_update)

lemma set_update_subset: "set (AList.update k x kvs) \<subseteq> insert (k, x) (set kvs)"
  by (induction kvs) auto

lemma set_field_ok: "json_ok v \<Longrightarrow> json_ok x \<Longrightarrow> json_ok (set_field k x v)"
  using set_update_subset by (cases v) (fastforce simp: distinct_update)+

lemma shift_remove_ok: "json_ok v \<Longrightarrow> json_ok (shift_remove k v)"
  by (cases v) (auto simp: AList.delete_eq intro: distinct_map_filter)

lemma entry_or_insert_ok: "json_ok v \<Longrightarrow> json_ok x \<Longrightarrow> json_ok (entry_or_insert k x v)"
  by (simp add: entry_or_insert_def set_field_ok)

lemma get_field_ok: "json_ok v \<Longrightarrow> get_field v k = Some x \<Longrightarrow> json_ok x"
  by (cases v) (auto simp: get_field_def dest!: map_of_SomeD)

lemma array_field_ok: "json_ok v \<Longrightarrow> array_field v k = Some xs \<Longrightarrow> x \<in> set xs \<Longrightarrow> json_ok x"
  by (auto simp: array_field_def Option.bind_eq_Some_conv dest: get_field_ok)

section \<open>Setting a field to what it holds\<close>

lemma update_same: "map_of kvs k = Some x \<Longrightarrow> distinct (map fst kvs) \<Longrightarrow> AList.update k x kvs = kvs"
proof (induction kvs)
  case (Cons p kvs)
  then show ?case by (cases p) (auto dest: map_of_SomeD)
qed simp

lemma set_field_same: "json_ok v \<Longrightarrow> get_field v k = Some x \<Longrightarrow> set_field k x v = v"
  by (cases v) (auto simp: get_field_def update_same)

lemma set_field_twice: "set_field k y (set_field k x v) = set_field k y v"
proof -
  have "AList.update k y (AList.update k x kvs) = AList.update k y kvs" for kvs :: members
    by (induction kvs) auto
  then show ?thesis by (cases v) auto
qed

lemma delete_absent: "map_of kvs k = None \<Longrightarrow> AList.delete k kvs = kvs"
  by (induction kvs) (auto simp: AList.delete_eq)

lemma shift_remove_absent: "get_field v k = None \<Longrightarrow> shift_remove k v = v"
  by (cases v) (auto simp: get_field_def delete_absent)

section \<open>The ordered map\<close>

definition btree_keys :: "(string \<times> 'a list) list \<Rightarrow> string list" where
  "btree_keys m = map fst m"

lemma btree_push_keys: "set (btree_keys (btree_push k x m)) = insert k (set (btree_keys m))"
  by (induction k x m rule: btree_push.induct) (auto simp: btree_keys_def)

lemma btree_push_sorted:
  "sorted_wrt (<) (btree_keys m) \<Longrightarrow> sorted_wrt (<) (btree_keys (btree_push k x m))"
proof (induction k x m rule: btree_push.induct)
  case (2 k x k' xs m)
  have "set (map fst (btree_push k x m)) = insert k (set (map fst m))"
    using btree_push_keys[of k x m] by (simp add: btree_keys_def)
  then show ?case using 2 by (force simp: btree_keys_def)
qed (simp add: btree_keys_def)

lemma map_of_btree_push:
  "sorted_wrt (<) (btree_keys m) \<Longrightarrow>
   map_of (btree_push k x m) k' =
     (if k = k' then Some ((case map_of m k of None \<Rightarrow> [] | Some xs \<Rightarrow> xs) @ [x]) else map_of m k')"
proof (induction k x m rule: btree_push.induct)
  case (2 k x k'' xs m)
  have "k < k'' \<Longrightarrow> map_of m k = None"
    using 2(2) by (force simp: btree_keys_def map_of_eq_None_iff)
  then show ?case using 2 by (auto simp: btree_keys_def)
qed auto

end
