(* ===== verification/Backlog_Graph.thy ===== *)
theory Backlog_Graph
  imports Json
begin

text \<open>
  Dependency readiness of the backlog graph, \<open>crates/fno-agents/src/graph_store.rs\<close>: the index of
  rows by id, the bounded chase of a superseded blocker to its successor, the readiness verdict every
  read overlays on the stored status, the children summaries, and the sweep that settles
  \<open>blocked_by\<close> edges and leaves a trail for a reopen. A row is a JSON value; rows that are not
  objects are carried along untouched. The clock the trail stamps is an argument.
\<close>

section \<open>Row helpers\<close>

type_synonym row_index = "string \<Rightarrow> json option"

definition entry_id :: "json \<Rightarrow> string option" where
  "entry_id e = str_field e ''id''"

definition is_dict :: "json \<Rightarrow> bool" where
  "is_dict v = (as_object v \<noteq> None)"

text \<open>Collected into a hash map, so of two rows with one id the later is found.\<close>

definition index_by_id :: "json list \<Rightarrow> row_index" where
  "index_by_id entries =
     map_of (rev (filter_map (\<lambda>e. if is_dict e then map_option (\<lambda>i. (i, e)) (entry_id e) else None)
       entries))"

section \<open>Readiness\<close>

definition OVERLAY_TERMINAL_STATUSES :: "string list" where
  "OVERLAY_TERMINAL_STATUSES = [''done'', ''superseded'', ''deferred'', ''in_review'']"

definition is_deferred_blocker :: "json \<Rightarrow> bool" where
  "is_deferred_blocker blocker =
     (non_null blocker ''deferred_at'' \<or> str_field blocker ''status'' = Some ''deferred'')"

definition MAX_CHAIN_HOPS :: nat where "MAX_CHAIN_HOPS = 8"

fun chase :: "row_index \<Rightarrow> nat \<Rightarrow> json \<Rightarrow> string \<Rightarrow> string + (json \<times> string)" where
  "chase by_id 0 current current_id = Inl current_id"
| "chase by_id (Suc hops) current current_id =
     (case str_field current ''superseded_by'' of
        None \<Rightarrow> Inr (current, current_id)
      | Some next_id \<Rightarrow>
          (case by_id next_id of
             None \<Rightarrow> Inl next_id
           | Some next_row \<Rightarrow> chase by_id hops next_row next_id))"

definition effective_blocker :: "json \<Rightarrow> string \<Rightarrow> row_index \<Rightarrow> string + (json \<times> string)" where
  "effective_blocker blocker blocker_id by_id = chase by_id MAX_CHAIN_HOPS blocker blocker_id"

text \<open>The verdict of one edge: \<open>None\<close> lets the loop of \<open>compute_readiness\<close> go on.\<close>

definition edge_readiness :: "row_index \<Rightarrow> json \<Rightarrow> (string \<times> string) option" where
  "edge_readiness by_id blocker_id =
     (case as_str blocker_id of
        None \<Rightarrow> None
      | Some bid \<Rightarrow>
          (case by_id bid of
             None \<Rightarrow> Some (''unknown-dep'', bid)
           | Some blocker \<Rightarrow>
               if non_null blocker ''completed_at'' then None
               else (case effective_blocker blocker bid by_id of
                       Inl last_id \<Rightarrow> Some (''unknown-dep'', last_id)
                     | Inr (effective, effective_id) \<Rightarrow>
                         if non_null effective ''completed_at'' then None
                         else if is_deferred_blocker effective
                         then Some (''blocked-by-deferred'', effective_id)
                         else Some (''blocked-by'', effective_id))))"

fun first_unreleased :: "row_index \<Rightarrow> json list \<Rightarrow> string \<times> string option" where
  "first_unreleased by_id [] = (''ready'', None)"
| "first_unreleased by_id (b # bs) =
     (case edge_readiness by_id b of
        Some (kind, who) \<Rightarrow> (kind, Some who)
      | None \<Rightarrow> first_unreleased by_id bs)"

definition compute_readiness :: "json \<Rightarrow> row_index \<Rightarrow> string \<times> string option" where
  "compute_readiness entry by_id =
     (case array_field entry ''blocked_by'' of
        None \<Rightarrow> (''ready'', None)
      | Some blockers \<Rightarrow> first_unreleased by_id blockers)"

definition readiness_status :: "json \<Rightarrow> row_index \<Rightarrow> string option \<times> string option" where
  "readiness_status entry by_id =
     (let status = str_field entry ''status'' in
      if \<exists>s\<in>set OVERLAY_TERMINAL_STATUSES. status = Some s then (status, None)
      else (let (kind, blocker_id) = compute_readiness entry by_id in
            if kind = ''ready'' then (status, None)
            else (Some ''blocked'',
                  Some (case blocker_id of Some i \<Rightarrow> kind @ '':'' @ i | None \<Rightarrow> kind))))"

definition opt_str :: "string option \<Rightarrow> json" where
  "opt_str s = (case s of None \<Rightarrow> JNull | Some t \<Rightarrow> JStr t)"

definition overlay_row :: "row_index \<Rightarrow> json \<Rightarrow> json" where
  "overlay_row by_id e =
     (if is_dict e
      then (let (status, reason) = readiness_status e by_id in
            set_field ''blocked_reason'' (opt_str reason) (set_field ''status'' (opt_str status) e))
      else e)"

definition apply_readiness_overlay :: "json list \<Rightarrow> json list" where
  "apply_readiness_overlay entries = map (overlay_row (index_by_id entries)) entries"

section \<open>Children summaries\<close>

definition CHILD_SUMMARY_FIELDS :: "string list" where
  "CHILD_SUMMARY_FIELDS = [''id'', ''title'', ''project'', ''status'']"

definition child_summary :: "row_index \<Rightarrow> json \<Rightarrow> json" where
  "child_summary by_id e =
     (let summary = JObj (map (\<lambda>f. (f, case get_field e f of None \<Rightarrow> JNull | Some v \<Rightarrow> v))
                           CHILD_SUMMARY_FIELDS);
          (status, reason) = readiness_status e by_id
      in set_field ''status'' (opt_str status) summary)"

definition collect_kids :: "json list \<Rightarrow> (string \<times> json list) list" where
  "collect_kids entries =
     (let ids = filter_map (\<lambda>e. if is_dict e then entry_id e else None) entries;
          by_id = index_by_id entries
      in fold (\<lambda>e kids.
           if \<not> is_dict e then kids
           else (case (entry_id e, str_field e ''parent'') of
                   (Some cid, Some parent) \<Rightarrow>
                     if parent \<notin> set ids \<or> cid = parent then kids
                     else btree_push parent (child_summary by_id e) kids
                 | _ \<Rightarrow> kids))
         entries [])"

text \<open>The first row with an id takes its summaries out of the map; a later row with the same id
  finds the emptied vector.\<close>

fun place_children :: "json list \<Rightarrow> (string \<times> json list) list \<Rightarrow> json list" where
  "place_children [] kids = []"
| "place_children (e # es) kids =
     (if \<not> is_dict e then e # place_children es kids
      else (case Option.bind (entry_id e) (map_of kids) of
              Some summaries \<Rightarrow>
                set_field ''children''
                  (JArr (sort_key (\<lambda>s. case str_field s ''id'' of None \<Rightarrow> [] | Some i \<Rightarrow> i) summaries)) e
                # place_children es (AList.update (the (entry_id e)) [] kids)
            | None \<Rightarrow> set_field ''children'' (JArr []) e # place_children es kids))"

definition compute_children :: "json list \<Rightarrow> json list" where
  "compute_children entries = place_children entries (collect_kids entries)"

section \<open>Settling edges\<close>

definition is_open_entry :: "json \<Rightarrow> bool" where
  "is_open_entry entry =
     (if non_null entry ''completed_at'' then False
      else (case str_field entry ''superseded_by'' of
              None \<Rightarrow> True
            | Some successor \<Rightarrow>
                if successor = [] then True
                else (case get_field entry ''supersession'' of
                        Some r \<Rightarrow> is_dict r \<and> \<not> non_null r ''verified_at''
                      | None \<Rightarrow> False)))"

definition json_receipt :: "string \<Rightarrow> string \<Rightarrow> string \<Rightarrow> string \<Rightarrow> json" where
  "json_receipt kind node blocker reason =
     JObj [(''kind'', JStr kind), (''node'', JStr node), (''blocker'', JStr blocker),
           (''reason'', JStr reason)]"

record settlement =
  settled :: "json list"
  changed :: bool
  receipts :: "json list"

definition settle_edge :: "row_index \<Rightarrow> string \<Rightarrow> json \<Rightarrow> settlement \<Rightarrow> settlement" where
  "settle_edge by_id node_id blocker_id st =
     (let keep = (\<lambda>st. st\<lparr>settled := settled st @ [blocker_id]\<rparr>);
          receipt = (\<lambda>kind reason st. case as_str blocker_id of
             None \<Rightarrow> st
           | Some bid \<Rightarrow> st\<lparr>receipts := receipts st @ [json_receipt kind node_id bid reason]\<rparr>)
      in case as_str blocker_id of
           None \<Rightarrow> keep st
         | Some bid \<Rightarrow>
             (case by_id bid of
                None \<Rightarrow> keep (receipt ''blocked_by_held'' ''blocker missing from graph'' st)
              | Some target \<Rightarrow>
                  if non_null target ''completed_at''
                  then (receipt ''blocked_by_pruned'' ''blocker done'' st)\<lparr>changed := True\<rparr>
                  else if str_field target ''superseded_by'' = None
                  then (if is_deferred_blocker target
                        then keep (receipt ''blocked_by_held'' ''blocker deferred'' st)
                        else keep st)
                  else (case effective_blocker target bid by_id of
                          Inl last_id \<Rightarrow>
                            keep (receipt ''blocked_by_held''
                                   (''supersession chain stops at '' @ last_id) st)
                        | Inr (effective, effective_id) \<Rightarrow>
                            if \<not> non_null effective ''completed_at''
                            then (let already_named =
                                        (\<exists>s\<in>set (settled st). as_str s = Some effective_id);
                                      st = (if already_named then st
                                            else st\<lparr>settled := settled st @ [JStr effective_id]\<rparr>)
                                  in (receipt ''blocked_by_rewired''
                                       ''blocker superseded; edge now names the live successor'' st)
                                       \<lparr>changed := True\<rparr>)
                            else (receipt ''blocked_by_pruned''
                                   (''superseded by '' @ effective_id @ '', which is done'') st)
                                   \<lparr>changed := True\<rparr>)))"

text \<open>One row of pass one: the settled list when an edge of the row changed, and the receipts.\<close>

definition settle_row :: "row_index \<Rightarrow> json \<Rightarrow> (string \<times> json list) option \<times> json list" where
  "settle_row by_id e =
     (if \<not> is_dict e \<or> \<not> is_open_entry e then (None, [])
      else (case array_field e ''blocked_by'' of
              None \<Rightarrow> (None, [])
            | Some blockers \<Rightarrow>
                if blockers = [] then (None, [])
                else (case entry_id e of
                        None \<Rightarrow> (None, [])
                      | Some node_id \<Rightarrow>
                          (let st = fold (settle_edge by_id node_id) blockers
                                      \<lparr>settled = [], changed = False, receipts = []\<rparr>
                           in (if changed st then Some (node_id, settled st) else None,
                               receipts st)))))"

text \<open>The reopen trail. The map from a blocker to the nodes whose edge to it was pruned is built
  over the receipts; the row of every such blocker then gets one trail row per node it does not yet
  name. A \<open>pruned_dependents\<close> that is not an array aborts (\<open>expect\<close>): \<open>None\<close>.\<close>

definition note_pruned :: "json \<Rightarrow> (string \<times> string list) list \<Rightarrow> (string \<times> string list) list" where
  "note_pruned r m =
     (if str_field r ''kind'' \<noteq> Some ''blocked_by_pruned'' then m
      else (case (str_field r ''node'', str_field r ''blocker'') of
              (Some node, Some blocker) \<Rightarrow>
                if \<exists>rows\<in>set_option (map_of m blocker). node \<in> set rows then m
                else btree_push blocker node m
            | _ \<Rightarrow> m))"

definition pruned_map :: "json list \<Rightarrow> (string \<times> string list) list" where
  "pruned_map rs = fold note_pruned rs []"

definition add_trail_row :: "string \<Rightarrow> string \<Rightarrow> json list \<Rightarrow> json list" where
  "add_trail_row now dependent rows =
     (if \<exists>r\<in>set rows. str_field r ''node'' = Some dependent then rows
      else rows @ [JObj [(''node'', JStr dependent), (''pruned_at'', JStr now)]])"

definition trail_row :: "(string \<times> string list) list \<Rightarrow> string \<Rightarrow> json \<Rightarrow> json option" where
  "trail_row pruned now e =
     (case Option.bind (entry_id e) (map_of pruned) of
        None \<Rightarrow> Some e
      | Some dependents \<Rightarrow>
          (let e = entry_or_insert ''pruned_dependents'' (JArr []) e
           in case array_field e ''pruned_dependents'' of
                None \<Rightarrow> None
              | Some rows \<Rightarrow>
                  Some (set_field ''pruned_dependents'' (JArr (fold (add_trail_row now) dependents rows))
                          e)))"

fun map_rows :: "(nat \<Rightarrow> json \<Rightarrow> json option) \<Rightarrow> nat \<Rightarrow> json list \<Rightarrow> json list option" where
  "map_rows f i [] = Some []"
| "map_rows f i (e # es) =
     Option.bind (f i e) (\<lambda>e'. map_option ((#) e') (map_rows f (Suc i) es))"

definition write_pruned_dependents_trail ::
  "(nat \<Rightarrow> string) \<Rightarrow> json list \<Rightarrow> json list \<Rightarrow> json list option" where
  "write_pruned_dependents_trail now entries rs =
     (let pruned = pruned_map rs
      in if pruned = [] then Some entries
         else map_rows (\<lambda>i. trail_row pruned (now i)) 0 entries)"

definition apply_settled :: "row_index \<Rightarrow> json \<Rightarrow> json" where
  "apply_settled by_id e =
     (case fst (settle_row by_id e) of
        None \<Rightarrow> e
      | Some (_, bs) \<Rightarrow> set_field ''blocked_by'' (JArr bs) e)"

definition settle_blocked_by_edges ::
  "(nat \<Rightarrow> string) \<Rightarrow> json list \<Rightarrow> (json list \<times> json list \<times> (string \<rightharpoonup> json list)) option" where
  "settle_blocked_by_edges now entries =
     (let by_id = index_by_id entries;
          rs = concat (map (\<lambda>e. snd (settle_row by_id e)) entries);
          changes = fold (\<lambda>e m. case fst (settle_row by_id e) of
                            None \<Rightarrow> m | Some (node_id, bs) \<Rightarrow> m(node_id \<mapsto> bs)) entries Map.empty
      in map_option (\<lambda>es. (es, rs, changes))
           (write_pruned_dependents_trail now (map (apply_settled by_id) entries) rs))"

end
