(* ===== verification/Backlog_Status.thy ===== *)
theory Backlog_Status
  imports Backlog_Graph Float_Model
begin

text \<open>
  The status derivation of the backlog graph, \<open>crates/fno-agents/src/graph_store.rs\<close>: the vocabulary
  tables, the lock and session-row clocks, the precedence of the stored facts over the plan rung, the
  container rollup, and the defaults pipeline every read goes through. The stamp parsers of
  \<open>chrono\<close>, the clock and the two time-to-live settings are the fields of an environment record;
  a stamp is an instant in nanoseconds.
\<close>

section \<open>Tables\<close>

definition PRIORITY_MIGRATION :: "(string \<times> string) list" where
  "PRIORITY_MIGRATION = [(''high'', ''p1''), (''medium'', ''p2''), (''low'', ''p3'')]"

definition STATUS_MIGRATION :: "(string \<times> string) list" where
  "STATUS_MIGRATION = [(''claimed'', ''in_progress'')]"

definition PHASE_MIGRATION :: "(string \<times> string) list" where
  "PHASE_MIGRATION = [(''do'', ''execute'')]"

definition TERMINAL_RUNGS :: "string list" where
  "TERMINAL_RUNGS = [''done'', ''superseded'']"

definition CLOSING_DEFER_KINDS :: "string list" where
  "CLOSING_DEFER_KINDS = [''wont_do'', ''retracted'']"

definition LEGACY_DEFER_PREFIX :: string where "LEGACY_DEFER_PREFIX = ''deferred:''"

definition STATUS_TO_RUNG :: "(string \<times> string) list" where
  "STATUS_TO_RUNG = [(''idea'', ''idea''), (''design'', ''design''), (''ready'', ''ready''),
     (''in_progress'', ''in_progress''), (''in_review'', ''in_review''), (''done'', ''done''),
     (''superseded'', ''superseded'')]"

definition PLAN_STATUS_ALIASES :: "(string \<times> string) list" where
  "PLAN_STATUS_ALIASES = [(''shipped'', ''in_review''), (''archived'', ''superseded''), (''stub'', ''idea'')]"

definition rung_to_graph_status :: "string \<Rightarrow> string" where
  "rung_to_graph_status rung =
     (if rung = ''none'' \<or> rung = ''idea'' then ''idea''
      else if rung = ''design'' then ''design''
      else ''ready'')"

definition is_quote :: "char \<Rightarrow> bool" where
  "is_quote c = ((of_char c :: nat) \<in> {34, 39})"

definition plan_rung_from_status :: "string \<Rightarrow> string" where
  "plan_rung_from_status raw =
     (let s = to_ascii_lowercase (rev (dropWhile is_quote (rev (dropWhile is_quote (trim raw)))))
      in if s = ''none'' then ''none''
         else let canonical = (case map_of PLAN_STATUS_ALIASES s of Some t \<Rightarrow> t | None \<Rightarrow> s)
              in case map_of STATUS_TO_RUNG canonical of Some rung \<Rightarrow> rung | None \<Rightarrow> ''unreadable'')"

definition supplied_plan_rung :: "json \<Rightarrow> (string \<rightharpoonup> string) \<Rightarrow> string" where
  "supplied_plan_rung entry rungs =
     (let raw = (if is_dict entry then Option.bind (entry_id entry) rungs else None)
      in plan_rung_from_status (case raw of None \<Rightarrow> ''none'' | Some r \<Rightarrow> r))"

section \<open>Session rows\<close>

definition nonblank_field :: "json \<Rightarrow> string \<Rightarrow> bool" where
  "nonblank_field v k = (case str_field v k of None \<Rightarrow> False | Some s \<Rightarrow> trim s \<noteq> [])"

definition is_open_phase_row :: "json \<Rightarrow> string \<Rightarrow> bool" where
  "is_open_phase_row row phase =
     (str_field row ''phase'' = Some phase \<and> nonblank_field row ''harness'' \<and>
      nonblank_field row ''session_id'' \<and> nonblank_field row ''started_at'' \<and>
      \<not> has_key row ''ended_at'')"

definition is_open_do_row :: "json \<Rightarrow> bool" where
  "is_open_do_row row = is_open_phase_row row ''execute''"

definition is_terminal_entry :: "json \<Rightarrow> bool" where
  "is_terminal_entry entry =
     (if \<not> is_dict entry then False
      else if (\<exists>s\<in>set TERMINAL_RUNGS. str_field entry ''status'' = Some s) \<or> non_null entry ''superseded_by''
      then True
      else if str_field entry ''status'' = Some ''deferred'' \<and>
              (\<exists>k\<in>set CLOSING_DEFER_KINDS. str_field entry ''deferred_kind'' = Some k)
      then True
      else (case str_field entry ''completed_at'' of
              None \<Rightarrow> False
            | Some c \<Rightarrow> c \<noteq> [] \<and> \<not> starts_with c LEGACY_DEFER_PREFIX))"

section \<open>Clocks\<close>

record graph_env =
  parse_from_rfc3339 :: "string \<Rightarrow> int option"
  parse_naive :: "string \<Rightarrow> int option"
  lock_ttl_hours :: fp
  do_ttl_hours :: fp

definition replace_z :: "string \<Rightarrow> string" where
  "replace_z ts = concat (map (\<lambda>c. if c = CHR ''Z'' then ''+00:00'' else [c]) ts)"

text \<open>\<open>TimeDelta::num_seconds\<close> truncates toward zero; the hours are compared as \<open>f64\<close>.\<close>

definition num_seconds :: "int \<Rightarrow> int" where
  "num_seconds d = (if d < 0 then - (- d div 1000000000) else d div 1000000000)"

definition past_ttl :: "int \<Rightarrow> int \<Rightarrow> fp \<Rightarrow> bool" where
  "past_ttl now stamp ttl =
     fp_lt ttl (fp_div f64_round (f64_round (of_int (num_seconds (now - stamp)))) (Fin 3600))"

definition lock_timestamp_quality :: "graph_env \<Rightarrow> int \<Rightarrow> json \<Rightarrow> string" where
  "lock_timestamp_quality env now entry =
     (if \<not> (non_null entry ''locked_by'' \<or> non_null entry ''session_id'') then ''fresh''
      else (let lock_time_str = (case str_field entry ''locked_at'' of
                  Some s \<Rightarrow> Some s | None \<Rightarrow> str_field entry ''claimed_at'')
            in case lock_time_str of
                 None \<Rightarrow> ''unreadable''
               | Some ts \<Rightarrow>
                   (case parse_from_rfc3339 env (replace_z ts) of
                      None \<Rightarrow> ''unreadable''
                    | Some stamp \<Rightarrow>
                        if past_ttl now stamp (lock_ttl_hours env) then ''old'' else ''fresh'')))"

fun scan_do_rows :: "graph_env \<Rightarrow> int \<Rightarrow> string option \<Rightarrow> json list \<Rightarrow> (string \<times> string) option" where
  "scan_do_rows env now unreadable_holder [] = map_option (\<lambda>h. (''unreadable'', h)) unreadable_holder"
| "scan_do_rows env now unreadable_holder (row # rows) =
     (if \<not> is_open_do_row row then scan_do_rows env now unreadable_holder rows
      else (let ts = (case str_field row ''started_at'' of None \<Rightarrow> [] | Some s \<Rightarrow> s);
                h = (case str_field row ''session_id'' of None \<Rightarrow> [] | Some s \<Rightarrow> s)
            in case parse_from_rfc3339 env (replace_z ts) of
                 None \<Rightarrow> scan_do_rows env now
                           (case unreadable_holder of None \<Rightarrow> Some h | Some u \<Rightarrow> Some u) rows
               | Some stamp \<Rightarrow>
                   if past_ttl now stamp (do_ttl_hours env) then Some (''old'', h)
                   else scan_do_rows env now unreadable_holder rows))"

definition open_do_quality_and_holder :: "graph_env \<Rightarrow> int \<Rightarrow> json \<Rightarrow> (string \<times> string) option" where
  "open_do_quality_and_holder env now entry =
     Option.bind (array_field entry ''sessions'') (scan_do_rows env now None)"

definition open_do_row_quality :: "graph_env \<Rightarrow> int \<Rightarrow> json \<Rightarrow> string" where
  "open_do_row_quality env now entry =
     (case open_do_quality_and_holder env now entry of Some (quality, _) \<Rightarrow> quality | None \<Rightarrow> ''fresh'')"

definition parse_rfc3339_stamp :: "graph_env \<Rightarrow> string \<Rightarrow> int option" where
  "parse_rfc3339_stamp env raw =
     (let raw = trim raw
      in if raw = [] then None
         else case parse_from_rfc3339 env raw of
                Some stamp \<Rightarrow> Some stamp
              | None \<Rightarrow> parse_naive env raw)"

definition reopen_outranks_stamps :: "graph_env \<Rightarrow> string option \<Rightarrow> string option list \<Rightarrow> bool" where
  "reopen_outranks_stamps env reopened kid_completed =
     (case reopened of
        None \<Rightarrow> False
      | Some raw \<Rightarrow>
          if trim raw = [] then False
          else (case parse_rfc3339_stamp env raw of
                  None \<Rightarrow> True
                | Some t \<Rightarrow>
                    \<not> list_ex (\<lambda>closed. case Option.bind closed (parse_rfc3339_stamp env) of
                                  None \<Rightarrow> False | Some c \<Rightarrow> t \<le> c) kid_completed))"

definition has_own_plan_work :: "json \<Rightarrow> bool" where
  "has_own_plan_work entry =
     (let has_pr = (Option.bind (get_field entry ''pr_number'') as_i64 \<noteq> None \<or>
            (case array_field entry ''additional_prs'' of
               None \<Rightarrow> False
             | Some rows \<Rightarrow> list_ex (\<lambda>r. Option.bind (get_field r ''number'') as_i64 \<noteq> None) rows))
      in nonblank_field entry ''plan_path'' \<and> \<not> has_pr)"

section \<open>Row normalization\<close>

definition normalize_lock_row :: "json \<Rightarrow> json" where
  "normalize_lock_row e =
     (if \<not> is_dict e then e
      else (let e = (if has_key e ''locked_by'' then e
                     else set_field ''locked_by''
                            (if non_null e ''completed_at'' then JNull
                             else (case get_field e ''session_id'' of None \<Rightarrow> JNull | Some s \<Rightarrow> s)) e);
                resolved = non_null e ''locked_by'';
                e = (if resolved
                     then set_field ''session_id''
                            (case get_field e ''locked_by'' of None \<Rightarrow> JNull | Some v \<Rightarrow> v) e
                     else if \<not> non_null e ''completed_at'' then set_field ''session_id'' JNull e
                     else e)
            in if \<not> resolved
               then set_field ''locked_by_harness_session'' JNull (set_field ''locked_by_harness'' JNull e)
               else e))"

definition normalize_lock_fields :: "json list \<Rightarrow> json list" where
  "normalize_lock_fields entries = map normalize_lock_row entries"

definition migrate_field :: "string \<Rightarrow> (string \<times> string) list \<Rightarrow> json \<Rightarrow> json" where
  "migrate_field k table e =
     (case Option.bind (str_field e k) (map_of table) of
        None \<Rightarrow> e
      | Some to \<Rightarrow> set_field k (JStr to) e)"

definition normalize_legacy_deferred_row :: "json \<Rightarrow> json" where
  "normalize_legacy_deferred_row e =
     (case str_field e ''completed_at'' of
        None \<Rightarrow> e
      | Some c \<Rightarrow>
          if starts_with c LEGACY_DEFER_PREFIX
          then entry_or_insert ''deferred_reason'' (JStr [])
                 (set_field ''completed_at'' JNull
                   (set_field ''deferred_at'' (JStr (drop (length LEGACY_DEFER_PREFIX) c)) e))
          else e)"

definition normalize_legacy_deferred :: "json list \<Rightarrow> json list" where
  "normalize_legacy_deferred entries = map normalize_legacy_deferred_row entries"

section \<open>The derivation of one row\<close>

definition or_null :: "json option \<Rightarrow> json" where
  "or_null v = (case v of None \<Rightarrow> JNull | Some x \<Rightarrow> x)"

definition ownership_defect :: "string \<Rightarrow> json \<Rightarrow> json \<Rightarrow> json" where
  "ownership_defect kind node_id who =
     JObj [(''kind'', JStr kind), (''node_id'', node_id), (''holder'', who),
           (''liveness'', JStr ''unverified'')]"

definition stamp_defect :: "string option \<Rightarrow> (string \<times> string) option \<Rightarrow> json \<Rightarrow> json" where
  "stamp_defect lock_quality do_quality obj =
     (case lock_quality of
        Some quality \<Rightarrow>
          if quality = ''old'' \<or> quality = ''unreadable''
          then set_field ''ownership_defect''
                 (ownership_defect
                   (if quality = ''old'' then ''stale-active-owner-unverified''
                    else ''lock-timestamp-unreadable'')
                   (or_null (get_field obj ''id'')) (or_null (get_field obj ''locked_by''))) obj
          else obj
      | None \<Rightarrow>
          (case do_quality of
             None \<Rightarrow> obj
           | Some (quality, h) \<Rightarrow>
               set_field ''ownership_defect''
                 (ownership_defect
                   (if quality = ''old'' then ''stale-open-do-unverified''
                    else ''do-row-timestamp-unreadable'')
                   (or_null (get_field obj ''id'')) (if h \<noteq> [] then JStr h else JNull)) obj))"

definition derive_row :: "graph_env \<Rightarrow> int \<Rightarrow> (string \<rightharpoonup> string) option \<Rightarrow> json \<Rightarrow> json" where
  "derive_row env now plan_rungs e =
     (if entry_id e = None then e
      else (let completed = non_null e ''completed_at'';
                superseded = non_null e ''superseded_by'';
                deferred = non_null e ''deferred_at'';
                locked = non_null e ''locked_by'';
                lock_quality = (if locked then Some (lock_timestamp_quality env now e) else None);
                has_pr = non_null e ''pr_number'';
                do_quality = (if \<not> locked then open_do_quality_and_holder env now e else None);
                open_do = (case array_field e ''sessions'' of
                             None \<Rightarrow> False | Some rows \<Rightarrow> list_ex is_open_do_row rows);
                rung = (if \<not> locked \<and> \<not> open_do \<and> \<not> completed \<and> \<not> superseded \<and> \<not> deferred \<and> \<not> has_pr
                        then map_option (supplied_plan_rung e) plan_rungs else None);
                obj = shift_remove ''ownership_defect'' (set_field ''blocked_reason'' JNull e)
            in if completed then set_field ''status'' (JStr ''done'') obj
               else if superseded then set_field ''status'' (JStr ''superseded'') obj
               else if deferred then set_field ''status'' (JStr ''deferred'') obj
               else let obj = stamp_defect lock_quality do_quality obj
                    in if has_pr then set_field ''status'' (JStr ''in_review'') obj
                       else if locked \<or> open_do then set_field ''status'' (JStr ''in_progress'') obj
                       else case rung of
                              Some derived \<Rightarrow> set_field ''status'' (JStr (rung_to_graph_status derived)) obj
                            | None \<Rightarrow> obj))"

section \<open>The container rollup\<close>

definition row_ids :: "json list \<Rightarrow> string list" where
  "row_ids entries = filter_map (\<lambda>e. if is_dict e then entry_id e else None) entries"

definition add_child :: "string list \<Rightarrow> nat \<times> json \<Rightarrow> (string \<times> nat list) list \<Rightarrow> (string \<times> nat list) list" where
  "add_child ids ie m =
     (if \<not> is_dict (snd ie) then m
      else (case (str_field (snd ie) ''parent'', entry_id (snd ie)) of
              (Some parent, Some cid) \<Rightarrow>
                if parent \<in> set ids \<and> cid \<noteq> parent then btree_push parent (fst ie) m else m
            | _ \<Rightarrow> m))"

definition children_by_parent :: "json list \<Rightarrow> (string \<times> nat list) list" where
  "children_by_parent entries = fold (add_child (row_ids entries)) (enumerate 0 entries) []"

definition id_index :: "json list \<Rightarrow> string \<Rightarrow> nat option" where
  "id_index entries =
     map_of (rev (filter_map (\<lambda>(i, e). if is_dict e then map_option (\<lambda>k. (k, i)) (entry_id e) else None)
       (enumerate 0 entries)))"

lemma id_index_row_ids: "id_index entries k = Some i \<Longrightarrow> k \<in> set (row_ids entries)"
proof -
  assume "id_index entries k = Some i"
  then have "(k, i) \<in> set (filter_map (\<lambda>(i, e). if is_dict e then map_option (\<lambda>k. (k, i)) (entry_id e) else None)
      (enumerate 0 entries))"
    by (auto simp: id_index_def dest: map_of_SomeD)
  then have "\<exists>e\<in>set entries. is_dict e \<and> entry_id e = Some k"
    by (force simp: filter_map_in in_set_enumerate_eq split: if_splits)
  then obtain e where "e \<in> set entries" "is_dict e" "entry_id e = Some k" by blast
  then show ?thesis by (auto simp: row_ids_def filter_map_in intro!: bexI[of _ e])
qed

text \<open>The walk up the parents, cut where an id repeats.\<close>

function depth_of :: "(string \<times> nat list) list \<Rightarrow> json list \<Rightarrow> string list \<Rightarrow> string \<Rightarrow> nat" where
  "depth_of cbp entries visiting i =
     (if i \<in> set visiting then 0
      else (case id_index entries i of
              None \<Rightarrow> 0
            | Some idx \<Rightarrow>
                (case str_field (entries ! idx) ''parent'' of
                   None \<Rightarrow> 0
                 | Some parent \<Rightarrow>
                     if map_of cbp parent = None then 0
                     else 1 + depth_of cbp entries (i # visiting) parent)))"
  by pat_completeness auto

termination
proof (relation "measure (\<lambda>(cbp, entries, visiting, i). card (set (row_ids entries) - set visiting))")
  fix cbp :: "(string \<times> nat list) list" and entries visiting i idx p
  assume "i \<notin> set visiting" "id_index entries i = Some idx"
  then have "i \<in> set (row_ids entries) - set visiting" by (simp add: id_index_row_ids)
  then show "((cbp, entries, i # visiting, p), cbp, entries, visiting, i)
    \<in> measure (\<lambda>(cbp, entries, visiting, i). card (set (row_ids entries) - set visiting))"
    by (auto intro!: psubset_card_mono simp del: card_Diff_insert)
qed simp

declare depth_of.simps [simp del]

definition rollup_order :: "(string \<times> nat list) list \<Rightarrow> json list \<Rightarrow> string list" where
  "rollup_order cbp entries =
     map fst (sort_key (\<lambda>(pid, d). - int d) (map (\<lambda>(pid, _). (pid, depth_of cbp entries [] pid)) cbp))"

definition set_row :: "nat \<Rightarrow> (json \<Rightarrow> json) \<Rightarrow> json list \<Rightarrow> json list" where
  "set_row i f entries = entries[i := f (entries ! i)]"

definition kid_rows :: "json list \<Rightarrow> nat list \<Rightarrow> json list" where
  "kid_rows entries kids = filter_map (\<lambda>ci. if ci < length entries then Some (entries ! ci) else None) kids"

definition live_status :: "string option \<Rightarrow> bool" where
  "live_status s = (s = Some ''in_review'' \<or> s = Some ''in_progress'')"

definition rollup_children :: "bool \<Rightarrow> string option list \<Rightarrow> string option" where
  "rollup_children holds child_statuses =
     (if child_statuses \<noteq> [] \<and> list_all (\<lambda>s. s = Some ''done'') child_statuses
      then (if holds then None else Some ''done'')
      else if list_ex live_status child_statuses then Some ''in_progress''
      else if list_ex (\<lambda>s. s = Some ''ready'') child_statuses then Some ''ready''
      else (let open_kids = filter (\<lambda>s. \<not> (s = Some ''done'' \<or> s = Some ''superseded'')) child_statuses
            in if open_kids \<noteq> [] \<and> list_all (\<lambda>s. s = Some ''blocked'') open_kids
               then Some ''blocked'' else None))"

definition rollup_status :: "graph_env \<Rightarrow> json \<Rightarrow> json list \<Rightarrow> string option" where
  "rollup_status env parent kids =
     (if non_null parent ''completed_at'' then Some ''done''
      else if non_null parent ''superseded_by'' then Some ''superseded''
      else if non_null parent ''deferred_at'' then Some ''deferred''
      else (let child_statuses = map (\<lambda>c. str_field c ''status'') kids;
                own_work_live = live_status (str_field parent ''status'');
                kid_stamps = map (\<lambda>k. str_field k ''completed_at'') kids;
                holds = (own_work_live \<or> has_own_plan_work parent \<or>
                         reopen_outranks_stamps env (str_field parent ''reopened_at'') kid_stamps)
            in rollup_children holds child_statuses))"

definition rollup_one :: "graph_env \<Rightarrow> (string \<times> nat list) list \<Rightarrow> string \<Rightarrow> json list \<Rightarrow> json list" where
  "rollup_one env cbp pid entries =
     (case id_index entries pid of
        None \<Rightarrow> entries
      | Some pidx \<Rightarrow>
          (case rollup_status env (entries ! pidx) (kid_rows entries (the (map_of cbp pid))) of
             None \<Rightarrow> entries
           | Some s \<Rightarrow> set_row pidx (set_field ''status'' (JStr s)) entries))"

text \<open>The rows before the rollup: locks, vocabulary and legacy sentinel normalized, each row's own
  status derived.\<close>

definition derive_statuses ::
  "graph_env \<Rightarrow> (nat \<Rightarrow> int) \<Rightarrow> (string \<rightharpoonup> string) option \<Rightarrow> json list \<Rightarrow> json list" where
  "derive_statuses env now plan_rungs entries =
     (let entries = normalize_lock_fields entries;
          entries = map (\<lambda>e. migrate_field ''status'' STATUS_MIGRATION
                              (migrate_field ''priority'' PRIORITY_MIGRATION e)) entries;
          entries = normalize_legacy_deferred entries
      in map (\<lambda>(i, e). derive_row env (now i) plan_rungs e) (enumerate 0 entries))"

definition recompute_statuses_with_plan_rungs ::
  "graph_env \<Rightarrow> (nat \<Rightarrow> int) \<Rightarrow> (string \<rightharpoonup> string) option \<Rightarrow> json list \<Rightarrow> json list" where
  "recompute_statuses_with_plan_rungs env now plan_rungs entries =
     (let cbp = children_by_parent (normalize_lock_fields entries);
          entries = derive_statuses env now plan_rungs entries
      in fold (rollup_one env cbp) (rollup_order cbp entries) entries)"

definition recompute_statuses :: "graph_env \<Rightarrow> (nat \<Rightarrow> int) \<Rightarrow> json list \<Rightarrow> json list" where
  "recompute_statuses env now entries = recompute_statuses_with_plan_rungs env now None entries"

section \<open>The defaults pipeline\<close>

definition migrate_session_row :: "json \<Rightarrow> json" where
  "migrate_session_row row = migrate_field ''phase'' PHASE_MIGRATION row"

definition migrate_row :: "json \<Rightarrow> json" where
  "migrate_row e =
     (if \<not> is_dict e then e
      else (let e = (case get_field e ''_status'' of
                       None \<Rightarrow> e
                     | Some old \<Rightarrow> shift_remove ''_status'' (entry_or_insert ''status'' old e));
                e = migrate_field ''priority'' PRIORITY_MIGRATION e;
                e = migrate_field ''status'' STATUS_MIGRATION e
            in case array_field e ''sessions'' of
                 None \<Rightarrow> e
               | Some rows \<Rightarrow> set_field ''sessions'' (JArr (map migrate_session_row rows)) e))"

definition HEAD_DEFAULTS :: "(string \<times> json) list" where
  "HEAD_DEFAULTS =
     [(''parent'', JNull), (''tags'', JArr []), (''type'', JStr ''feature''), (''project'', JNull),
      (''cwd'', JNull), (''priority'', JStr ''p2''), (''rank'', JNull), (''domain'', JStr ''code''),
      (''blocked_by'', JArr []), (''session_id'', JNull), (''locked_by_harness'', JNull),
      (''locked_by_harness_session'', JNull)]"

definition TAIL_DEFAULTS :: "(string \<times> json) list" where
  "TAIL_DEFAULTS =
     [(''completed_at'', JNull), (''status'', JStr ''ready''), (''slug'', JNull), (''children'', JArr []),
      (''has_brief'', JBool False), (''roadmap_id'', JNull), (''vision_path'', JNull),
      (''details'', JNull), (''cost_usd'', JNull), (''cost_sessions'', JArr []), (''size'', JNull),
      (''batch'', JNull), (''plan_path'', JNull), (''pr_number'', JNull), (''pr_url'', JNull),
      (''additional_prs'', JArr []), (''merge_status'', JNull), (''artifact_url'', JNull),
      (''completion_note'', JNull), (''progress_notes'', JArr []), (''collisions_acknowledged'', JArr []),
      (''related'', JArr []), (''supersedes'', JArr []), (''superseded_by'', JNull),
      (''supersession'', JNull), (''source_kind'', JStr ''organic''), (''source_project'', JNull),
      (''source_session_id'', JNull), (''source_harness'', JNull), (''source_cwd'', JNull),
      (''source_node_id'', JNull), (''source_plan_path'', JNull), (''source_inbox_msg'', JNull),
      (''request_origin'', JNull), (''origin_evidence'', JNull), (''spawned_by_session'', JNull),
      (''spawned_by_harness'', JNull), (''spawned_by_cwd'', JNull), (''sessions'', JArr []),
      (''decisions'', JArr []), (''queued_at'', JNull), (''queued_reason'', JNull)]"

definition legacy_locked_at :: "graph_env \<Rightarrow> json \<Rightarrow> json" where
  "legacy_locked_at env e =
     (case str_field e ''claimed_at'' of
        None \<Rightarrow> JNull
      | Some s \<Rightarrow> if trim s \<noteq> [] \<and> parse_from_rfc3339 env (replace_z s) \<noteq> None then JStr s else JNull)"

definition default_row :: "graph_env \<Rightarrow> json \<Rightarrow> json" where
  "default_row env e =
     (if \<not> is_dict e then e
      else (let e = fold (\<lambda>(k, v). entry_or_insert k v) HEAD_DEFAULTS e;
                e = (if has_key e ''locked_at'' then e
                     else set_field ''locked_at'' (legacy_locked_at env e) e);
                e = fold (\<lambda>(k, v). entry_or_insert k v) TAIL_DEFAULTS e
            in if has_key e ''current_state'' \<and> array_field e ''progress_notes'' = Some []
               then shift_remove ''progress_notes'' e else e))"

definition apply_defaults :: "graph_env \<Rightarrow> bool \<Rightarrow> json list \<Rightarrow> json list" where
  "apply_defaults env keep_malformed entries =
     (let entries = map (default_row env \<circ> migrate_row) entries;
          entries = normalize_lock_fields entries;
          entries = apply_readiness_overlay entries;
          entries = compute_children entries
      in if keep_malformed then entries else filter is_dict entries)"

end
