(* ===== verification/Backlog_Props.thy ===== *)
theory Backlog_Props
  imports Backlog_Graph
begin

text \<open>
  What the readiness verdict means and what the edge sweep keeps. The supersession chase is compared
  with a step relation on rows; the sweep is shown to keep every row's verdict, kind and name
  included, and to have nothing left to do when it is run again.
\<close>

section \<open>The chase as a relation\<close>

definition supersession_step :: "row_index \<Rightarrow> json \<times> string \<Rightarrow> json \<times> string \<Rightarrow> bool" where
  "supersession_step by_id p q \<longleftrightarrow>
     str_field (fst p) ''superseded_by'' = Some (snd q) \<and> by_id (snd q) = Some (fst q)"

lemma steps_Suc:
  "(supersession_step by_id ^^ Suc m) (e, i) q \<longleftrightarrow>
     (\<exists>j r. str_field e ''superseded_by'' = Some j \<and> by_id j = Some r \<and>
       (supersession_step by_id ^^ m) (r, j) q)" (is "_ \<longleftrightarrow> ?rhs")
proof
  assume "(supersession_step by_id ^^ Suc m) (e, i) q"
  then obtain p where "supersession_step by_id (e, i) p" "(supersession_step by_id ^^ m) p q"
    by (blast dest: relpowp_Suc_D2)
  then show ?rhs by (cases p) (auto simp: supersession_step_def)
next
  assume ?rhs
  then obtain j r where "supersession_step by_id (e, i) (r, j)" "(supersession_step by_id ^^ m) (r, j) q"
    by (auto simp: supersession_step_def)
  then show "(supersession_step by_id ^^ Suc m) (e, i) q" by (rule relpowp_Suc_I2)
qed

lemma chase_Inr:
  "chase by_id n e i = Inr q \<longleftrightarrow>
     (\<exists>m<n. (supersession_step by_id ^^ m) (e, i) q \<and> str_field (fst q) ''superseded_by'' = None)"
proof (induction by_id n e i rule: chase.induct)
  case (2 by_id n e i)
  show ?case
  proof (cases "str_field e ''superseded_by''")
    case None
    then show ?thesis
      by (auto simp: Ex_less_Suc2 steps_Suc simp del: relpowp.simps(2))
  next
    case (Some j)
    show ?thesis
    proof (cases "by_id j")
      case None
      then show ?thesis using Some
        by (auto simp: Ex_less_Suc2 steps_Suc simp del: relpowp.simps(2))
    next
      case (Some r)
      then show ?thesis using 2[OF \<open>str_field e _ = Some j\<close> Some] \<open>str_field e _ = Some j\<close>
        by (auto simp: Ex_less_Suc2 steps_Suc simp del: relpowp.simps(2))
    qed
  qed
qed simp

lemma chase_indexed: "chase by_id n e i = Inr (e', i') \<Longrightarrow> by_id i = Some e \<Longrightarrow> by_id i' = Some e'"
  by (induction by_id n e i rule: chase.induct) (auto split: option.splits)

lemma chase_unsuperseded: "chase by_id n e i = Inr (e', i') \<Longrightarrow> str_field e' ''superseded_by'' = None"
  by (induction by_id n e i rule: chase.induct) (auto split: option.splits)

lemma chase_stop: "str_field e ''superseded_by'' = None \<Longrightarrow> effective_blocker e i by_id = Inr (e, i)"
  by (simp add: effective_blocker_def MAX_CHAIN_HOPS_def numeral_eq_Suc)

section \<open>The readiness verdict\<close>

text \<open>A blocker is released when its row is done, or the row its supersession chain ends in within
  seven steps is.\<close>

definition released :: "row_index \<Rightarrow> string \<Rightarrow> bool" where
  "released by_id bid \<longleftrightarrow>
     (\<exists>blocker. by_id bid = Some blocker \<and>
       (non_null blocker ''completed_at'' \<or>
        (\<exists>m<MAX_CHAIN_HOPS. \<exists>q. (supersession_step by_id ^^ m) (blocker, bid) q \<and>
           str_field (fst q) ''superseded_by'' = None \<and> non_null (fst q) ''completed_at'')))"

lemma edge_released: "edge_readiness by_id b = None \<longleftrightarrow> (\<forall>bid. as_str b = Some bid \<longrightarrow> released by_id bid)"
proof (cases "as_str b")
  case (Some bid)
  have eff: "effective_blocker r bid by_id = Inr q \<longleftrightarrow>
      (\<exists>m<MAX_CHAIN_HOPS. (supersession_step by_id ^^ m) (r, bid) q \<and>
        str_field (fst q) ''superseded_by'' = None)" for r q
    by (simp add: effective_blocker_def chase_Inr)
  have "edge_readiness by_id b = None \<longleftrightarrow> (\<exists>r. by_id bid = Some r \<and> (non_null r ''completed_at'' \<or>
      (\<exists>q. effective_blocker r bid by_id = Inr q \<and> non_null (fst q) ''completed_at'')))"
    using Some by (auto simp: edge_readiness_def split: option.splits sum.splits prod.splits if_splits)
  also have "\<dots> \<longleftrightarrow> released by_id bid"
    unfolding released_def eff by blast
  finally show ?thesis using Some by simp
qed (simp add: edge_readiness_def)

lemma edge_kinds:
  "edge_readiness by_id b = Some (k, w) \<Longrightarrow> k \<in> {''unknown-dep'', ''blocked-by'', ''blocked-by-deferred''}"
  by (auto simp: edge_readiness_def split: option.splits sum.splits prod.splits if_splits)

lemma first_unreleased_ready:
  "fst (first_unreleased by_id bs) = ''ready'' \<longleftrightarrow> (\<forall>b\<in>set bs. edge_readiness by_id b = None)"
  by (induction bs) (auto split: option.splits dest: edge_kinds)

lemma first_unreleased_append:
  "first_unreleased by_id (xs @ ys) =
     (if \<forall>x\<in>set xs. edge_readiness by_id x = None then first_unreleased by_id ys
      else first_unreleased by_id xs)"
  by (induction xs) (auto split: option.splits)

lemma readiness_ready_iff:
  "fst (compute_readiness e by_id) = ''ready'' \<longleftrightarrow>
     (\<forall>bs bid. array_field e ''blocked_by'' = Some bs \<longrightarrow> JStr bid \<in> set bs \<longrightarrow> released by_id bid)"
  by (auto simp: compute_readiness_def first_unreleased_ready edge_released split: option.splits)

text \<open>
  C20. A row is ready exactly when each blocker it names is released: the blocker's row exists, and it is
  done or the chain of successors that replaced it ends, in fewer than eight steps, in a row that is
  done. A missing row, a chain that leaves the graph, and a chain that is too long or cyclic all
  hold it.
\<close>

theorem readiness_spec:
  "fst (compute_readiness e by_id) = ''ready'' \<longleftrightarrow>
     list_all (\<lambda>b. case as_str b of None \<Rightarrow> True | Some bid \<Rightarrow> released by_id bid)
       (case array_field e ''blocked_by'' of None \<Rightarrow> [] | Some bs \<Rightarrow> bs)"
  by (auto simp: compute_readiness_def first_unreleased_ready edge_released list_all_iff split: option.splits)

section \<open>The overlay\<close>

lemma readiness_status_cases:
  obtains (final) "\<exists>s\<in>set OVERLAY_TERMINAL_STATUSES. str_field e ''status'' = Some s"
      "readiness_status e ix = (str_field e ''status'', None)"
    | (ready) "fst (compute_readiness e ix) = ''ready''" "readiness_status e ix = (str_field e ''status'', None)"
    | (held) reason where "readiness_status e ix = (Some ''blocked'', Some reason)" "fst (compute_readiness e ix) \<noteq> ''ready''"
  by (cases "\<exists>s\<in>set OVERLAY_TERMINAL_STATUSES. str_field e ''status'' = Some s";
      cases "compute_readiness e ix"; cases "fst (compute_readiness e ix) = ''ready''")
    (auto simp: readiness_status_def Let_def)

text \<open>
  The overlay shows no held row as workable. Of the rows it returns, one whose status is none of done,
  superseded, deferred, in review and blocked has every blocker it names released.
\<close>

theorem overlay_never_shows_held_row:
  assumes "e' \<in> set (apply_readiness_overlay es)" "is_dict e'"
    "str_field e' ''status'' = Some s" "s \<notin> set (''blocked'' # OVERLAY_TERMINAL_STATUSES)"
    "array_field e' ''blocked_by'' = Some bs" "JStr bid \<in> set bs"
  shows "released (index_by_id es) bid"
proof -
  obtain e where e: "e \<in> set es" "e' = overlay_row (index_by_id es) e"
    using assms(1) by (auto simp: apply_readiness_overlay_def)
  have dict: "is_dict e" using assms(2) e(2) by (auto simp: overlay_row_def split: if_splits)
  obtain st reason where st: "readiness_status e (index_by_id es) = (st, reason)" by (cases "readiness_status e (index_by_id es)")
  have row: "e' = set_field ''blocked_reason'' (opt_str reason) (set_field ''status'' (opt_str st) e)"
    using e(2) dict st by (simp add: overlay_row_def)
  have "str_field e' ''status'' = st" "array_field e' ''blocked_by'' = array_field e ''blocked_by''"
    using row dict by (simp_all add: str_field_def array_field_def get_set is_dict_def is_object_set opt_str_def split: option.split)
  then have "fst (compute_readiness e (index_by_id es)) = ''ready''" "array_field e ''blocked_by'' = Some bs"
    using st assms(3-5) by (cases rule: readiness_status_cases[of e "index_by_id es"]; auto)+
  then show ?thesis using assms(6) readiness_ready_iff by blast
qed

theorem overlay_never_shows_held_row_witness:
  "released (index_by_id [JObj [(''id'', JStr ''a''), (''status'', JStr ''ready''), (''blocked_by'', JArr [JStr ''b''])],
      JObj [(''id'', JStr ''b''), (''superseded_by'', JStr ''c'')], JObj [(''id'', JStr ''c''), (''completed_at'', JStr ''t'')]]) ''b''"
proof (rule overlay_never_shows_held_row)
  let ?e = "JObj [(''id'', JStr ''a''), (''status'', JStr ''ready''), (''blocked_by'', JArr [JStr ''b'']), (''blocked_reason'', JNull)]"
  show "?e \<in> set (apply_readiness_overlay [JObj [(''id'', JStr ''a''), (''status'', JStr ''ready''), (''blocked_by'', JArr [JStr ''b''])],
      JObj [(''id'', JStr ''b''), (''superseded_by'', JStr ''c'')], JObj [(''id'', JStr ''c''), (''completed_at'', JStr ''t'')]])"
    by code_simp
  show "is_dict ?e" "str_field ?e ''status'' = Some ''ready''"
    "''ready'' \<notin> set (''blocked'' # OVERLAY_TERMINAL_STATUSES)"
    "array_field ?e ''blocked_by'' = Some [JStr ''b'']" by code_simp+
qed simp

section \<open>What the verdict reads of a row\<close>

definition view_fields :: "string list" where
  "view_fields = [''id'', ''status'', ''completed_at'', ''superseded_by'', ''deferred_at'', ''supersession'']"

definition same_view :: "json \<Rightarrow> json \<Rightarrow> bool" where
  "same_view a b \<longleftrightarrow> is_dict a = is_dict b \<and> (\<forall>k\<in>set view_fields. get_field a k = get_field b k)"

lemma same_view_refl [simp]: "same_view a a"
  by (simp add: same_view_def)

lemma same_view_trans: "same_view a b \<Longrightarrow> same_view b c \<Longrightarrow> same_view a c"
  by (simp add: same_view_def)

lemma same_viewD:
  assumes "same_view a b"
  shows "is_dict a = is_dict b" "entry_id a = entry_id b"
    "str_field a ''superseded_by'' = str_field b ''superseded_by''"
    "non_null a ''completed_at'' = non_null b ''completed_at''"
    "is_deferred_blocker a = is_deferred_blocker b" "is_open_entry a = is_open_entry b"
proof -
  have fields: "get_field a ''id'' = get_field b ''id''" "get_field a ''status'' = get_field b ''status''"
    "get_field a ''completed_at'' = get_field b ''completed_at''"
    "get_field a ''superseded_by'' = get_field b ''superseded_by''"
    "get_field a ''deferred_at'' = get_field b ''deferred_at''"
    "get_field a ''supersession'' = get_field b ''supersession''"
    using assms by (auto simp: same_view_def view_fields_def)
  show "is_dict a = is_dict b" using assms by (simp add: same_view_def)
  show "entry_id a = entry_id b"
    "str_field a ''superseded_by'' = str_field b ''superseded_by''"
    "non_null a ''completed_at'' = non_null b ''completed_at''"
    unfolding entry_id_def non_null_def str_field_def fields by (rule refl)+
  show "is_deferred_blocker a = is_deferred_blocker b"
    unfolding is_deferred_blocker_def non_null_def str_field_def fields by (rule refl)
  show "is_open_entry a = is_open_entry b"
    unfolding is_open_entry_def non_null_def str_field_def fields by (rule refl)
qed

lemma set_field_view:
  "k \<notin> set view_fields \<Longrightarrow> same_view v (set_field k x v)"
  by (auto simp: same_view_def is_dict_def json_simps)

lemma entry_or_insert_view: "k \<notin> set view_fields \<Longrightarrow> same_view v (entry_or_insert k x v)"
  by (simp add: entry_or_insert_def set_field_view)

definition same_index :: "row_index \<Rightarrow> row_index \<Rightarrow> bool" where
  "same_index p q \<longleftrightarrow> (\<forall>i. rel_option same_view (p i) (q i))"

lemma index_Cons:
  "index_by_id (e # es) i =
     (case index_by_id es i of Some r \<Rightarrow> Some r
      | None \<Rightarrow> if is_dict e \<and> entry_id e = Some i then Some e else None)"
  by (auto simp: index_by_id_def map_add_def split: option.splits)

lemma same_index_rows:
  "list_all2 same_view es es' \<Longrightarrow> same_index (index_by_id es) (index_by_id es')"
proof (induction rule: list_all2_induct)
  case Nil
  then show ?case by (simp add: same_index_def index_by_id_def)
next
  case (Cons a as b bs)
  have "rel_option same_view (index_by_id (a # as) i) (index_by_id (b # bs) i)" for i
  proof -
    have "rel_option same_view (index_by_id as i) (index_by_id bs i)"
      using Cons.IH by (simp add: same_index_def)
    then show ?thesis
      using same_viewD(1,2)[OF Cons(1)] Cons(1)
      by (cases "index_by_id as i"; cases "index_by_id bs i") (simp_all add: index_Cons)
  qed
  then show ?case by (simp add: same_index_def)
qed

lemma chase_view:
  assumes "same_index p q" "same_view e e'"
  shows "rel_sum (=) (rel_prod same_view (=)) (chase p n e i) (chase q n e' i)"
  using assms(2)
proof (induction n arbitrary: e e' i)
  case (Suc n)
  have sup: "str_field e ''superseded_by'' = str_field e' ''superseded_by''"
    using Suc.prems by (rule same_viewD)
  show ?case
  proof (cases "str_field e' ''superseded_by''")
    case (Some j)
    have "rel_option same_view (p j) (q j)" using assms(1) by (simp add: same_index_def)
    then show ?thesis using Suc sup Some by (cases "p j"; cases "q j") auto
  qed (use Suc sup in simp)
qed simp

lemma edge_view:
  assumes "same_index p q"
  shows "edge_readiness p b = edge_readiness q b"
proof (cases "as_str b")
  case (Some bid)
  have rel: "rel_option same_view (p bid) (q bid)" using assms by (simp add: same_index_def)
  show ?thesis
  proof (cases "p bid")
    case None
    then show ?thesis using rel Some by (auto simp: edge_readiness_def)
  next
    case (Some r)
    then obtain r' where r': "q bid = Some r'" "same_view r r'" using rel by (auto simp: option_rel_Some1)
    have "rel_sum (=) (rel_prod same_view (=)) (effective_blocker r bid p) (effective_blocker r' bid q)"
      unfolding effective_blocker_def using chase_view[OF assms r'(2)] .
    then show ?thesis
      using Some \<open>as_str b = Some bid\<close> r' same_viewD(4)[OF r'(2)]
      by (cases "effective_blocker r bid p"; cases "effective_blocker r' bid q")
        (auto simp: edge_readiness_def same_viewD(4,5) split: prod.splits)
  qed
qed (simp add: edge_readiness_def)

lemma first_unreleased_view: "same_index p q \<Longrightarrow> first_unreleased p bs = first_unreleased q bs"
  by (induction bs) (simp_all add: edge_view split: option.split)

section \<open>One edge of the sweep\<close>

text \<open>An edge the sweep leaves alone: nothing it names is done or has a live successor.\<close>

definition steady :: "row_index \<Rightarrow> json \<Rightarrow> bool" where
  "steady by_id b \<longleftrightarrow>
     (\<forall>bid r. b = JStr bid \<longrightarrow> by_id bid = Some r \<longrightarrow>
        \<not> non_null r ''completed_at'' \<and>
        (str_field r ''superseded_by'' = None \<or> (\<exists>l. effective_blocker r bid by_id = Inl l)))"

lemma steady_view:
  assumes "same_index p q" "steady p b"
  shows "steady q b"
  unfolding steady_def
proof (intro allI impI)
  fix bid r assume b: "b = JStr bid" and r: "q bid = Some r"
  have "rel_option same_view (p bid) (q bid)" using assms(1) by (simp add: same_index_def)
  then obtain r' where r': "p bid = Some r'" "same_view r' r" using r by (auto simp: option_rel_Some2)
  have "rel_sum (=) (rel_prod same_view (=)) (effective_blocker r' bid p) (effective_blocker r bid q)"
    unfolding effective_blocker_def using chase_view[OF assms(1) r'(2)] .
  then show "\<not> non_null r ''completed_at'' \<and>
      (str_field r ''superseded_by'' = None \<or> (\<exists>l. effective_blocker r bid q = Inl l))"
    using assms(2) b r' same_viewD(3,4)[OF r'(2)]
    by (cases "effective_blocker r bid q") (auto simp: steady_def)
qed

text \<open>The three things that can happen to an edge.\<close>

lemma settle_edge_cases:
  obtains (kept) "steady by_id b" "settled (settle_edge by_id n b st) = settled st @ [b]"
      "changed (settle_edge by_id n b st) = changed st"
    | (pruned) "edge_readiness by_id b = None" "settled (settle_edge by_id n b st) = settled st"
      "changed (settle_edge by_id n b st)"
    | (rewired) j where "edge_readiness by_id b = edge_readiness by_id (JStr j)"
      "edge_readiness by_id (JStr j) \<noteq> None" "steady by_id (JStr j)"
      "settled (settle_edge by_id n b st) =
         (if JStr j \<in> set (settled st) then settled st else settled st @ [JStr j])"
      "changed (settle_edge by_id n b st)"
proof (cases "as_str b")
  case None
  then show thesis using that(1) by (cases b) (auto simp: settle_edge_def steady_def)
next
  case (Some bid)
  show thesis
  proof (cases "by_id bid")
    case None
    then show thesis using Some that(1) by (auto simp: settle_edge_def steady_def)
  next
    case (Some t)
    note ctx = \<open>as_str b = Some bid\<close> Some
    consider (finished) "non_null t ''completed_at''"
      | (plain) "\<not> non_null t ''completed_at''" "str_field t ''superseded_by'' = None"
      | (stuck) l y where "\<not> non_null t ''completed_at''" "str_field t ''superseded_by'' = Some y"
          "effective_blocker t bid by_id = Inl l"
      | (moved) e j y where "\<not> non_null t ''completed_at''" "str_field t ''superseded_by'' = Some y"
          "effective_blocker t bid by_id = Inr (e, j)"
      by (cases "effective_blocker t bid by_id"; cases "str_field t ''superseded_by''") auto
    then show thesis
    proof cases
      case finished
      then show thesis using ctx that(2) by (simp add: settle_edge_def edge_readiness_def)
    next
      case plain
      then show thesis using ctx that(1) by (simp add: settle_edge_def steady_def)
    next
      case stuck
      then show thesis using ctx that(1) by (simp add: settle_edge_def steady_def)
    next
      case moved
      have j: "by_id j = Some e" "str_field e ''superseded_by'' = None"
        using moved(3) ctx(2) by (auto simp: effective_blocker_def dest: chase_indexed chase_unsuperseded)
      show thesis
      proof (cases "non_null e ''completed_at''")
        case True
        then show thesis using ctx moved that(2) by (simp add: settle_edge_def edge_readiness_def)
      next
        case False
        have "settled (settle_edge by_id n b st) =
            (if JStr j \<in> set (settled st) then settled st else settled st @ [JStr j])"
          using ctx moved False by (auto simp: settle_edge_def Let_def)
        then show thesis
          using ctx moved False j that(3)[of j]
          by (simp add: settle_edge_def edge_readiness_def steady_def chase_stop)
      qed
    qed
  qed
qed

section \<open>One row of the sweep\<close>

lemma settle_fold_readiness:
  "first_unreleased by_id (settled (fold (settle_edge by_id n) bs st)) =
     first_unreleased by_id (settled st @ bs)"
proof (induction bs arbitrary: st)
  case (Cons b bs)
  have "first_unreleased by_id (settled (settle_edge by_id n b st) @ bs) =
      first_unreleased by_id (settled st @ b # bs)"
    by (cases rule: settle_edge_cases[of by_id b n st])
      (auto simp: first_unreleased_append split: option.splits)
  then show ?case using Cons by simp
qed simp

lemma settle_fold_steady:
  "\<forall>b\<in>set (settled st). steady by_id b \<Longrightarrow>
   \<forall>b\<in>set (settled (fold (settle_edge by_id n) bs st)). steady by_id b"
proof (induction bs arbitrary: st)
  case (Cons b bs)
  have "\<forall>c\<in>set (settled (settle_edge by_id n b st)). steady by_id c"
    using Cons.prems by (cases rule: settle_edge_cases[of by_id b n st]) auto
  then show ?case using Cons.IH by simp
qed simp

lemma changed_mono: "changed st \<Longrightarrow> changed (fold (settle_edge by_id n) bs st)"
proof (induction bs arbitrary: st)
  case (Cons b bs)
  have "changed (settle_edge by_id n b st)"
    using Cons.prems by (cases rule: settle_edge_cases[of by_id b n st]) auto
  then show ?case using Cons.IH by simp
qed simp

lemma settle_fold_unchanged:
  "\<not> changed (fold (settle_edge by_id n) bs st) \<Longrightarrow> \<forall>b\<in>set bs. steady by_id b"
proof (induction bs arbitrary: st)
  case (Cons b bs)
  then have "\<not> changed (settle_edge by_id n b st)" using changed_mono by fastforce
  then have "steady by_id b" by (cases rule: settle_edge_cases[of by_id b n st]) auto
  then show ?case using Cons by simp
qed simp

lemma settle_edge_steady:
  assumes "steady by_id b"
  shows "changed (settle_edge by_id n b st) = changed st"
    "\<exists>rs. receipts (settle_edge by_id n b st) = receipts st @ rs \<and>
       (\<forall>r\<in>set rs. str_field r ''kind'' = Some ''blocked_by_held'')"
  using assms
  by (cases b; auto simp: settle_edge_def steady_def json_receipt_def str_field_def get_field_def
      split: option.splits sum.splits)+

lemma settle_fold_idle:
  assumes "\<forall>b\<in>set bs. steady by_id b"
  shows "changed (fold (settle_edge by_id n) bs st) = changed st \<and>
    (\<exists>rs. receipts (fold (settle_edge by_id n) bs st) = receipts st @ rs \<and>
       (\<forall>r\<in>set rs. str_field r ''kind'' = Some ''blocked_by_held''))"
  using assms
proof (induction bs arbitrary: st)
  case (Cons b bs)
  let ?st = "settle_edge by_id n b st"
  obtain rs where rs: "receipts ?st = receipts st @ rs" "\<forall>r\<in>set rs. str_field r ''kind'' = Some ''blocked_by_held''"
    using settle_edge_steady(2)[of by_id b] Cons.prems by fastforce
  obtain rs' where "changed (fold (settle_edge by_id n) bs ?st) = changed ?st"
    "receipts (fold (settle_edge by_id n) bs ?st) = receipts ?st @ rs'"
    "\<forall>r\<in>set rs'. str_field r ''kind'' = Some ''blocked_by_held''"
    using Cons by fastforce
  then show ?case using rs settle_edge_steady(1)[of by_id b n st] Cons.prems
    by (auto intro!: exI[of _ "rs @ rs'"])
qed simp

lemma settle_row_Some:
  assumes "fst (settle_row by_id e) = Some (n, bs')"
  obtains bs where "is_dict e" "array_field e ''blocked_by'' = Some bs" "entry_id e = Some n"
    "bs' = settled (fold (settle_edge by_id n) bs \<lparr>settled = [], changed = False, receipts = []\<rparr>)"
  using assms by (auto simp: settle_row_def Let_def split: if_splits option.splits)

lemma apply_settled_view: "same_view e (apply_settled by_id e)"
  by (auto simp: apply_settled_def set_field_view view_fields_def split: option.splits)

lemma apply_settled_readiness:
  "compute_readiness (apply_settled by_id e) by_id = compute_readiness e by_id"
proof (cases "fst (settle_row by_id e)")
  case (Some p)
  obtain n bs' where p: "p = (n, bs')" by (cases p)
  with Some obtain bs where bs: "is_dict e" "array_field e ''blocked_by'' = Some bs"
    "bs' = settled (fold (settle_edge by_id n) bs \<lparr>settled = [], changed = False, receipts = []\<rparr>)"
    by (auto elim!: settle_row_Some)
  have "array_field (apply_settled by_id e) ''blocked_by'' = Some bs'"
    using Some p bs(1) by (simp add: apply_settled_def json_simps is_dict_def)
  then show ?thesis
    using bs by (simp add: compute_readiness_def settle_fold_readiness)
qed (simp add: apply_settled_def)

definition row_steady :: "row_index \<Rightarrow> json \<Rightarrow> bool" where
  "row_steady by_id e \<longleftrightarrow>
     (is_dict e \<longrightarrow> is_open_entry e \<longrightarrow> entry_id e \<noteq> None \<longrightarrow>
      (\<forall>bs. array_field e ''blocked_by'' = Some bs \<longrightarrow> (\<forall>b\<in>set bs. steady by_id b)))"

lemma apply_settled_steady: "row_steady by_id (apply_settled by_id e)"
proof (cases "fst (settle_row by_id e)")
  case (Some p)
  obtain n bs' where p: "p = (n, bs')" by (cases p)
  with Some obtain bs where bs: "is_dict e"
    "bs' = settled (fold (settle_edge by_id n) bs \<lparr>settled = [], changed = False, receipts = []\<rparr>)"
    by (auto elim!: settle_row_Some)
  have "array_field (apply_settled by_id e) ''blocked_by'' = Some bs'"
    using Some p bs(1) by (simp add: apply_settled_def json_simps is_dict_def)
  then show ?thesis
    using bs(2) settle_fold_steady[of "\<lparr>settled = [], changed = False, receipts = []\<rparr>"]
    by (simp add: row_steady_def)
next
  case None
  then have "row_steady by_id e"
    by (auto simp: row_steady_def settle_row_def Let_def split: if_splits option.splits
        dest: settle_fold_unchanged)
  then show ?thesis using None by (simp add: apply_settled_def)
qed

lemma row_steady_view:
  assumes "same_index p q" "same_view e e'" "get_field e ''blocked_by'' = get_field e' ''blocked_by''"
    "row_steady p e"
  shows "row_steady q e'"
  using assms steady_view[OF assms(1)] same_viewD[OF assms(2)]
  by (auto simp: row_steady_def array_field_def)

lemma row_steady_settle:
  assumes "row_steady by_id e"
  shows "fst (settle_row by_id e) = None"
    "r \<in> set (snd (settle_row by_id e)) \<Longrightarrow> str_field r ''kind'' = Some ''blocked_by_held''"
proof -
  have *: "fst (settle_row by_id e) = None \<and>
      (\<forall>r\<in>set (snd (settle_row by_id e)). str_field r ''kind'' = Some ''blocked_by_held'')"
  proof (cases "is_dict e \<and> is_open_entry e \<and> entry_id e \<noteq> None \<and> array_field e ''blocked_by'' \<noteq> None")
    case True
    then obtain n bs where "entry_id e = Some n" "array_field e ''blocked_by'' = Some bs" by auto
    with True assms settle_fold_idle[of bs by_id n "\<lparr>settled = [], changed = False, receipts = []\<rparr>"]
    show ?thesis by (auto simp: settle_row_def row_steady_def Let_def)
  qed (auto simp: settle_row_def split: option.splits)
  then show "fst (settle_row by_id e) = None" by simp
  show "r \<in> set (snd (settle_row by_id e)) \<Longrightarrow> str_field r ''kind'' = Some ''blocked_by_held''"
    using * by simp
qed

section \<open>The trail\<close>

lemma map_rows_rel:
  "map_rows f i es = Some es' \<Longrightarrow> list_all2 (\<lambda>e e'. \<exists>j. f j e = Some e') es es'"
  by (induction f i es arbitrary: es' rule: map_rows.induct) (auto simp: Option.bind_eq_Some_conv)

lemma map_rows_None: "map_rows f i es = None \<longleftrightarrow> (\<exists>j<length es. f (i + j) (es ! j) = None)"
proof (induction es arbitrary: i)
  case (Cons e es)
  show ?case by (cases "f i e") (auto simp: Cons.IH Ex_less_Suc2)
qed simp

lemma trail_row_view:
  assumes "trail_row pruned now e = Some e'"
  shows "same_view e e' \<and> get_field e ''blocked_by'' = get_field e' ''blocked_by''"
  using assms
  by (auto simp: trail_row_def Let_def json_simps
      intro: same_view_trans[OF entry_or_insert_view set_field_view] split: option.splits)
    (auto simp: view_fields_def intro!: same_view_trans[OF entry_or_insert_view set_field_view])

lemma trail_view:
  assumes "write_pruned_dependents_trail now es rs = Some es'"
  shows "list_all2 (\<lambda>e e'. same_view e e' \<and> get_field e ''blocked_by'' = get_field e' ''blocked_by'') es es'"
proof (cases "pruned_map rs = []")
  case False
  then have "list_all2 (\<lambda>e e'. \<exists>j. trail_row (pruned_map rs) (now j) e = Some e') es es'"
    using assms by (auto simp: write_pruned_dependents_trail_def Let_def dest: map_rows_rel)
  then show ?thesis by (rule list_all2_mono) (auto dest: trail_row_view)
qed (use assms in \<open>auto simp: write_pruned_dependents_trail_def list_all2_same\<close>)

lemma pruned_map_held: "\<forall>r\<in>set rs. str_field r ''kind'' = Some ''blocked_by_held'' \<Longrightarrow> pruned_map rs = []"
proof -
  assume held: "\<forall>r\<in>set rs. str_field r ''kind'' = Some ''blocked_by_held''"
  have "fold note_pruned rs m = m" for m
    using held by (induction rs arbitrary: m) (simp_all add: note_pruned_def)
  then show ?thesis by (simp add: pruned_map_def)
qed

section \<open>The whole sweep\<close>

lemma settle_rows:
  assumes "settle_blocked_by_edges now es = Some (es', rs, ch)"
  shows "list_all2 (\<lambda>e e'. same_view e e' \<and>
      get_field (apply_settled (index_by_id es) e) ''blocked_by'' = get_field e' ''blocked_by'') es es'"
proof -
  have "list_all2 (\<lambda>e e'. same_view e e' \<and> get_field e ''blocked_by'' = get_field e' ''blocked_by'')
      (map (apply_settled (index_by_id es)) es) es'"
    using assms by (auto simp: settle_blocked_by_edges_def Let_def intro: trail_view)
  then show ?thesis
    unfolding list_all2_map1
    by (rule list_all2_mono) (auto intro: same_view_trans[OF apply_settled_view])
qed

lemma settle_index:
  assumes "settle_blocked_by_edges now es = Some (es', rs, ch)"
  shows "same_index (index_by_id es) (index_by_id es')"
  by (rule same_index_rows, rule list_all2_mono[OF settle_rows[OF assms]]) simp


text \<open>One graph with an edge of every kind: released, superseded by a live row, deferred, missing.\<close>

definition sample_graph :: "json list" where
  "sample_graph =
     [JObj [(''id'', JStr ''n''), (''blocked_by'', JArr [JStr ''d'', JStr ''s'', JStr ''p'', JStr ''x''])],
      JObj [(''id'', JStr ''d''), (''completed_at'', JStr ''t'')],
      JObj [(''id'', JStr ''s''), (''superseded_by'', JStr ''l'')],
      JObj [(''id'', JStr ''l'')],
      JObj [(''id'', JStr ''p''), (''deferred_at'', JStr ''t'')]]"

lemma sample_settles: "map_option fst (settle_blocked_by_edges (\<lambda>_. ''now'') sample_graph) \<noteq> None"
  by code_simp

text \<open>
  Settling the edges changes no verdict: every row of the swept graph, read against the swept graph,
  is ready, blocked or held by exactly the row that held it before.
\<close>

theorem settle_keeps_readiness:
  assumes "settle_blocked_by_edges now es = Some (es', rs, ch)"
  shows "map (\<lambda>e. compute_readiness e (index_by_id es')) es' =
         map (\<lambda>e. compute_readiness e (index_by_id es)) es"
proof -
  have "compute_readiness e' (index_by_id es') = compute_readiness e (index_by_id es)"
    if row: "get_field (apply_settled (index_by_id es) e) ''blocked_by'' = get_field e' ''blocked_by''" for e e'
  proof -
    have "array_field e' ''blocked_by'' = array_field (apply_settled (index_by_id es) e) ''blocked_by''"
      using row by (simp add: array_field_def)
    then have "compute_readiness e' (index_by_id es') =
        compute_readiness (apply_settled (index_by_id es) e) (index_by_id es)"
      by (simp add: compute_readiness_def first_unreleased_view[OF settle_index[OF assms]]
          split: option.split)
    then show ?thesis by (simp add: apply_settled_readiness)
  qed
  then have "list_all2 (\<lambda>e e'. compute_readiness e (index_by_id es) =
      compute_readiness e' (index_by_id es')) es es'"
    using settle_rows[OF assms] by (auto elim!: list_all2_mono)
  then show ?thesis by (simp add: list_all2_conv_all_nth list_eq_iff_nth_eq)
qed

theorem settle_keeps_readiness_witness:
  "\<exists>es' rs ch. settle_blocked_by_edges (\<lambda>_. ''now'') sample_graph = Some (es', rs, ch) \<and>
     map (\<lambda>e. compute_readiness e (index_by_id es')) es' =
       map (\<lambda>e. compute_readiness e (index_by_id sample_graph)) sample_graph"
proof -
  obtain es' rs ch where "settle_blocked_by_edges (\<lambda>_. ''now'') sample_graph = Some (es', rs, ch)"
    using sample_settles by (cases "settle_blocked_by_edges (\<lambda>_. ''now'') sample_graph") auto
  then show ?thesis using settle_keeps_readiness by blast
qed

text \<open>
  A second sweep over the swept rows returns them as they are, with no change to apply.
\<close>

theorem settle_idempotent:
  assumes "settle_blocked_by_edges now es = Some (es', rs, ch)"
  shows "\<exists>rs'. settle_blocked_by_edges now' es' = Some (es', rs', Map.empty)"
proof -
  let ?p = "index_by_id es" and ?q = "index_by_id es'"
  have steady: "row_steady ?q e'" if row: "e' \<in> set es'" for e'
  proof -
    obtain e where "same_view e e'"
      "get_field (apply_settled ?p e) ''blocked_by'' = get_field e' ''blocked_by''"
      using settle_rows[OF assms] row by (auto simp: list_all2_conv_all_nth in_set_conv_nth)
    moreover have "same_view (apply_settled ?p e) e'"
      using calculation(1) apply_settled_view[of e ?p]
      by (auto simp: same_view_def)
    ultimately show ?thesis
      using row_steady_view[OF settle_index[OF assms] _ _ apply_settled_steady] by blast
  qed
  then have same: "map (apply_settled ?q) es' = es'"
    by (intro map_idI) (simp add: apply_settled_def row_steady_settle)
  have "fold (\<lambda>e m. case fst (settle_row ?q e) of
      None \<Rightarrow> m | Some (n, bs) \<Rightarrow> m(n \<mapsto> bs)) xs m = m" if "set xs \<subseteq> set es'" for xs m
    using that steady by (induction xs arbitrary: m) (simp_all add: row_steady_settle)
  moreover have "pruned_map (concat (map (\<lambda>e. snd (settle_row ?q e)) es')) = []"
    using steady by (intro pruned_map_held) (auto dest: row_steady_settle(2))
  ultimately show ?thesis
    by (simp add: settle_blocked_by_edges_def write_pruned_dependents_trail_def same)
qed

theorem settle_idempotent_witness:
  "\<exists>es' rs ch rs'. settle_blocked_by_edges (\<lambda>_. ''now'') sample_graph = Some (es', rs, ch) \<and>
     settle_blocked_by_edges (\<lambda>_. ''later'') es' = Some (es', rs', Map.empty)"
proof -
  obtain es' rs ch where "settle_blocked_by_edges (\<lambda>_. ''now'') sample_graph = Some (es', rs, ch)"
    using sample_settles by (cases "settle_blocked_by_edges (\<lambda>_. ''now'') sample_graph") auto
  then show ?thesis using settle_idempotent by blast
qed

section \<open>What the trail records\<close>

definition prunes :: "json \<Rightarrow> string \<Rightarrow> string \<Rightarrow> bool" where
  "prunes r n b \<longleftrightarrow> str_field r ''kind'' = Some ''blocked_by_pruned'' \<and>
     str_field r ''node'' = Some n \<and> str_field r ''blocker'' = Some b"

lemma note_pruned_spec:
  assumes "sorted_wrt (<) (btree_keys m)"
  shows "sorted_wrt (<) (btree_keys (note_pruned r m))"
    "(\<exists>ns. map_of (note_pruned r m) b = Some ns \<and> n \<in> set ns) \<longleftrightarrow>
       prunes r n b \<or> (\<exists>ns. map_of m b = Some ns \<and> n \<in> set ns)"
  using assms
  by (auto simp: note_pruned_def prunes_def btree_push_sorted map_of_btree_push split: option.splits)

lemma note_pruned_nonempty:
  assumes "sorted_wrt (<) (btree_keys m)" "\<And>b ns. map_of m b = Some ns \<Longrightarrow> ns \<noteq> []"
    "map_of (note_pruned r m) b = Some ns"
  shows "ns \<noteq> []"
  using assms by (auto simp: note_pruned_def map_of_btree_push split: option.splits if_splits)

lemma pruned_map_spec:
  "(\<exists>ns. map_of (pruned_map rs) b = Some ns \<and> n \<in> set ns) \<longleftrightarrow> (\<exists>r\<in>set rs. prunes r n b)"
  "map_of (pruned_map rs) b = Some ns \<Longrightarrow> ns \<noteq> []"
proof -
  have "(\<exists>ns. map_of (fold note_pruned rs m) b = Some ns \<and> n \<in> set ns) \<longleftrightarrow>
      (\<exists>r\<in>set rs. prunes r n b) \<or> (\<exists>ns. map_of m b = Some ns \<and> n \<in> set ns)"
    if "sorted_wrt (<) (btree_keys m)" for m
    using that by (induction rs arbitrary: m) (auto simp: note_pruned_spec)
  from this[of "[]"] show "(\<exists>ns. map_of (pruned_map rs) b = Some ns \<and> n \<in> set ns) \<longleftrightarrow>
      (\<exists>r\<in>set rs. prunes r n b)"
    by (simp add: pruned_map_def btree_keys_def)
  have "map_of (fold note_pruned rs m) b = Some ns \<Longrightarrow> ns \<noteq> []"
    if "sorted_wrt (<) (btree_keys m)" "\<And>b ns. map_of m b = Some ns \<Longrightarrow> ns \<noteq> []" for m
    using that
  proof (induction rs arbitrary: m)
    case (Cons r rs)
    have "sorted_wrt (<) (btree_keys (note_pruned r m))"
      using Cons.prems(2) by (rule note_pruned_spec(1))
    moreover have "ns' \<noteq> []" if "map_of (note_pruned r m) b' = Some ns'" for b' ns'
      using note_pruned_nonempty[OF Cons.prems(2) Cons.prems(3) that] .
    ultimately show ?case using Cons.IH[of "note_pruned r m"] Cons.prems(1) by auto
  qed auto
  from this[of "[]"] show "map_of (pruned_map rs) b = Some ns \<Longrightarrow> ns \<noteq> []"
    by (simp add: pruned_map_def btree_keys_def)
qed

lemma pruned_map_dom: "map_of (pruned_map rs) b \<noteq> None \<longleftrightarrow> (\<exists>r\<in>set rs. \<exists>n. prunes r n b)"
proof
  assume "map_of (pruned_map rs) b \<noteq> None"
  then obtain ns where "map_of (pruned_map rs) b = Some ns" "ns \<noteq> []"
    using pruned_map_spec(2) by blast
  then show "\<exists>r\<in>set rs. \<exists>n. prunes r n b" using pruned_map_spec(1)[of rs b "hd ns"] by auto
qed (use pruned_map_spec(1) in fastforce)

lemma trail_rows_name:
  "(\<exists>r\<in>set (fold (add_trail_row now) ds rows). str_field r ''node'' = Some n) \<longleftrightarrow>
     n \<in> set ds \<or> (\<exists>r\<in>set rows. str_field r ''node'' = Some n)"
proof (induction ds arbitrary: rows)
  case (Cons d ds)
  have "(\<exists>r\<in>set (add_trail_row now d rows). str_field r ''node'' = Some n) \<longleftrightarrow>
      n = d \<or> (\<exists>r\<in>set rows. str_field r ''node'' = Some n)"
    by (auto simp: add_trail_row_def str_field_def get_field_def)
  then show ?case using Cons by auto
qed simp

lemma trail_row_None:
  "trail_row pruned now e = None \<longleftrightarrow>
     (\<exists>b v. entry_id e = Some b \<and> map_of pruned b \<noteq> None \<and>
        get_field e ''pruned_dependents'' = Some v \<and> as_array v = None)"
proof (cases "Option.bind (entry_id e) (map_of pruned)")
  case (Some ds)
  then have "as_object e \<noteq> None" by (auto simp: entry_id_def Option.bind_eq_Some_conv dest: str_field_object)
  with Some show ?thesis
    by (auto simp: trail_row_def Let_def array_field_def json_simps Option.bind_eq_Some_conv
        Option.bind_eq_None_conv split: option.splits if_splits)
next
  case None
  then show ?thesis by (cases "entry_id e") (auto simp: trail_row_def)
qed

lemma trail_row_records:
  assumes "trail_row pruned now e = Some e'" "entry_id e = Some b" "map_of pruned b = Some ns" "n \<in> set ns"
  shows "\<exists>rows. array_field e' ''pruned_dependents'' = Some rows \<and>
    (\<exists>r\<in>set rows. str_field r ''node'' = Some n)"
proof -
  have "as_object e \<noteq> None" using assms(2) by (auto simp: entry_id_def dest: str_field_object)
  then have "as_object (entry_or_insert ''pruned_dependents'' (JArr []) e) \<noteq> None"
    by (simp add: json_simps)
  with assms show ?thesis
    by (auto simp: trail_row_def Let_def json_simps trail_rows_name split: option.splits)
qed

lemma settle_write:
  assumes "settle_blocked_by_edges now es = Some (es', rs, ch)"
  shows "write_pruned_dependents_trail now (map (apply_settled (index_by_id es)) es) rs = Some es'"
    "rs = concat (map (\<lambda>e. snd (settle_row (index_by_id es) e)) es)"
  using assms by (auto simp: settle_blocked_by_edges_def Let_def)

text \<open>
  Every edge the sweep prunes is on record with its blocker: each row of the result that has the
  blocker's id carries a trail row naming the dependent.
\<close>

theorem pruned_edges_recorded:
  assumes "settle_blocked_by_edges now es = Some (es', rs, ch)" "r \<in> set rs" "prunes r n b"
    "e' \<in> set es'" "entry_id e' = Some b"
  shows "\<exists>rows. array_field e' ''pruned_dependents'' = Some rows \<and>
    (\<exists>row\<in>set rows. str_field row ''node'' = Some n)"
proof -
  obtain ns where ns: "map_of (pruned_map rs) b = Some ns" "n \<in> set ns"
    using pruned_map_spec(1)[of rs b n] assms(2,3) by auto
  then have "pruned_map rs \<noteq> []" by auto
  then have "list_all2 (\<lambda>e e'. \<exists>j. trail_row (pruned_map rs) (now j) e = Some e')
      (map (apply_settled (index_by_id es)) es) es'"
    using settle_write(1)[OF assms(1)]
    by (auto simp: write_pruned_dependents_trail_def Let_def dest: map_rows_rel)
  then obtain e j where "trail_row (pruned_map rs) (now j) e = Some e'"
    using assms(4) by (force simp: list_all2_conv_all_nth in_set_conv_nth)
  moreover have "entry_id e = Some b"
    using trail_row_view[OF calculation] assms(5) by (auto dest: same_viewD(2))
  ultimately show ?thesis using ns by (rule trail_row_records)
qed

theorem pruned_edges_recorded_witness:
  "\<exists>es' rs ch rows. settle_blocked_by_edges (\<lambda>_. ''now'') sample_graph = Some (es', rs, ch) \<and>
     array_field (es' ! 1) ''pruned_dependents'' = Some rows \<and>
     (\<exists>row\<in>set rows. str_field row ''node'' = Some ''n'')"
proof -
  obtain es' rs ch where run: "settle_blocked_by_edges (\<lambda>_. ''now'') sample_graph = Some (es', rs, ch)"
    using sample_settles by (cases "settle_blocked_by_edges (\<lambda>_. ''now'') sample_graph") auto
  have "map_option (\<lambda>(es', rs, ch). list_ex (\<lambda>r. prunes r ''n'' ''d'') rs \<and> 1 < length es' \<and>
      entry_id (es' ! 1) = Some ''d'') (settle_blocked_by_edges (\<lambda>_. ''now'') sample_graph) = Some True"
    by code_simp
  with run obtain r where "r \<in> set rs" "prunes r ''n'' ''d''" "es' ! 1 \<in> set es'" "entry_id (es' ! 1) = Some ''d''"
    by (auto simp: list_ex_iff)
  from pruned_edges_recorded[OF run this] run show ?thesis by blast
qed

lemma ex_nth_set: "(\<exists>j<length xs. Q (xs ! j)) \<longleftrightarrow> (\<exists>x\<in>set xs. Q x)"
  by (metis in_set_conv_nth)

lemma apply_settled_reads:
  "entry_id (apply_settled by_id e) = entry_id e"
  "get_field (apply_settled by_id e) ''pruned_dependents'' = get_field e ''pruned_dependents''"
  using same_viewD(2)[OF apply_settled_view[of e by_id]]
  by (auto simp: apply_settled_def get_set split: option.split)

text \<open>
  C23. The sweep aborts exactly when it has pruned an edge to a blocker whose row already has a
  \<open>pruned_dependents\<close> member that is not an array.
\<close>

theorem settle_aborts_iff:
  "settle_blocked_by_edges now es = None \<longleftrightarrow>
     (\<exists>e\<in>set es. \<exists>b v. entry_id e = Some b \<and> get_field e ''pruned_dependents'' = Some v \<and>
        as_array v = None \<and>
        (\<exists>d\<in>set es. \<exists>r\<in>set (snd (settle_row (index_by_id es) d)). \<exists>n. prunes r n b))"
proof -
  let ?ix = "index_by_id es"
  let ?rs = "concat (map (\<lambda>e. snd (settle_row ?ix e)) es)"
  have row: "trail_row (pruned_map ?rs) t (apply_settled ?ix e) = None \<longleftrightarrow>
      (\<exists>b v. entry_id e = Some b \<and> map_of (pruned_map ?rs) b \<noteq> None \<and>
        get_field e ''pruned_dependents'' = Some v \<and> as_array v = None)" for t e
    unfolding trail_row_None apply_settled_reads ..
  have "settle_blocked_by_edges now es = None \<longleftrightarrow> pruned_map ?rs \<noteq> [] \<and>
      (\<exists>j<length es. trail_row (pruned_map ?rs) (now j) (apply_settled ?ix (es ! j)) = None)"
    by (simp add: settle_blocked_by_edges_def write_pruned_dependents_trail_def map_rows_None Let_def
        cong: conj_cong)
  also have "\<dots> \<longleftrightarrow> pruned_map ?rs \<noteq> [] \<and>
      (\<exists>e\<in>set es. \<exists>b v. entry_id e = Some b \<and> map_of (pruned_map ?rs) b \<noteq> None \<and>
        get_field e ''pruned_dependents'' = Some v \<and> as_array v = None)"
    unfolding row by (subst ex_nth_set) (rule refl)
  also have "\<dots> \<longleftrightarrow> (\<exists>e\<in>set es. \<exists>b v. entry_id e = Some b \<and> map_of (pruned_map ?rs) b \<noteq> None \<and>
        get_field e ''pruned_dependents'' = Some v \<and> as_array v = None)"
    by (auto simp: map_of.simps)
  also have "\<dots> \<longleftrightarrow> (\<exists>e\<in>set es. \<exists>b v. entry_id e = Some b \<and>
        get_field e ''pruned_dependents'' = Some v \<and> as_array v = None \<and>
        (\<exists>d\<in>set es. \<exists>r\<in>set (snd (settle_row ?ix d)). \<exists>n. prunes r n b))"
    unfolding pruned_map_dom by (simp, blast)
  finally show ?thesis .
qed

end
