(* ===== verification/Backlog_Status_Props.thy ===== *)
theory Backlog_Status_Props
  imports Backlog_Status Backlog_Props
begin

text \<open>
  What the status derivation guarantees: the passes that normalize a row keep its identity and its
  place in the tree, one deepest-first pass of the rollup leaves every container agreeing with its
  children, and the stored facts outrank the plan.
\<close>

section \<open>Identity and place in the tree\<close>

definition tree_key :: "json \<Rightarrow> bool \<times> string option \<times> string option" where
  "tree_key e = (is_dict e, entry_id e, str_field e ''parent'')"

lemma is_dict_update [simp]:
  "is_dict (set_field k x e) = is_dict e" "is_dict (shift_remove k e) = is_dict e"
  "is_dict (entry_or_insert k x e) = is_dict e"
  by (simp_all add: is_dict_def json_simps)

lemma get_shift_other [simp]: "k \<noteq> k' \<Longrightarrow> get_field (shift_remove k v) k' = get_field v k'"
  by (simp add: json_simps)

lemma get_set_other [simp]: "k \<noteq> k' \<Longrightarrow> get_field (set_field k x v) k' = get_field v k'"
  by (simp add: json_simps)

lemma get_entry_other [simp]: "k \<noteq> k' \<Longrightarrow> get_field (entry_or_insert k x v) k' = get_field v k'"
  by (simp add: json_simps)

lemma tree_key_get:
  "is_dict a = is_dict b \<Longrightarrow> get_field a ''id'' = get_field b ''id'' \<Longrightarrow>
   get_field a ''parent'' = get_field b ''parent'' \<Longrightarrow> tree_key a = tree_key b"
  by (simp add: tree_key_def entry_id_def str_field_def)

lemma tree_key_set [simp]: "k \<noteq> ''id'' \<Longrightarrow> k \<noteq> ''parent'' \<Longrightarrow> tree_key (set_field k x e) = tree_key e"
  by (rule tree_key_get) simp_all

lemma tree_key_shift [simp]: "k \<noteq> ''id'' \<Longrightarrow> k \<noteq> ''parent'' \<Longrightarrow> tree_key (shift_remove k e) = tree_key e"
  by (rule tree_key_get) simp_all

lemma tree_key_entry [simp]: "k \<noteq> ''id'' \<Longrightarrow> k \<noteq> ''parent'' \<Longrightarrow> tree_key (entry_or_insert k x e) = tree_key e"
  by (rule tree_key_get) simp_all

lemma tree_key_migrate [simp]:
  "k \<noteq> ''id'' \<Longrightarrow> k \<noteq> ''parent'' \<Longrightarrow> tree_key (migrate_field k table e) = tree_key e"
  by (simp add: migrate_field_def split: option.split)

lemma tree_key_lock [simp]: "tree_key (normalize_lock_row e) = tree_key e"
  by (simp add: normalize_lock_row_def Let_def)

lemma tree_key_legacy [simp]: "tree_key (normalize_legacy_deferred_row e) = tree_key e"
  by (simp add: normalize_legacy_deferred_row_def split: option.split)

lemma tree_key_stamp [simp]: "tree_key (stamp_defect lq dq e) = tree_key e"
  by (simp add: stamp_defect_def split: option.split prod.split)

lemma tree_key_derive [simp]: "tree_key (derive_row env now rungs e) = tree_key e"
  by (simp add: derive_row_def Let_def split: option.split)

lemma enumerate_map: "enumerate n (map f xs) = map (\<lambda>(i, x). (i, f x)) (enumerate n xs)"
  by (induction xs arbitrary: n) simp_all

lemma filter_map_map: "filter_map f (map g xs) = filter_map (f \<circ> g) xs"
  by (induction xs) (simp_all add: comp_def split: option.split)

definition key_ids :: "(bool \<times> string option \<times> string option) list \<Rightarrow> string list" where
  "key_ids ks = filter_map (\<lambda>(d, i, p). if d then i else None) ks"

lemma row_ids_keys: "row_ids es = key_ids (map tree_key es)"
  by (simp add: row_ids_def key_ids_def filter_map_map comp_def tree_key_def)

definition key_index :: "(bool \<times> string option \<times> string option) list \<Rightarrow> string \<Rightarrow> nat option" where
  "key_index ks =
     map_of (rev (filter_map (\<lambda>(n, d, i, p). if d then map_option (\<lambda>k. (k, n)) i else None) (enumerate 0 ks)))"

lemma id_index_keys: "id_index es = key_index (map tree_key es)"
  unfolding id_index_def key_index_def enumerate_map filter_map_map comp_def tree_key_def
    split_def fst_conv snd_conv by (rule refl)

lemma children_cong:
  assumes "map tree_key es = map tree_key es'"
  shows "children_by_parent es = children_by_parent es'"
proof -
  have "fold (add_child ids) (enumerate n xs) m = fold (add_child ids) (enumerate n ys) m"
    if "map tree_key xs = map tree_key ys" for ids n m xs ys
    using that
  proof (induction xs arbitrary: n m ys)
    case (Cons x xs)
    then obtain y ys' where ys: "ys = y # ys'" "tree_key x = tree_key y" "map tree_key xs = map tree_key ys'"
      by auto
    then have "add_child ids (n, x) m = add_child ids (n, y) m"
      by (simp add: add_child_def tree_key_def split: option.split)
    then show ?case using ys Cons.IH by simp
  qed simp
  note fold_eq = this[OF assms, of "key_ids (map tree_key es)" 0 "[]"]
  show ?thesis
    unfolding children_by_parent_def row_ids_keys by (subst fold_eq) (simp only: assms)
qed

section \<open>The tree read off the rows\<close>

lemma id_index_Some: "id_index es k = Some n \<Longrightarrow> n < length es \<and> is_dict (es ! n) \<and> entry_id (es ! n) = Some k"
proof -
  assume "id_index es k = Some n"
  then have "(k, n) \<in> set (filter_map (\<lambda>(i, e). if is_dict e then map_option (\<lambda>k. (k, i)) (entry_id e) else None)
      (enumerate 0 es))"
    by (auto simp: id_index_def dest: map_of_SomeD)
  then show ?thesis by (auto simp: filter_map_in in_set_enumerate_eq split: if_splits)
qed

lemma row_ids_nth_unique:
  "distinct (row_ids es) \<Longrightarrow> m < length es \<Longrightarrow> n < length es \<Longrightarrow> is_dict (es ! m) \<Longrightarrow> is_dict (es ! n) \<Longrightarrow>
   entry_id (es ! m) = Some k \<Longrightarrow> entry_id (es ! n) = Some k \<Longrightarrow> m = n"
proof (induction es arbitrary: m n)
  case (Cons e es)
  have absent: "entry_id (es ! j) \<noteq> Some k"
    if "is_dict e" "entry_id e = Some k" "j < length es" "is_dict (es ! j)" for j
  proof
    assume "entry_id (es ! j) = Some k"
    then have "k \<in> set (row_ids es)"
      unfolding row_ids_def filter_map_in using that by (intro bexI[of _ "es ! j"]) auto
    then show False using Cons.prems(1) that by (simp add: row_ids_def)
  qed
  have "distinct (row_ids es)" using Cons.prems(1) by (auto simp: row_ids_def split: option.splits if_splits)
  then show ?case
    using Cons.prems Cons.IH[of "m - 1" "n - 1"] absent[of "m - 1"] absent[of "n - 1"]
    by (cases m; cases n) simp_all
qed simp

lemma id_index_complete:
  assumes "n < length es" "is_dict (es ! n)" "entry_id (es ! n) = Some k"
  shows "id_index es k \<noteq> None"
proof -
  have "(k, n) \<in> set (filter_map (\<lambda>(i, e). if is_dict e then map_option (\<lambda>k. (k, i)) (entry_id e) else None)
      (enumerate 0 es))"
    unfolding filter_map_in by (rule bexI[of _ "(n, es ! n)"]) (use assms in \<open>auto simp: in_set_enumerate_eq\<close>)
  then have "k \<in> fst ` set (filter_map (\<lambda>(i, e). if is_dict e then map_option (\<lambda>k. (k, i)) (entry_id e) else None)
      (enumerate 0 es))" by (rule image_eqI[rotated]) simp
  then show ?thesis by (simp add: id_index_def map_of_eq_None_iff)
qed

lemma id_index_unique:
  assumes "distinct (row_ids es)" "n < length es" "is_dict (es ! n)" "entry_id (es ! n) = Some k"
  shows "id_index es k = Some n"
  using id_index_complete[OF assms(2-4)] id_index_Some[of es k] row_ids_nth_unique[OF assms(1)] assms(2-4)
  by (metis not_None_eq)

lemma add_child_sorted:
  "sorted_wrt (<) (btree_keys m) \<Longrightarrow> sorted_wrt (<) (btree_keys (add_child ids ie m))"
  by (auto simp: add_child_def btree_push_sorted split: option.split)

lemma add_child_kids:
  assumes "sorted_wrt (<) (btree_keys m)" "map_of (add_child ids ie m) p = Some kids" "n \<in> set kids"
  shows "(\<exists>ks. map_of m p = Some ks \<and> n \<in> set ks) \<or>
    (n = fst ie \<and> is_dict (snd ie) \<and> str_field (snd ie) ''parent'' = Some p \<and>
     (\<exists>c. entry_id (snd ie) = Some c \<and> c \<noteq> p))"
  using assms by (auto simp: add_child_def map_of_btree_push split: option.splits if_splits)

lemma children_fold:
  assumes "sorted_wrt (<) (btree_keys m)"
  shows "sorted_wrt (<) (btree_keys (fold (add_child ids) ies m)) \<and>
    (\<forall>p kids n. map_of (fold (add_child ids) ies m) p = Some kids \<longrightarrow> n \<in> set kids \<longrightarrow>
      (\<exists>ks. map_of m p = Some ks \<and> n \<in> set ks) \<or>
      (\<exists>e. (n, e) \<in> set ies \<and> is_dict e \<and> str_field e ''parent'' = Some p \<and>
         (\<exists>c. entry_id e = Some c \<and> c \<noteq> p)))"
  using assms
proof (induction ies arbitrary: m)
  case (Cons ie ies)
  note IH = Cons.IH[OF add_child_sorted[OF Cons.prems, of ids ie]]
  show ?case
  proof (intro conjI allI impI)
    fix p kids n assume kids: "map_of (fold (add_child ids) (ie # ies) m) p = Some kids" "n \<in> set kids"
    from IH kids have "(\<exists>ks. map_of (add_child ids ie m) p = Some ks \<and> n \<in> set ks) \<or>
      (\<exists>e. (n, e) \<in> set ies \<and> is_dict e \<and> str_field e ''parent'' = Some p \<and>
         (\<exists>c. entry_id e = Some c \<and> c \<noteq> p))" by simp
    then show "(\<exists>ks. map_of m p = Some ks \<and> n \<in> set ks) \<or>
      (\<exists>e. (n, e) \<in> set (ie # ies) \<and> is_dict e \<and> str_field e ''parent'' = Some p \<and>
         (\<exists>c. entry_id e = Some c \<and> c \<noteq> p))"
      using add_child_kids[OF Cons.prems, of ids ie p _ n] by (cases ie) fastforce
  qed (use IH in simp)
qed auto

lemma children_by_parent_sorted: "sorted_wrt (<) (btree_keys (children_by_parent es))"
  using children_fold[of "[]"] by (simp add: children_by_parent_def btree_keys_def)

lemma children_by_parent_kids:
  assumes "map_of (children_by_parent es) p = Some kids" "n \<in> set kids"
  shows "n < length es \<and> is_dict (es ! n) \<and> str_field (es ! n) ''parent'' = Some p \<and>
    (\<exists>c. entry_id (es ! n) = Some c \<and> c \<noteq> p)"
  using children_fold[of "[]" "row_ids es" "enumerate 0 es"] assms
  by (fastforce simp: btree_keys_def in_set_enumerate_eq children_by_parent_def)

section \<open>Depths\<close>

text \<open>One step up the tree, read off the rows.\<close>

definition parent_step :: "json list \<Rightarrow> string \<Rightarrow> string \<Rightarrow> bool" where
  "parent_step es i p \<longleftrightarrow> (\<exists>n. id_index es i = Some n \<and> str_field (es ! n) ''parent'' = Some p)"

text \<open>No row is its own ancestor, however long the walk.\<close>

definition acyclic_parents :: "json list \<Rightarrow> bool" where
  "acyclic_parents es \<longleftrightarrow> (\<forall>i. \<not> (parent_step es)\<^sup>+\<^sup>+ i i)"

lemma depth_of_visiting:
  assumes "acyclic_parents es" "\<And>x. x \<in> set v \<union> set w \<Longrightarrow> \<not> (parent_step es)\<^sup>*\<^sup>* i x"
  shows "depth_of cbp es v i = depth_of cbp es w i"
  using assms
proof (induction cbp es v i arbitrary: w rule: depth_of.induct)
  case (1 cbp es v i)
  have fresh: "i \<notin> set v" "i \<notin> set w" using 1(3) by blast+
  show ?case
  proof (cases "id_index es i")
    case (Some n)
    show ?thesis
    proof (cases "str_field (es ! n) ''parent''")
      case p: (Some p)
      have up: "parent_step es i p" using Some p by (auto simp: parent_step_def)
      have "\<not> (parent_step es)\<^sup>*\<^sup>* p x" if "x \<in> set (i # v) \<union> set (i # w)" for x
      proof
        assume "(parent_step es)\<^sup>*\<^sup>* p x"
        then have "(parent_step es)\<^sup>+\<^sup>+ i x" using up by (rule rtranclp_into_tranclp2[rotated])
        then show False using that 1(2,3) by (auto simp: acyclic_parents_def dest: tranclp_into_rtranclp)
      qed
      then have "depth_of cbp es (i # v) p = depth_of cbp es (i # w) p" if "map_of cbp p \<noteq> None"
        using 1(1)[OF fresh(1) Some p that 1(2)] by blast
      then show ?thesis using fresh Some p by (simp add: depth_of.simps[of cbp es v i] depth_of.simps[of cbp es w i])
    qed (use fresh Some in \<open>simp add: depth_of.simps[of cbp es v i] depth_of.simps[of cbp es w i]\<close>)
  qed (use fresh in \<open>simp add: depth_of.simps[of cbp es v i] depth_of.simps[of cbp es w i]\<close>)
qed

lemma depth_of_child:
  assumes "acyclic_parents es" "parent_step es c p" "map_of cbp p \<noteq> None"
  shows "depth_of cbp es [] c = Suc (depth_of cbp es [] p)"
proof -
  obtain n where "id_index es c = Some n" "str_field (es ! n) ''parent'' = Some p"
    using assms(2) by (auto simp: parent_step_def)
  then have "depth_of cbp es [] c = Suc (depth_of cbp es [c] p)"
    using assms(3) by (simp add: depth_of.simps[of cbp es "[]" c])
  moreover have "\<not> (parent_step es)\<^sup>*\<^sup>* p c"
    using assms(1,2) by (meson acyclic_parents_def rtranclp_into_tranclp2)
  ultimately show ?thesis using depth_of_visiting[OF assms(1), of "[c]" "[]" p cbp] by simp
qed

section \<open>One rollup step\<close>

lemma row_readers_status:
  assumes "k \<noteq> ''status''"
  shows "str_field (set_field ''status'' x e) k = str_field e k" "non_null (set_field ''status'' x e) k = non_null e k"
    "array_field (set_field ''status'' x e) k = array_field e k"
  using assms by (simp_all add: str_field_def non_null_def array_field_def)

lemma own_plan_status: "has_own_plan_work (set_field ''status'' x e) = has_own_plan_work e"
  by (simp add: has_own_plan_work_def nonblank_field_def row_readers_status)

text \<open>
  The row of container \<open>p\<close> is the row it was before the pass (\<open>base\<close>), with the status its children,
  as they stand now, roll up to.
\<close>

definition rolled_row :: "graph_env \<Rightarrow> json \<Rightarrow> json list \<Rightarrow> json" where
  "rolled_row env row kids =
     (case rollup_status env row kids of None \<Rightarrow> row | Some s \<Rightarrow> set_field ''status'' (JStr s) row)"

definition agrees :: "graph_env \<Rightarrow> (string \<times> nat list) list \<Rightarrow> json list \<Rightarrow> json list \<Rightarrow> string \<Rightarrow> bool" where
  "agrees env cbp base es p \<longleftrightarrow>
     (\<forall>n. id_index es p = Some n \<longrightarrow>
        es ! n = rolled_row env (base ! n) (kid_rows es (the (map_of cbp p))))"

lemma rollup_one_cases:
  obtains (idle) "rollup_one env cbp p es = es"
      "\<And>n. id_index es p = Some n \<Longrightarrow> rollup_status env (es ! n) (kid_rows es (the (map_of cbp p))) = None"
    | (written) n s where "id_index es p = Some n"
      "rollup_status env (es ! n) (kid_rows es (the (map_of cbp p))) = Some s"
      "rollup_one env cbp p es = es[n := set_field ''status'' (JStr s) (es ! n)]"
  by (cases "id_index es p"; cases "rollup_status env (es ! the (id_index es p)) (kid_rows es (the (map_of cbp p)))")
    (auto simp: rollup_one_def set_row_def)

lemma rollup_one_tree [simp]: "map tree_key (rollup_one env cbp p es) = map tree_key es"
proof (cases rule: rollup_one_cases[of env cbp p es])
  case (written n s)
  then have "n < length es" by (auto dest: id_index_Some)
  then show ?thesis unfolding written(3) by (simp add: map_update list_update_same_conv)
qed simp

lemma rollup_one_index [simp]: "id_index (rollup_one env cbp p es) = id_index es"
  by (simp add: id_index_keys)

lemma rollup_one_length [simp]: "length (rollup_one env cbp p es) = length es"
  by (cases rule: rollup_one_cases[of env cbp p es]) auto

lemma kid_rows_update: "n \<notin> set kids \<Longrightarrow> kid_rows (es[n := x]) kids = kid_rows es kids"
  unfolding kid_rows_def by (induction kids) auto

lemma rollup_one_nth: "id_index es p \<noteq> Some n \<Longrightarrow> rollup_one env cbp p es ! n = es ! n"
  by (cases rule: rollup_one_cases[of env cbp p es]) auto

lemma index_inj: "id_index es p = Some n \<Longrightarrow> id_index es q = Some n \<Longrightarrow> p = q"
  by (auto dest!: id_index_Some)

lemma rollup_one_agrees:
  assumes "\<And>n. id_index es p = Some n \<Longrightarrow> n \<notin> set (the (map_of cbp p)) \<and> es ! n = base ! n"
  shows "agrees env cbp base (rollup_one env cbp p es) p"
proof (cases rule: rollup_one_cases[of env cbp p es])
  case idle
  then show ?thesis using assms by (auto simp: agrees_def rolled_row_def)
next
  case (written n s)
  then have n: "n < length es" "is_dict (es ! n)" by (auto dest: id_index_Some)
  have "id_index (es[n := set_field ''status'' (JStr s) (es ! n)]) = id_index es"
    using rollup_one_index[of env cbp p es] written(3) by simp
  then show ?thesis
    using n written assms[of n] by (auto simp: agrees_def rolled_row_def kid_rows_update)
qed

lemma rollup_one_keeps_agreement:
  assumes "agrees env cbp base es p" "p \<noteq> q"
    "\<And>n. id_index es q = Some n \<Longrightarrow> n \<notin> set (the (map_of cbp p))"
  shows "agrees env cbp base (rollup_one env cbp q es) p"
proof (cases rule: rollup_one_cases[of env cbp q es])
  case (written n s)
  have "m \<noteq> n" if "id_index es p = Some m" for m
    using that written(1) assms(2) by (auto dest: index_inj)
  moreover have "id_index (es[n := set_field ''status'' (JStr s) (es ! n)]) = id_index es"
    using rollup_one_index[of env cbp q es] written(3) by simp
  ultimately show ?thesis
    using assms(1) assms(3)[OF written(1)]
    by (auto simp: agrees_def kid_rows_update written(3))
qed (use assms in simp)

section \<open>The pass\<close>

lemma rollup_fold_agrees:
  assumes tree: "map tree_key es = map tree_key base" and cbp: "cbp = children_by_parent base"
    and acyclic: "acyclic_parents base"
    and order: "sorted_wrt (\<lambda>p q. depth_of cbp base [] q \<le> depth_of cbp base [] p) (ds @ ps)"
    and keys: "distinct (ds @ ps)" "\<And>p. p \<in> set (ds @ ps) \<Longrightarrow> map_of cbp p \<noteq> None"
    and start: "\<And>p. p \<in> set ds \<Longrightarrow> agrees env cbp base es p"
    and rest: "\<And>n. n \<notin> {n. \<exists>p\<in>set ds. id_index base p = Some n} \<Longrightarrow> es ! n = base ! n"
  shows "(\<forall>p\<in>set (ds @ ps). agrees env cbp base (fold (rollup_one env cbp) ps es) p) \<and>
    (\<forall>n. (\<forall>p\<in>set (ds @ ps). id_index base p \<noteq> Some n) \<longrightarrow> fold (rollup_one env cbp) ps es ! n = base ! n) \<and>
    map tree_key (fold (rollup_one env cbp) ps es) = map tree_key base"
  using tree order keys start rest
proof (induction ps arbitrary: ds es)
  case (Cons q ps)
  let ?es = "rollup_one env cbp q es"
  have ix: "id_index es = id_index base" using Cons.prems(1) by (simp add: id_index_keys)
  have up: "parent_step base i p \<and> i \<noteq> p" if "id_index base i = Some n" "map_of cbp p = Some kids" "n \<in> set kids" for i n p kids
    using children_by_parent_kids[of base p kids n] that id_index_Some[of base i n] cbp
    by (auto simp: parent_step_def)
  have fresh: "id_index base p \<noteq> Some n" if "p \<in> set ds" "id_index base q = Some n" for p n
    using that Cons.prems(3) by (auto dest: index_inj)
  have "agrees env cbp base ?es q"
  proof (rule rollup_one_agrees)
    fix n assume n: "id_index es q = Some n"
    then show "n \<notin> set (the (map_of cbp q)) \<and> es ! n = base ! n"
      using up[of q n q] Cons.prems(4)[of q] Cons.prems(6)[of n] fresh ix by fastforce
  qed
  moreover have "agrees env cbp base ?es p" if "p \<in> set ds" for p
  proof (rule rollup_one_keeps_agreement)
    show "agrees env cbp base es p" "p \<noteq> q" using Cons.prems(3,5) that by auto
    fix n assume n: "id_index es q = Some n"
    have "depth_of cbp base [] q \<le> depth_of cbp base [] p"
      using Cons.prems(2) that by (auto simp: sorted_wrt_append)
    moreover have "map_of cbp p \<noteq> None" using Cons.prems(4) that by auto
    ultimately show "n \<notin> set (the (map_of cbp p))"
      using up[of q n p] n ix depth_of_child[OF acyclic, of q p cbp] by fastforce
  qed
  ultimately have "\<And>p. p \<in> set (ds @ [q]) \<Longrightarrow> agrees env cbp base ?es p" by auto
  moreover have "?es ! n = base ! n" if "n \<notin> {n. \<exists>p\<in>set (ds @ [q]). id_index base p = Some n}" for n
    using that Cons.prems(6)[of n] ix by (auto simp: rollup_one_nth)
  ultimately show ?case using Cons.IH[of ?es "ds @ [q]"] Cons.prems by simp
qed auto

lemma rollup_order_sorted:
  "sorted_wrt (\<lambda>p q. depth_of cbp es [] q \<le> depth_of cbp es [] p) (rollup_order cbp es)"
proof -
  let ?key = "\<lambda>(pid, d). - int d"
  let ?xs = "sort_key ?key (map (\<lambda>(pid, _). (pid, depth_of cbp es [] pid)) cbp)"
  have "sorted_wrt (\<lambda>x y. ?key x \<le> ?key y) ?xs"
    using sorted_sort_key[of ?key] unfolding sorted_map .
  then show ?thesis
    unfolding rollup_order_def sorted_wrt_map
    by (rule sorted_wrt_mono_rel[rotated]) (auto simp: image_iff)
qed

lemma rollup_order_keys: "mset (rollup_order cbp es) = mset (btree_keys cbp)"
  by (simp add: rollup_order_def btree_keys_def multiset.map_comp comp_def case_prod_beta)

lemma btree_keys_map_of: "p \<in> set (btree_keys m) \<longleftrightarrow> map_of m p \<noteq> None"
  by (auto simp: btree_keys_def map_of_eq_None_iff)

lemma rollup_pass:
  fixes env :: graph_env
  assumes "cbp = children_by_parent base" "acyclic_parents base"
  defines "es \<equiv> fold (rollup_one env cbp) (rollup_order cbp base) base"
  shows "map_of cbp p \<noteq> None \<Longrightarrow> agrees env cbp base es p"
    "map_of cbp k = None \<Longrightarrow> id_index base k = Some n \<Longrightarrow> es ! n = base ! n"
    "map tree_key es = map tree_key base"
proof -
  have set: "set (rollup_order cbp base) = set (btree_keys cbp)"
    using rollup_order_keys[of cbp base] by (metis set_mset_mset)
  have "distinct (btree_keys cbp)"
    using children_by_parent_sorted[of base] assms(1) by (auto simp: strict_sorted_iff)
  then have "distinct (rollup_order cbp base)"
    using rollup_order_keys[of cbp base] by (metis mset_eq_imp_distinct_iff)
  note all = rollup_fold_agrees[of base base cbp "[]" "rollup_order cbp base" env, OF _ assms(1,2)]
  have *: "(\<forall>p\<in>set (rollup_order cbp base). agrees env cbp base es p) \<and>
    (\<forall>n. (\<forall>p\<in>set (rollup_order cbp base). id_index base p \<noteq> Some n) \<longrightarrow> es ! n = base ! n) \<and>
    map tree_key es = map tree_key base"
    using all rollup_order_sorted[of cbp base] \<open>distinct (rollup_order cbp base)\<close>
    unfolding es_def by (simp add: set btree_keys_map_of)
  then show "map_of cbp p \<noteq> None \<Longrightarrow> agrees env cbp base es p" "map tree_key es = map tree_key base"
    by (simp_all add: set btree_keys_map_of)
  show "map_of cbp k = None \<Longrightarrow> id_index base k = Some n \<Longrightarrow> es ! n = base ! n"
    using * by (metis set btree_keys_map_of index_inj)
qed

section \<open>The whole recompute\<close>

lemma map_enumerate: "map (\<lambda>(i, e). f i e) (enumerate n xs) = map (\<lambda>i. f i (xs ! (i - n))) [n..<n + length xs]"
  by (rule nth_equalityI) (simp_all add: nth_enumerate_eq)

definition prepared_row :: "json \<Rightarrow> json" where
  "prepared_row e = normalize_legacy_deferred_row (migrate_field ''status'' STATUS_MIGRATION
     (migrate_field ''priority'' PRIORITY_MIGRATION (normalize_lock_row e)))"

lemma derive_statuses_nth:
  "i < length es \<Longrightarrow> derive_statuses env now rungs es ! i = derive_row env (now i) rungs (prepared_row (es ! i))"
  by (simp add: derive_statuses_def Let_def normalize_lock_fields_def normalize_legacy_deferred_def
      prepared_row_def nth_enumerate_eq)

lemma derive_statuses_length [simp]: "length (derive_statuses env now rungs es) = length es"
  by (simp add: derive_statuses_def Let_def normalize_lock_fields_def normalize_legacy_deferred_def)

lemma derive_statuses_tree [simp]: "map tree_key (derive_statuses env now rungs es) = map tree_key es"
  by (rule nth_equalityI) (simp_all add: derive_statuses_nth prepared_row_def)

lemma acyclic_cong:
  assumes "map tree_key es = map tree_key es'"
  shows "acyclic_parents es = acyclic_parents es'"
proof -
  have "parent_step es = parent_step es'"
  proof (intro ext)
    fix i p
    have "str_field (es ! n) ''parent'' = str_field (es' ! n) ''parent''" if "id_index es i = Some n" for n
    proof -
      have "n < length es" using id_index_Some[OF that] by simp
      then have "tree_key (es ! n) = tree_key (es' ! n)"
        using assms by (metis length_map nth_map)
      then show ?thesis by (simp add: tree_key_def)
    qed
    moreover have "id_index es = id_index es'" by (simp add: id_index_keys assms)
    ultimately show "parent_step es i p = parent_step es' i p" by (auto simp: parent_step_def)
  qed
  then show ?thesis by (simp add: acyclic_parents_def)
qed

text \<open>
  The contract of a pass over single rows: it keeps a row's identity and its parent. The tree that the
  rollup walks is then the same before and after it.
\<close>

locale tree_pass =
  fixes f :: "json \<Rightarrow> json"
  assumes tree: "tree_key (f e) = tree_key e"
begin

lemma keys_map: "map tree_key (map f es) = map tree_key es"
  by (simp add: comp_def tree)

lemma children_map: "children_by_parent (map f es) = children_by_parent es"
  by (rule children_cong) (rule keys_map)

lemma index_map: "id_index (map f es) = id_index es"
  by (simp add: id_index_keys keys_map del: map_map)

lemma acyclic_map: "acyclic_parents (map f es) = acyclic_parents es"
  by (rule acyclic_cong) (rule keys_map)

end

interpretation lock_pass: tree_pass normalize_lock_row
  by unfold_locales simp

interpretation prepare_pass: tree_pass prepared_row
  by unfold_locales (simp add: prepared_row_def)

lemma recompute_pass:
  fixes env now rungs es
  defines "es' \<equiv> recompute_statuses_with_plan_rungs env now rungs es"
  assumes "acyclic_parents es"
  shows "map_of (children_by_parent es) p \<noteq> None \<Longrightarrow>
      agrees env (children_by_parent es) (derive_statuses env now rungs es) es' p"
    "map_of (children_by_parent es) k = None \<Longrightarrow> id_index es k = Some n \<Longrightarrow>
      es' ! n = derive_statuses env now rungs es ! n"
    "map tree_key es' = map tree_key es"
proof -
  let ?base = "derive_statuses env now rungs es"
  have cbp: "children_by_parent (normalize_lock_fields es) = children_by_parent ?base"
    by (simp add: normalize_lock_fields_def lock_pass.children_map)
      (rule children_cong, simp)
  have es: "children_by_parent es = children_by_parent ?base" by (rule children_cong) simp
  have "acyclic_parents ?base" using assms(2) acyclic_cong[of es ?base] by simp
  note pass = rollup_pass[OF refl this, where env = env]
  have es': "es' = fold (rollup_one env (children_by_parent ?base)) (rollup_order (children_by_parent ?base) ?base) ?base"
    by (simp add: es'_def recompute_statuses_with_plan_rungs_def Let_def cbp)
  show "map_of (children_by_parent es) p \<noteq> None \<Longrightarrow> agrees env (children_by_parent es) ?base es' p"
    using pass(1) unfolding es' es .
  show "map tree_key es' = map tree_key es" using pass(3) unfolding es' by simp
  have "id_index es = id_index ?base" by (simp add: id_index_keys)
  then show "map_of (children_by_parent es) k = None \<Longrightarrow> id_index es k = Some n \<Longrightarrow> es' ! n = ?base ! n"
    using pass(2) unfolding es' es by simp
qed

lemma containers_settled_aux:
  assumes "acyclic_parents es" "map_of (children_by_parent es) p = Some kids" "id_index es p = Some n"
  shows "recompute_statuses_with_plan_rungs env now rungs es ! n =
    rolled_row env (derive_statuses env now rungs es ! n)
      (kid_rows (recompute_statuses_with_plan_rungs env now rungs es) kids)"
proof -
  have "id_index (recompute_statuses_with_plan_rungs env now rungs es) = id_index es"
    using recompute_pass(3)[OF assms(1)] by (simp add: id_index_keys)
  then show ?thesis
    using recompute_pass(1)[OF assms(1), of p env now rungs] assms(2,3) by (simp add: agrees_def)
qed

text \<open>
  C21. One deepest-first pass is enough. When no row is its own ancestor, every container of the
  recomputed graph is the row its own facts derived, with the status that its children, as they stand
  in the recomputed graph, roll up to; a row without children is the row its own facts derived.
\<close>

theorem containers_settled:
  assumes "acyclic_parents es" "es' = recompute_statuses_with_plan_rungs env now rungs es"
    "id_index es p = Some n"
  shows "es' ! n =
    (case map_of (children_by_parent es) p of
       None \<Rightarrow> derive_statuses env now rungs es ! n
     | Some kids \<Rightarrow> rolled_row env (derive_statuses env now rungs es ! n) (kid_rows es' kids))"
  unfolding assms(2)
  by (cases "map_of (children_by_parent es) p")
    (simp_all add: recompute_pass(2)[OF assms(1) _ assms(3)] containers_settled_aux[OF assms(1) _ assms(3)])

lemma acyclic_rank:
  assumes "\<And>i p. parent_step es i p \<Longrightarrow> rank p < (rank i :: nat)"
  shows "acyclic_parents es"
proof -
  have "(parent_step es)\<^sup>+\<^sup>+ i p \<Longrightarrow> rank p < rank i" for i p
    by (induction rule: tranclp_induct) (use assms in \<open>fastforce dest: less_trans\<close>)+
  then show ?thesis by (force simp: acyclic_parents_def)
qed

text \<open>A container with one finished child, as the examples below use it.\<close>

definition sample_env :: graph_env where
  "sample_env = \<lparr>parse_from_rfc3339 = (\<lambda>_. None), parse_naive = (\<lambda>_. None),
     lock_ttl_hours = Fin 2, do_ttl_hours = Fin 12\<rparr>"

definition sample_tree :: "string \<Rightarrow> json list" where
  "sample_tree s =
     [JObj [(''id'', JStr ''p''), (''status'', JStr s)],
      JObj [(''id'', JStr ''c''), (''parent'', JStr ''p''), (''completed_at'', JStr ''t'')]]"

lemma sample_tree_acyclic: "acyclic_parents (sample_tree s)"
proof (rule acyclic_rank[of _ "\<lambda>i. if i = ''c'' then 1 else 0"])
  fix i p assume "parent_step (sample_tree s) i p"
  then obtain n where n: "id_index (sample_tree s) i = Some n" "str_field (sample_tree s ! n) ''parent'' = Some p"
    by (auto simp: parent_step_def)
  have "n < 2" "entry_id (sample_tree s ! n) = Some i" using id_index_Some[OF n(1)] by (simp_all add: sample_tree_def)
  then have "i = ''c'' \<and> p = ''p''"
    using n(2) by (cases n) (auto simp: sample_tree_def str_field_def get_field_def entry_id_def less_Suc_eq)
  then show "(if p = ''c'' then 1 else 0) < (if i = ''c'' then 1 else 0 :: nat)" by simp
qed

lemma sample_tree_index: "id_index (sample_tree s) ''p'' = Some 0"
  by (simp add: sample_tree_def id_index_def is_dict_def entry_id_def str_field_def get_field_def)

theorem containers_settled_witness:
  "recompute_statuses_with_plan_rungs sample_env (\<lambda>_. 0) None (sample_tree ''ready'') ! 0 =
    (case map_of (children_by_parent (sample_tree ''ready'')) ''p'' of
       None \<Rightarrow> derive_statuses sample_env (\<lambda>_. 0) None (sample_tree ''ready'') ! 0
     | Some kids \<Rightarrow> rolled_row sample_env (derive_statuses sample_env (\<lambda>_. 0) None (sample_tree ''ready'') ! 0)
         (kid_rows (recompute_statuses_with_plan_rungs sample_env (\<lambda>_. 0) None (sample_tree ''ready'')) kids))"
  by (rule containers_settled[OF sample_tree_acyclic refl sample_tree_index])

section \<open>Facts outrank everything\<close>

definition fact_status :: "json \<Rightarrow> string option" where
  "fact_status e =
     (let e = normalize_legacy_deferred_row e
      in if non_null e ''completed_at'' then Some ''done''
         else if non_null e ''superseded_by'' then Some ''superseded''
         else if non_null e ''deferred_at'' then Some ''deferred'' else None)"

definition row_facts :: "json \<Rightarrow> string option" where
  "row_facts e =
     (if non_null e ''completed_at'' then Some ''done''
      else if non_null e ''superseded_by'' then Some ''superseded''
      else if non_null e ''deferred_at'' then Some ''deferred'' else None)"

lemma row_facts_get:
  "get_field a ''completed_at'' = get_field b ''completed_at'' \<Longrightarrow>
   get_field a ''superseded_by'' = get_field b ''superseded_by'' \<Longrightarrow>
   get_field a ''deferred_at'' = get_field b ''deferred_at'' \<Longrightarrow> row_facts a = row_facts b"
  by (simp add: row_facts_def non_null_def)

lemma row_facts_set [simp]:
  "k \<noteq> ''completed_at'' \<Longrightarrow> k \<noteq> ''superseded_by'' \<Longrightarrow> k \<noteq> ''deferred_at'' \<Longrightarrow>
   row_facts (set_field k x e) = row_facts e"
  "k \<noteq> ''completed_at'' \<Longrightarrow> k \<noteq> ''superseded_by'' \<Longrightarrow> k \<noteq> ''deferred_at'' \<Longrightarrow>
   row_facts (shift_remove k e) = row_facts e"
  by (rule row_facts_get; simp)+

lemma row_facts_stamp [simp]: "row_facts (stamp_defect lq dq e) = row_facts e"
  by (simp add: stamp_defect_def split: option.split prod.split)

lemma derive_row_facts:
  "row_facts (derive_row env now rungs e) = row_facts e"
  by (simp add: derive_row_def Let_def split: option.split)

lemma derive_row_status:
  assumes "entry_id e \<noteq> None" "row_facts e = Some s"
  shows "str_field (derive_row env now rungs e) ''status'' = Some s"
proof -
  have "as_object e \<noteq> None" using assms(1) by (auto simp: entry_id_def dest: str_field_object)
  then have "as_object (shift_remove ''ownership_defect'' (set_field ''blocked_reason'' JNull e)) \<noteq> None"
    by (simp add: json_simps)
  then show ?thesis using assms
    by (auto simp: derive_row_def Let_def row_facts_def str_field_def json_simps split: if_splits)
qed

lemma rollup_status_facts: "row_facts p = Some s \<Longrightarrow> rollup_status env p kids = Some s"
  by (auto simp: row_facts_def rollup_status_def split: if_splits)

lemma rollup_fold_facts:
  assumes "row_facts (es ! n) = Some s" "str_field (es ! n) ''status'' = Some s"
  shows "row_facts (fold (rollup_one env cbp) ps es ! n) = Some s \<and>
    str_field (fold (rollup_one env cbp) ps es ! n) ''status'' = Some s"
  using assms
proof (induction ps arbitrary: es)
  case (Cons p ps)
  have "row_facts (rollup_one env cbp p es ! n) = Some s \<and>
      str_field (rollup_one env cbp p es ! n) ''status'' = Some s"
  proof (cases rule: rollup_one_cases[of env cbp p es])
    case (written m t)
    have "m < length es" "is_dict (es ! m)" using written(1) by (auto dest: id_index_Some)
    then show ?thesis
      using Cons.prems written rollup_status_facts[of "es ! m" s env]
      by (cases "m = n") (auto simp: str_field_def is_dict_def json_simps)
  qed (use Cons.prems in simp)
  then show ?case using Cons.IH by simp
qed simp

lemma legacy_cong:
  assumes "get_field a ''completed_at'' = get_field b ''completed_at''"
    "get_field a ''superseded_by'' = get_field b ''superseded_by''"
    "get_field a ''deferred_at'' = get_field b ''deferred_at''" "is_dict a = is_dict b"
  shows "row_facts (normalize_legacy_deferred_row a) = row_facts (normalize_legacy_deferred_row b)"
  by (rule row_facts_get; use assms in \<open>auto simp: normalize_legacy_deferred_row_def readers_cong[OF assms(1)]
      json_simps is_dict_def split: option.splits\<close>)

lemma migrate_get [simp]: "k \<noteq> k' \<Longrightarrow> get_field (migrate_field k t e) k' = get_field e k'"
  by (simp add: migrate_field_def split: option.split)

lemma is_dict_migrate [simp]: "is_dict (migrate_field k t e) = is_dict e"
  by (simp add: migrate_field_def split: option.split)

lemma lock_row_get:
  "''locked_by'' \<noteq> k \<Longrightarrow> ''session_id'' \<noteq> k \<Longrightarrow> ''locked_by_harness'' \<noteq> k \<Longrightarrow>
   ''locked_by_harness_session'' \<noteq> k \<Longrightarrow> get_field (normalize_lock_row e) k = get_field e k"
  by (simp add: normalize_lock_row_def Let_def)

lemma is_dict_lock_row [simp]: "is_dict (normalize_lock_row e) = is_dict e"
  by (simp add: normalize_lock_row_def Let_def)

lemma prepared_facts: "row_facts (prepared_row e) = fact_status e"
proof -
  have "row_facts (prepared_row e) = row_facts (normalize_legacy_deferred_row e)"
    unfolding prepared_row_def by (rule legacy_cong) (simp_all add: lock_row_get)
  then show ?thesis by (simp add: fact_status_def row_facts_def Let_def)
qed

lemma prepared_id: "entry_id (prepared_row e) = entry_id e"
  using prepare_pass.tree[of e] by (simp add: tree_key_def)

text \<open>
  A closed, superseded or deferred row reads so after every recompute, whatever its lock, its pull
  request, its plan and its children say, and whether or not plan data was supplied.
\<close>

theorem facts_outrank:
  assumes "n < length es" "entry_id (es ! n) \<noteq> None" "fact_status (es ! n) = Some s"
  shows "str_field (recompute_statuses_with_plan_rungs env now rungs es ! n) ''status'' = Some s"
proof -
  let ?r = "derive_statuses env now rungs es ! n"
  have "row_facts ?r = Some s"
    using assms by (simp add: derive_statuses_nth derive_row_facts prepared_facts)
  moreover have "str_field ?r ''status'' = Some s"
    using assms by (simp add: derive_statuses_nth derive_row_status prepared_facts prepared_id)
  ultimately show ?thesis
    using rollup_fold_facts by (simp add: recompute_statuses_with_plan_rungs_def Let_def)
qed

theorem facts_outrank_witness:
  "str_field (recompute_statuses_with_plan_rungs sample_env (\<lambda>_. 0) None (sample_tree ''idea'') ! 1) ''status'' =
     Some ''done''"
  by (rule facts_outrank) code_simp+

section \<open>Reading done\<close>

lemma derive_status_live:
  assumes "entry_id e \<noteq> None" "row_facts e = None" "live_status (str_field e ''status'')"
  shows "live_status (str_field (derive_row env now None e) ''status'')"
proof -
  have "as_object e \<noteq> None" using assms(1) by (auto simp: entry_id_def dest: str_field_object)
  then have obj: "as_object (stamp_defect lq dq (shift_remove ''ownership_defect''
      (set_field ''blocked_reason'' JNull e))) \<noteq> None" for lq dq
    by (auto simp: stamp_defect_def json_simps split: option.split)
  have "str_field (stamp_defect lq dq (shift_remove ''ownership_defect'' (set_field ''blocked_reason'' JNull e)))
      ''status'' = str_field e ''status''" for lq dq
    by (auto simp: stamp_defect_def str_field_def json_simps split: option.split)
  then show ?thesis
    using assms(1,2,3) obj
    by (auto simp: derive_row_def Let_def row_facts_def readers_set live_status_def split: if_splits)
qed

lemma derive_not_done:
  assumes "entry_id e \<noteq> None" "row_facts e \<noteq> Some ''done''"
  shows "str_field (derive_row env now (Some rungs) e) ''status'' \<noteq> Some ''done''"
proof -
  have "as_object e \<noteq> None" using assms(1) by (auto simp: entry_id_def dest: str_field_object)
  then have "as_object (stamp_defect lq dq (shift_remove ''ownership_defect''
      (set_field ''blocked_reason'' JNull e))) \<noteq> None" for lq dq
    by (auto simp: stamp_defect_def json_simps split: option.split)
  moreover have "as_object (shift_remove ''ownership_defect'' (set_field ''blocked_reason'' JNull e)) \<noteq> None"
    using \<open>as_object e \<noteq> None\<close> by (simp add: json_simps)
  ultimately show ?thesis
    using assms by (auto simp: derive_row_def Let_def row_facts_def readers_set rung_to_graph_status_def split: if_splits)
qed

lemma rollup_children_done: "rollup_children h ss = Some ''done'' \<Longrightarrow> \<not> h \<and> ss \<noteq> [] \<and> list_all (\<lambda>s. s = Some ''done'') ss"
  by (auto simp: rollup_children_def Let_def split: if_splits)

text \<open>
  C22. A row reads done only on evidence. When plan data is supplied and no row is its own ancestor, a row
  of the recomputed graph that reads \<open>done\<close> carries a completion stamp of its own, or it is a container
  with at least one child, all of whose children read done in the recomputed graph, which has no lock,
  session or pull request of its own, no plan work without a pull request, and no reopen that outranks
  its children's completions.
\<close>

theorem done_needs_evidence:
  assumes "acyclic_parents es" "es' = recompute_statuses_with_plan_rungs env now (Some rungs) es"
    "id_index es p = Some n" "str_field (es' ! n) ''status'' = Some ''done''"
  shows "fact_status (es ! n) = Some ''done'' \<or>
    (\<exists>kids. map_of (children_by_parent es) p = Some kids \<and> kid_rows es' kids \<noteq> [] \<and>
       list_all (\<lambda>k. str_field k ''status'' = Some ''done'') (kid_rows es' kids) \<and>
       \<not> live_status (str_field (derive_statuses env now (Some rungs) es ! n) ''status'') \<and>
       \<not> has_own_plan_work (es' ! n) \<and>
       \<not> reopen_outranks_stamps env (str_field (es' ! n) ''reopened_at'')
           (map (\<lambda>k. str_field k ''completed_at'') (kid_rows es' kids)))"
proof (cases "fact_status (es ! n) = Some ''done''")
  case False
  let ?base = "derive_statuses env now (Some rungs) es ! n"
  have n: "n < length es" "entry_id (es ! n) = Some p" using assms(3) by (auto dest: id_index_Some)
  have facts: "row_facts ?base = fact_status (es ! n)"
    using n by (simp add: derive_statuses_nth derive_row_facts prepared_facts)
  have base: "str_field ?base ''status'' \<noteq> Some ''done''"
    using n False by (simp add: derive_statuses_nth derive_not_done prepared_facts prepared_id)
  obtain kids where kids: "map_of (children_by_parent es) p = Some kids"
    using recompute_pass(2)[OF assms(1) _ assms(3)] base assms(2,4) by fastforce
  have row: "es' ! n = rolled_row env ?base (kid_rows es' kids)"
    unfolding assms(2) by (rule containers_settled_aux[OF assms(1) kids assms(3)])
  have "rollup_status env ?base (kid_rows es' kids) = Some ''done''"
    using row assms(4) base
    by (cases "rollup_status env ?base (kid_rows es' kids)") (auto simp: rolled_row_def readers_set str_field_def get_set
      split: if_splits)
  then show ?thesis
    using kids row False facts
    by (auto simp: rollup_status_def row_facts_def rolled_row_def Let_def row_readers_status own_plan_status
        list.pred_map comp_def split: if_splits dest!: rollup_children_done)
qed simp

theorem done_needs_evidence_witness:
  "let es' = recompute_statuses_with_plan_rungs sample_env (\<lambda>_. 0) (Some Map.empty) (sample_tree ''ready'') in
   str_field (es' ! 0) ''status'' = Some ''done'' \<and>
   (fact_status (sample_tree ''ready'' ! 0) = Some ''done'' \<or>
    (\<exists>kids. map_of (children_by_parent (sample_tree ''ready'')) ''p'' = Some kids \<and> kid_rows es' kids \<noteq> [] \<and>
       list_all (\<lambda>k. str_field k ''status'' = Some ''done'') (kid_rows es' kids)))"
proof -
  let ?es' = "recompute_statuses_with_plan_rungs sample_env (\<lambda>_. 0) (Some Map.empty) (sample_tree ''ready'')"
  have "str_field (?es' ! 0) ''status'' = Some ''done''" by code_simp
  from done_needs_evidence[OF sample_tree_acyclic refl sample_tree_index this] this
  show ?thesis by (auto simp: Let_def)
qed

lemma prepared_status:
  assumes "str_field e ''status'' = Some s" "map_of STATUS_MIGRATION s = None"
  shows "str_field (prepared_row e) ''status'' = Some s"
proof -
  have "str_field (migrate_field ''priority'' PRIORITY_MIGRATION (normalize_lock_row e)) ''status'' = Some s"
    using assms(1) by (simp add: str_field_def lock_row_get)
  then have "str_field (migrate_field ''status'' STATUS_MIGRATION
      (migrate_field ''priority'' PRIORITY_MIGRATION (normalize_lock_row e))) ''status'' = Some s"
    using assms(2) by (subst migrate_field_def) simp
  then show ?thesis
    by (auto simp: prepared_row_def normalize_legacy_deferred_row_def str_field_def split: option.split)
qed



section \<open>Locks\<close>

lemma json_row_cases: obtains (object) kvs where "e = JObj kvs" | (other) "\<not> is_dict e"
  by (cases e) (auto simp: is_dict_def)

lemma lock_row_shape:
  assumes "json_ok e" "is_dict e"
  shows "has_key (normalize_lock_row e) ''locked_by''"
    "non_null (normalize_lock_row e) ''locked_by'' \<Longrightarrow>
       get_field (normalize_lock_row e) ''session_id'' = get_field (normalize_lock_row e) ''locked_by''"
    "\<not> non_null (normalize_lock_row e) ''locked_by'' \<Longrightarrow>
       get_field (normalize_lock_row e) ''locked_by_harness'' = Some JNull \<and>
       get_field (normalize_lock_row e) ''locked_by_harness_session'' = Some JNull \<and>
       (non_null e ''completed_at'' \<or> get_field (normalize_lock_row e) ''session_id'' = Some JNull)"
  using assms(2)
  by (auto simp: normalize_lock_row_def Let_def has_key_def is_dict_def non_null_def json_simps split: option.splits if_splits)

lemma lock_row_fixed:
  assumes "json_ok e" "is_dict e" "has_key e ''locked_by''"
    "non_null e ''locked_by'' \<Longrightarrow> get_field e ''session_id'' = get_field e ''locked_by''"
    "\<not> non_null e ''locked_by'' \<Longrightarrow> get_field e ''locked_by_harness'' = Some JNull \<and>
       get_field e ''locked_by_harness_session'' = Some JNull \<and>
       (non_null e ''completed_at'' \<or> get_field e ''session_id'' = Some JNull)"
  shows "normalize_lock_row e = e"
proof (cases "non_null e ''locked_by''")
  case True
  then obtain v where "get_field e ''locked_by'' = Some v" by (auto simp: non_null_def split: option.splits)
  then show ?thesis using True assms by (simp add: normalize_lock_row_def Let_def set_field_same)
next
  case False
  then show ?thesis using assms by (auto simp: normalize_lock_row_def Let_def set_field_same)
qed

end
