(* ===== verification/Backlog_Wf.thy ===== *)
theory Backlog_Wf
  imports Backlog_Status_Props
begin

text \<open>
  Every pass over the backlog rows keeps them well formed: no object of the result names a key twice,
  at any depth.
\<close>

section \<open>Rows\<close>

definition rows_ok :: "json list \<Rightarrow> bool" where
  "rows_ok es = list_all json_ok es"

lemma rows_okI: "(\<And>e. e \<in> set es \<Longrightarrow> json_ok e) \<Longrightarrow> rows_ok es"
  by (simp add: rows_ok_def list_all_iff)

lemma rows_okD: "rows_ok es \<Longrightarrow> e \<in> set es \<Longrightarrow> json_ok e"
  by (simp add: rows_ok_def list_all_iff)

lemma rows_ok_map: "rows_ok es \<Longrightarrow> (\<And>e. json_ok e \<Longrightarrow> json_ok (f e)) \<Longrightarrow> rows_ok (map f es)"
  by (auto simp: rows_ok_def list_all_iff)

named_theorems row_ok \<open>row passes keep a row well formed\<close>

lemmas [row_ok] = set_field_ok shift_remove_ok entry_or_insert_ok

lemma null_default_ok [row_ok]: "json_ok e \<Longrightarrow> json_ok (case get_field e k of None \<Rightarrow> JNull | Some s \<Rightarrow> s)"
  by (auto dest: get_field_ok split: option.split)

lemma or_null_ok [row_ok]: "json_ok e \<Longrightarrow> json_ok (or_null (get_field e k))"
  by (simp add: or_null_def row_ok)

lemma opt_str_ok [row_ok]: "json_ok (opt_str s)"
  by (simp add: opt_str_def split: option.split)

lemma normalize_lock_row_ok [row_ok]: "json_ok e \<Longrightarrow> json_ok (normalize_lock_row e)"
  by (simp add: normalize_lock_row_def Let_def row_ok)

lemma migrate_field_ok [row_ok]: "json_ok e \<Longrightarrow> json_ok (migrate_field k t e)"
  by (simp add: migrate_field_def row_ok split: option.split)

lemma legacy_row_ok [row_ok]: "json_ok e \<Longrightarrow> json_ok (normalize_legacy_deferred_row e)"
  by (simp add: normalize_legacy_deferred_row_def row_ok split: option.split)

lemma ownership_defect_ok [row_ok]: "json_ok i \<Longrightarrow> json_ok h \<Longrightarrow> json_ok (ownership_defect k i h)"
  by (simp add: ownership_defect_def)

lemma stamp_defect_ok [row_ok]: "json_ok e \<Longrightarrow> json_ok (stamp_defect lq dq e)"
  by (simp add: stamp_defect_def row_ok split: option.split prod.split)

lemma derive_row_ok [row_ok]: "json_ok e \<Longrightarrow> json_ok (derive_row env now rungs e)"
  by (simp add: derive_row_def Let_def row_ok split: option.split)

lemma migrate_row_ok [row_ok]: "json_ok e \<Longrightarrow> json_ok (migrate_row e)"
proof -
  assume ok: "json_ok e"
  let ?e = "case get_field e ''_status'' of None \<Rightarrow> e
    | Some old \<Rightarrow> shift_remove ''_status'' (entry_or_insert ''status'' old e)"
  have "json_ok ?e" using ok by (auto intro!: shift_remove_ok entry_or_insert_ok dest: get_field_ok split: option.split)
  then have m: "json_ok (migrate_field ''status'' STATUS_MIGRATION (migrate_field ''priority'' PRIORITY_MIGRATION ?e))"
    (is "json_ok ?m") by (simp add: row_ok)
  then have "array_field ?m ''sessions'' = Some rows \<Longrightarrow> json_ok (JArr (map migrate_session_row rows))" for rows
    by (auto simp: migrate_session_row_def dest: array_field_ok intro!: migrate_field_ok)
  with m have "json_ok (case array_field ?m ''sessions'' of None \<Rightarrow> ?m
      | Some rows \<Rightarrow> set_field ''sessions'' (JArr (map migrate_session_row rows)) ?m)"
    by (simp add: set_field_ok split: option.split)
  then show ?thesis using ok unfolding migrate_row_def Let_def by (simp only: if_split) simp
qed

lemma fold_defaults_ok:
  "json_ok e \<Longrightarrow> list_all (json_ok \<circ> snd) ds \<Longrightarrow> json_ok (fold (\<lambda>(k, v). entry_or_insert k v) ds e)"
  by (induction ds arbitrary: e) (auto simp: entry_or_insert_ok)

lemma defaults_ok: "list_all (json_ok \<circ> snd) HEAD_DEFAULTS" "list_all (json_ok \<circ> snd) TAIL_DEFAULTS"
  by (simp_all add: HEAD_DEFAULTS_def TAIL_DEFAULTS_def)

lemma legacy_locked_at_ok [row_ok]: "json_ok (legacy_locked_at env e)"
  by (simp add: legacy_locked_at_def split: option.split)

lemma default_row_ok [row_ok]: "json_ok e \<Longrightarrow> json_ok (default_row env e)"
  by (simp add: default_row_def Let_def fold_defaults_ok defaults_ok row_ok)

lemma overlay_row_ok [row_ok]: "json_ok e \<Longrightarrow> json_ok (overlay_row ix e)"
  by (simp add: overlay_row_def row_ok split: prod.split)

lemma child_summary_ok [row_ok]: "json_ok e \<Longrightarrow> json_ok (child_summary ix e)"
  by (simp add: child_summary_def CHILD_SUMMARY_FIELDS_def Let_def row_ok split: prod.split)

section \<open>Passes\<close>

text \<open>A pass over single rows that keeps the tree and keeps rows well formed.\<close>

locale ok_pass = tree_pass +
  assumes ok: "json_ok e \<Longrightarrow> json_ok (f e)"
begin

lemma rows: "rows_ok es \<Longrightarrow> rows_ok (map f es)"
  by (rule rows_ok_map) (simp_all add: ok)

end

interpretation lock_ok: ok_pass normalize_lock_row
  by unfold_locales (rule normalize_lock_row_ok)

interpretation prepare_ok: ok_pass prepared_row
  by unfold_locales (simp add: prepared_row_def row_ok)

interpretation overlay_ok: ok_pass "overlay_row ix" for ix
  by unfold_locales (simp_all add: overlay_row_def row_ok split: prod.split)

lemma rollup_one_ok: "rows_ok es \<Longrightarrow> rows_ok (rollup_one env cbp p es)"
proof (cases rule: rollup_one_cases[of env cbp p es])
  case (written n s)
  assume ok: "rows_ok es"
  have "n < length es" using written(1) by (auto dest: id_index_Some)
  then have "json_ok (set_field ''status'' (JStr s) (es ! n))" using ok by (simp add: rows_okD row_ok)
  then show ?thesis
    using ok set_update_subset_insert[of es n] written(3) by (auto intro!: rows_okI dest: rows_okD)
qed simp

lemma recompute_ok:
  assumes "rows_ok es"
  shows "rows_ok (recompute_statuses_with_plan_rungs env now rungs es)"
proof -
  have "json_ok (derive_statuses env now rungs es ! i)" if "i < length es" for i
    using assms that by (simp add: derive_statuses_nth derive_row_ok prepare_ok.ok rows_okD)
  then have "rows_ok (derive_statuses env now rungs es)"
    by (auto simp: in_set_conv_nth intro!: rows_okI)
  moreover have "rows_ok xs \<Longrightarrow> rows_ok (fold (rollup_one env cbp) ps xs)" for xs cbp ps
    by (induction ps arbitrary: xs) (simp_all add: rollup_one_ok)
  ultimately show ?thesis by (simp add: recompute_statuses_with_plan_rungs_def Let_def)
qed

definition kids_ok :: "(string \<times> json list) list \<Rightarrow> bool" where
  "kids_ok kids \<longleftrightarrow> (\<forall>p xs. (p, xs) \<in> set kids \<longrightarrow> rows_ok xs)"

lemma btree_push_ok: "kids_ok m \<Longrightarrow> json_ok x \<Longrightarrow> kids_ok (btree_push k x m)"
proof (induction k x m rule: btree_push.induct)
  case (2 k x k' xs m)
  then have "kids_ok m" "rows_ok xs" by (auto simp: kids_ok_def)
  with 2 show ?case by (auto simp: kids_ok_def rows_ok_def)
qed (auto simp: kids_ok_def rows_ok_def)

lemma collect_kids_ok:
  assumes "rows_ok es"
  shows "kids_ok (collect_kids es)"
proof -
  have "kids_ok (fold (\<lambda>e kids.
           if \<not> is_dict e then kids
           else (case (entry_id e, str_field e ''parent'') of
                   (Some cid, Some parent) \<Rightarrow>
                     if parent \<notin> S \<or> cid = parent then kids
                     else btree_push parent (child_summary ix e) kids
                 | _ \<Rightarrow> kids)) xs m)" if "rows_ok xs" "kids_ok m" for S ix xs m
    using that by (induction xs arbitrary: m) (auto simp: rows_ok_def btree_push_ok row_ok split: option.splits)
  from this[of es "[]"] show ?thesis using assms by (simp add: collect_kids_def Let_def kids_ok_def)
qed

lemma place_children_ok: "rows_ok es \<Longrightarrow> kids_ok kids \<Longrightarrow> rows_ok (place_children es kids)"
proof (induction es kids rule: place_children.induct)
  case (2 e es kids)
  have upd: "kids_ok (AList.update k [] kids)" for k
    using 2(5) set_update_subset[of k "[]" kids] by (auto simp: kids_ok_def rows_ok_def)
  have "rows_ok xs" if "Option.bind (entry_id e) (map_of kids) = Some xs" for xs
    using that 2(5) by (auto simp: kids_ok_def Option.bind_eq_Some_conv dest: map_of_SomeD)
  then show ?case
    using 2 upd by (auto simp: rows_ok_def list_all_iff intro!: set_field_ok split: option.splits)
qed (simp add: rows_ok_def)

lemma compute_children_ok: "rows_ok es \<Longrightarrow> rows_ok (compute_children es)"
  by (simp add: compute_children_def place_children_ok collect_kids_ok)

lemma apply_defaults_ok: "rows_ok es \<Longrightarrow> rows_ok (apply_defaults env keep es)"
proof -
  assume ok: "rows_ok es"
  let ?es = "compute_children (apply_readiness_overlay (normalize_lock_fields (map (default_row env \<circ> migrate_row) es)))"
  have "rows_ok ?es"
    unfolding apply_readiness_overlay_def normalize_lock_fields_def
    by (intro compute_children_ok overlay_ok.rows lock_ok.rows rows_ok_map ok) (simp add: row_ok)
  then show ?thesis by (auto simp: apply_defaults_def Let_def intro!: rows_okI dest: rows_okD)
qed

text \<open>
  The lock normalization has nothing left to do on a row it has normalized: on a well-formed row it is
  idempotent.
\<close>

lemma lock_normalization_idempotent:
  assumes "json_ok e"
  shows "normalize_lock_row (normalize_lock_row e) = normalize_lock_row e"
proof (cases "is_dict e")
  case True
  have ok: "json_ok (normalize_lock_row e)"
    by (rule normalize_lock_row_ok[OF assms])
  have "non_null (normalize_lock_row e) ''completed_at'' = non_null e ''completed_at''"
    by (simp add: non_null_def lock_row_get)
  then show ?thesis
    using lock_row_shape[OF assms True] ok True by (intro lock_row_fixed) simp_all
next
  case False
  then show ?thesis by (simp add: normalize_lock_row_def)
qed



end
