(* ===== verification/Backlog_Slugs.thy ===== *)
theory Backlog_Slugs
  imports Backlog_Wf
begin

text \<open>
  Canonical key order and slugs of the backlog rows, \<open>crates/fno-agents/src/graph_store.rs\<close>. Text is
  its UTF-8 bytes; lower-casing is that of ASCII, which differs from the full mapping only on the
  Kelvin sign and the dotted capital I, the two characters outside ASCII whose lower case begins with
  an ASCII letter.
\<close>

section \<open>Canonical order\<close>

definition CANONICAL_FIELD_ORDER :: "string list" where
  "CANONICAL_FIELD_ORDER =
     [''id'', ''status'', ''slug'', ''title'', ''priority'', ''rank'', ''type'', ''parent'', ''children'',
      ''project'', ''cwd'', ''domain'', ''blocked_by'', ''related'', ''dep'', ''stub_against'',
      ''contract_version'', ''locked_by'', ''locked_by_harness'', ''locked_by_harness_session'',
      ''session_id'', ''locked_at'', ''ownership_defect'', ''completed_at'', ''deferred_at'',
      ''deferred_reason'', ''deferred_kind'', ''touched_at'', ''has_brief'', ''roadmap_id'',
      ''vision_path'', ''details'', ''size'', ''batch'', ''cost_usd'', ''cost_sessions'',
      ''contained_in'', ''containment_surfaces'', ''plan_path'', ''pr_number'', ''pr_url'',
      ''additional_prs'', ''merge_status'', ''artifact_url'', ''completion_note'', ''progress_notes'',
      ''created_at'', ''supersedes'', ''superseded_by'', ''supersession'', ''collisions_acknowledged'',
      ''source'', ''source_kind'', ''source_project'', ''source_session_id'', ''source_harness'',
      ''source_cwd'', ''source_model'', ''source_effort'', ''source_parent_session'', ''source_team'',
      ''source_node_id'', ''source_plan_path'', ''source_inbox_msg'', ''request_origin'',
      ''origin_evidence'', ''spawned_by_session'', ''spawned_by_harness'', ''spawned_by_cwd'',
      ''sessions'', ''encounters'', ''queued_at'', ''queued_reason'']"

fun pull_fields :: "string list \<Rightarrow> members \<Rightarrow> members \<Rightarrow> members \<times> members" where
  "pull_fields [] obj ordered = (obj, ordered)"
| "pull_fields (k # ks) obj ordered =
     (case map_of obj k of
        None \<Rightarrow> pull_fields ks obj ordered
      | Some v \<Rightarrow> pull_fields ks (AList.delete k obj) (AList.update k v ordered))"

definition canonicalize_row :: "json \<Rightarrow> json" where
  "canonicalize_row e =
     (case as_object e of
        None \<Rightarrow> e
      | Some kvs \<Rightarrow>
          (let (obj, ordered) = pull_fields CANONICAL_FIELD_ORDER (AList.delete ''claimed_at'' kvs) []
           in JObj (fold (\<lambda>(k, v). AList.update k v) obj ordered)))"

definition canonicalize_entries :: "json list \<Rightarrow> json list" where
  "canonicalize_entries entries = map canonicalize_row (normalize_lock_fields (compute_children entries))"

section \<open>Slugs\<close>

definition slug_char :: "char \<Rightarrow> bool" where
  "slug_char c = (is_digit c \<or> (let n = of_char c :: nat in 97 \<le> n \<and> n \<le> 122))"

text \<open>The loop over the lower-cased title, with its flag.\<close>

fun dashed :: "bool \<Rightarrow> string \<Rightarrow> string" where
  "dashed prev_dash [] = []"
| "dashed prev_dash (c # cs) =
     (if slug_char c then c # dashed False cs
      else if \<not> prev_dash then CHR ''-'' # dashed True cs
      else dashed True cs)"

definition trim_dashes :: "string \<Rightarrow> string" where
  "trim_dashes s = rev (dropWhile (\<lambda>c. c = CHR ''-'') (rev (dropWhile (\<lambda>c. c = CHR ''-'') s)))"

text \<open>\<open>split('-')\<close> with the empty parts filtered out.\<close>

fun dash_words :: "string \<Rightarrow> string \<Rightarrow> string list" where
  "dash_words acc [] = (if acc = [] then [] else [acc])"
| "dash_words acc (c # cs) =
     (if c = CHR ''-'' then (if acc = [] then dash_words [] cs else acc # dash_words [] cs)
      else dash_words (acc @ [c]) cs)"

definition STOPWORDS :: "string list" where
  "STOPWORDS = [''a'', ''an'', ''the'', ''of'', ''for'', ''to'', ''and'', ''or'', ''in'', ''on'', ''with'']"

definition WORD_BUDGET :: nat where "WORD_BUDGET = 6"
definition LEN_CAP :: nat where "LEN_CAP = 48"

fun take_words :: "nat \<Rightarrow> string list \<Rightarrow> string list \<Rightarrow> string list" where
  "take_words len out [] = out"
| "take_words len out (w # ws) =
     (let add = length w + (if out = [] then 0 else 1)
      in if len + add > LEN_CAP then out else take_words (len + add) (out @ [w]) ws)"

fun join_dash :: "string list \<Rightarrow> string" where
  "join_dash [] = []"
| "join_dash [w] = w"
| "join_dash (w # ws) = w @ CHR ''-'' # join_dash ws"

definition derive_base_slug :: "string \<Rightarrow> string" where
  "derive_base_slug title =
     (let raw = trim_dashes (dashed False (to_ascii_lowercase title))
      in if raw = [] then []
         else (let words = dash_words [] raw;
                   filtered = filter (\<lambda>w. w \<notin> set STOPWORDS) words;
                   kept = (if filtered = [] then words else filtered);
                   out = take_words 0 [] (take WORD_BUDGET kept)
               in if out = [] then take LEN_CAP (hd kept) else join_dash out))"

definition hex_fallback_slug :: "string \<Rightarrow> string" where
  "hex_fallback_slug node_id =
     (let rest = dropWhile (\<lambda>c. c \<noteq> CHR ''-'') node_id;
          suffix = (if rest = [] then node_id else tl rest)
      in ''node-'' @ (if suffix = [] then ''unknown'' else suffix))"

definition numbered :: "string \<Rightarrow> nat \<Rightarrow> string" where
  "numbered base n = base @ ''-'' @ decimal n"

lemma decimal_inj: "decimal m = decimal n \<Longrightarrow> m = n"
  using digits_value_decimal by (metis of_nat_eq_iff)

lemma numbered_inj: "numbered base m = numbered base n \<longleftrightarrow> m = n"
  by (auto simp: numbered_def dest: decimal_inj)

lemma finite_numbered: "finite {m. numbered base m \<in> set taken}"
  by (rule finite_imageD[of "numbered base"]) (auto simp: inj_on_def numbered_inj intro: finite_subset[OF _ finite_set[of taken]])

text \<open>The search for the first free number ends: only finitely many are taken.\<close>

function free_number :: "string list \<Rightarrow> string \<Rightarrow> nat \<Rightarrow> nat" where
  "free_number taken base n = (if numbered base n \<in> set taken then free_number taken base (Suc n) else n)"
  by pat_completeness auto

termination
proof (relation "measure (\<lambda>(taken, base, n). card {m. n \<le> m \<and> numbered base m \<in> set taken})")
  fix taken base n assume "numbered base n \<in> set taken"
  then have "{m. Suc n \<le> m \<and> numbered base m \<in> set taken} \<subset> {m. n \<le> m \<and> numbered base m \<in> set taken}"
    by (auto intro!: psubsetI simp: set_eq_iff) (metis Suc_n_not_le_n le_refl)
  moreover have "finite {m. n \<le> m \<and> numbered base m \<in> set taken}"
    by (rule finite_subset[OF _ finite_numbered[of base taken]]) auto
  ultimately show "((taken, base, Suc n), taken, base, n)
      \<in> measure (\<lambda>(taken, base, n). card {m. n \<le> m \<and> numbered base m \<in> set taken})"
    by (simp add: psubset_card_mono)
qed simp

declare free_number.simps [simp del]

definition has_slug :: "json \<Rightarrow> bool" where
  "has_slug e = (case str_field e ''slug'' of None \<Rightarrow> False | Some s \<Rightarrow> s \<noteq> [])"

definition slug_candidate :: "string list \<Rightarrow> json \<Rightarrow> string" where
  "slug_candidate taken e =
     (let title = (case str_field e ''title'' of None \<Rightarrow> [] | Some t \<Rightarrow> t);
          i = (case str_field e ''id'' of None \<Rightarrow> [] | Some i \<Rightarrow> i);
          base = derive_base_slug title
      in if base \<noteq> [] \<and> base \<notin> set taken then base
         else if base \<noteq> [] then numbered base (free_number taken base 2)
         else hex_fallback_slug i)"

fun assign_slugs :: "string list \<Rightarrow> json list \<Rightarrow> json list \<times> nat" where
  "assign_slugs taken [] = ([], 0)"
| "assign_slugs taken (e # es) =
     (if \<not> is_dict e \<or> has_slug e
      then (let (es', n) = assign_slugs taken es in (e # es', n))
      else (let s = slug_candidate taken e; (es', n) = assign_slugs (s # taken) es
            in (set_field ''slug'' (JStr s) e # es', Suc n)))"

definition taken_slugs :: "json list \<Rightarrow> string list" where
  "taken_slugs entries =
     filter (\<lambda>s. s \<noteq> []) (filter_map (\<lambda>e. if is_dict e then str_field e ''slug'' else None) entries)"

definition ensure_slugs :: "json list \<Rightarrow> json list \<times> nat" where
  "ensure_slugs entries = assign_slugs (taken_slugs entries) entries"

section \<open>The curation key\<close>

definition CURATION_FIELDS :: "string list" where
  "CURATION_FIELDS = [''status'', ''priority'', ''rank'', ''parent'', ''blocked_by'', ''size'']"

definition curation_key :: "json \<Rightarrow> json" where
  "curation_key entry = JArr (map (\<lambda>f. or_null (get_field entry f)) CURATION_FIELDS)"

section \<open>Canonical order changes no field\<close>

lemma map_of_delete: "map_of (AList.delete k kvs) k' = (if k = k' then None else map_of kvs k')"
  by (simp add: delete_conv')

lemma map_of_update: "map_of (AList.update k v kvs) k' = (if k = k' then Some v else map_of kvs k')"
  by (simp add: update_conv')

definition disjoint_members :: "members \<Rightarrow> members \<Rightarrow> bool" where
  "disjoint_members a b \<longleftrightarrow> (\<forall>k. map_of a k = None \<or> map_of b k = None)"

definition vals :: "members \<Rightarrow> json set" where
  "vals kvs = snd ` set kvs"

lemma vals_Nil [simp]: "vals [] = {}" and vals_Cons [simp]: "vals ((k, v) # kvs) = insert v (vals kvs)"
  by (simp_all add: vals_def)

lemma json_ok_object: "json_ok (JObj kvs) \<longleftrightarrow> distinct (map fst kvs) \<and> (\<forall>x\<in>vals kvs. json_ok x)"
  by (simp add: vals_def)

lemma vals_delete: "vals (AList.delete k kvs) \<subseteq> vals kvs"
  by (auto simp: vals_def AList.delete_eq)

lemma vals_update: "vals (AList.update k v kvs) \<subseteq> insert v (vals kvs)"
  using set_update_subset[of k v kvs] by (force simp: vals_def)

lemma pull_fields_lookup:
  assumes "pull_fields ks obj ordered = (obj', ordered')" "disjoint_members obj ordered"
    "distinct (map fst obj)" "distinct (map fst ordered)"
  shows "disjoint_members obj' ordered' \<and> distinct (map fst obj') \<and> distinct (map fst ordered') \<and>
    (map_of ordered' ++ map_of obj') = (map_of ordered ++ map_of obj) \<and>
    vals obj' \<union> vals ordered' \<subseteq> vals obj \<union> vals ordered"
  using assms
proof (induction ks obj ordered rule: pull_fields.induct)
  case (2 k ks obj ordered)
  show ?case
  proof (cases "map_of obj k")
    case (Some v)
    let ?obj = "AList.delete k obj" and ?ord = "AList.update k v ordered"
    have "disjoint_members ?obj ?ord"
      using 2(4) by (simp add: disjoint_members_def map_of_delete map_of_update)
    moreover have "distinct (map fst ?obj)" "distinct (map fst ?ord)"
      using 2(5,6) by (simp_all add: distinct_delete distinct_update)
    moreover have "map_of ?ord ++ map_of ?obj = map_of ordered ++ map_of obj"
      using Some by (auto simp: map_add_def map_of_delete map_of_update fun_eq_iff split: option.split)
    moreover have "v \<in> vals obj" using map_of_SomeD[OF Some] by (force simp: vals_def)
    ultimately show ?thesis
      using 2(2)[OF Some] 2(3) Some vals_delete[of k obj] vals_update[of k v ordered] by auto
  qed (use 2 in auto)
qed simp

lemma fold_update_lookup:
  assumes "distinct (map fst obj)"
  shows "map_of (fold (\<lambda>(k, v). AList.update k v) obj ordered) = map_of ordered ++ map_of obj"
  using assms
proof (induction obj arbitrary: ordered)
  case (Cons p obj)
  obtain k v where p: "p = (k, v)" by (cases p)
  have "map_of obj k = None" using Cons.prems p by (auto simp: map_of_eq_None_iff)
  then show ?case
    using Cons p by (auto simp: map_add_def map_of_update fun_eq_iff split: option.split)
qed simp

lemma fold_update_members:
  "distinct (map fst ordered) \<Longrightarrow>
   distinct (map fst (fold (\<lambda>(k, v). AList.update k v) obj ordered)) \<and>
   vals (fold (\<lambda>(k, v). AList.update k v) obj ordered) \<subseteq> vals obj \<union> vals ordered"
proof (induction obj arbitrary: ordered)
  case (Cons p obj)
  obtain k v where p: "p = (k, v)" by (cases p)
  have "distinct (map fst (AList.update k v ordered))" using Cons.prems by (simp add: distinct_update)
  from Cons.IH[OF this] show ?case
    using p vals_update[of k v ordered] by auto
qed simp

lemma canonicalize_row_get:
  assumes "json_ok e"
  shows "get_field (canonicalize_row e) k = (if k = ''claimed_at'' then None else get_field e k)"
    "json_ok (canonicalize_row e)" "is_dict (canonicalize_row e) = is_dict e"
proof -
  have "get_field (canonicalize_row e) k = (if k = ''claimed_at'' then None else get_field e k) \<and>
    json_ok (canonicalize_row e) \<and> is_dict (canonicalize_row e) = is_dict e"
  proof (cases "as_object e")
    case None
    then show ?thesis using assms by (simp add: canonicalize_row_def get_field_def)
  next
    case (Some kvs)
    obtain obj ordered where pull: "pull_fields CANONICAL_FIELD_ORDER (AList.delete ''claimed_at'' kvs) [] = (obj, ordered)"
      by (cases "pull_fields CANONICAL_FIELD_ORDER (AList.delete ''claimed_at'' kvs) []")
    have kvs: "distinct (map fst kvs)" "\<And>x. x \<in> vals kvs \<Longrightarrow> json_ok x"
      using assms Some by (auto simp: as_object_Some vals_def)
    have sub: "distinct (map fst (AList.delete ''claimed_at'' kvs))"
      "vals (AList.delete ''claimed_at'' kvs) \<subseteq> vals kvs"
      using kvs(1) vals_delete by (simp_all add: distinct_delete)
    note look = pull_fields_lookup[OF pull _ sub(1)]
    have l: "distinct (map fst obj)" "distinct (map fst ordered)"
      "map_of ordered ++ map_of obj = map_of (AList.delete ''claimed_at'' kvs)"
      "vals obj \<union> vals ordered \<subseteq> vals kvs"
      using look sub(2) by (auto simp: disjoint_members_def)
    have row: "canonicalize_row e = JObj (fold (\<lambda>(k, v). AList.update k v) obj ordered)"
      using Some pull by (simp add: canonicalize_row_def)
    have "json_ok (canonicalize_row e)"
      using fold_update_members[OF l(2), of obj] l(4) kvs(2) unfolding row json_ok_object by blast
    then show ?thesis
      using Some l(3) unfolding row
      by (simp add: get_field_def is_dict_def fold_update_lookup[OF l(1)] map_of_delete)
  qed
  then show "get_field (canonicalize_row e) k = (if k = ''claimed_at'' then None else get_field e k)"
    "json_ok (canonicalize_row e)" "is_dict (canonicalize_row e) = is_dict e" by auto
qed

section \<open>Slugs are unique\<close>

lemma free_number_free: "numbered base (free_number taken base n) \<notin> set taken"
proof (induction taken base n rule: free_number.induct)
  case (1 taken base n)
  then show ?case by (cases "numbered base n \<in> set taken") (simp_all add: free_number.simps[of taken base n])
qed

lemma slug_candidate_fresh:
  assumes "derive_base_slug (case str_field e ''title'' of None \<Rightarrow> [] | Some t \<Rightarrow> t) \<noteq> []"
  shows "slug_candidate taken e \<notin> set taken \<and> slug_candidate taken e \<noteq> []"
  using assms free_number_free by (auto simp: slug_candidate_def Let_def numbered_def)

lemma hex_fallback_nonempty: "hex_fallback_slug i \<noteq> []"
  by (simp add: hex_fallback_slug_def Let_def)

lemma slug_candidate_nonempty: "slug_candidate taken e \<noteq> []"
  by (auto simp: slug_candidate_def Let_def numbered_def hex_fallback_nonempty)

lemma assign_slugs_Cons:
  "fst (assign_slugs taken (e # es)) =
     (if \<not> is_dict e \<or> has_slug e then e # fst (assign_slugs taken es)
      else set_field ''slug'' (JStr (slug_candidate taken e)) e # fst (assign_slugs (slug_candidate taken e # taken) es))"
  by (simp add: Let_def split_def)

lemma has_slug_set: "is_dict e \<Longrightarrow> has_slug (set_field ''slug'' (JStr (slug_candidate taken e)) e)"
  by (simp add: has_slug_def readers_set is_dict_def slug_candidate_nonempty)

lemma assign_slugs_all: "r \<in> set (fst (assign_slugs taken es)) \<Longrightarrow> is_dict r \<Longrightarrow> has_slug r"
proof (induction es arbitrary: taken)
  case (Cons e es)
  then show ?case
    by (auto simp: assign_slugs_Cons has_slug_set simp del: assign_slugs.simps split: if_splits)
qed simp

lemma assign_slugs_done: "(\<And>e. e \<in> set es \<Longrightarrow> is_dict e \<Longrightarrow> has_slug e) \<Longrightarrow> assign_slugs taken es = (es, 0)"
  by (induction taken es rule: assign_slugs.induct) auto

lemma taken_slugs_Cons:
  "taken_slugs (e # es) =
     (if is_dict e \<and> has_slug e then the (str_field e ''slug'') # taken_slugs es else taken_slugs es)"
  by (auto simp: taken_slugs_def has_slug_def split: option.splits)

text \<open>A row the slug is derived for from its title, not from its id.\<close>

definition titled :: "json \<Rightarrow> bool" where
  "titled e = (derive_base_slug (case str_field e ''title'' of None \<Rightarrow> [] | Some t \<Rightarrow> t) \<noteq> [])"

lemma assign_slugs_unique:
  assumes "distinct (taken_slugs es)" "set (taken_slugs es) \<subseteq> set taken"
    "\<And>e. e \<in> set es \<Longrightarrow> is_dict e \<Longrightarrow> \<not> has_slug e \<Longrightarrow> titled e"
  shows "distinct (taken_slugs (fst (assign_slugs taken es))) \<and>
    set (taken_slugs (fst (assign_slugs taken es))) \<inter> set taken \<subseteq> set (taken_slugs es)"
  using assms
proof (induction es arbitrary: taken)
  case (Cons e es)
  show ?case
  proof (cases "\<not> is_dict e \<or> has_slug e")
    case True
    then show ?thesis
      using Cons.IH[of taken] Cons.prems
      by (auto simp: assign_slugs_Cons taken_slugs_Cons simp del: assign_slugs.simps split: if_splits)
  next
    case False
    let ?s = "slug_candidate taken e"
    have fresh: "?s \<notin> set taken" using Cons.prems(3)[of e] False slug_candidate_fresh[of e taken] by (simp add: titled_def)
    have row: "is_dict (set_field ''slug'' (JStr ?s) e)" "has_slug (set_field ''slug'' (JStr ?s) e)"
      "the (str_field (set_field ''slug'' (JStr ?s) e) ''slug'') = ?s"
      using False has_slug_set[of e taken] by (simp_all add: readers_set, simp add: is_dict_def readers_set)
    have es: "taken_slugs (e # es) = taken_slugs es" using False by (simp add: taken_slugs_Cons)
    have "distinct (taken_slugs (fst (assign_slugs (?s # taken) es))) \<and>
        set (taken_slugs (fst (assign_slugs (?s # taken) es))) \<inter> set (?s # taken) \<subseteq> set (taken_slugs es)"
      using Cons.IH[of "?s # taken"] Cons.prems es by auto
    then show ?thesis
      using False fresh row Cons.prems(2) es
      by (auto simp: assign_slugs_Cons taken_slugs_Cons simp del: assign_slugs.simps)
  qed
qed simp

lemma ensure_slugs_again: "ensure_slugs (fst (ensure_slugs es)) = (fst (ensure_slugs es), 0)"
  unfolding ensure_slugs_def by (rule assign_slugs_done) (rule assign_slugs_all)



text \<open>A row whose title gives no slug gets one from its id, which is not compared with the slugs taken.\<close>

lemma hex_fallback_collides:
  "taken_slugs (fst (ensure_slugs
      [JObj [(''slug'', JStr ''node-1'')], JObj [(''id'', JStr ''ab-1''), (''title'', JStr ''--'')]])) =
   [''node-1'', ''node-1'']"
  by code_simp

end
