(* ===== verification/Backlog_Publish.thy ===== *)
theory Backlog_Publish
  imports Backlog_Slugs
begin

text \<open>
  The locked read-modify-write cycle of the backlog store and the guards at its publication seam:
  \<open>graph_store.rs\<close> with \<open>backlog/node_state.rs\<close>, \<open>title_gate.rs\<close>, \<open>epic_cap.rs\<close>, \<open>idea_cap.rs\<close>,
  \<open>done_evidence.rs\<close> and \<open>write_changed\<close> of \<open>backlog/mod.rs\<close> (all under
  \<open>crates/fno-agents/src/\<close>). A refusal is a value that carries what its message interpolates. The leak
  patterns of the title gate, the two caps, the clock and the comparison of serialized rows are
  arguments. The store is a map from ids to rows with its version stamp; the cycle sees it three
  times, when it reads the version, when it reads the rows, and again under the lock.
\<close>

section \<open>Refusals\<close>

datatype refusal =
    ProseBudget string nat nat
  | NotesGrow string
  | TitleLeak string string
  | TitleLong string nat
  | EpicCap string "string list" nat nat
  | IdeaCap string string nat nat
  | BareClose string

datatype GraphError =
    LockTimeout
  | Conflict
  | EmptyFieldUpdate string string
  | Invalid refusal
  | Sqlite string

text \<open>The first refusal of a loop over rows.\<close>

fun first_refusal :: "('a \<Rightarrow> 'e option) \<Rightarrow> 'a list \<Rightarrow> 'e option" where
  "first_refusal f [] = None"
| "first_refusal f (x # xs) = (case f x of Some e \<Rightarrow> Some e | None \<Rightarrow> first_refusal f xs)"

section \<open>Presence\<close>

definition PRESENCE_TEXT_FIELDS :: "string list" where
  "PRESENCE_TEXT_FIELDS = [''details'', ''completion_note'', ''title'']"

definition refuse_new_empty_presence :: "json list \<Rightarrow> json list \<Rightarrow> (string \<times> string) option" where
  "refuse_new_empty_presence before after =
     (let pre = index_by_id before
      in first_refusal (\<lambda>e.
           if \<not> is_dict e then None
           else (let i = (case entry_id e of None \<Rightarrow> ''<no id>'' | Some k \<Rightarrow> k)
                 in first_refusal (\<lambda>field.
                      case str_field e field of
                        None \<Rightarrow> None
                      | Some s \<Rightarrow>
                          if trim s = [] \<and> Option.bind (pre i) (\<lambda>b. get_field b field) \<noteq> get_field e field
                          then Some (field, i) else None) PRESENCE_TEXT_FIELDS)) after)"

section \<open>The prose policy\<close>

definition PROSE_LIMIT :: nat where "PROSE_LIMIT = 5000"
definition STATE_KEY :: string where "STATE_KEY = ''current_state''"
definition HISTORY_MARKER_KEY :: string where "HISTORY_MARKER_KEY = ''note_history''"

fun unix_newlines :: "string \<Rightarrow> string" where
  "unix_newlines (c # d # cs) =
     (if (of_char c :: nat) = 13 \<and> (of_char d :: nat) = 10 then d # unix_newlines cs
      else c # unix_newlines (d # cs))"
| "unix_newlines cs = cs"

definition normalize_prose :: "string \<Rightarrow> string" where
  "normalize_prose text = trim (unix_newlines text)"

text \<open>\<open>chars().count()\<close> on UTF-8: the bytes that do not continue a character.\<close>

definition chars_count :: "string \<Rightarrow> nat" where
  "chars_count s = length (filter (\<lambda>c. let n = of_char c :: nat in \<not> (128 \<le> n \<and> n < 192)) s)"

definition count_prose :: "string \<Rightarrow> nat" where
  "count_prose text = chars_count (normalize_prose text)"

definition or_empty :: "string option \<Rightarrow> string" where
  "or_empty s = (case s of None \<Rightarrow> [] | Some t \<Rightarrow> t)"

definition prose_total :: "json \<Rightarrow> nat" where
  "prose_total row =
     count_prose (or_empty (str_field row ''details'')) +
     count_prose (or_empty (Option.bind (get_field row STATE_KEY) (\<lambda>s. str_field s ''body'')))"

definition find_row :: "json list \<Rightarrow> string \<Rightarrow> json option" where
  "find_row rows i = List.find (\<lambda>r. entry_id r = Some i) rows"

text \<open>The closure \<open>count\<close>: it looks the notes up in its argument, and is called on the notes of the
  candidate but on the whole row before.\<close>

definition notes_count :: "json option \<Rightarrow> nat" where
  "notes_count v = (case Option.bind v (\<lambda>r. array_field r ''progress_notes'') of None \<Rightarrow> 0 | Some a \<Rightarrow> length a)"

definition prose_refusal :: "json list \<Rightarrow> json \<Rightarrow> refusal option" where
  "prose_refusal pre cand =
     (case entry_id cand of
        None \<Rightarrow> None
      | Some i \<Rightarrow>
          (let pre_row = find_row pre i;
               pre_get = (\<lambda>k. Option.bind pre_row (\<lambda>r. get_field r k))
           in if get_field cand ''details'' = pre_get ''details'' \<and> get_field cand STATE_KEY = pre_get STATE_KEY
              then None
              else (let cand_total = prose_total cand;
                        pre_total = (case pre_row of None \<Rightarrow> 0 | Some r \<Rightarrow> prose_total r)
                    in if cand_total > PROSE_LIMIT \<and> cand_total > pre_total
                       then Some (ProseBudget i cand_total PROSE_LIMIT)
                       else if pre_get HISTORY_MARKER_KEY \<noteq> None \<and>
                               notes_count (get_field cand ''progress_notes'') > notes_count pre_row
                       then Some (NotesGrow i) else None)))"

definition enforce_node_state_policy :: "json list \<Rightarrow> json list \<Rightarrow> refusal option" where
  "enforce_node_state_policy pre entries = first_refusal (prose_refusal pre) entries"

section \<open>The title gate\<close>

definition TITLE_MAX_CHARS :: nat where "TITLE_MAX_CHARS = 200"

definition title_of :: "json \<Rightarrow> string" where
  "title_of row = or_empty (str_field row ''title'')"

definition title_refusal :: "(string \<Rightarrow> string list) \<Rightarrow> string \<Rightarrow> string \<Rightarrow> refusal option" where
  "title_refusal leak_classes row_id title =
     (case leak_classes title of
        cls # _ \<Rightarrow> Some (TitleLeak row_id cls)
      | [] \<Rightarrow> if chars_count title > TITLE_MAX_CHARS then Some (TitleLong row_id (chars_count title)) else None)"

definition enforce_title_gate :: "(string \<Rightarrow> string list) \<Rightarrow> json list \<Rightarrow> json list \<Rightarrow> refusal option" where
  "enforce_title_gate leak_classes pre entries =
     first_refusal (\<lambda>cand. case entry_id cand of
         None \<Rightarrow> None
       | Some i \<Rightarrow>
           (let title = title_of cand
            in if title = [] then None
               else if map_option title_of (find_row pre i) = Some title then None
               else title_refusal leak_classes i title)) entries"

section \<open>The epic cap\<close>

definition row_is_open :: "json \<Rightarrow> bool" where
  "row_is_open row = (\<not> is_terminal_entry row \<and> str_field row ''status'' \<noteq> Some ''deferred'')"

definition parent_of :: "json \<Rightarrow> string option" where
  "parent_of row = (case str_field row ''parent'' of Some p \<Rightarrow> (if p = [] then None else Some p) | None \<Rightarrow> None)"

definition open_child_count :: "json list \<Rightarrow> string \<Rightarrow> nat" where
  "open_child_count rows epic = length (filter (\<lambda>r. row_is_open r \<and> parent_of r = Some epic) rows)"

definition is_epic :: "json \<Rightarrow> bool" where
  "is_epic row = (str_field row ''type'' = Some ''epic'')"

text \<open>The epic a row of the candidate state is newly open under, if any.\<close>

definition grows_epic :: "row_index \<Rightarrow> row_index \<Rightarrow> json \<Rightarrow> string option" where
  "grows_epic pre_by_id post_by_id row =
     (case entry_id row of
        None \<Rightarrow> None
      | Some i \<Rightarrow>
          if \<not> is_dict row \<or> \<not> row_is_open row then None
          else (case parent_of row of
                  None \<Rightarrow> None
                | Some epic \<Rightarrow>
                    if epic = i then None
                    else (case post_by_id epic of
                            None \<Rightarrow> None
                          | Some epic_row \<Rightarrow>
                              if \<not> is_epic epic_row then None
                              else (let pre_row = pre_by_id i;
                                        was_epic = (case pre_by_id epic of None \<Rightarrow> False | Some r \<Rightarrow> is_epic r);
                                        already_counted = (was_epic \<and>
                                          (case pre_row of None \<Rightarrow> False
                                           | Some r \<Rightarrow> parent_of r = Some epic \<and> row_is_open r));
                                        old = Option.bind pre_row (\<lambda>r. if row_is_open r then parent_of r else None);
                                        handed_up = (case Option.bind old post_by_id of
                                           None \<Rightarrow> False | Some r \<Rightarrow> is_terminal_entry r)
                                    in if already_counted \<or> handed_up then None else Some epic))))"

fun push_grown :: "string \<Rightarrow> string \<Rightarrow> (string \<times> string list) list \<Rightarrow> (string \<times> string list) list" where
  "push_grown epic i [] = [(epic, [i])]"
| "push_grown epic i ((e, is) # g) = (if e = epic then (e, is @ [i]) # g else (e, is) # push_grown epic i g)"

definition grown_epics :: "json list \<Rightarrow> json list \<Rightarrow> (string \<times> string list) list" where
  "grown_epics pre post =
     fold (\<lambda>row g. case grows_epic (index_by_id pre) (index_by_id post) row of
             None \<Rightarrow> g
           | Some epic \<Rightarrow> push_grown epic (the (entry_id row)) g) post []"

definition enforce_epic_cap :: "json list \<Rightarrow> json list \<Rightarrow> nat option \<Rightarrow> refusal option" where
  "enforce_epic_cap pre post cap =
     (case cap of
        None \<Rightarrow> None
      | Some n \<Rightarrow>
          first_refusal (\<lambda>(epic, children).
            let open_kids = open_child_count post epic
            in if open_kids \<le> n then None else Some (EpicCap epic children open_kids n)) (grown_epics pre post))"

section \<open>The idea cap\<close>

definition null_or_blank :: "json \<Rightarrow> string \<Rightarrow> bool" where
  "null_or_blank row k = (case get_field row k of None \<Rightarrow> True | Some v \<Rightarrow> v = JNull \<or> as_str v = Some [])"

definition capped_idea :: "json \<Rightarrow> bool" where
  "capped_idea row =
     (str_field row ''status'' = Some ''idea'' \<and> null_or_blank row ''plan_path'' \<and>
      \<not> is_epic row \<and> null_or_blank row ''group_slug'' \<and>
      str_field row ''source_kind'' \<noteq> Some ''operator_request'' \<and>
      str_field row ''source_kind'' \<noteq> Some ''external_request'')"

fun nearest_epic :: "row_index \<Rightarrow> nat \<Rightarrow> json \<Rightarrow> string option" where
  "nearest_epic rows_by_id 0 current = None"
| "nearest_epic rows_by_id (Suc hops) current =
     (case parent_of current of
        None \<Rightarrow> None
      | Some parent \<Rightarrow>
          (case rows_by_id parent of
             None \<Rightarrow> None
           | Some parent_row \<Rightarrow>
               if is_epic parent_row then Some parent else nearest_epic rows_by_id hops parent_row))"

definition scope_for :: "json \<Rightarrow> row_index \<Rightarrow> string" where
  "scope_for row rows_by_id =
     (case nearest_epic rows_by_id 64 row of
        Some epic \<Rightarrow> ''epic:'' @ epic
      | None \<Rightarrow> ''project:'' @ or_empty (str_field row ''project''))"

definition idea_count :: "json list \<Rightarrow> string \<Rightarrow> nat" where
  "idea_count rows scope = length (filter (\<lambda>r. capped_idea r \<and> scope_for r (index_by_id rows) = scope) rows)"

definition births :: "json list \<Rightarrow> json list \<Rightarrow> (string \<times> json list) list" where
  "births pre post =
     fold (\<lambda>row m.
        if \<not> capped_idea row then m
        else (case entry_id row of
                None \<Rightarrow> m
              | Some i \<Rightarrow> if index_by_id pre i = None
                          then btree_push (scope_for row (index_by_id post)) row m else m)) post []"

definition enforce_idea_cap :: "json list \<Rightarrow> json list \<Rightarrow> nat option \<Rightarrow> refusal option" where
  "enforce_idea_cap pre post cap =
     (case cap of
        None \<Rightarrow> None
      | Some n \<Rightarrow>
          first_refusal (\<lambda>(scope, new_rows).
            let open_ideas = idea_count post scope
            in if open_ideas \<le> n then None
               else (let row = hd (sort_key (\<lambda>r. or_empty (entry_id r)) new_rows)
                     in Some (IdeaCap (case entry_id row of None \<Rightarrow> ''<missing-id>'' | Some i \<Rightarrow> i)
                                scope open_ideas n))) (births pre post))"

section \<open>Close evidence\<close>

definition has_pr_ref :: "json \<Rightarrow> bool" where
  "has_pr_ref row =
     (Option.bind (get_field row ''pr_number'') as_u64 \<noteq> None \<or> nonblank_field row ''pr_url'' \<or>
      (case array_field row ''additional_prs'' of None \<Rightarrow> False | Some a \<Rightarrow> a \<noteq> []))"

definition has_evidence :: "json \<Rightarrow> bool" where
  "has_evidence row =
     (has_pr_ref row \<or> list_ex (nonblank_field row) [''completion_note'', ''artifact_url'', ''retired''])"

definition enforce_evidence :: "json list \<Rightarrow> json list \<Rightarrow> refusal option" where
  "enforce_evidence pre post =
     (let pre_by_id = index_by_id pre
      in first_refusal (\<lambda>row. case entry_id row of
           None \<Rightarrow> None
         | Some i \<Rightarrow>
             if \<not> is_dict row \<or> \<not> non_null row ''completed_at'' \<or> has_evidence row then None
             else (case pre_by_id i of
                     None \<Rightarrow> None
                   | Some before \<Rightarrow> if non_null before ''completed_at'' then None else Some (BareClose i))) post)"

section \<open>Stamps and releases\<close>

definition status_map :: "json list \<Rightarrow> string \<rightharpoonup> string" where
  "status_map rows = (\<lambda>i. map_option (\<lambda>e. or_empty (str_field e ''status'')) (index_by_id rows i))"

definition pre_curation :: "json list \<Rightarrow> (string \<rightharpoonup> string) \<Rightarrow> string \<Rightarrow> json option" where
  "pre_curation pre normalized i =
     map_option (\<lambda>e. curation_key (set_field ''status''
        (case normalized i of Some s \<Rightarrow> JStr s | None \<Rightarrow> or_null (get_field e ''status'')) e))
       (index_by_id pre i)"

definition stamp_touched :: "string \<Rightarrow> (string \<Rightarrow> json option) \<Rightarrow> json \<Rightarrow> json \<Rightarrow> json" where
  "stamp_touched now_iso before e view =
     (case entry_id e of
        None \<Rightarrow> e
      | Some i \<Rightarrow>
          (case before i of
             None \<Rightarrow> e
           | Some old \<Rightarrow>
               if curation_key (set_field ''status'' (or_null (get_field e ''status'')) view) \<noteq> old
               then set_field ''touched_at'' (JStr now_iso) e else e))"

definition closes_now :: "(string \<rightharpoonup> string) \<Rightarrow> json \<Rightarrow> (string \<times> string) option" where
  "closes_now normalized e =
     (case entry_id e of
        None \<Rightarrow> None
      | Some i \<Rightarrow>
          (let rung = or_empty (str_field e ''status'')
           in if rung \<notin> set TERMINAL_RUNGS \<or> (\<exists>r\<in>set TERMINAL_RUNGS. normalized i = Some r) then None
              else Some (i, rung)))"

definition release_row :: "(string \<rightharpoonup> string) \<Rightarrow> json \<Rightarrow> json" where
  "release_row normalized e =
     (if closes_now normalized e = None then e
      else set_field ''locked_at'' JNull (set_field ''locked_by'' JNull e))"

section \<open>The cycle\<close>

record publish_env =
  genv :: graph_env
  clock :: "nat \<Rightarrow> int"
  now_iso :: string
  leaks :: "string \<Rightarrow> string list"
  epic_cap :: "nat option"
  idea_cap :: "nat option"
  is_canonical :: bool
  before_publish :: "json list \<Rightarrow> GraphError option"

definition publish_guards :: "publish_env \<Rightarrow> json list \<Rightarrow> json list \<Rightarrow> refusal option" where
  "publish_guards env raw entries =
     first_refusal id
       [enforce_node_state_policy raw entries, enforce_title_gate (leaks env) raw entries,
        enforce_epic_cap raw entries (epic_cap env), enforce_idea_cap raw entries (idea_cap env),
        enforce_evidence raw entries]"

text \<open>From the rows read and the rows the caller hands in to the rows to publish and the closures.\<close>

definition prepare_entries ::
  "publish_env \<Rightarrow> (string \<rightharpoonup> string) option \<Rightarrow> json list \<Rightarrow> json list \<Rightarrow> json list \<times> (string \<times> string) list" where
  "prepare_entries env rungs raw entries =
     (let pre = apply_defaults (genv env) False raw;
          normalized = status_map (recompute_statuses_with_plan_rungs (genv env) (clock env) rungs pre);
          before = pre_curation pre normalized;
          entries = fst (ensure_slugs entries);
          entries = recompute_statuses_with_plan_rungs (genv env) (clock env) rungs entries;
          views = apply_defaults (genv env) True entries;
          entries = map (\<lambda>(e, v). stamp_touched (now_iso env) before e v) (zip entries views);
          closures = (if is_canonical env then filter_map (closes_now normalized) entries else [])
      in (canonicalize_entries (map (release_row normalized) entries), closures))"

definition mutate_entries ::
  "publish_env \<Rightarrow> (string \<rightharpoonup> string) option \<Rightarrow> json list \<Rightarrow> json list \<Rightarrow>
   GraphError + (json list \<times> (string \<times> string) list)" where
  "mutate_entries env rungs raw entries =
     (case refuse_new_empty_presence raw entries of
        Some (field, i) \<Rightarrow> Inl (EmptyFieldUpdate field i)
      | None \<Rightarrow>
          (let (out, closures) = prepare_entries env rungs raw entries
           in case publish_guards env raw out of
                Some r \<Rightarrow> Inl (Invalid r)
              | None \<Rightarrow>
                  (case before_publish env raw of
                     Some e \<Rightarrow> Inl e
                   | None \<Rightarrow> Inr (out, closures))))"

text \<open>The store, and the write of the rows that differ from the baseline. A row the typed tables cannot
  represent is carried verbatim, so every changed row is stored as it is.\<close>

record store =
  db_rows :: "(string \<times> json) list"
  db_version :: string

fun strict_ids :: "string list \<Rightarrow> json list \<Rightarrow> bool" where
  "strict_ids seen [] = True"
| "strict_ids seen (r # rs) =
     (case entry_id r of None \<Rightarrow> False | Some i \<Rightarrow> i \<noteq> [] \<and> i \<notin> set seen \<and> strict_ids (i # seen) rs)"

definition write_row ::
  "(json \<Rightarrow> json \<Rightarrow> bool) \<Rightarrow> row_index \<Rightarrow> row_index \<Rightarrow> string \<Rightarrow> (string \<times> json) list \<Rightarrow> (string \<times> json) list" where
  "write_row same before_map after_map i db =
     (case (before_map i, after_map i) of
        (Some b, Some a) \<Rightarrow> if same b a then db else AList.update i a db
      | (None, Some a) \<Rightarrow> AList.update i a db
      | (Some b, None) \<Rightarrow> AList.delete i db
      | (None, None) \<Rightarrow> db)"

definition write_changed ::
  "(json \<Rightarrow> json \<Rightarrow> bool) \<Rightarrow> json list \<Rightarrow> json list \<Rightarrow> (string \<times> json) list \<Rightarrow> (string \<times> json) list option" where
  "write_changed same before after db =
     (if \<not> strict_ids [] after then None
      else (let ids = sort (remdups (row_ids before @ row_ids after))
            in Some (fold (write_row same (index_by_id before) (index_by_id after)) ids db)))"

definition confirm_ids_landed :: "(string \<times> json) list \<Rightarrow> json list \<Rightarrow> bool" where
  "confirm_ids_landed db after =
     (let expected = remdups (filter_map entry_id after)
      in length db = length expected \<and> list_all (\<lambda>i. map_of db i \<noteq> None) expected)"

definition authoritative_sync ::
  "(json \<Rightarrow> json \<Rightarrow> bool) \<Rightarrow> (json list \<Rightarrow> string) \<Rightarrow> json list \<Rightarrow> json list \<Rightarrow> store \<Rightarrow> string + store" where
  "authoritative_sync same content_version before after db =
     (case write_changed same before after (db_rows db) of
        None \<Rightarrow> Inl ''unrepresentable rows''
      | Some rs \<Rightarrow>
          if confirm_ids_landed rs after
          then Inr \<lparr>db_rows = rs, db_version = content_version after\<rparr>
          else Inl ''publish read-back mismatch'')"

definition locked_mutate ::
  "publish_env \<Rightarrow> (json \<Rightarrow> json \<Rightarrow> bool) \<Rightarrow> (json list \<Rightarrow> string) \<Rightarrow>
   string \<Rightarrow> (string \<rightharpoonup> string) option \<Rightarrow> json list \<Rightarrow>
   string \<Rightarrow> json list \<Rightarrow> bool \<Rightarrow> store \<Rightarrow>
   GraphError + (store \<times> json list \<times> (string \<times> string) list)" where
  "locked_mutate env same content_version base_version rungs entries begin_version raw locked db =
     (if \<not> locked then Inl LockTimeout
      else if db_version db \<noteq> begin_version \<or> db_version db \<noteq> base_version then Inl Conflict
      else (case mutate_entries env rungs raw entries of
              Inl e \<Rightarrow> Inl e
            | Inr (out, closures) \<Rightarrow>
                (case authoritative_sync same content_version (canonicalize_entries raw) out db of
                   Inl e \<Rightarrow> Inl (Sqlite e)
                 | Inr db' \<Rightarrow> Inr (db', out, closures))))"

end
