(* ===== verification/Backlog_Publish_Props.thy ===== *)
theory Backlog_Publish_Props
  imports Backlog_Publish
begin

text \<open>
  What the publication seam guarantees of every write that lands, and where it does not: the caps are
  invariants, a close has evidence, each closure reported is a row that newly reads terminal,
  and the write makes the store equal to the candidate rows provided the baseline it
  compares with is current.
\<close>

section \<open>Refusals\<close>

lemma first_refusal_None: "first_refusal f xs = None \<longleftrightarrow> (\<forall>x\<in>set xs. f x = None)"
  by (induction xs) (auto split: option.split)

lemma first_refusal_Some: "first_refusal f xs = Some e \<Longrightarrow> \<exists>x\<in>set xs. f x = Some e"
  by (induction xs) (auto split: option.splits)

text \<open>
  The contract of a guard that judges the candidate rows one by one: a write it accepts has no row it
  would refuse, and a refusal is that of a row of the write.
\<close>

locale row_guard =
  fixes enforce :: "json list \<Rightarrow> json list \<Rightarrow> refusal option"
    and judge :: "json list \<Rightarrow> json \<Rightarrow> refusal option"
  assumes enforce_rows: "enforce pre post = first_refusal (judge pre) post"
begin

lemma accepted: "enforce pre post = None \<Longrightarrow> row \<in> set post \<Longrightarrow> judge pre row = None"
  by (simp add: enforce_rows first_refusal_None)

lemma refused: "enforce pre post = Some e \<Longrightarrow> \<exists>row\<in>set post. judge pre row = Some e"
  unfolding enforce_rows by (rule first_refusal_Some)

end

definition evidence_refusal :: "json list \<Rightarrow> json \<Rightarrow> refusal option" where
  "evidence_refusal pre row = (case entry_id row of
     None \<Rightarrow> None
   | Some i \<Rightarrow>
       if \<not> is_dict row \<or> \<not> non_null row ''completed_at'' \<or> has_evidence row then None
       else (case index_by_id pre i of
               None \<Rightarrow> None
             | Some before \<Rightarrow> if non_null before ''completed_at'' then None else Some (BareClose i)))"

definition row_title_refusal :: "(string \<Rightarrow> string list) \<Rightarrow> json list \<Rightarrow> json \<Rightarrow> refusal option" where
  "row_title_refusal leak_classes pre cand = (case entry_id cand of
     None \<Rightarrow> None
   | Some i \<Rightarrow>
       (let title = title_of cand
        in if title = [] then None
           else if map_option title_of (find_row pre i) = Some title then None
           else title_refusal leak_classes i title))"

interpretation prose_guard: row_guard enforce_node_state_policy prose_refusal
  by unfold_locales (simp add: enforce_node_state_policy_def)

interpretation title_guard: row_guard "enforce_title_gate leak_classes" "row_title_refusal leak_classes" for leak_classes
  by unfold_locales (simp add: enforce_title_gate_def row_title_refusal_def[abs_def])

interpretation evidence_guard: row_guard enforce_evidence evidence_refusal
  by unfold_locales (simp add: enforce_evidence_def evidence_refusal_def[abs_def] Let_def)

lemma mutate_entries_guards:
  assumes "mutate_entries env rungs raw entries = Inr (out, closures)"
  shows "refuse_new_empty_presence raw entries = None" "prepare_entries env rungs raw entries = (out, closures)"
    "enforce_node_state_policy raw out = None" "enforce_title_gate (leaks env) raw out = None"
    "enforce_epic_cap raw out (epic_cap env) = None" "enforce_idea_cap raw out (idea_cap env) = None"
    "enforce_evidence raw out = None"
  using assms
  by (auto simp: mutate_entries_def publish_guards_def split: option.splits prod.splits)

lemma locked_mutate_Inr:
  assumes "locked_mutate env same cv base rungs entries begin_v raw locked db = Inr (db', out, closures)"
  shows "mutate_entries env rungs raw entries = Inr (out, closures)"
    "write_changed same (canonicalize_entries raw) out (db_rows db) = Some (db_rows db')"
    "db_version db' = cv out" "db_version db = begin_v" "begin_v = base"
  using assms
  by (auto simp: locked_mutate_def authoritative_sync_def split: if_splits sum.splits option.splits prod.splits)

section \<open>The epic cap\<close>

lemma push_grown_keys: "fst ` set (push_grown epic i g) = insert epic (fst ` set g)"
  by (induction epic i g rule: push_grown.induct) auto

lemma grown_epics_complete:
  assumes "row \<in> set post" "grows_epic (index_by_id pre) (index_by_id post) row = Some epic"
  shows "epic \<in> fst ` set (grown_epics pre post)"
proof -
  let ?f = "\<lambda>row g. case grows_epic (index_by_id pre) (index_by_id post) row of
             None \<Rightarrow> g | Some epic \<Rightarrow> push_grown epic (the (entry_id row)) g"
  have mono: "epic \<in> fst ` set g \<Longrightarrow> epic \<in> fst ` set (fold ?f xs g)" for xs g
    by (induction xs arbitrary: g) (auto simp: push_grown_keys split: option.split)
  have "row \<in> set xs \<Longrightarrow> epic \<in> fst ` set (fold ?f xs g)" for xs g
  proof (induction xs arbitrary: g)
    case (Cons x xs)
    then show ?case using assms(2) mono[of "push_grown epic (the (entry_id row)) g" xs]
      by (auto simp: push_grown_keys)
  qed simp
  then show ?thesis using assms(1) by (simp add: grown_epics_def)
qed

lemma epic_cap_grown:
  assumes "enforce_epic_cap pre post (Some n) = None" "row \<in> set post"
    "grows_epic (index_by_id pre) (index_by_id post) row = Some epic"
  shows "open_child_count post epic \<le> n"
proof -
  obtain kids where "(epic, kids) \<in> set (grown_epics pre post)"
    using grown_epics_complete[OF assms(2,3)] by auto
  then show ?thesis
    using assms(1) by (force simp: enforce_epic_cap_def first_refusal_None Let_def split: if_splits)
qed

definition within_cap :: "nat \<Rightarrow> json list \<Rightarrow> bool" where
  "within_cap n rs \<longleftrightarrow>
     (\<forall>epic r. index_by_id rs epic = Some r \<longrightarrow> is_epic r \<longrightarrow> open_child_count rs epic \<le> n)"

text \<open>No open row leaves a parent that is closed after the write: nothing is handed up.\<close>

definition hands_up :: "json list \<Rightarrow> json list \<Rightarrow> bool" where
  "hands_up pre post \<longleftrightarrow>
     (\<exists>i r old p. index_by_id pre i = Some r \<and> row_is_open r \<and> parent_of r = Some old \<and>
        index_by_id post old = Some p \<and> is_terminal_entry p)"

definition own_parent :: "json \<Rightarrow> bool" where
  "own_parent r \<longleftrightarrow> entry_id r \<noteq> None \<and> parent_of r = entry_id r"

lemma index_in: "index_by_id rs i = Some r \<Longrightarrow> r \<in> set rs \<and> entry_id r = Some i \<and> is_dict r"
  by (induction rs) (auto simp: index_Cons index_by_id_def[of "[]"] split: option.splits if_splits)

lemma grows_epic_parent: "grows_epic p q row = Some epic \<Longrightarrow> parent_of row = Some epic"
  by (auto simp: grows_epic_def Let_def split: option.splits if_splits)

lemma ungrown_child:
  assumes "grows_epic (index_by_id pre) (index_by_id post) row = None" "\<not> hands_up pre post"
    "row_is_open row" "parent_of row = Some epic" "\<not> own_parent row" "entry_id row = Some i"
    "index_by_id post epic = Some er" "is_epic er"
  shows "\<exists>r e. index_by_id pre i = Some r \<and> row_is_open r \<and> parent_of r = Some epic \<and>
    index_by_id pre epic = Some e \<and> is_epic e"
proof -
  have dict: "is_dict row" using assms(6) by (auto simp: entry_id_def is_dict_def dest: str_field_object)
  have ne: "epic \<noteq> i" using assms(4-6) by (auto simp: own_parent_def)
  have up: "\<not> (\<exists>r old p. index_by_id pre i = Some r \<and> row_is_open r \<and> parent_of r = Some old \<and>
      index_by_id post old = Some p \<and> is_terminal_entry p)"
    using assms(2) by (auto simp: hands_up_def)
  show ?thesis
    using assms(1) assms(3-8) dict ne up
    by (auto simp: grows_epic_def Let_def Option.bind_eq_Some_conv split: option.splits if_splits)
qed

lemma strict_ids_distinct:
  "strict_ids seen rs \<Longrightarrow> distinct (map (the \<circ> entry_id) rs) \<and>
     (\<forall>r\<in>set rs. entry_id r \<noteq> None \<and> the (entry_id r) \<notin> set seen)"
proof (induction rs arbitrary: seen)
  case (Cons r rs)
  then obtain i where i: "entry_id r = Some i" "i \<notin> set seen" "strict_ids (i # seen) rs"
    by (auto split: option.splits)
  from Cons.IH[OF i(3)] i show ?case by force
qed simp

lemma count_by_id:
  assumes "strict_ids [] post"
  shows "open_child_count post epic = card {i. \<exists>r\<in>set post. entry_id r = Some i \<and> row_is_open r \<and> parent_of r = Some epic}"
proof -
  note key = strict_ids_distinct[OF assms]
  let ?P = "\<lambda>r. row_is_open r \<and> parent_of r = Some epic"
  have "distinct (map (the \<circ> entry_id) (filter ?P post))"
    using key by (blast intro: distinct_map_filter)
  then have "length (filter ?P post) = card (set (map (the \<circ> entry_id) (filter ?P post)))"
    using distinct_card by fastforce
  moreover have "set (map (the \<circ> entry_id) (filter ?P post)) =
      {i. \<exists>r\<in>set post. entry_id r = Some i \<and> ?P r}"
    using key by force
  ultimately show ?thesis by (simp add: open_child_count_def)
qed

lemma strict_index:
  assumes "strict_ids [] rs" "r \<in> set rs" "entry_id r = Some i"
  shows "index_by_id rs i = Some r"
proof -
  have dict: "is_dict r" using assms(3) by (auto simp: entry_id_def is_dict_def dest: str_field_object)
  have d: "distinct (map (the \<circ> entry_id) rs)" "\<forall>r\<in>set rs. entry_id r \<noteq> None"
    using strict_ids_distinct[OF assms(1)] by auto
  show ?thesis
    using d assms(2)
  proof (induction rs)
    case (Cons x rs)
    show ?case
    proof (cases "r \<in> set rs")
      case False
      have "index_by_id rs i = None"
      proof (rule ccontr)
        assume "index_by_id rs i \<noteq> None"
        then obtain y where "y \<in> set rs" "entry_id y = Some i" using index_in by blast
        moreover have "x = r" using Cons.prems False by simp
        ultimately show False using Cons.prems(1) assms(3) by (force simp: image_iff)
      qed
      then show ?thesis using Cons.prems False dict assms(3) by (simp add: index_Cons)
    qed (use Cons in \<open>simp add: index_Cons\<close>)
  qed simp
qed

lemma epic_cap_invariant:
  assumes cap: "enforce_epic_cap pre post (Some n) = None" and pre: "strict_ids [] pre" "within_cap n pre"
    and post: "strict_ids [] post" and up: "\<not> hands_up pre post" and own: "\<And>r. r \<in> set post \<Longrightarrow> \<not> own_parent r"
  shows "within_cap n post"
  unfolding within_cap_def
proof (intro allI impI)
  fix epic er assume epic: "index_by_id post epic = Some er" "is_epic er"
  let ?kids = "\<lambda>rs. {i. \<exists>r\<in>set rs. entry_id r = Some i \<and> row_is_open r \<and> parent_of r = Some epic}"
  show "open_child_count post epic \<le> n"
  proof (cases "\<exists>row\<in>set post. grows_epic (index_by_id pre) (index_by_id post) row = Some epic")
    case False
    have old: "i \<in> ?kids pre \<and> (\<exists>e. index_by_id pre epic = Some e \<and> is_epic e)" if kid: "i \<in> ?kids post" for i
    proof -
      obtain row where row: "row \<in> set post" "entry_id row = Some i" "row_is_open row" "parent_of row = Some epic"
        using kid by auto
      have "grows_epic (index_by_id pre) (index_by_id post) row = None"
        using False row grows_epic_parent[of "index_by_id pre" "index_by_id post" row]
        by (cases "grows_epic (index_by_id pre) (index_by_id post) row") auto
      from ungrown_child[OF this up row(3,4) own[OF row(1)] row(2) epic]
      show ?thesis using index_in by blast
    qed
    show ?thesis
    proof (cases "?kids post = {}")
      case True
      then show ?thesis unfolding count_by_id[OF post] by (simp only: card.empty le0)
    next
      case False
      then obtain e where "index_by_id pre epic = Some e" "is_epic e" using old by blast
      then have "card (?kids pre) \<le> n" using pre(2) count_by_id[OF pre(1)] by (auto simp: within_cap_def)
      moreover have "finite (?kids pre)"
        by (rule finite_subset[of _ "(the \<circ> entry_id) ` set pre"]) force+
      moreover have "?kids post \<subseteq> ?kids pre" using old by blast
      ultimately show ?thesis
        using card_mono[of "?kids pre" "?kids post"] unfolding count_by_id[OF post] by linarith
    qed
  qed (use epic_cap_grown[OF cap] in blast)
qed

lemma write_changed_strict: "write_changed same before after db = Some db' \<Longrightarrow> strict_ids [] after"
  by (simp add: write_changed_def split: if_splits)


section \<open>Evidence and ideas\<close>

text \<open>
  C27. No write closes a row without leaving a record of why: a row of a published candidate that carries
  a completion stamp, and whose row in the rows read did not, names a pull request, an artifact, a
  note or a retirement.
\<close>

theorem published_closes_have_evidence:
  assumes "locked_mutate env same cv base rungs entries begin_v raw locked db = Inr (db', out, closures)"
    "row \<in> set out" "entry_id row = Some i" "non_null row ''completed_at''"
    "index_by_id raw i = Some before" "\<not> non_null before ''completed_at''"
  shows "has_evidence row"
proof (rule ccontr)
  assume no: "\<not> has_evidence row"
  have dict: "is_dict row" using assms(3) by (auto simp: entry_id_def is_dict_def dest: str_field_object)
  have "enforce_evidence raw out = None" by (rule mutate_entries_guards(7)[OF locked_mutate_Inr(1)[OF assms(1)]])
  from evidence_guard.accepted[OF this assms(2)] show False
    using assms(3-6) no dict by (simp add: evidence_refusal_def)
qed

lemma births_complete:
  assumes "row \<in> set post" "capped_idea row" "entry_id row = Some i" "index_by_id pre i = None"
  shows "scope_for row (index_by_id post) \<in> fst ` set (births pre post)"
proof -
  let ?f = "\<lambda>row m.
        if \<not> capped_idea row then m
        else (case entry_id row of
                None \<Rightarrow> m
              | Some i \<Rightarrow> if index_by_id pre i = None
                          then btree_push (scope_for row (index_by_id post)) row m else m)"
  have keys: "fst ` set (btree_push k x m) = insert k (fst ` set m)" for k and x :: json and m
    using btree_push_keys[of k x m] by (simp add: btree_keys_def)
  have mono: "s \<in> fst ` set m \<Longrightarrow> s \<in> fst ` set (fold ?f xs m)" for s xs m
    by (induction xs arbitrary: m) (auto simp: keys split: option.split)
  have "row \<in> set xs \<Longrightarrow> scope_for row (index_by_id post) \<in> fst ` set (fold ?f xs m)" for xs m
  proof (induction xs arbitrary: m)
    case (Cons x xs)
    then show ?case
      using assms mono[of "scope_for row (index_by_id post)" "?f row m" xs] by (auto simp: keys)
  qed simp
  then show ?thesis using assms(1) by (simp add: births_def)
qed


section \<open>The guard on migrated notes\<close>

text \<open>
  The guard that was to keep the notes of a migrated row from growing cannot refuse: it counts the notes
  of the candidate inside the notes themselves, so unless the notes are an object the count is zero.
\<close>

theorem notes_guard_is_dead:
  assumes "list_all (\<lambda>row. \<forall>v. get_field row ''progress_notes'' = Some v \<longrightarrow> as_object v = None) entries"
  shows "enforce_node_state_policy pre entries \<noteq> Some (NotesGrow i)"
proof
  assume "enforce_node_state_policy pre entries = Some (NotesGrow i)"
  then obtain row where row: "row \<in> set entries" "prose_refusal pre row = Some (NotesGrow i)"
    by (auto dest: prose_guard.refused)
  have "notes_count (get_field row ''progress_notes'') = 0"
  proof (cases "get_field row ''progress_notes''")
    case (Some v)
    then have "as_object v = None" using assms row(1) by (auto simp: list_all_iff)
    then show ?thesis using Some by (simp add: notes_count_def array_field_def get_field_def)
  qed (simp add: notes_count_def)
  then show False using row(2) by (auto simp: prose_refusal_def Let_def split: option.splits if_splits)
qed

section \<open>What the write leaves in the store\<close>

lemma write_row_other: "i \<noteq> j \<Longrightarrow> map_of (write_row same p q i db) j = map_of db j"
  by (auto simp: write_row_def map_of_update map_of_delete split: option.split)

lemma write_row_fold:
  "distinct ids \<Longrightarrow> map_of (fold (write_row same p q) ids db) i =
     (if i \<in> set ids then map_of (write_row same p q i db) i else map_of db i)"
proof (induction ids arbitrary: db)
  case (Cons j ids)
  have "map_of (write_row same p q i (write_row same p q j db)) i = map_of (write_row same p q i db) i" if "i \<noteq> j"
    using that write_row_other[of j i same p q db]
    by (auto simp: write_row_def[of _ _ _ i] map_of_update map_of_delete split: option.split)
  then show ?case using Cons write_row_other[of j i same p q db] by auto
qed simp

lemma row_ids_index: "index_by_id rs i = Some r \<Longrightarrow> i \<in> set (row_ids rs)"
  using index_in[of rs i r] by (auto simp: row_ids_def filter_map_in intro!: bexI[of _ r])

lemma write_changed_at:
  assumes "write_changed same before after db = Some db'"
  shows "map_of db' i = (case (index_by_id before i, index_by_id after i) of
             (Some b, Some a) \<Rightarrow> if same b a then map_of db i else Some a
           | (None, Some a) \<Rightarrow> Some a
           | (Some b, None) \<Rightarrow> None
           | (None, None) \<Rightarrow> map_of db i)"
proof -
  let ?ids = "sort (remdups (row_ids before @ row_ids after))"
  have db': "db' = fold (write_row same (index_by_id before) (index_by_id after)) ?ids db"
    using assms by (auto simp: write_changed_def Let_def split: if_splits)
  have "map_of db' i = map_of (write_row same (index_by_id before) (index_by_id after) i db) i"
  proof (cases "i \<in> set ?ids")
    case False
    then have "index_by_id before i = None" "index_by_id after i = None"
      using row_ids_index[of before i] row_ids_index[of after i]
      by (cases "index_by_id before i"; cases "index_by_id after i"; simp)+
    then show ?thesis unfolding db' using False by (subst write_row_fold) (simp_all add: write_row_def)
  qed (simp add: db' write_row_fold)
  then show ?thesis by (simp add: write_row_def map_of_update map_of_delete split: option.split)
qed



section \<open>Closures\<close>

lemma place_children_nth:
  "i < length es \<Longrightarrow> \<exists>x. place_children es kids ! i = set_field ''children'' x (es ! i) \<or> place_children es kids ! i = es ! i"
proof (induction es arbitrary: kids i)
  case (Cons e es)
  then show ?case by (cases i) (auto split: option.splits)
qed simp

lemma place_children_length [simp]: "length (place_children es kids) = length es"
  by (induction es kids rule: place_children.induct) (auto split: option.splits)

lemma compute_children_get:
  "i < length es \<Longrightarrow> ''children'' \<noteq> k \<Longrightarrow> get_field (compute_children es ! i) k = get_field (es ! i) k"
  using place_children_nth[of i es "collect_kids es"] by (auto simp: compute_children_def)

lemma compute_children_dict: "i < length es \<Longrightarrow> is_dict (compute_children es ! i) = is_dict (es ! i)"
  using place_children_nth[of i es "collect_kids es"] by (auto simp: compute_children_def)

lemma compute_children_length [simp]: "length (compute_children es) = length es"
  by (simp add: compute_children_def)

lemma lock_row_released:
  assumes "is_dict e" "get_field e ''locked_by'' = Some JNull"
  shows "get_field (normalize_lock_row e) ''locked_by'' = Some JNull"
  using assms by (simp add: normalize_lock_row_def Let_def has_key_def non_null_def)

lemma canonicalize_released:
  assumes "rows_ok es" "i < length es" "is_dict (es ! i)" "get_field (es ! i) ''locked_by'' = Some JNull"
  shows "get_field (canonicalize_entries es ! i) ''locked_by'' = Some JNull"
    "get_field (canonicalize_entries es ! i) ''id'' = get_field (es ! i) ''id''"
    "get_field (canonicalize_entries es ! i) ''status'' = get_field (es ! i) ''status''"
proof -
  let ?c = "compute_children es ! i"
  have ok: "json_ok (normalize_lock_row ?c)"
    using rows_okD[OF compute_children_ok[OF assms(1)], of ?c] assms(2) by (simp add: normalize_lock_row_ok)
  have row: "canonicalize_entries es ! i = canonicalize_row (normalize_lock_row ?c)"
    using assms(2) by (simp add: canonicalize_entries_def normalize_lock_fields_def)
  have "get_field (normalize_lock_row ?c) ''locked_by'' = Some JNull"
    using assms(2-4) by (intro lock_row_released) (simp_all add: compute_children_get compute_children_dict)
  then show "get_field (canonicalize_entries es ! i) ''locked_by'' = Some JNull"
    by (simp add: row canonicalize_row_get(1)[OF ok])
  show "get_field (canonicalize_entries es ! i) ''id'' = get_field (es ! i) ''id''"
    "get_field (canonicalize_entries es ! i) ''status'' = get_field (es ! i) ''status''"
    using assms(2) by (simp_all add: row canonicalize_row_get(1)[OF ok] lock_row_get compute_children_get)
qed

lemma ensure_slugs_ok: "rows_ok es \<Longrightarrow> rows_ok (fst (ensure_slugs es))"
proof -
  have "rows_ok es \<Longrightarrow> rows_ok (fst (assign_slugs taken es))" for taken
    by (induction es arbitrary: taken)
      (auto simp: assign_slugs_Cons rows_ok_def set_field_ok simp del: assign_slugs.simps(2))
  then show "rows_ok es \<Longrightarrow> rows_ok (fst (ensure_slugs es))" by (simp add: ensure_slugs_def)
qed

lemma stamp_touched_ok: "json_ok e \<Longrightarrow> json_ok (stamp_touched t b e v)"
  by (auto simp: stamp_touched_def set_field_ok split: option.split)

lemma release_row_ok: "json_ok e \<Longrightarrow> json_ok (release_row m e)"
  by (simp add: release_row_def set_field_ok)

text \<open>
  Every closure the write reports is a row that newly reads terminal: its rung is terminal, the row it
  published under that id has the rung as its status and no lock owner, and before the write the row
  did not read terminal.
\<close>

theorem closures_are_released:
  assumes "locked_mutate env same cv base rungs entries begin_v raw locked db = Inr (db', out, closures)"
    "rows_ok entries" "(i, rung) \<in> set closures"
  shows "rung \<in> set TERMINAL_RUNGS \<and>
    (\<exists>row\<in>set out. entry_id row = Some i \<and> str_field row ''status'' = Some rung \<and> \<not> non_null row ''locked_by'') \<and>
    list_all (\<lambda>r. status_map (recompute_statuses_with_plan_rungs (genv env) (clock env) rungs
        (apply_defaults (genv env) False raw)) i \<noteq> Some r) TERMINAL_RUNGS"
proof -
  let ?norm = "status_map (recompute_statuses_with_plan_rungs (genv env) (clock env) rungs
        (apply_defaults (genv env) False raw))"
  let ?es1 = "recompute_statuses_with_plan_rungs (genv env) (clock env) rungs (fst (ensure_slugs entries))"
  let ?es = "map (\<lambda>(e, v). stamp_touched (now_iso env) (pre_curation (apply_defaults (genv env) False raw) ?norm) e v)
      (zip ?es1 (apply_defaults (genv env) True ?es1))"
  have prep: "set closures \<subseteq> set (filter_map (closes_now ?norm) ?es)" "out = canonicalize_entries (map (release_row ?norm) ?es)"
    using mutate_entries_guards(2)[OF locked_mutate_Inr(1)[OF assms(1)]]
    by (auto simp: prepare_entries_def Let_def split: if_splits)
  have ok: "rows_ok ?es" "rows_ok (map (release_row ?norm) ?es)"
  proof -
    show "rows_ok ?es"
      using rows_okD[OF recompute_ok[OF ensure_slugs_ok[OF assms(2)]]]
      by (intro rows_okI) (auto intro!: stamp_touched_ok dest!: set_zip_leftD)
    then show "rows_ok (map (release_row ?norm) ?es)" by (rule rows_ok_map) (rule release_row_ok)
  qed
  obtain n where n: "n < length ?es" "closes_now ?norm (?es ! n) = Some (i, rung)"
    using subsetD[OF prep(1) assms(3)] unfolding filter_map_in by (metis in_set_conv_nth)
  let ?e = "?es ! n"
  have e: "entry_id ?e = Some i" "rung = or_empty (str_field ?e ''status'')" "rung \<in> set TERMINAL_RUNGS"
    "\<forall>r\<in>set TERMINAL_RUNGS. ?norm i \<noteq> Some r"
    using n(2) by (auto simp: closes_now_def Let_def split: option.splits if_splits)
  have obj: "as_object ?e \<noteq> None" using e(1) by (auto simp: entry_id_def dest: str_field_object)
  have st: "str_field ?e ''status'' = Some rung"
    using e(2,3) by (cases "str_field ?e ''status''") (auto simp: or_empty_def TERMINAL_RUNGS_def)
  have rel: "map (release_row ?norm) ?es ! n = set_field ''locked_at'' JNull (set_field ''locked_by'' JNull ?e)"
    using n by (simp add: release_row_def)
  let ?row = "canonicalize_entries (map (release_row ?norm) ?es) ! n"
  have can: "get_field ?row ''locked_by'' = Some JNull" "get_field ?row ''id'' = get_field ?e ''id''"
    "get_field ?row ''status'' = get_field ?e ''status''"
    using canonicalize_released[OF ok(2), of n] n(1) obj unfolding rel
    by (simp_all add: is_dict_def get_set is_object_set)
  have "?row \<in> set out" unfolding prep(2)
    using n(1) by (intro nth_mem) (simp add: canonicalize_entries_def normalize_lock_fields_def)
  moreover have "entry_id ?row = Some i" "str_field ?row ''status'' = Some rung" "\<not> non_null ?row ''locked_by''"
    using can e(1) st by (simp_all add: entry_id_def str_field_def non_null_def)
  ultimately show ?thesis using e(3,4) by (auto simp: list_all_iff)
qed

section \<open>Example runs\<close>

definition sample_penv :: publish_env where
  "sample_penv = \<lparr>genv = sample_env, clock = (\<lambda>_. 0), now_iso = ''now'', leaks = (\<lambda>_. []),
     epic_cap = Some 1, idea_cap = Some 1, is_canonical = True, before_publish = (\<lambda>_. None)\<rparr>"

definition sample_mutate :: "json list \<Rightarrow> json list \<Rightarrow> store \<Rightarrow> GraphError + (store \<times> json list \<times> (string \<times> string) list)" where
  "sample_mutate raw entries db = locked_mutate sample_penv (=) (\<lambda>_. ''w'') ''v'' None entries ''v'' raw True db"

definition as_db :: "json list \<Rightarrow> store" where
  "as_db rs = \<lparr>db_rows = map (\<lambda>r. (the (entry_id r), r)) rs, db_version = ''v''\<rparr>"

lemma case_Inr:
  assumes "case x of Inl _ \<Rightarrow> False | Inr (a, b, c) \<Rightarrow> P a b c"
  obtains a b c where "x = Inr (a, b, c)" "P a b c"
  using assms by (cases x) auto

text \<open>A row is closed with a note.\<close>

definition open_rows :: "json list" where "open_rows = [JObj [(''id'', JStr ''c'')]]"
definition closing_rows :: "json list" where
  "closing_rows = [JObj [(''id'', JStr ''c''), (''completed_at'', JStr ''t''), (''completion_note'', JStr ''s'')]]"
definition open_db :: store where "open_db = as_db (canonicalize_entries open_rows)"

lemma closing_run:
  obtains db' out cl row where "sample_mutate open_rows closing_rows open_db = Inr (db', out, cl)"
    "row \<in> set out" "entry_id row = Some ''c''" "non_null row ''completed_at''" "(''c'', ''done'') \<in> set cl"
proof -
  have "case sample_mutate open_rows closing_rows open_db of Inl _ \<Rightarrow> False
    | Inr (db', out, cl) \<Rightarrow>
        list_ex (\<lambda>r. entry_id r = Some ''c'' \<and> non_null r ''completed_at'') out \<and> (''c'', ''done'') \<in> set cl"
    by code_simp
  then obtain db' out cl where "sample_mutate open_rows closing_rows open_db = Inr (db', out, cl)"
    "list_ex (\<lambda>r. entry_id r = Some ''c'' \<and> non_null r ''completed_at'') out \<and> (''c'', ''done'') \<in> set cl"
    by (rule case_Inr)
  then show thesis using that by (auto simp: list_ex_iff)
qed

theorem published_closes_have_evidence_witness:
  "\<exists>db' out cl row. sample_mutate open_rows closing_rows open_db = Inr (db', out, cl) \<and> row \<in> set out \<and>
     non_null row ''completed_at'' \<and> has_evidence row"
proof -
  obtain db' out cl row where run: "sample_mutate open_rows closing_rows open_db = Inr (db', out, cl)"
    "row \<in> set out" "entry_id row = Some ''c''" "non_null row ''completed_at''"
    by (rule closing_run)
  have "index_by_id open_rows ''c'' = Some (JObj [(''id'', JStr ''c'')])"
    "\<not> non_null (JObj [(''id'', JStr ''c'')]) ''completed_at''" by code_simp+
  from published_closes_have_evidence[OF run(1)[unfolded sample_mutate_def] run(2-4) this] run
  show ?thesis by blast
qed

theorem closures_are_released_witness:
  "\<exists>db' out cl row. sample_mutate open_rows closing_rows open_db = Inr (db', out, cl) \<and>
     (''c'', ''done'') \<in> set cl \<and> row \<in> set out \<and> entry_id row = Some ''c'' \<and> \<not> non_null row ''locked_by''"
proof -
  obtain db' out cl row where run: "sample_mutate open_rows closing_rows open_db = Inr (db', out, cl)"
    "(''c'', ''done'') \<in> set cl"
    by (rule closing_run)
  have "rows_ok closing_rows" by code_simp
  from closures_are_released[OF run(1)[unfolded sample_mutate_def] this run(2)] run show ?thesis by blast
qed


text \<open>An epic and its first child are created.\<close>

definition newborn_rows :: "json list" where
  "newborn_rows = [JObj [(''id'', JStr ''e''), (''type'', JStr ''epic'')],
     JObj [(''id'', JStr ''c''), (''parent'', JStr ''e''), (''status'', JStr ''idea'')]]"

lemma newborn_run:
  obtains db' out cl row where "sample_mutate [] newborn_rows (as_db []) = Inr (db', out, cl)"
    "row \<in> set out" "entry_id row = Some ''c''" "capped_idea row" "list_all (\<lambda>r. \<not> own_parent r) out"
proof -
  have "case sample_mutate [] newborn_rows (as_db []) of Inl _ \<Rightarrow> False
    | Inr (db', out, cl) \<Rightarrow>
        list_ex (\<lambda>r. entry_id r = Some ''c'' \<and> capped_idea r) out \<and> list_all (\<lambda>r. \<not> own_parent r) out"
    by code_simp
  then obtain db' out cl where "sample_mutate [] newborn_rows (as_db []) = Inr (db', out, cl)"
    "list_ex (\<lambda>r. entry_id r = Some ''c'' \<and> capped_idea r) out \<and> list_all (\<lambda>r. \<not> own_parent r) out"
    by (rule case_Inr)
  then show thesis using that by (auto simp: list_ex_iff)
qed



text \<open>The row read already has the candidate's value, the row stored does not, and the version is the same.\<close>

definition stable_row :: "string \<Rightarrow> json" where
  "stable_row s = JObj [(''id'', JStr ''c''), (''status'', JStr s), (''slug'', JStr ''node-c''), (''children'', JArr []),
     (''locked_by'', JNull), (''locked_by_harness'', JNull), (''locked_by_harness_session'', JNull),
     (''session_id'', JNull), (''blocked_reason'', JNull)]"


theorem notes_guard_is_dead_witness:
  "enforce_node_state_policy
     [JObj [(''id'', JStr ''c''), (''note_history'', JBool True), (''progress_notes'', JArr [])]]
     [JObj [(''id'', JStr ''c''), (''details'', JStr ''d''), (''note_history'', JBool True),
            (''progress_notes'', JArr [JStr ''a'', JStr ''b''])]] \<noteq> Some (NotesGrow ''c'')"
  by (rule notes_guard_is_dead) (simp add: get_field_def)

end
