(* ===== verification/Backlog_Work.thy ===== *)
theory Backlog_Work
  imports Backlog_Wf
begin

text \<open>
  The work verdict of a session, \<open>crates/fno-agents/src/graph_store.rs\<close>: the reverse join from session
  ids to the nodes whose \<open>sessions\<close> rows name them, and the question whether all the work a session
  was named on is done. The index is a function; a key the map does not hold is \<open>None\<close>.
\<close>

section \<open>The reverse join\<close>

definition work_state_key :: "string \<Rightarrow> string" where
  "work_state_key session_id =
     (if starts_with session_id ''ses_'' then session_id else to_ascii_lowercase session_id)"

record session_hit =
  hit_ended :: bool
  hit_started :: string
  hit_node :: string
  hit_status :: string

definition session_hit_of :: "bool \<Rightarrow> string \<Rightarrow> string \<Rightarrow> json \<Rightarrow> (string \<times> session_hit) option" where
  "session_hit_of include_ship node_id status row =
     (case str_field row ''session_id'' of
        None \<Rightarrow> None
      | Some raw \<Rightarrow>
          (let sid = trim raw; ship = (str_field row ''phase'' = Some ''ship'')
           in if sid = [] \<or> (\<not> include_ship \<and> ship) then None
              else Some (work_state_key sid,
                \<lparr>hit_ended = ship \<or> has_key row ''ended_at'',
                 hit_started = (case str_field row ''started_at'' of None \<Rightarrow> [] | Some s \<Rightarrow> s),
                 hit_node = node_id, hit_status = status\<rparr>)))"

definition entry_hits :: "bool \<Rightarrow> json \<Rightarrow> (string \<times> session_hit) list" where
  "entry_hits include_ship entry =
     (case (entry_id entry, array_field entry ''sessions'') of
        (Some node_id, Some session_rows) \<Rightarrow>
          filter_map (session_hit_of include_ship node_id
             (case str_field entry ''status'' of None \<Rightarrow> [] | Some s \<Rightarrow> s)) session_rows
      | _ \<Rightarrow> [])"

text \<open>Open rows first, then the newest start; rows that compare equal keep their order.\<close>

definition hit_le :: "session_hit \<Rightarrow> session_hit \<Rightarrow> bool" where
  "hit_le a b =
     ((\<not> hit_ended a \<and> hit_ended b) \<or> (hit_ended a = hit_ended b \<and> hit_started b \<le> hit_started a))"

fun insert_hit :: "session_hit \<Rightarrow> session_hit list \<Rightarrow> session_hit list" where
  "insert_hit h [] = [h]"
| "insert_hit h (x # xs) = (if hit_le h x then h # x # xs else x # insert_hit h xs)"

definition sort_hits :: "session_hit list \<Rightarrow> session_hit list" where
  "sort_hits hs = foldr insert_hit hs []"

definition sessions_index_with :: "json list \<Rightarrow> bool \<Rightarrow> string \<Rightarrow> (string \<times> string) list option" where
  "sessions_index_with entries include_ship sid =
     (let hits = map snd (filter (\<lambda>p. fst p = sid) (concat (map (entry_hits include_ship) entries)))
      in if hits = [] then None
         else Some (map (\<lambda>h. (hit_node h, hit_status h)) (sort_hits hits)))"

definition sessions_index :: "json list \<Rightarrow> string \<Rightarrow> (string \<times> string) list option" where
  "sessions_index entries = sessions_index_with entries True"

definition work_index :: "json list \<Rightarrow> string \<Rightarrow> (string \<times> string) list option" where
  "work_index entries = sessions_index_with entries False"

section \<open>The verdict\<close>

datatype WorkState = AllDone "string list" | WorkOpen string string | NoProvenance

definition work_state :: "(string \<Rightarrow> (string \<times> string) list option) \<Rightarrow> string \<Rightarrow> WorkState" where
  "work_state index session_id =
     (case index (work_state_key session_id) of
        None \<Rightarrow> NoProvenance
      | Some named \<Rightarrow>
          if named = [] then NoProvenance
          else (case List.find (\<lambda>p. snd p \<noteq> ''done'') named of
                  Some (node, status) \<Rightarrow> WorkOpen node status
                | None \<Rightarrow> AllDone (map fst named)))"

section \<open>What the verdict says\<close>

lemma set_insert_hit: "set (insert_hit h xs) = insert h (set xs)"
  by (induction xs) auto

lemma set_sort_hits: "set (sort_hits hs) = set hs"
  by (induction hs) (simp_all add: sort_hits_def set_insert_hit)

lemma sort_hits_Nil: "sort_hits hs = [] \<longleftrightarrow> hs = []"
  by (metis set_empty set_sort_hits)

lemma hit_le_total: "hit_le a b \<or> hit_le b a"
  by (auto simp: hit_le_def)

lemma hit_le_trans: "hit_le a b \<Longrightarrow> hit_le b c \<Longrightarrow> hit_le a c"
  by (auto simp: hit_le_def)

lemma sort_hits_sorted: "sorted_wrt hit_le (sort_hits hs)"
proof -
  have "sorted_wrt hit_le xs \<Longrightarrow> sorted_wrt hit_le (insert_hit h xs)" for h xs
    by (induction xs) (auto simp: set_insert_hit dest: hit_le_trans intro: hit_le_total[THEN disjE])
  then show ?thesis by (induction hs) (simp_all add: sort_hits_def)
qed

text \<open>The session is named, by a row that is not a ship row, on the node with the status.\<close>

definition worked_on :: "json list \<Rightarrow> string \<Rightarrow> string \<Rightarrow> string \<Rightarrow> bool" where
  "worked_on entries session_id node status \<longleftrightarrow>
     (\<exists>e\<in>set entries. \<exists>session_rows row raw.
        entry_id e = Some node \<and> status = (case str_field e ''status'' of None \<Rightarrow> [] | Some s \<Rightarrow> s) \<and>
        array_field e ''sessions'' = Some session_rows \<and> row \<in> set session_rows \<and>
        str_field row ''session_id'' = Some raw \<and> trim raw \<noteq> [] \<and>
        work_state_key (trim raw) = work_state_key session_id \<and> str_field row ''phase'' \<noteq> Some ''ship'')"

lemma session_hit_Some:
  assumes "session_hit_of False node status row = Some (k, h)"
  shows "\<exists>raw. str_field row ''session_id'' = Some raw \<and> trim raw \<noteq> [] \<and> k = work_state_key (trim raw) \<and>
    str_field row ''phase'' \<noteq> Some ''ship'' \<and> hit_node h = node \<and> hit_status h = status"
  using assms by (auto simp: session_hit_of_def Let_def split: option.splits if_splits)

lemma entry_hits_in:
  assumes "(work_state_key sid, h) \<in> set (entry_hits False e)" "e \<in> set entries"
  shows "worked_on entries sid (hit_node h) (hit_status h)"
proof -
  let ?st = "case str_field e ''status'' of None \<Rightarrow> [] | Some s \<Rightarrow> s"
  obtain node session_rows row where e: "entry_id e = Some node" "array_field e ''sessions'' = Some session_rows"
    "row \<in> set session_rows" "session_hit_of False node ?st row = Some (work_state_key sid, h)"
    using assms(1)
    by (cases "entry_id e"; cases "array_field e ''sessions''") (auto simp: entry_hits_def filter_map_in)
  from session_hit_Some[OF e(4)] obtain raw where "str_field row ''session_id'' = Some raw" "trim raw \<noteq> []"
    "work_state_key (trim raw) = work_state_key sid" "str_field row ''phase'' \<noteq> Some ''ship''"
    "hit_node h = node" "hit_status h = ?st" by metis
  with e assms(2) show ?thesis unfolding worked_on_def by blast
qed

lemma worked_on_hits:
  assumes "worked_on entries sid node status"
  shows "\<exists>h. (work_state_key sid, h) \<in> set (concat (map (entry_hits False) entries)) \<and>
    hit_node h = node \<and> hit_status h = status"
proof -
  obtain e session_rows row raw where e: "e \<in> set entries" "entry_id e = Some node"
    "status = (case str_field e ''status'' of None \<Rightarrow> [] | Some s \<Rightarrow> s)"
    "array_field e ''sessions'' = Some session_rows" "row \<in> set session_rows"
    "str_field row ''session_id'' = Some raw" "trim raw \<noteq> []"
    "work_state_key (trim raw) = work_state_key sid" "str_field row ''phase'' \<noteq> Some ''ship''"
    using assms by (auto simp: worked_on_def)
  let ?h = "\<lparr>hit_ended = has_key row ''ended_at'',
     hit_started = (case str_field row ''started_at'' of None \<Rightarrow> [] | Some s \<Rightarrow> s), hit_node = node, hit_status = status\<rparr>"
  have "session_hit_of False node status row = Some (work_state_key sid, ?h)"
    using e by (simp add: session_hit_of_def Let_def)
  then have "(work_state_key sid, ?h) \<in> set (entry_hits False e)"
    using e by (auto simp: entry_hits_def filter_map_in intro!: bexI[of _ row])
  then show ?thesis using e(1) by (intro exI[of _ ?h]) auto
qed

lemma work_index_named:
  "work_index entries (work_state_key sid) = None \<Longrightarrow> \<not> worked_on entries sid node status"
  "work_index entries (work_state_key sid) = Some named \<Longrightarrow> (node, status) \<in> set named \<longleftrightarrow> worked_on entries sid node status"
  "work_index entries (work_state_key sid) = Some named \<Longrightarrow> named \<noteq> []"
proof -
  let ?hits = "map snd (filter (\<lambda>p. fst p = work_state_key sid) (concat (map (entry_hits False) entries)))"
  have hits: "(\<exists>h\<in>set ?hits. hit_node h = node \<and> hit_status h = status) \<longleftrightarrow> worked_on entries sid node status" for node status
  proof
    assume "\<exists>h\<in>set ?hits. hit_node h = node \<and> hit_status h = status"
    then obtain h e where "e \<in> set entries" "(work_state_key sid, h) \<in> set (entry_hits False e)"
      "hit_node h = node" "hit_status h = status" by auto
    then show "worked_on entries sid node status" using entry_hits_in by blast
  next
    assume "worked_on entries sid node status"
    from worked_on_hits[OF this] show "\<exists>h\<in>set ?hits. hit_node h = node \<and> hit_status h = status"
      by (force simp del: set_concat)
  qed
  show "work_index entries (work_state_key sid) = None \<Longrightarrow> \<not> worked_on entries sid node status"
  proof -
    assume "work_index entries (work_state_key sid) = None"
    then have none: "?hits = []" by (auto simp: work_index_def sessions_index_with_def Let_def split: if_splits)
    show "\<not> worked_on entries sid node status" unfolding hits[symmetric] none by simp
  qed
  show "work_index entries (work_state_key sid) = Some named \<Longrightarrow> (node, status) \<in> set named \<longleftrightarrow> worked_on entries sid node status"
  proof -
    assume "work_index entries (work_state_key sid) = Some named"
    then have "named = map (\<lambda>h. (hit_node h, hit_status h)) (sort_hits ?hits)"
      by (auto simp: work_index_def sessions_index_with_def Let_def split: if_splits)
    then have "set named = (\<lambda>h. (hit_node h, hit_status h)) ` set ?hits" by (simp only: set_map set_sort_hits)
    then show "(node, status) \<in> set named \<longleftrightarrow> worked_on entries sid node status"
      unfolding hits[symmetric] by (simp only: image_iff prod.inject) metis
  qed
  show "work_index entries (work_state_key sid) = Some named \<Longrightarrow> named \<noteq> []"
    by (auto simp: work_index_def sessions_index_with_def Let_def sort_hits_Nil split: if_splits)
qed

text \<open>
  The work verdict is right on every branch: a session has no provenance exactly when no row other than
  a ship row names it, all its work is done only if it is named and every node it is named on reads
  done, and otherwise the node reported is one it is named on that does not read done.
\<close>

theorem work_state_correct:
  "case work_state (work_index entries) sid of
     NoProvenance \<Rightarrow> (\<nexists>node status. worked_on entries sid node status)
   | AllDone nodes \<Rightarrow> nodes \<noteq> [] \<and> set nodes = {node. worked_on entries sid node ''done''} \<and>
       (\<nexists>node status. worked_on entries sid node status \<and> status \<noteq> ''done'')
   | WorkOpen node status \<Rightarrow> worked_on entries sid node status \<and> status \<noteq> ''done''"
proof (cases "work_index entries (work_state_key sid)")
  case None
  then show ?thesis using work_index_named(1)[OF None] by (simp add: work_state_def)
next
  case (Some named)
  note named = work_index_named(2)[OF Some] work_index_named(3)[OF Some]
  show ?thesis
  proof (cases "List.find (\<lambda>p. snd p \<noteq> ''done'') named")
    case None
    then have all: "\<And>p. p \<in> set named \<Longrightarrow> snd p = ''done''" by (auto simp: find_None_iff)
    have "set (map fst named) = {node. worked_on entries sid node ''done''}"
      using all named(1) by force
    then show ?thesis using Some None named all by (auto simp: work_state_def)
  next
    case (Some p)
    obtain node status where p: "p = (node, status)" by (cases p)
    have "p \<in> set named" "snd p \<noteq> ''done''" using Some by (auto simp: find_Some_iff)
    moreover have "work_state (work_index entries) sid = WorkOpen node status"
      using Some \<open>work_index entries _ = _\<close> named(2) p by (simp add: work_state_def)
    ultimately show ?thesis using named(1) p by simp
  qed
qed

end
