(* ===== verification/Backlog_Plan.thy ===== *)
theory Backlog_Plan
  imports Backlog_Status
begin

text \<open>
  The plan document of a backlog node, the first half of \<open>crates/fno-agents/src/backlog_ready.rs\<close>:
  where it is, what its frontmatter says, the rung of the ladder it stands on, the command that takes
  the node on, and the hold that parks it; also the date filter of the listing. The file system, the
  YAML and time parsers, the text form of a number and of a JSON value, the home directory and today's
  date are the fields of \<open>plan_env\<close>. A message is a value that carries what the message interpolates.
\<close>

section \<open>Surroundings\<close>

record plan_env =
  home_var :: "string option"
  file_text :: "string \<Rightarrow> string option"
  path_exists :: "string \<Rightarrow> bool"
  parent_is_dir :: "string \<Rightarrow> bool"
  mtime_ms :: "string \<Rightarrow> int option"
  parse_yaml :: "string \<Rightarrow> json option"
  json_text :: "json \<Rightarrow> string"
  rfc3339_ms :: "string \<Rightarrow> int option"
  naive_ms :: "string \<Rightarrow> string \<Rightarrow> int option"
  naive_date :: "string \<Rightarrow> int option"
  today :: int
  float_value :: "string \<Rightarrow> fp"

section \<open>Values\<close>

definition truthy :: "plan_env \<Rightarrow> json option \<Rightarrow> bool" where
  "truthy env v =
     (case v of
        None \<Rightarrow> False
      | Some JNull \<Rightarrow> False
      | Some (JBool b) \<Rightarrow> b
      | Some (JInt i) \<Rightarrow> i \<noteq> 0
      | Some (JFloat t) \<Rightarrow> \<not> fp_eq (float_value env t) (Fin 0)
      | Some (JStr s) \<Rightarrow> s \<noteq> []
      | Some (JArr a) \<Rightarrow> a \<noteq> []
      | Some (JObj kvs) \<Rightarrow> kvs \<noteq> [])"

definition PRIORITY_ORDER :: "(string \<times> int) list" where
  "PRIORITY_ORDER = [(''p0'', 0), (''p1'', 1), (''p2'', 2), (''p3'', 3)]"

definition priority_rank :: "string \<Rightarrow> int" where
  "priority_rank name = (case map_of PRIORITY_ORDER name of Some v \<Rightarrow> v | None \<Rightarrow> 2)"

definition priority_name :: "json \<Rightarrow> string" where
  "priority_name e =
     (case str_field e ''priority'' of
        Some p \<Rightarrow> if p \<in> set (map fst PRIORITY_ORDER) then p else ''p2''
      | None \<Rightarrow> ''p2'')"

section \<open>Time stamps\<close>

definition DAY_MS :: int where "DAY_MS = 86400000"

fun first_format :: "(string \<Rightarrow> int option) \<Rightarrow> string list \<Rightarrow> int option" where
  "first_format f [] = None"
| "first_format f (x # xs) = (case f x of Some v \<Rightarrow> Some v | None \<Rightarrow> first_format f xs)"

definition parse_iso_str :: "plan_env \<Rightarrow> string \<Rightarrow> int option" where
  "parse_iso_str env raw =
     (let s = trim raw
      in if s = [] then None
         else let normalized = (case strip_suffix_char s (CHR ''Z'') of
                    Some rest \<Rightarrow> rest @ ''+00:00'' | None \<Rightarrow> s)
              in case rfc3339_ms env normalized of
                   Some ms \<Rightarrow> Some ms
                 | None \<Rightarrow>
                     (case first_format (\<lambda>fmt. naive_ms env fmt normalized)
                             [''%Y-%m-%dT%H:%M:%S%.f'', ''%Y-%m-%dT%H:%M:%S'', ''%Y-%m-%dT%H:%M'',
                              ''%Y-%m-%d %H:%M:%S%.f'', ''%Y-%m-%d''] of
                        Some ms \<Rightarrow> Some ms
                      | None \<Rightarrow> map_option (\<lambda>d. d * DAY_MS) (naive_date env normalized)))"

definition parse_iso_ms :: "plan_env \<Rightarrow> json \<Rightarrow> int option" where
  "parse_iso_ms env v = Option.bind (as_str v) (parse_iso_str env)"

definition field_ms :: "plan_env \<Rightarrow> json \<Rightarrow> string \<Rightarrow> int option" where
  "field_ms env e k = Option.bind (get_field e k) (parse_iso_ms env)"

definition touched_ms :: "plan_env \<Rightarrow> json \<Rightarrow> int option" where
  "touched_ms env entry =
     (case field_ms env entry ''touched_at'' of Some t \<Rightarrow> Some t | None \<Rightarrow> field_ms env entry ''created_at'')"

definition days_between :: "int \<Rightarrow> int \<Rightarrow> int" where
  "days_between now ts = (now - ts) div DAY_MS"

section \<open>The date filter\<close>

datatype DateKey = ByCreated | ByTouched

record DateFilter =
  created_before :: "int option"
  created_after :: "int option"
  touched_before :: "int option"
  touched_after :: "int option"
  sort_by_date :: "DateKey option"

definition no_filter :: DateFilter where
  "no_filter = \<lparr>created_before = None, created_after = None, touched_before = None, touched_after = None,
     sort_by_date = None\<rparr>"

definition in_window :: "int option \<Rightarrow> int option \<Rightarrow> int option \<Rightarrow> bool" where
  "in_window stamp before after =
     (if before = None \<and> after = None then True
      else case stamp of
             None \<Rightarrow> False
           | Some t \<Rightarrow> (case before of None \<Rightarrow> True | Some limit \<Rightarrow> t < limit) \<and>
                       (case after of None \<Rightarrow> True | Some limit \<Rightarrow> limit \<le> t))"

definition date_key :: "plan_env \<Rightarrow> DateKey \<Rightarrow> json \<Rightarrow> bool \<times> int" where
  "date_key env key entry =
     (let stamp = (case key of ByCreated \<Rightarrow> field_ms env entry ''created_at'' | ByTouched \<Rightarrow> touched_ms env entry)
      in (stamp = None, case stamp of None \<Rightarrow> 0 | Some t \<Rightarrow> t))"

definition date_filter_apply :: "plan_env \<Rightarrow> DateFilter \<Rightarrow> json list \<Rightarrow> json list" where
  "date_filter_apply env f rows =
     (let kept = filter (\<lambda>entry. in_window (field_ms env entry ''created_at'') (created_before f) (created_after f) \<and>
                                  in_window (touched_ms env entry) (touched_before f) (touched_after f)) rows
      in case sort_by_date f of None \<Rightarrow> kept | Some key \<Rightarrow> sort_key (date_key env key) kept)"

datatype filter_error = InvalidDate string | UnknownFlag string | NeedsValue string | InvalidSort string | NotStrings

definition parse_filter_cutoff :: "plan_env \<Rightarrow> string \<Rightarrow> int \<Rightarrow> filter_error + int" where
  "parse_filter_cutoff env value now =
     (case strip_suffix_char value (CHR ''d'') of
        Some days \<Rightarrow>
          if days = [] \<or> \<not> list_all is_digit days then Inl (InvalidDate value)
          else (case parse_i64 days of
                  None \<Rightarrow> Inl (InvalidDate value)
                | Some n \<Rightarrow> if in_i64 (n * DAY_MS) \<and> in_i64 (now - n * DAY_MS) then Inr (now - n * DAY_MS)
                            else Inl (InvalidDate value))
      | None \<Rightarrow> (case parse_iso_str env value of Some t \<Rightarrow> Inr t | None \<Rightarrow> Inl (InvalidDate value)))"

definition FILTER_FLAGS :: "string list" where
  "FILTER_FLAGS = [''--created-before'', ''--created-after'', ''--touched-before'', ''--touched-after'', ''--sort'']"

definition split_flag :: "string \<Rightarrow> string \<times> string option" where
  "split_flag arg = (case position (\<lambda>c. c = CHR ''='') arg of
     None \<Rightarrow> (arg, None) | Some i \<Rightarrow> (take i arg, Some (drop (Suc i) arg)))"

definition set_flag :: "plan_env \<Rightarrow> int \<Rightarrow> string \<Rightarrow> string \<Rightarrow> DateFilter \<Rightarrow> filter_error + DateFilter" where
  "set_flag env now flag value f =
     (if flag = ''--sort''
      then (if value = ''created'' then Inr (f\<lparr>sort_by_date := Some ByCreated\<rparr>)
            else if value = ''touched'' then Inr (f\<lparr>sort_by_date := Some ByTouched\<rparr>)
            else Inl (InvalidSort value))
      else case parse_filter_cutoff env value now of
             Inl e \<Rightarrow> Inl e
           | Inr t \<Rightarrow>
               Inr (if flag = ''--created-before'' then f\<lparr>created_before := Some t\<rparr>
                    else if flag = ''--created-after'' then f\<lparr>created_after := Some t\<rparr>
                    else if flag = ''--touched-before'' then f\<lparr>touched_before := Some t\<rparr>
                    else f\<lparr>touched_after := Some t\<rparr>))"

fun parse_flags :: "plan_env \<Rightarrow> int \<Rightarrow> string list \<Rightarrow> DateFilter \<Rightarrow> filter_error + DateFilter" where
  "parse_flags env now [] f = Inr f"
| "parse_flags env now (arg # args) f =
     (let (flag, inline) = split_flag arg
      in if flag \<notin> set FILTER_FLAGS then Inl (UnknownFlag flag)
         else case (inline, args) of
                (Some value, _) \<Rightarrow>
                  (case set_flag env now flag value f of Inl e \<Rightarrow> Inl e | Inr f' \<Rightarrow> parse_flags env now args f')
              | (None, value # rest) \<Rightarrow>
                  (case set_flag env now flag value f of Inl e \<Rightarrow> Inl e | Inr f' \<Rightarrow> parse_flags env now rest f')
              | (None, []) \<Rightarrow> Inl (NeedsValue flag))"

definition parse_date_filter :: "plan_env \<Rightarrow> string list \<Rightarrow> int \<Rightarrow> filter_error + DateFilter" where
  "parse_date_filter env args now = parse_flags env now args no_filter"

fun all_strings :: "json list \<Rightarrow> string list option" where
  "all_strings [] = Some []"
| "all_strings (v # vs) = Option.bind (as_str v) (\<lambda>s. map_option (Cons s) (all_strings vs))"

definition date_filter_from_params :: "plan_env \<Rightarrow> json \<Rightarrow> int \<Rightarrow> filter_error + DateFilter" where
  "date_filter_from_params env params now =
     (case get_field params ''filter_args'' of
        None \<Rightarrow> Inr no_filter
      | Some value \<Rightarrow>
          (case as_array value of
             None \<Rightarrow> Inl NotStrings
           | Some args \<Rightarrow>
               if args = [] then Inr no_filter
               else (case all_strings args of
                       None \<Rightarrow> Inl NotStrings
                     | Some strs \<Rightarrow> parse_date_filter env strs now)))"

section \<open>The plan document\<close>

definition line_break :: char where "line_break = char_of (10 :: nat)"

fun join_lines :: "string list \<Rightarrow> string" where
  "join_lines [] = []"
| "join_lines [l] = l"
| "join_lines (l # ls) = l @ line_break # join_lines ls"

definition is_absolute_path :: "string \<Rightarrow> bool" where
  "is_absolute_path p = starts_with p ''/''"

text \<open>\<open>Path::join\<close>\<close>

definition path_join :: "string \<Rightarrow> string \<Rightarrow> string" where
  "path_join base p =
     (if is_absolute_path p then p
      else if base = [] \<or> last base = CHR ''/'' then base @ p else base @ ''/'' @ p)"

definition resolve_plan_probe :: "plan_env \<Rightarrow> json \<Rightarrow> string option" where
  "resolve_plan_probe env entry =
     (case str_field entry ''plan_path'' of
        None \<Rightarrow> None
      | Some plan_path \<Rightarrow>
          (let probe = takeWhile (\<lambda>c. c \<noteq> CHR ''#'') plan_path
           in if plan_path = [] \<or> probe = [] then None
              else let home = (case home_var env of Some h \<Rightarrow> if h = [] then None else Some h | None \<Rightarrow> None);
                       expanded = (case strip_prefix probe ''~/'' of
                           Some rest \<Rightarrow> map_option (\<lambda>h. h @ ''/'' @ rest) home
                         | None \<Rightarrow> if probe = ''~'' then home else Some probe)
                   in case expanded of
                        None \<Rightarrow> None
                      | Some p \<Rightarrow>
                          if is_absolute_path p then Some p
                          else (case str_field entry ''cwd'' of
                                  None \<Rightarrow> None
                                | Some cwd \<Rightarrow> if cwd = [] then None else Some (path_join cwd p))))"

definition read_frontmatter :: "plan_env \<Rightarrow> string \<Rightarrow> members option" where
  "read_frontmatter env probe =
     (case file_text env probe of
        None \<Rightarrow> None
      | Some text \<Rightarrow>
          if trim text = [] then None
          else let lines = split_on line_break text
               in if trim (hd lines) \<noteq> ''---'' then Some []
                  else case position (\<lambda>line. trim line = ''---'') (tl lines) of
                         None \<Rightarrow> None
                       | Some n \<Rightarrow>
                           (case parse_yaml env (join_lines (take n (tl lines))) of
                              Some JNull \<Rightarrow> Some []
                            | Some (JObj m) \<Rightarrow> Some m
                            | _ \<Rightarrow> None))"

definition signed_decimal :: "int \<Rightarrow> string" where
  "signed_decimal i = (if i < 0 then ''-'' @ decimal (nat (- i)) else decimal (nat i))"

definition yaml_scalar_string :: "plan_env \<Rightarrow> json \<Rightarrow> string" where
  "yaml_scalar_string env v =
     (case v of
        JStr s \<Rightarrow> s
      | JBool b \<Rightarrow> if b then ''true'' else ''false''
      | JInt i \<Rightarrow> signed_decimal i
      | JFloat t \<Rightarrow> t
      | JNull \<Rightarrow> []
      | other \<Rightarrow> json_text env other)"

definition read_status_scalar :: "plan_env \<Rightarrow> string \<Rightarrow> string option \<times> bool" where
  "read_status_scalar env probe =
     (case read_frontmatter env probe of
        None \<Rightarrow> (None, False)
      | Some fm \<Rightarrow>
          (case map_of fm ''status'' of
             None \<Rightarrow> (None, True)
           | Some JNull \<Rightarrow> (Some [], True)
           | Some v \<Rightarrow> (Some (yaml_scalar_string env v), True)))"

definition plan_rung :: "plan_env \<Rightarrow> json \<Rightarrow> string" where
  "plan_rung env entry =
     (if \<not> is_dict entry then ''none''
      else if str_field entry ''plan_path'' \<in> {None, Some []} then ''none''
      else case resolve_plan_probe env entry of
             None \<Rightarrow> ''unreadable''
           | Some probe \<Rightarrow>
               (case read_status_scalar env probe of
                  (raw, readable) \<Rightarrow>
                    if \<not> readable
                    then (if \<not> path_exists env probe \<and> str_field entry ''status'' = Some ''in_review''
                          then ''in_review'' else ''unreadable'')
                    else (case raw of
                            None \<Rightarrow> ''ready''
                          | Some r \<Rightarrow>
                              plan_rung_from_status
                                (to_ascii_lowercase (rev (dropWhile is_quote (rev (dropWhile is_quote (trim r)))))))))"

definition absent_plan_file :: "plan_env \<Rightarrow> json \<Rightarrow> string option" where
  "absent_plan_file env entry =
     (case str_field entry ''plan_path'' of
        None \<Rightarrow> None
      | Some declared \<Rightarrow>
          (let bare = trim (takeWhile (\<lambda>c. c \<noteq> CHR ''#'') declared)
           in if bare = [] then None
              else let path = (case strip_prefix bare ''~/'' of
                         Some rest \<Rightarrow> path_join (case home_var env of Some h \<Rightarrow> h | None \<Rightarrow> []) rest
                       | None \<Rightarrow> bare)
                   in if is_absolute_path path \<and> \<not> path_exists env path then Some path else None))"

section \<open>The command of a node\<close>

definition BLUEPRINT_DOC_KINDS :: "string list" where
  "BLUEPRINT_DOC_KINDS = [''quick-plan'', ''plan'', ''implementation-plan'', ''blueprint'']"

definition NON_BLUEPRINT_DOC_KINDS :: "string list" where
  "NON_BLUEPRINT_DOC_KINDS = [''research'', ''findings'', ''think'', ''stub'']"

fun declared_kind :: "plan_env \<Rightarrow> members \<Rightarrow> string list \<Rightarrow> bool option" where
  "declared_kind env fm [] = None"
| "declared_kind env fm (key # keys) =
     (case map_of fm key of
        None \<Rightarrow> declared_kind env fm keys
      | Some raw \<Rightarrow>
          (let kind = to_ascii_lowercase (trim (yaml_scalar_string env raw))
           in if kind \<in> set NON_BLUEPRINT_DOC_KINDS then Some False
              else if kind \<in> set BLUEPRINT_DOC_KINDS then Some True
              else declared_kind env fm keys))"

text \<open>\<open>str::lines\<close> also drops a final empty line and a carriage return, neither of which the trimmed
  comparison sees.\<close>

definition is_blueprint_doc :: "plan_env \<Rightarrow> json \<Rightarrow> bool" where
  "is_blueprint_doc env entry =
     (if \<not> is_dict entry then False
      else case resolve_plan_probe env entry of
             None \<Rightarrow> False
           | Some probe \<Rightarrow>
               (case read_frontmatter env probe of
                  None \<Rightarrow> False
                | Some fm \<Rightarrow>
                    (case declared_kind env fm [''kind'', ''type''] of
                       Some b \<Rightarrow> b
                     | None \<Rightarrow>
                         (case file_text env probe of
                            None \<Rightarrow> False
                          | Some text \<Rightarrow>
                              list_ex (\<lambda>line. trim line = ''## Execution Strategy'') (split_on line_break text)))))"

definition DEFAULT_BLUEPRINT_FLOOR :: string where "DEFAULT_BLUEPRINT_FLOOR = ''high''"
definition PREMISE_QUESTION_TAG :: string where "PREMISE_QUESTION_TAG = ''premise-question''"

definition has_premise_question :: "json \<Rightarrow> bool" where
  "has_premise_question entry =
     (case array_field entry ''tags'' of
        None \<Rightarrow> False
      | Some tags \<Rightarrow> list_ex (\<lambda>t. map_option trim (as_str t) = Some PREMISE_QUESTION_TAG) tags)"

definition command_char :: "char \<Rightarrow> bool" where
  "command_char c = (let n = of_char c :: nat in (97 \<le> n \<and> n \<le> 122) \<or> is_digit c)"

definition parse_command_token :: "string \<Rightarrow> (string \<times> bool) option" where
  "parse_command_token tok =
     (case tok of
        [] \<Rightarrow> None
      | sigil # body \<Rightarrow>
          if sigil \<noteq> CHR ''/'' \<and> sigil \<noteq> CHR ''$'' then None
          else if body = [] \<or> CHR ''/'' \<in> set body then None
          else let (command, namespaced) = (case strip_prefix body ''fno:'' of
                     Some rest \<Rightarrow> (rest, True) | None \<Rightarrow> (body, False))
               in case command of
                    [] \<Rightarrow> None
                  | c # _ \<Rightarrow>
                      if \<not> command_char c then None
                      else if \<not> list_all (\<lambda>c. command_char c \<or> c = CHR ''_'' \<or> c = CHR ''-'') command then None
                      else Some (command, namespaced))"

datatype command_reason = Intake string | LeanDispatch string | PlanStands string | PlanNotBlueprint string
datatype command_note = OutOfFamily string | DeclaredOver string string command_reason | Lifecycle command_reason string
datatype command_refusal = NoLifecycleRung string string string "string option"

definition upper_char :: "char \<Rightarrow> char" where
  "upper_char c = (let n = of_char c :: nat in if 97 \<le> n \<and> n \<le> 122 then char_of (n - 32) else c)"

definition floor_of :: "string \<Rightarrow> string" where
  "floor_of bp_floor =
     (let f = to_ascii_lowercase (trim bp_floor)
      in if f \<in> {''medium'', ''low'', ''never''} then f else DEFAULT_BLUEPRINT_FLOOR)"

definition declared_command :: "json \<Rightarrow> string option" where
  "declared_command entry =
     (case str_field entry ''dispatch_command'' of
        None \<Rightarrow> None
      | Some raw \<Rightarrow>
          (let tok = trim raw
           in if tok = [] then None
              else Some (case parse_command_token tok of Some (command, _) \<Rightarrow> ''/'' @ command | None \<Rightarrow> tok)))"

definition wants_blueprint :: "string \<Rightarrow> string \<Rightarrow> json \<Rightarrow> bool" where
  "wants_blueprint bp_floor difficulty entry =
     (let size = (case str_field entry ''size'' of None \<Rightarrow> [] | Some s \<Rightarrow> map upper_char (trim s))
      in if bp_floor = ''never'' then False
         else if bp_floor = ''low'' then True
         else if bp_floor = ''medium'' then difficulty = ''medium'' \<or> difficulty = ''high''
         else difficulty = ''high'' \<or> size = ''L'' \<or> has_premise_question entry)"

definition lifecycle_answer :: "plan_env \<Rightarrow> string \<Rightarrow> string \<Rightarrow> string \<Rightarrow> json \<Rightarrow> (string \<times> command_reason) option" where
  "lifecycle_answer env bp_floor rung difficulty entry =
     (if rung = ''none''
      then (if difficulty \<notin> {''low'', ''medium'', ''high''} then None
            else if wants_blueprint bp_floor difficulty entry then Some (''/blueprint'', Intake difficulty)
            else Some (''/target'', LeanDispatch difficulty))
      else if rung = ''idea'' \<or> rung = ''design'' then Some (''/blueprint'', PlanStands rung)
      else if rung = ''ready'' \<or> rung = ''in_progress'' \<or> rung = ''in_review''
      then (if is_blueprint_doc env entry then Some (''/target'', PlanStands rung)
            else Some (''/blueprint'', PlanNotBlueprint rung))
      else None)"

definition intake_difficulty :: "json \<Rightarrow> string" where
  "intake_difficulty entry =
     (case str_field entry ''difficulty'' of None \<Rightarrow> [] | Some d \<Rightarrow> to_ascii_lowercase (trim d))"

definition out_of_family :: "string \<Rightarrow> bool" where
  "out_of_family d = (d \<noteq> ''/target'' \<and> d \<noteq> ''/blueprint'')"

definition effective_command_with_floor ::
  "plan_env \<Rightarrow> json \<Rightarrow> string \<Rightarrow> command_refusal + (string option \<times> command_note)" where
  "effective_command_with_floor env entry bp_floor =
     (let node_id = (case str_field entry ''id'' of None \<Rightarrow> ''unknown'' | Some i \<Rightarrow> i);
          declared = declared_command entry
      in case (case declared of None \<Rightarrow> None | Some d \<Rightarrow> if out_of_family d then Some d else None) of
           Some d \<Rightarrow> Inr (None, OutOfFamily d)
         | None \<Rightarrow>
             (let rung = plan_rung env entry; difficulty = intake_difficulty entry
              in case lifecycle_answer env (floor_of bp_floor) rung difficulty entry of
                   None \<Rightarrow> Inl (NoLifecycleRung node_id rung difficulty
                                 (if rung = ''unreadable'' then absent_plan_file env entry else None))
                 | Some (answer, reason) \<Rightarrow>
                     (case declared of
                        None \<Rightarrow> Inr (Some answer, Lifecycle reason answer)
                      | Some d \<Rightarrow>
                          if d \<noteq> answer then Inr (Some d, DeclaredOver d answer reason)
                          else Inr (Some answer, Lifecycle reason answer))))"

definition effective_command :: "plan_env \<Rightarrow> json \<Rightarrow> command_refusal + (string option \<times> command_note)" where
  "effective_command env entry = effective_command_with_floor env entry DEFAULT_BLUEPRINT_FLOOR"

definition is_cold_dispatchable :: "plan_env \<Rightarrow> json \<Rightarrow> bool" where
  "is_cold_dispatchable env e = (str_field e ''status'' = Some ''idea'' \<and> plan_rung env e = ''none'')"

definition has_intake_difficulty :: "json \<Rightarrow> bool" where
  "has_intake_difficulty e =
     (case str_field e ''difficulty'' of
        None \<Rightarrow> False | Some d \<Rightarrow> to_ascii_lowercase (trim d) \<in> {''low'', ''medium'', ''high''})"

section \<open>Holds\<close>

datatype HoldState = HoldAbsent | Held | HoldInvalid

record HoldRead =
  hold_state :: HoldState
  hold_reason :: string
  release_when :: string
  review_on :: string
  set_by :: string
  hold_detail :: string
  exempt :: "string list"

definition hold_absent :: HoldRead where
  "hold_absent = \<lparr>hold_state = HoldAbsent, hold_reason = [], release_when = [], review_on = [], set_by = [],
     hold_detail = [], exempt = []\<rparr>"

definition hold_invalid :: "string \<Rightarrow> HoldRead" where
  "hold_invalid detail = \<lparr>hold_state = HoldInvalid, hold_reason = [], release_when = [], review_on = [],
     set_by = [], hold_detail = detail, exempt = []\<rparr>"

fun exempt_ids :: "json list \<Rightarrow> string list \<Rightarrow> string list option" where
  "exempt_ids [] ids = Some ids"
| "exempt_ids (item # items) ids =
     (case as_str item of
        None \<Rightarrow> None
      | Some raw \<Rightarrow>
          (let i = trim raw
           in if i = [] then None else exempt_ids items (if i \<in> set ids then ids else ids @ [i])))"

definition hold_field :: "members \<Rightarrow> string \<Rightarrow> string option" where
  "hold_field obj k =
     (case map_of obj k of Some (JStr s) \<Rightarrow> if trim s \<noteq> [] then Some s else None | _ \<Rightarrow> None)"

definition hold_block_read :: "plan_env \<Rightarrow> json \<Rightarrow> HoldRead" where
  "hold_block_read env block =
     (case as_object block of
        None \<Rightarrow> hold_invalid ''dispatch_hold is invalid: not a mapping''
      | Some obj \<Rightarrow>
          (case (hold_field obj ''reason'', hold_field obj ''release_when'', hold_field obj ''set_by'') of
             (Some reason, Some release, Some setter) \<Rightarrow>
               (case map_of obj ''review_on'' of
                  Some (JStr raw) \<Rightarrow>
                    (let review = trim raw
                     in case naive_date env review of
                          None \<Rightarrow> hold_invalid ''dispatch_hold is invalid: review_on is not a date''
                        | Some day \<Rightarrow>
                            (let detail = (if day < today env
                                   then ''review date '' @ review @ '' has passed; hold remains active'' else []);
                                 bad = hold_invalid ''dispatch_hold is invalid: exempt is not a list of node ids'';
                                 held = (\<lambda>ids. \<lparr>hold_state = Held, hold_reason = reason, release_when = release,
                                           review_on = review, set_by = setter, hold_detail = detail, exempt = ids\<rparr>)
                             in case map_of obj ''exempt'' of
                                  None \<Rightarrow> held []
                                | Some JNull \<Rightarrow> held []
                                | Some (JArr items) \<Rightarrow>
                                    (case exempt_ids items [] of None \<Rightarrow> bad | Some ids \<Rightarrow> held ids)
                                | Some _ \<Rightarrow> bad))
                | _ \<Rightarrow> hold_invalid ''dispatch_hold is invalid: review_on is missing'')
           | _ \<Rightarrow> hold_invalid ''dispatch_hold is invalid: a required field is missing or blank''))"

definition plan_hold_read :: "plan_env \<Rightarrow> json \<Rightarrow> HoldRead" where
  "plan_hold_read env entry =
     (case resolve_plan_probe env entry of
        None \<Rightarrow> hold_absent
      | Some probe \<Rightarrow>
          if \<not> path_exists env probe
          then (if parent_is_dir env probe
                then (if str_field entry ''status'' = Some ''in_review'' then hold_absent
                      else hold_invalid (''plan file is missing under its existing plan root: '' @ probe))
                else hold_absent)
          else (case read_frontmatter env probe of
                  None \<Rightarrow> hold_invalid (''plan frontmatter is unreadable: '' @ probe)
                | Some fm \<Rightarrow>
                    (case map_of fm ''dispatch_hold'' of
                       None \<Rightarrow> hold_absent
                     | Some block \<Rightarrow> hold_block_read env block)))"

definition node_field_read :: "plan_env \<Rightarrow> json \<Rightarrow> HoldRead" where
  "node_field_read env entry =
     (case get_field entry ''dispatch_hold'' of
        None \<Rightarrow> hold_absent
      | Some JNull \<Rightarrow> hold_absent
      | Some block \<Rightarrow> hold_block_read env block)"

definition hold_read :: "plan_env \<Rightarrow> json \<Rightarrow> HoldRead" where
  "hold_read env entry =
     (let plan = plan_hold_read env entry
      in if hold_state plan \<noteq> HoldAbsent then plan else node_field_read env entry)"

text \<open>The receipt copies the fields of the read; here it carries the read.\<close>

record HoldVerdictReceipt =
  hv_owner :: string
  hv_held :: bool
  guard_reason :: string
  hv_read :: HoldRead

definition MAX_ANCESTOR_WALK :: nat where "MAX_ANCESTOR_WALK = 64"

definition eq_ignore_ascii_case :: "string \<Rightarrow> string \<Rightarrow> bool" where
  "eq_ignore_ascii_case a b = (to_ascii_lowercase a = to_ascii_lowercase b)"

definition enqueue_related ::
  "row_index \<Rightarrow> string list \<Rightarrow> json \<Rightarrow> string \<Rightarrow> json list \<times> string list \<Rightarrow> json list \<times> string list" where
  "enqueue_related by_id seen current relation = (\<lambda>(queue, enqueued).
     case str_field current relation of
       None \<Rightarrow> (queue, enqueued)
     | Some related \<Rightarrow>
         if related = [] \<or> related \<in> set seen \<or> related \<in> set enqueued then (queue, enqueued)
         else (case by_id related of
                 None \<Rightarrow> (queue, enqueued)
               | Some ancestor \<Rightarrow>
                   if is_dict ancestor then (queue @ [ancestor], related # enqueued) else (queue, enqueued)))"

definition walk_id :: "json \<Rightarrow> string" where
  "walk_id current = (case str_field current ''id'' of None \<Rightarrow> ''unknown'' | Some i \<Rightarrow> i)"

definition hold_binds :: "plan_env \<Rightarrow> string \<Rightarrow> json \<Rightarrow> bool" where
  "hold_binds env for_id current =
     (let read = hold_read env current;
          exempted = (for_id \<noteq> [] \<and> \<not> eq_ignore_ascii_case (walk_id current) for_id \<and>
                      list_ex (\<lambda>x. eq_ignore_ascii_case x for_id) (exempt read))
      in hold_state read \<noteq> HoldAbsent \<and> \<not> exempted)"

definition hold_receipt :: "plan_env \<Rightarrow> json \<Rightarrow> HoldVerdictReceipt" where
  "hold_receipt env current =
     (let read = hold_read env current; node_id = walk_id current; held = (hold_state read = Held)
      in \<lparr>hv_owner = node_id, hv_held = held,
           guard_reason = (if held then ''dispatch-hold'' else ''dispatch-hold-invalid'') @ '':'' @ node_id,
           hv_read = read\<rparr>)"

fun hold_walk ::
  "plan_env \<Rightarrow> row_index \<Rightarrow> string \<Rightarrow> nat \<Rightarrow> json list \<Rightarrow> string list \<Rightarrow> string list \<Rightarrow> HoldVerdictReceipt option" where
  "hold_walk env by_id for_id 0 queue seen enqueued = None"
| "hold_walk env by_id for_id (Suc steps) [] seen enqueued = None"
| "hold_walk env by_id for_id (Suc steps) (current # queue) seen enqueued =
     (if walk_id current \<in> set seen then hold_walk env by_id for_id steps queue seen enqueued
      else let seen = walk_id current # seen
           in if hold_binds env for_id current then Some (hold_receipt env current)
              else let (queue, enqueued) = fold (enqueue_related by_id seen current) [''contained_in'', ''parent'']
                         (queue, enqueued)
                   in hold_walk env by_id for_id steps queue seen enqueued)"

definition hold_verdict_receipt :: "plan_env \<Rightarrow> json \<Rightarrow> row_index \<Rightarrow> HoldVerdictReceipt option" where
  "hold_verdict_receipt env entry by_id =
     (if \<not> is_dict entry then None
      else hold_walk env by_id (case str_field entry ''id'' of None \<Rightarrow> [] | Some i \<Rightarrow> i)
             MAX_ANCESTOR_WALK [entry] [] [])"

end
