(* ===== verification/Backlog_Select.thy ===== *)
theory Backlog_Select
  imports Backlog_Plan
begin

text \<open>
  The choice of work, the second half of \<open>crates/fno-agents/src/backlog_ready.rs\<close>: which nodes of the
  backlog may be dispatched now and in what order. The decision is a function of the rows and the
  options; what the guards read of plan documents comes from \<open>plan_env\<close>. A \<open>BTreeMap\<close> is a list sorted
  by key, a \<open>BTreeSet\<close> that is only asked for membership and size a list without duplicates.
\<close>

section \<open>Maps and sets\<close>

type_synonym row_map = "(string \<times> json) list"

fun btree_insert :: "string \<Rightarrow> 'a \<Rightarrow> (string \<times> 'a) list \<Rightarrow> (string \<times> 'a) list" where
  "btree_insert k x [] = [(k, x)]"
| "btree_insert k x ((k', y) # m) =
     (if k = k' then (k, x) # m else if k < k' then (k, x) # (k', y) # m else (k', y) # btree_insert k x m)"

definition set_insert :: "string \<Rightarrow> string list \<Rightarrow> string list" where
  "set_insert x xs = (if x \<in> set xs then xs else x # xs)"

definition rows_by_id :: "json list \<Rightarrow> row_map" where
  "rows_by_id entries =
     fold (\<lambda>e m. if is_dict e then (case entry_id e of None \<Rightarrow> m | Some i \<Rightarrow> btree_insert i e m) else m) entries []"

section \<open>Staleness\<close>

definition node_is_open :: "plan_env \<Rightarrow> json \<Rightarrow> bool" where
  "node_is_open env node =
     (if truthy env (get_field node ''completed_at'') then False
      else if \<not> truthy env (get_field node ''superseded_by'') then True
      else case get_field node ''supersession'' of
             None \<Rightarrow> False
           | Some rec \<Rightarrow> if is_dict rec then \<not> truthy env (get_field rec ''verified_at'') else False)"

definition recent_encounter :: "plan_env \<Rightarrow> int \<Rightarrow> int \<Rightarrow> json \<Rightarrow> bool" where
  "recent_encounter env now staleness_days r =
     (if str_field r ''voter_kind'' = Some ''external'' then False
      else (let stamp = (case get_field r ''created_at'' of Some v \<Rightarrow> Some v | None \<Rightarrow> get_field r ''ts'')
            in case Option.bind stamp (parse_iso_ms env) of
                 None \<Rightarrow> False
               | Some ts \<Rightarrow> days_between now ts \<le> staleness_days))"

definition node_has_movement :: "plan_env \<Rightarrow> json \<Rightarrow> int \<Rightarrow> int \<Rightarrow> bool" where
  "node_has_movement env entry now staleness_days =
     (truthy env (get_field entry ''sessions'') \<or> truthy env (get_field entry ''pr_number'') \<or>
      truthy env (get_field entry ''locked_by'') \<or> truthy env (get_field entry ''locked_at'') \<or>
      (case array_field entry ''encounters'' of
         None \<Rightarrow> False | Some rs \<Rightarrow> list_ex (recent_encounter env now staleness_days) rs) \<or>
      (case Option.bind (resolve_plan_probe env entry) (mtime_ms env) of
         None \<Rightarrow> False | Some mt \<Rightarrow> days_between now mt \<le> staleness_days))"

definition UNSELECTABLE_RUNGS :: "string list" where
  "UNSELECTABLE_RUNGS = [''idea'', ''design'']"

definition is_stale_ready :: "plan_env \<Rightarrow> json \<Rightarrow> int \<Rightarrow> int \<Rightarrow> bool" where
  "is_stale_ready env entry now staleness_days =
     (if truthy env (get_field entry ''contained_in'') \<or> truthy env (get_field entry ''blocked_by'') then False
      else if plan_rung env entry \<in> set UNSELECTABLE_RUNGS then False
      else if node_has_movement env entry now staleness_days then False
      else case field_ms env entry ''created_at'' of
             None \<Rightarrow> False
           | Some created \<Rightarrow> staleness_days < days_between now created)"

section \<open>Selection guards\<close>

definition is_dead :: "plan_env \<Rightarrow> json \<Rightarrow> bool" where
  "is_dead env anc =
     (str_field anc ''status'' = Some ''superseded'' \<or> str_field anc ''status'' = Some ''deferred'' \<or>
      truthy env (get_field anc ''superseded_by'') \<or> truthy env (get_field anc ''deferred_at''))"

fun dead_ancestor :: "plan_env \<Rightarrow> row_index \<Rightarrow> nat \<Rightarrow> string list \<Rightarrow> string option \<Rightarrow> string option" where
  "dead_ancestor env by_id n seen None = None"
| "dead_ancestor env by_id 0 seen (Some i) = None"
| "dead_ancestor env by_id (Suc n) seen (Some i) =
     (if i \<in> set seen then None
      else case by_id i of
             None \<Rightarrow> None
           | Some anc \<Rightarrow>
               if is_dead env anc then Some i
               else dead_ancestor env by_id n (i # seen) (str_field anc ''parent''))"

definition selection_guards ::
  "plan_env \<Rightarrow> json \<Rightarrow> row_index \<Rightarrow> int \<Rightarrow> int \<Rightarrow> (string \<Rightarrow> string option) \<Rightarrow> string option" where
  "selection_guards env entry by_id now staleness_days held =
     (case hold_verdict_receipt env entry by_id of
        Some hold \<Rightarrow> Some (guard_reason hold)
      | None \<Rightarrow>
          (case Option.bind (entry_id entry) held of
             Some qid \<Rightarrow> Some (''held:'' @ qid)
           | None \<Rightarrow>
               (case str_field entry ''contained_in'' of
                  Some (c # owner) \<Rightarrow> Some (''contained:'' @ c # owner)
                | _ \<Rightarrow>
                    (case dead_ancestor env by_id MAX_ANCESTOR_WALK [] (str_field entry ''parent'') of
                       Some i \<Rightarrow> Some (''dead-ancestor:'' @ i)
                     | None \<Rightarrow>
                         if str_field entry ''status'' = Some ''ready''
                         then (let rung = plan_rung env entry
                               in if rung \<in> set UNSELECTABLE_RUNGS
                                  then Some (if rung = ''design'' then ''design-stage'' else ''idea-stage'')
                                  else if is_stale_ready env entry now staleness_days then Some ''stale-quarantine''
                                  else None)
                         else None))))"

section \<open>Projects\<close>

definition normalize_part :: "bool \<Rightarrow> string list \<Rightarrow> string \<Rightarrow> string list" where
  "normalize_part absolute parts part =
     (if part = [] \<or> part = ''.'' then parts
      else if part = ''..''
      then (if parts \<noteq> [] \<and> last parts \<noteq> ''..'' then butlast parts
            else if absolute then parts else parts @ [''..''])
      else parts @ [part])"

fun join_path :: "string list \<Rightarrow> string" where
  "join_path [] = []"
| "join_path [p] = p"
| "join_path (p # ps) = p @ CHR ''/'' # join_path ps"

definition normalize_cwd :: "plan_env \<Rightarrow> string \<Rightarrow> string" where
  "normalize_cwd env raw =
     (let expanded =
            (if raw = ''~'' then (case home_var env of Some h \<Rightarrow> h | None \<Rightarrow> raw)
             else case strip_prefix raw ''~/'' of
                    Some rest \<Rightarrow> (case home_var env of
                        Some h \<Rightarrow> if h \<noteq> [] then h @ ''/'' @ rest else raw | None \<Rightarrow> raw)
                  | None \<Rightarrow> raw);
          absolute = starts_with expanded ''/'';
          joined = join_path (foldl (normalize_part absolute) [] (split_on (CHR ''/'') expanded))
      in if absolute then CHR ''/'' # joined else joined)"

definition trim_end_slashes :: "string \<Rightarrow> string" where
  "trim_end_slashes s = rev (dropWhile (\<lambda>c. c = CHR ''/'') (rev s))"

fun detect_loop :: "plan_env \<Rightarrow> string \<Rightarrow> string \<Rightarrow> string option \<Rightarrow> json list \<Rightarrow> string option" where
  "detect_loop env norm_root root_prefix fallback [] = fallback"
| "detect_loop env norm_root root_prefix fallback (e # es) =
     (case str_field e ''cwd'' of
        None \<Rightarrow> detect_loop env norm_root root_prefix fallback es
      | Some cwd \<Rightarrow>
          if cwd = [] then detect_loop env norm_root root_prefix fallback es
          else let norm = normalize_cwd env cwd
               in if norm = norm_root then str_field e ''project''
                  else detect_loop env norm_root root_prefix
                         (if fallback = None \<and> starts_with norm root_prefix then str_field e ''project''
                          else fallback) es)"

definition detect_project :: "plan_env \<Rightarrow> json list \<Rightarrow> string \<Rightarrow> string option" where
  "detect_project env entries repo_root =
     (let norm_root = normalize_cwd env repo_root
      in detect_loop env norm_root (trim_end_slashes norm_root @ ''/'') None entries)"

definition row_matches_project :: "json \<Rightarrow> string option \<Rightarrow> bool" where
  "row_matches_project e project = (case project of None \<Rightarrow> True | Some p \<Rightarrow> str_field e ''project'' = Some p)"

section \<open>Graph navigation\<close>

definition child_ids :: "json list \<Rightarrow> (string \<times> string list) list" where
  "child_ids entries =
     fold (\<lambda>e m. case (entry_id e, str_field e ''parent'') of
             (Some i, Some pid) \<Rightarrow> btree_push pid i m | _ \<Rightarrow> m) entries []"

lemma card_minus_insert:
  "finite A \<Longrightarrow> x \<in> A \<Longrightarrow> x \<notin> B \<Longrightarrow> card (A - insert x B) < card (A - B)"
  by (rule psubset_card_mono) auto

lemma map_of_key: "map_of m k = Some v \<Longrightarrow> k \<in> fst ` set m"
  by (force dest: map_of_SomeD)

text \<open>The frontier is a stack; its top is the head of the list.\<close>

function descend :: "(string \<times> string list) list \<Rightarrow> string \<Rightarrow> string list \<Rightarrow> string list \<Rightarrow> string list" where
  "descend kids parent [] result = result"
| "descend kids parent (current # frontier) result =
     (if current \<in> set result \<or> current = parent then descend kids parent frontier result
      else descend kids parent
             (case map_of kids current of None \<Rightarrow> frontier | Some ks \<Rightarrow> rev ks @ frontier) (current # result))"
  by pat_completeness auto

termination
proof (relation "measures [\<lambda>(kids, _, _, result). card (fst ` set kids - set result),
    \<lambda>(_, _, frontier, _). length frontier]", goal_cases)
  case (3 kids parent current frontier result)
  show ?case
  proof (cases "map_of kids current")
    case None
    then have "fst ` set kids - insert current (set result) = fst ` set kids - set result"
      by (auto simp: map_of_eq_None_iff)
    with None show ?thesis by simp
  next
    case (Some ks)
    with 3 have "card (fst ` set kids - insert current (set result)) < card (fst ` set kids - set result)"
      by (intro card_minus_insert map_of_key) auto
    with Some show ?thesis by simp
  qed
qed auto

definition descendants_of :: "json list \<Rightarrow> string \<Rightarrow> string list" where
  "descendants_of entries parent_id =
     (let kids = child_ids entries
      in descend kids parent_id (case map_of kids parent_id of None \<Rightarrow> [] | Some ks \<Rightarrow> rev ks) [])"

definition is_hexdigit :: "char \<Rightarrow> bool" where
  "is_hexdigit c = (let n = of_char c :: nat in is_digit c \<or> (97 \<le> n \<and> n \<le> 102) \<or> (65 \<le> n \<and> n \<le> 70))"

definition find_node_index :: "json list \<Rightarrow> string \<Rightarrow> nat option \<times> string list" where
  "find_node_index entries node_id =
     (case position (\<lambda>e. entry_id e = Some node_id) entries of
        Some i \<Rightarrow> (Some i, [])
      | None \<Rightarrow>
          if starts_with node_id ''ab-'' \<and> length node_id < 11
          then (let suffix = drop 3 node_id
                in if \<not> (4 \<le> length suffix \<and> length suffix \<le> 7 \<and> list_all is_hexdigit suffix) then (None, [])
                   else let hits = filter (\<lambda>i. case entry_id (entries ! i) of
                              None \<Rightarrow> False | Some x \<Rightarrow> starts_with x node_id) [0..<length entries]
                        in case hits of
                             [] \<Rightarrow> (None, [])
                           | [i] \<Rightarrow> (Some i, [])
                           | _ \<Rightarrow> (None, map (\<lambda>i. case entry_id (entries ! i) of None \<Rightarrow> ''?'' | Some x \<Rightarrow> x) hits))
          else (None, []))"

definition find_node :: "json list \<Rightarrow> string \<Rightarrow> json option" where
  "find_node entries node_id = map_option (\<lambda>i. entries ! i) (fst (find_node_index entries node_id))"

section \<open>Orphans\<close>

function epic_walk :: "row_map \<Rightarrow> string list \<Rightarrow> string option \<Rightarrow> bool" where
  "epic_walk by_id seen None = False"
| "epic_walk by_id seen (Some i) =
     (if i \<in> set seen then False
      else case map_of by_id i of
             None \<Rightarrow> False
           | Some parent \<Rightarrow>
               if str_field parent ''type'' = Some ''epic'' then True
               else epic_walk by_id (i # seen) (str_field parent ''parent''))"
  by pat_completeness auto

termination
  by (relation "measure (\<lambda>(by_id, seen, _). card (fst ` set by_id - set seen))")
    (simp_all add: card_minus_insert map_of_key del: card_Diff_insert)

definition has_epic_ancestor :: "json \<Rightarrow> row_map \<Rightarrow> bool" where
  "has_epic_ancestor entry by_id = epic_walk by_id [] (str_field entry ''parent'')"

definition ROLLUP_TYPES :: "string list" where "ROLLUP_TYPES = [''feature'', ''task'']"
definition CLOSED_STATUSES :: "string list" where "CLOSED_STATUSES = [''done'', ''superseded'', ''deferred'']"

definition is_orphan :: "plan_env \<Rightarrow> json \<Rightarrow> row_map \<Rightarrow> bool" where
  "is_orphan env entry by_id =
     (if \<not> (case str_field entry ''type'' of None \<Rightarrow> False | Some t \<Rightarrow> t \<in> set ROLLUP_TYPES) then False
      else if truthy env (get_field entry ''orphan_ok'') then False
      else if (case str_field entry ''status'' of None \<Rightarrow> False | Some s \<Rightarrow> s \<in> set CLOSED_STATUSES) then False
      else \<not> has_epic_ancestor entry by_id)"

definition orphan_ids :: "plan_env \<Rightarrow> json list \<Rightarrow> row_map \<Rightarrow> string list" where
  "orphan_ids env entries by_id =
     remdups (filter (\<lambda>i. case map_of by_id i of None \<Rightarrow> False | Some e \<Rightarrow> is_orphan env e by_id)
       (filter_map entry_id (filter is_dict entries)))"

end
