(* ===== verification/Backlog_Order.thy ===== *)
theory Backlog_Order
  imports Backlog_Select
begin

text \<open>
  Ranking and the decision itself, the rest of \<open>crates/fno-agents/src/backlog_ready.rs\<close>: the demand
  score, the epics-first sort key with its comparison, the cascade of filters with the drop each one
  records, the selection, and the facts of the board. The score and the curated rank are \<open>f64\<close>
  (\<open>Float_Model\<close>); the comparison treats values that do not compare as equal, as the source does.
\<close>

section \<open>Demand\<close>

definition PRIORITY_WEIGHT :: "(string \<times> int) list" where
  "PRIORITY_WEIGHT = [(''p0'', 1), (''p1'', 2), (''p2'', 3), (''p3'', 4)]"

definition voter_key :: "json \<Rightarrow> string" where
  "voter_key record =
     (case str_field record ''voter_key'' of
        Some k \<Rightarrow> k
      | None \<Rightarrow> (case str_field record ''session_id'' of Some k \<Rightarrow> k | None \<Rightarrow> []))"

definition encounter_voters :: "json \<Rightarrow> string list" where
  "encounter_voters entry =
     (case array_field entry ''encounters'' of
        None \<Rightarrow> []
      | Some rows \<Rightarrow>
          remdups (filter (\<lambda>k. k \<noteq> [])
            (map voter_key (filter (\<lambda>r. is_dict r \<and> str_field r ''voter_kind'' \<noteq> Some ''external'') rows))))"

definition f64_of_int :: "int \<Rightarrow> fp" where "f64_of_int i = f64_round (rat_of_int i)"

definition importance_score :: "plan_env \<Rightarrow> json \<Rightarrow> string \<Rightarrow> int \<Rightarrow> fp" where
  "importance_score env entry effective_priority now =
     (let voters = encounter_voters entry
      in if voters = [] then Fin 0
         else let weight = (case map_of PRIORITY_WEIGHT effective_priority of
                      Some v \<Rightarrow> f64_of_int v | None \<Rightarrow> Fin 3);
                  weight = (if \<not> truthy env (get_field entry ''sessions'') \<and> \<not> truthy env (get_field entry ''pr_number'')
                            then fp_mul f64_round weight (Fin 2) else weight);
                  divergence = fp_mul f64_round (f64_of_int (int (length voters))) weight
              in case touched_ms env entry of
                   None \<Rightarrow> divergence
                 | Some stamp \<Rightarrow>
                     (let days = f64_of_int (max (days_between now stamp) 0)
                      in fp_add f64_round divergence (fp_div f64_round (fp_min days (Fin 90)) (Fin 100))))"

section \<open>Epics first\<close>

definition rank_band :: "plan_env \<Rightarrow> json \<Rightarrow> int \<times> fp" where
  "rank_band env entry =
     (case get_field entry ''rank'' of
        Some (JInt i) \<Rightarrow> (if fp_is_finite (f64_of_int i) then (0, f64_of_int i) else (1, Fin 0))
      | Some (JFloat t) \<Rightarrow> (if fp_is_finite (float_value env t) then (0, float_value env t) else (1, Fin 0))
      | _ \<Rightarrow> (1, Fin 0))"

definition is_moving :: "plan_env \<Rightarrow> json \<Rightarrow> bool" where
  "is_moving env child =
     (truthy env (get_field child ''completed_at'') \<or>
      str_field child ''status'' = Some ''done'' \<or> str_field child ''status'' = Some ''in_progress'' \<or>
      truthy env (get_field child ''session_id''))"

definition epics_with_child_progress :: "plan_env \<Rightarrow> row_map \<Rightarrow> string list" where
  "epics_with_child_progress env by_id =
     fold (\<lambda>(_, child) progressing.
       case str_field child ''parent'' of
         None \<Rightarrow> progressing
       | Some parent_id \<Rightarrow>
           if parent_id \<in> set progressing then progressing
           else if is_moving env child then set_insert parent_id progressing else progressing) by_id []"

definition VALID_STATUSES :: "string list" where
  "VALID_STATUSES = [''done'', ''deferred'', ''superseded'', ''in_review'', ''blocked'', ''in_progress'',
     ''idea'', ''design'', ''ready'']"

definition EPIC_TERMINAL_EXCEPT_DONE :: "string list" where
  "EPIC_TERMINAL_EXCEPT_DONE = [''superseded'', ''deferred'']"

definition epic_is_live :: "plan_env \<Rightarrow> string list \<Rightarrow> string \<Rightarrow> json \<Rightarrow> bool" where
  "epic_is_live env child_progress parent_id epic =
     (str_field epic ''type'' = Some ''epic'' \<and>
      (case str_field epic ''priority'' of None \<Rightarrow> False | Some p \<Rightarrow> p \<in> set (map fst PRIORITY_ORDER)) \<and>
      (case str_field epic ''status'' of None \<Rightarrow> True | Some s \<Rightarrow> s \<in> set VALID_STATUSES) \<and>
      (case get_field epic ''created_at'' of None \<Rightarrow> True | Some c \<Rightarrow> c = JNull \<or> as_str c \<noteq> None) \<and>
      \<not> (truthy env (get_field epic ''completed_at'') \<or> truthy env (get_field epic ''superseded_by'') \<or>
         truthy env (get_field epic ''deferred_at'')) \<and>
      \<not> (case str_field epic ''status'' of
           None \<Rightarrow> False
         | Some s \<Rightarrow> s \<in> set EPIC_TERMINAL_EXCEPT_DONE \<or> (s = ''done'' \<and> parent_id \<notin> set child_progress)))"

definition live_epic_for :: "plan_env \<Rightarrow> json \<Rightarrow> row_map \<Rightarrow> string list \<Rightarrow> json option" where
  "live_epic_for env node by_id child_progress =
     (case str_field node ''parent'' of
        None \<Rightarrow> None
      | Some parent_id \<Rightarrow>
          (case map_of by_id parent_id of
             None \<Rightarrow> None
           | Some epic \<Rightarrow> if epic_is_live env child_progress parent_id epic then Some epic else None))"

definition in_progress_epic_ids :: "plan_env \<Rightarrow> json list \<Rightarrow> row_map \<Rightarrow> string list \<Rightarrow> string list \<Rightarrow> string list" where
  "in_progress_epic_ids env entries by_id child_progress live_claimed =
     fold (\<lambda>child result.
       if \<not> is_dict child then result
       else if \<not> (is_moving env child \<or> (case entry_id child of None \<Rightarrow> False | Some i \<Rightarrow> i \<in> set live_claimed))
       then result
       else case live_epic_for env child by_id child_progress of
              None \<Rightarrow> result
            | Some epic \<Rightarrow> (case entry_id epic of None \<Rightarrow> result | Some i \<Rightarrow> set_insert i result)) entries []"

definition effective_priority_of :: "plan_env \<Rightarrow> row_map \<Rightarrow> string list \<Rightarrow> json \<Rightarrow> string" where
  "effective_priority_of env by_id child_progress e =
     (let child_priority = priority_name e
      in case live_epic_for env e by_id child_progress of
           None \<Rightarrow> child_priority
         | Some epic \<Rightarrow>
             (let epic_priority = priority_name epic
              in if priority_rank epic_priority < priority_rank child_priority then epic_priority
                 else child_priority))"

definition make_effective_priority :: "plan_env \<Rightarrow> row_map \<Rightarrow> string list \<Rightarrow> (string \<times> string) list" where
  "make_effective_priority env by_id child_progress =
     map (\<lambda>(i, e). (i, effective_priority_of env by_id child_progress e)) by_id"

section \<open>The sort key\<close>

datatype Term = TB bool | TI int | TF fp | TS string | TBand int fp

datatype ordering = Less | Equal | Greater

definition cmp_lin :: "'a::linorder \<Rightarrow> 'a \<Rightarrow> ordering" where
  "cmp_lin a b = (if a < b then Less else if a = b then Equal else Greater)"

text \<open>\<open>OrdF64\<close>: what \<open>partial_cmp\<close> cannot order counts as equal.\<close>

definition cmp_f64 :: "fp \<Rightarrow> fp \<Rightarrow> ordering" where
  "cmp_f64 a b = (if fp_lt a b then Less else if fp_lt b a then Greater else Equal)"

fun then_cmp :: "ordering \<Rightarrow> ordering \<Rightarrow> ordering" where
  "then_cmp Equal o2 = o2"
| "then_cmp o1 o2 = o1"

fun term_rank :: "Term \<Rightarrow> nat" where
  "term_rank (TB _) = 0"
| "term_rank (TI _) = 1"
| "term_rank (TF _) = 2"
| "term_rank (TS _) = 3"
| "term_rank (TBand _ _) = 4"

fun cmp_term :: "Term \<Rightarrow> Term \<Rightarrow> ordering" where
  "cmp_term (TB a) (TB b) = cmp_lin a b"
| "cmp_term (TI a) (TI b) = cmp_lin a b"
| "cmp_term (TF a) (TF b) = cmp_f64 a b"
| "cmp_term (TS a) (TS b) = cmp_lin a b"
| "cmp_term (TBand a x) (TBand b y) = then_cmp (cmp_lin a b) (cmp_f64 x y)"
| "cmp_term s t = cmp_lin (term_rank s) (term_rank t)"

fun cmp_key :: "Term list \<Rightarrow> Term list \<Rightarrow> ordering" where
  "cmp_key [] [] = Equal"
| "cmp_key [] (t # ts) = Less"
| "cmp_key (s # ss) [] = Greater"
| "cmp_key (s # ss) (t # ts) = then_cmp (cmp_term s t) (cmp_key ss ts)"

definition key_le :: "Term list \<Rightarrow> Term list \<Rightarrow> bool" where
  "key_le a b = (cmp_key a b \<noteq> Greater)"

record KeyTables =
  kt_by_id :: row_map
  kt_child_progress :: "string list"
  kt_dependents :: "(string \<times> int) list"
  kt_effective_priority :: "(string \<times> string) list"
  kt_orphans :: "string list"
  kt_epic_in_progress :: "string list"

definition selection_sort_key :: "plan_env \<Rightarrow> KeyTables \<Rightarrow> int \<Rightarrow> json \<Rightarrow> Term list" where
  "selection_sort_key env kt now row =
     (let node = (if is_dict row then row else JNull);
          band = rank_band env node;
          child_prio = priority_rank (priority_name node);
          node_id = (case entry_id node of None \<Rightarrow> [] | Some i \<Rightarrow> i);
          child_orphan = (node_id \<noteq> [] \<and> node_id \<in> set (kt_orphans kt));
          child_created = (case str_field node ''created_at'' of None \<Rightarrow> [] | Some c \<Rightarrow> c);
          fanout = - (case map_of (kt_dependents kt) node_id of None \<Rightarrow> 0 | Some n \<Rightarrow> n);
          prio = (case map_of (kt_effective_priority kt) node_id of None \<Rightarrow> priority_name node | Some p \<Rightarrow> p);
          score = fp_neg (importance_score env node prio now)
      in case live_epic_for env node (kt_by_id kt) (kt_child_progress kt) of
           Some epic \<Rightarrow>
             (let parent_id = (case str_field node ''parent'' of None \<Rightarrow> [] | Some p \<Rightarrow> p);
                  in_progress_rank = (if parent_id \<in> set (kt_epic_in_progress kt) then 0 else 1);
                  epic_band = rank_band env epic;
                  epic_prio = priority_rank (priority_name epic);
                  epic_created = (case str_field epic ''created_at'' of None \<Rightarrow> [] | Some c \<Rightarrow> c)
              in [TBand (fst epic_band) (snd epic_band), TI 0, TI in_progress_rank, TI epic_prio, TS epic_created,
                  TBand (fst band) (snd band), TI child_prio, TI fanout, TB child_orphan, TF score,
                  TS child_created])
         | None \<Rightarrow>
             [TBand (fst band) (snd band), TI 1, TI 0, TI child_prio, TI fanout, TB child_orphan, TF score,
              TS child_created, TI child_prio, TI fanout, TS child_created])"

definition dependents_fanout :: "plan_env \<Rightarrow> json list \<Rightarrow> (string \<times> int) list" where
  "dependents_fanout env entries =
     fold (\<lambda>e deps.
       if \<not> is_dict e \<or> \<not> node_is_open env e then deps
       else case array_field e ''blocked_by'' of
              None \<Rightarrow> deps
            | Some blockers \<Rightarrow>
                fold (\<lambda>b deps. case as_str b of
                        None \<Rightarrow> deps
                      | Some bid \<Rightarrow> btree_insert bid ((case map_of deps bid of None \<Rightarrow> 0 | Some n \<Rightarrow> n) + 1) deps)
                  blockers deps) entries []"

definition key_tables :: "plan_env \<Rightarrow> json list \<Rightarrow> row_map \<Rightarrow> string list \<Rightarrow> KeyTables" where
  "key_tables env entries by_id claimed =
     (let child_progress = epics_with_child_progress env by_id
      in \<lparr>kt_by_id = by_id, kt_child_progress = child_progress,
          kt_dependents = dependents_fanout env entries,
          kt_effective_priority = make_effective_priority env by_id child_progress,
          kt_orphans = orphan_ids env entries by_id,
          kt_epic_in_progress = in_progress_epic_ids env entries by_id child_progress claimed\<rparr>)"

text \<open>A stable sort: a new element goes before the first one that is not smaller.\<close>

fun insert_by :: "('a \<Rightarrow> 'a \<Rightarrow> bool) \<Rightarrow> 'a \<Rightarrow> 'a list \<Rightarrow> 'a list" where
  "insert_by le x [] = [x]"
| "insert_by le x (y # ys) = (if le x y then x # y # ys else y # insert_by le x ys)"

definition sort_by :: "('a \<Rightarrow> 'a \<Rightarrow> bool) \<Rightarrow> 'a list \<Rightarrow> 'a list" where
  "sort_by le xs = foldr (insert_by le) xs []"

definition order_by_selection_key ::
  "plan_env \<Rightarrow> json list \<Rightarrow> json list \<Rightarrow> row_map \<Rightarrow> string list \<Rightarrow> int \<Rightarrow> json list \<times> KeyTables" where
  "order_by_selection_key env rows entries by_id claimed now =
     (let kt = key_tables env entries by_id claimed;
          keyed = map (\<lambda>e. (selection_sort_key env kt now e, e)) rows
      in (map snd (sort_by (\<lambda>a b. key_le (fst a) (fst b)) keyed), kt))"

section \<open>The projection\<close>

definition SUMMARY_KEYS :: "string list" where
  "SUMMARY_KEYS = [''slug'', ''id'', ''title'', ''priority'', ''domain'', ''project'', ''cwd'', ''parent'', ''size'',
     ''difficulty'', ''plan_path'', ''model'', ''provider'', ''effort'', ''dispatch_command'', ''dispatch_brief'',
     ''mission_id'', ''mission_wave'', ''mission_slug'', ''mission_from_msg_id'', ''created_at'', ''touched_at'',
     ''rank'']"

definition dispatch_node_summary :: "json \<Rightarrow> json" where
  "dispatch_node_summary e =
     JObj (map (\<lambda>key. (key, case get_field e key of None \<Rightarrow> JNull | Some v \<Rightarrow> v)) SUMMARY_KEYS)"

section \<open>The decision\<close>

record ReadyOpts =
  opt_project :: "string option"
  opt_all :: bool
  opt_roadmap_id :: "string option"
  opt_parent :: "string option"
  opt_mission :: "string option"
  opt_include_ideas :: bool
  opt_include_deferred :: bool
  opt_repo_root :: "string option"
  opt_claimed :: "string list"
  opt_held :: "string \<Rightarrow> string option"
  opt_staleness_days :: "int option"
  opt_now_ms :: int

record Drop =
  drop_id :: string
  drop_filter :: string
  drop_reason :: string

record ReadyReply =
  reply_rows :: "json list"
  reply_drops :: "Drop list"

datatype NoSuchParent = NoSuchParent string

record SelectCtx =
  ctx_opts :: ReadyOpts
  ctx_repo_root :: string
  ctx_staleness_days :: int
  ctx_parent_scope :: "string list option"
  ctx_container_ids :: "string list"
  ctx_by_id :: row_map

definition FILTER_ORDER :: "string list" where
  "FILTER_ORDER = [''roadmap'', ''mission'', ''parent-scope'', ''project'', ''live-claim'', ''unmerged-open-pr'',
     ''container'', ''batched'', ''selection-guard'']"

definition scoped_read :: "ReadyOpts \<Rightarrow> bool" where
  "scoped_read opts = (opt_parent opts \<noteq> None \<or> opt_mission opts \<noteq> None \<or> opt_roadmap_id opts \<noteq> None)"

definition drops_for_filter :: "plan_env \<Rightarrow> string \<Rightarrow> json \<Rightarrow> SelectCtx \<Rightarrow> string option \<Rightarrow> string option" where
  "drops_for_filter env fname e ctx detected_project =
     (let opts = ctx_opts ctx; drop_if = (\<lambda>b. if b then Some fname else None)
      in if fname = ''roadmap''
         then (case opt_roadmap_id opts of None \<Rightarrow> None | Some want \<Rightarrow> drop_if (str_field e ''roadmap_id'' \<noteq> Some want))
         else if fname = ''mission''
         then (case opt_mission opts of None \<Rightarrow> None | Some want \<Rightarrow> drop_if (str_field e ''mission_id'' \<noteq> Some want))
         else if fname = ''parent-scope''
         then (case ctx_parent_scope ctx of
                 None \<Rightarrow> None
               | Some scope \<Rightarrow> drop_if (case entry_id e of None \<Rightarrow> True | Some i \<Rightarrow> i \<notin> set scope))
         else if fname = ''project'' then drop_if (\<not> row_matches_project e detected_project)
         else if fname = ''live-claim''
         then drop_if (case entry_id e of None \<Rightarrow> False | Some i \<Rightarrow> i \<in> set (opt_claimed opts))
         else if fname = ''unmerged-open-pr''
         then drop_if (str_field e ''status'' = Some ''ready'' \<and> \<not> truthy env (get_field e ''completed_at'') \<and>
                       truthy env (get_field e ''pr_number''))
         else if fname = ''container''
         then drop_if (case entry_id e of None \<Rightarrow> False | Some i \<Rightarrow> i \<in> set (ctx_container_ids ctx))
         else if fname = ''batched'' then drop_if (truthy env (get_field e ''batch''))
         else if fname = ''selection-guard''
         then (case selection_guards env e (map_of (ctx_by_id ctx)) (opt_now_ms opts) (ctx_staleness_days ctx)
                      (opt_held opts) of
                 Some reason \<Rightarrow> Some reason
               | None \<Rightarrow>
                   if \<not> scoped_read opts \<and> \<not> opt_include_ideas opts \<and> is_cold_dispatchable env e \<and>
                      \<not> has_intake_difficulty e
                   then Some ''no-difficulty'' else None)
         else None)"

definition container_ids :: "json list \<Rightarrow> string list" where
  "container_ids entries =
     fold (\<lambda>e ids. if \<not> is_dict e then ids
                   else case str_field e ''parent'' of
                          None \<Rightarrow> ids
                        | Some p \<Rightarrow> if str_field e ''contained_in'' \<noteq> Some p then set_insert p ids else ids) entries []"

definition effective_project :: "plan_env \<Rightarrow> SelectCtx \<Rightarrow> string \<Rightarrow> json list \<Rightarrow> string option" where
  "effective_project env ctx fname survivors =
     (if fname \<noteq> ''project'' then None
      else case opt_project (ctx_opts ctx) of
             Some p \<Rightarrow> Some p
           | None \<Rightarrow> if opt_all (ctx_opts ctx) then None else detect_project env survivors (ctx_repo_root ctx))"

text \<open>One filter over the survivors, each drop recorded.\<close>

definition run_filter :: "plan_env \<Rightarrow> SelectCtx \<Rightarrow> string \<Rightarrow> json list \<times> Drop list \<Rightarrow> json list \<times> Drop list" where
  "run_filter env ctx fname = (\<lambda>(survivors, drops).
     if fname = ''live-claim'' \<and> opt_claimed (ctx_opts ctx) = [] then (survivors, drops)
     else let project = effective_project env ctx fname survivors;
              verdict = (\<lambda>e. drops_for_filter env fname e ctx project)
          in (filter (\<lambda>e. verdict e = None) survivors,
              drops @ filter_map (\<lambda>e. case (verdict e, entry_id e) of
                 (Some reason, Some i) \<Rightarrow> Some \<lparr>drop_id = i, drop_filter = fname, drop_reason = reason\<rparr>
               | _ \<Rightarrow> None) survivors))"

definition is_admitted :: "plan_env \<Rightarrow> ReadyOpts \<Rightarrow> json \<Rightarrow> bool" where
  "is_admitted env opts e =
     (is_dict e \<and>
      ((case str_field e ''status'' of
          None \<Rightarrow> False
        | Some s \<Rightarrow> s = ''ready'' \<or> (opt_include_ideas opts \<and> s = ''idea'') \<or> (opt_include_deferred opts \<and> s = ''deferred'')) \<or>
       is_cold_dispatchable env e) \<and>
      \<not> truthy env (get_field e ''completed_at''))"

definition DEFAULT_STALENESS_DAYS :: int where "DEFAULT_STALENESS_DAYS = 21"

definition select_ctx :: "json list \<Rightarrow> ReadyOpts \<Rightarrow> string list option \<Rightarrow> SelectCtx" where
  "select_ctx entries opts parent_scope =
     \<lparr>ctx_opts = opts,
      ctx_repo_root = (case opt_repo_root opts of None \<Rightarrow> [] | Some r \<Rightarrow> r),
      ctx_staleness_days = (case opt_staleness_days opts of
         None \<Rightarrow> DEFAULT_STALENESS_DAYS | Some d \<Rightarrow> if 0 < d then d else DEFAULT_STALENESS_DAYS),
      ctx_parent_scope = parent_scope, ctx_container_ids = container_ids entries, ctx_by_id = rows_by_id entries\<rparr>"

definition resolve_scope :: "json list \<Rightarrow> ReadyOpts \<Rightarrow> NoSuchParent + string list option" where
  "resolve_scope entries opts =
     (case opt_parent opts of
        None \<Rightarrow> Inr None
      | Some parent \<Rightarrow>
          (case find_node entries parent of
             None \<Rightarrow> Inl (NoSuchParent parent)
           | Some target \<Rightarrow>
               Inr (Some (descendants_of entries (case entry_id target of None \<Rightarrow> parent | Some i \<Rightarrow> i)))))"

definition select :: "plan_env \<Rightarrow> json list \<Rightarrow> ReadyOpts \<Rightarrow> NoSuchParent + ReadyReply" where
  "select env entries opts =
     (case resolve_scope entries opts of
        Inl e \<Rightarrow> Inl e
      | Inr parent_scope \<Rightarrow>
          (let ctx = select_ctx entries opts parent_scope;
               candidates = filter (is_admitted env opts) entries;
               (survivors, drops) = fold (run_filter env ctx) FILTER_ORDER (candidates, []);
               (ordered, _) = order_by_selection_key env survivors entries (ctx_by_id ctx) (opt_claimed opts) (opt_now_ms opts)
           in Inr \<lparr>reply_rows = map dispatch_node_summary ordered, reply_drops = drops\<rparr>))"

section \<open>The board\<close>

record BoardFacts =
  board_ids :: "string list"
  underway :: "string list"
  promoted :: "(string \<times> string) list"

definition board_facts :: "plan_env \<Rightarrow> json list \<Rightarrow> string list \<Rightarrow> int \<Rightarrow> BoardFacts" where
  "board_facts env entries claimed now =
     (let by_id = rows_by_id entries;
          (ordered, kt) = order_by_selection_key env (map snd by_id) entries by_id claimed now
      in \<lparr>board_ids = filter_map entry_id ordered, underway = kt_epic_in_progress kt,
          promoted = filter (\<lambda>(i, effective). case map_of by_id i of
              None \<Rightarrow> False | Some e \<Rightarrow> priority_name e \<noteq> effective) (kt_effective_priority kt)\<rparr>)"

end
