(* ===== verification/Backlog_Command_Props.thy ===== *)
theory Backlog_Command_Props
  imports Backlog_Plan
begin

text \<open>
  The command a node is taken on with: when the lifecycle table refuses, and what an answer rests on.
\<close>

definition PLAN_RUNGS :: "string list" where
  "PLAN_RUNGS = [''none'', ''idea'', ''design'', ''ready'', ''in_progress'', ''in_review'', ''done'', ''superseded'',
     ''unreadable'']"

lemma rung_from_status_range: "plan_rung_from_status raw \<in> set PLAN_RUNGS"
proof -
  have "map_of STATUS_TO_RUNG c = Some rung \<Longrightarrow> rung \<in> set PLAN_RUNGS" for c rung
  proof -
    assume "map_of STATUS_TO_RUNG c = Some rung"
    then have "rung \<in> snd ` set STATUS_TO_RUNG" by (force dest: map_of_SomeD)
    then show ?thesis by (auto simp: STATUS_TO_RUNG_def PLAN_RUNGS_def)
  qed
  then show ?thesis by (auto simp: plan_rung_from_status_def Let_def PLAN_RUNGS_def split: option.splits)
qed

lemma plan_rung_range: "plan_rung env entry \<in> set PLAN_RUNGS"
  using rung_from_status_range
  by (auto simp: plan_rung_def PLAN_RUNGS_def split: option.split prod.split)

lemma intake_known: "intake_difficulty e \<in> {''low'', ''medium'', ''high''} \<longleftrightarrow> has_intake_difficulty e"
  by (auto simp: intake_difficulty_def has_intake_difficulty_def split: option.split)

definition UNANSWERED_RUNGS :: "string list" where
  "UNANSWERED_RUNGS = [''unreadable'', ''done'', ''superseded'']"

lemma lifecycle_none:
  assumes "rung \<in> set PLAN_RUNGS"
  shows "lifecycle_answer env fl rung (intake_difficulty e) e = None \<longleftrightarrow>
    (rung = ''none'' \<and> \<not> has_intake_difficulty e) \<or> rung \<in> set UNANSWERED_RUNGS"
  using assms unfolding intake_known[symmetric] lifecycle_answer_def PLAN_RUNGS_def UNANSWERED_RUNGS_def
  by (auto split: if_splits)

lemma command_refused_aux:
  "(\<exists>r. effective_command_with_floor env e bp_floor = Inl r) \<longleftrightarrow>
     (case declared_command e of None \<Rightarrow> True | Some d \<Rightarrow> \<not> out_of_family d) \<and>
     (plan_rung env e = ''none'' \<and> \<not> has_intake_difficulty e \<or> plan_rung env e \<in> set UNANSWERED_RUNGS)"
proof -
  have "(\<exists>r. effective_command_with_floor env e bp_floor = Inl r) \<longleftrightarrow>
     (case declared_command e of None \<Rightarrow> True | Some d \<Rightarrow> \<not> out_of_family d) \<and>
     lifecycle_answer env (floor_of bp_floor) (plan_rung env e) (intake_difficulty e) e = None"
    by (auto simp: effective_command_with_floor_def Let_def split: option.splits if_splits)
  then show ?thesis using lifecycle_none[OF plan_rung_range] by simp
qed

text \<open>
  C33. The lifecycle table refuses exactly what it has no rung for. Unless the node declares a command of
  another family, which is left to its own precedence, the derivation refuses a node without a plan
  whose difficulty is not stated, and a node whose plan is unreadable, done or superseded; every other
  node gets a command, whatever the blueprint floor.
\<close>

theorem command_refused_iff:
  "(\<exists>r. effective_command_with_floor env e bp_floor = Inl r) \<longleftrightarrow>
     (case declared_command e of None \<Rightarrow> True | Some d \<Rightarrow> \<not> out_of_family d) \<and>
     (plan_rung env e = ''none'' \<and> \<not> has_intake_difficulty e \<or> plan_rung env e \<in> set UNANSWERED_RUNGS)"
  by (rule command_refused_aux)

text \<open>
  A node that declares no command is sent to \<open>/target\<close> only with a plan that is a blueprint on a rung
  where it can be built, or, without a plan, when its difficulty is stated and the floor asks for no
  blueprint.
\<close>

theorem target_rests_on_plan:
  assumes "effective_command_with_floor env e bp_floor = Inr (Some ''/target'', note)" "declared_command e = None"
  shows "(is_blueprint_doc env e \<and> plan_rung env e \<in> {''ready'', ''in_progress'', ''in_review''}) \<or>
    (plan_rung env e = ''none'' \<and> has_intake_difficulty e \<and>
     \<not> wants_blueprint (floor_of bp_floor) (intake_difficulty e) e)"
  using assms unfolding intake_known[symmetric]
  by (auto simp: effective_command_with_floor_def lifecycle_answer_def Let_def split: option.splits if_splits)

definition bare_env :: plan_env where
  "bare_env = \<lparr>home_var = None, file_text = (\<lambda>_. None), path_exists = (\<lambda>_. False), parent_is_dir = (\<lambda>_. False),
     mtime_ms = (\<lambda>_. None), parse_yaml = (\<lambda>_. None), json_text = (\<lambda>_. []), rfc3339_ms = (\<lambda>_. None),
     naive_ms = (\<lambda>_ _. None), naive_date = (\<lambda>_. Some 0), today = 0, float_value = (\<lambda>_. NaN)\<rparr>"

theorem target_rests_on_plan_witness:
  "effective_command_with_floor bare_env (JObj [(''difficulty'', JStr ''low'')]) ''high'' =
     Inr (Some ''/target'', Lifecycle (LeanDispatch ''low'') ''/target'') \<and>
   plan_rung bare_env (JObj [(''difficulty'', JStr ''low'')]) = ''none''"
proof -
  have run: "effective_command_with_floor bare_env (JObj [(''difficulty'', JStr ''low'')]) ''high'' =
     Inr (Some ''/target'', Lifecycle (LeanDispatch ''low'') ''/target'')" by code_simp
  have declared: "declared_command (JObj [(''difficulty'', JStr ''low'')]) = None" by code_simp
  have "\<not> is_blueprint_doc bare_env (JObj [(''difficulty'', JStr ''low'')])" by code_simp
  with target_rests_on_plan[OF run declared] run show ?thesis by blast
qed

end
