(* ===== verification/Backlog_Hold_Props.thy ===== *)
theory Backlog_Hold_Props
  imports Backlog_Select Backlog_Command_Props
begin

text \<open>
  The walks from a node to what stands above it. The hold walk, a bounded breadth-first search, finds a
  binding hold exactly when some row the node is under has one; the ancestor walk finds a dead
  ancestor; the descent collects exactly the descendants.
\<close>

section \<open>The index of rows\<close>

lemma map_of_btree_insert: "map_of (btree_insert k x m) = (map_of m)(k \<mapsto> x)"
  by (induction m) (auto simp: fun_eq_iff)

lemma rows_by_id_index: "map_of (rows_by_id es) = index_by_id es"
proof -
  let ?f = "\<lambda>e. if is_dict e then map_option (\<lambda>i. (i, e)) (entry_id e) else None"
  have "map_of (fold (\<lambda>e m. if is_dict e then (case entry_id e of None \<Rightarrow> m | Some i \<Rightarrow> btree_insert i e m) else m) es m) =
      map_of m ++ map_of (rev (filter_map ?f es))" for m
    by (induction es arbitrary: m) (auto simp: map_of_btree_insert split: option.split)
  from this[of "[]"] show ?thesis by (simp add: rows_by_id_def index_by_id_def)
qed

lemma rows_by_id_Some: "map_of (rows_by_id es) i = Some e \<Longrightarrow> e \<in> set es \<and> entry_id e = Some i \<and> is_dict e"
  unfolding rows_by_id_index index_by_id_def
  by (auto dest!: map_of_SomeD simp: filter_map_in split: if_splits)

section \<open>What stands above a node\<close>

definition rel_step :: "row_index \<Rightarrow> string \<Rightarrow> json \<Rightarrow> json \<Rightarrow> bool" where
  "rel_step by_id rel a b \<longleftrightarrow> (\<exists>i. str_field a rel = Some i \<and> i \<noteq> [] \<and> by_id i = Some b \<and> is_dict b)"

definition above_step :: "row_index \<Rightarrow> json \<Rightarrow> json \<Rightarrow> bool" where
  "above_step by_id a b \<longleftrightarrow> rel_step by_id ''contained_in'' a b \<or> rel_step by_id ''parent'' a b"

text \<open>An index files every row under its own id.\<close>

definition keyed :: "row_index \<Rightarrow> bool" where
  "keyed by_id \<longleftrightarrow> (\<forall>i b. by_id i = Some b \<longrightarrow> entry_id b = Some i)"

lemma keyed_rows: "keyed (map_of (rows_by_id es))"
  by (auto simp: keyed_def dest: rows_by_id_Some)

lemma walk_id_entry: "entry_id b = Some i \<Longrightarrow> walk_id b = i"
  by (simp add: walk_id_def entry_id_def)

lemma keyed_walk: "keyed by_id \<Longrightarrow> by_id i = Some b \<Longrightarrow> walk_id b = i"
  by (auto simp: keyed_def walk_id_entry)

lemma above_row: "keyed by_id \<Longrightarrow> above_step by_id a b \<Longrightarrow> by_id (walk_id b) = Some b"
  by (auto simp: above_step_def rel_step_def keyed_walk)

section \<open>The queue of the walk\<close>

definition queue_ok :: "row_index \<Rightarrow> string list \<Rightarrow> json list \<times> string list \<Rightarrow> bool" where
  "queue_ok by_id seen = (\<lambda>(queue, enqueued).
     distinct (map walk_id queue) \<and> walk_id ` set queue \<inter> set seen = {} \<and>
     walk_id ` set queue \<subseteq> set enqueued \<and> set enqueued \<subseteq> set seen \<union> walk_id ` set queue \<and>
     (\<forall>b\<in>set queue. by_id (walk_id b) = Some b))"

lemma enqueue_one:
  assumes "keyed by_id" "queue_ok by_id seen (q, en)" "enqueue_related by_id seen current rel (q, en) = (q', en')"
  shows "queue_ok by_id seen (q', en')"
    and "set seen \<union> walk_id ` set q' = set seen \<union> walk_id ` set q \<union> {walk_id b |b. rel_step by_id rel current b}"
    and "set q' \<subseteq> set q \<union> {b. rel_step by_id rel current b}"
proof -
  consider (same) "q' = q" "en' = en" "\<And>b. rel_step by_id rel current b \<Longrightarrow> walk_id b \<in> set seen \<union> walk_id ` set q"
    | (new) i b where "rel_step by_id rel current b" "by_id i = Some b" "i \<notin> set seen" "i \<notin> set en"
        "q' = q @ [b]" "en' = i # en" "str_field current rel = Some i"
  proof (cases "str_field current rel")
    case None
    then show thesis using assms(3) by (intro same) (simp_all add: enqueue_related_def rel_step_def)
  next
    case (Some i)
    show thesis
    proof (cases "i = [] \<or> i \<in> set seen \<or> i \<in> set en \<or> by_id i = None \<or> \<not> is_dict (the (by_id i))")
      case True
      have "set en \<subseteq> set seen \<union> walk_id ` set q" using assms(2) by (simp add: queue_ok_def)
      with True Some assms(3) show thesis
        by (intro same)
          (auto simp: enqueue_related_def rel_step_def keyed_walk[OF assms(1)] split: option.splits if_splits)
    next
      case False
      then obtain b where "by_id i = Some b" "is_dict b" by auto
      with False Some assms(3) show thesis by (intro new[of b i]) (simp_all add: enqueue_related_def rel_step_def)
    qed
  qed
  then have "queue_ok by_id seen (q', en') \<and>
    set seen \<union> walk_id ` set q' = set seen \<union> walk_id ` set q \<union> {walk_id b |b. rel_step by_id rel current b} \<and>
    set q' \<subseteq> set q \<union> {b. rel_step by_id rel current b}"
  proof cases
    case same
    then show ?thesis using assms(2) by auto
  next
    case new
    have w: "walk_id b = i" using keyed_walk[OF assms(1) new(2)] .
    have "{walk_id c |c. rel_step by_id rel current c} = {i}"
      using new(1,2,7) w by (auto simp: rel_step_def)
    moreover have "i \<notin> walk_id ` set q" using assms(2) new(4) by (auto simp: queue_ok_def)
    ultimately show ?thesis using assms(2) new w by (auto simp: queue_ok_def)
  qed
  then show "queue_ok by_id seen (q', en')"
    "set seen \<union> walk_id ` set q' = set seen \<union> walk_id ` set q \<union> {walk_id b |b. rel_step by_id rel current b}"
    "set q' \<subseteq> set q \<union> {b. rel_step by_id rel current b}"
    by blast+
qed

lemma enqueue_both:
  assumes "keyed by_id" "queue_ok by_id seen (q, en)"
    "fold (enqueue_related by_id seen current) [''contained_in'', ''parent''] (q, en) = (q', en')"
  shows "queue_ok by_id seen (q', en')"
    and "set seen \<union> walk_id ` set q' = set seen \<union> walk_id ` set q \<union> {walk_id b |b. above_step by_id current b}"
    and "set q' \<subseteq> set q \<union> {b. above_step by_id current b}"
proof -
  obtain q1 en1 where one: "enqueue_related by_id seen current ''contained_in'' (q, en) = (q1, en1)" by fastforce
  have two: "enqueue_related by_id seen current ''parent'' (q1, en1) = (q', en')" using assms(3) one by simp
  note s1 = enqueue_one[OF assms(1,2) one]
  note s2 = enqueue_one[OF assms(1) s1(1) two]
  show "queue_ok by_id seen (q', en')" by (rule s2(1))
  show "set seen \<union> walk_id ` set q' = set seen \<union> walk_id ` set q \<union> {walk_id b |b. above_step by_id current b}"
    unfolding s2(2) s1(2) by (auto simp: above_step_def)
  show "set q' \<subseteq> set q \<union> {b. above_step by_id current b}"
    using s1(3) s2(3) by (auto simp: above_step_def)
qed

section \<open>The hold walk\<close>

definition above :: "row_index \<Rightarrow> json \<Rightarrow> json set" where
  "above by_id entry = {b. (above_step by_id)\<^sup>*\<^sup>* entry b}"

definition walk_inv :: "plan_env \<Rightarrow> row_index \<Rightarrow> string \<Rightarrow> json \<Rightarrow> json list \<Rightarrow> string list \<Rightarrow> bool" where
  "walk_inv env by_id for_id entry queue seen \<longleftrightarrow>
     set queue \<subseteq> above by_id entry \<and> set seen \<subseteq> walk_id ` above by_id entry \<and>
     walk_id entry \<in> set seen \<union> walk_id ` set queue \<and>
     (\<forall>a\<in>above by_id entry. walk_id a \<in> set seen \<longrightarrow> \<not> hold_binds env for_id a \<and>
        (\<forall>b. above_step by_id a b \<longrightarrow> walk_id b \<in> set seen \<union> walk_id ` set queue))"

lemma above_rows:
  assumes "keyed by_id" "by_id (walk_id entry) = Some entry" "a \<in> above by_id entry"
  shows "by_id (walk_id a) = Some a"
proof -
  have "(above_step by_id)\<^sup>*\<^sup>* entry a" using assms(3) by (simp add: above_def)
  then show ?thesis using assms(1,2) by (cases rule: rtranclp.cases) (auto intro: above_row)
qed

lemma walk_closed:
  assumes "keyed by_id" "walk_inv env by_id for_id entry [] seen" "a \<in> above by_id entry"
  shows "\<not> hold_binds env for_id a"
proof -
  have "(above_step by_id)\<^sup>*\<^sup>* entry b \<Longrightarrow> walk_id b \<in> set seen" for b
  proof (induction rule: rtranclp_induct)
    case (step b c)
    then have "b \<in> above by_id entry" by (simp add: above_def)
    with step assms(2) show ?case by (auto simp: walk_inv_def)
  qed (use assms(2) in \<open>simp add: walk_inv_def\<close>)
  with assms(2,3) show ?thesis by (auto simp: walk_inv_def above_def)
qed

lemma walk_inv_step:
  assumes "keyed by_id" "by_id (walk_id entry) = Some entry" "walk_inv env by_id for_id entry (current # rest) seen"
    "\<not> hold_binds env for_id current"
    "set (walk_id current # seen) \<union> walk_id ` set q' =
       set (walk_id current # seen) \<union> walk_id ` set rest \<union> {walk_id b |b. above_step by_id current b}"
    "set q' \<subseteq> set rest \<union> {b. above_step by_id current b}"
  shows "walk_inv env by_id for_id entry q' (walk_id current # seen)"
proof -
  let ?reached = "set (walk_id current # seen) \<union> walk_id ` set q'"
  have cur: "current \<in> above by_id entry" using assms(3) by (simp add: walk_inv_def)
  have up: "b \<in> above by_id entry" if "above_step by_id current b" for b
    using cur that by (auto simp: above_def intro: rtranclp.rtrancl_into_rtrancl)
  have old: "set seen \<union> walk_id ` set (current # rest) \<subseteq> ?reached" unfolding assms(5) by auto
  have next_up: "walk_id b \<in> ?reached" if "above_step by_id current b" for b unfolding assms(5) using that by blast
  have one: "a = current" if "a \<in> above by_id entry" "walk_id a = walk_id current" for a
    using above_rows[OF assms(1,2) that(1)] above_rows[OF assms(1,2) cur] that(2) by (metis option.inject)
  have "\<not> hold_binds env for_id a \<and> (\<forall>b. above_step by_id a b \<longrightarrow> walk_id b \<in> ?reached)"
    if a: "a \<in> above by_id entry" "walk_id a \<in> set (walk_id current # seen)" for a
  proof (cases "walk_id a = walk_id current")
    case True
    then show ?thesis using one[OF a(1)] assms(4) next_up by simp
  next
    case False
    then have "walk_id a \<in> set seen" using a(2) by simp
    then show ?thesis using a(1) assms(3) old unfolding walk_inv_def by (meson subsetD)
  qed
  moreover have "set q' \<subseteq> above by_id entry" using assms(3,6) up by (auto simp: walk_inv_def)
  moreover have "walk_id entry \<in> ?reached" using assms(3) old by (auto simp: walk_inv_def)
  moreover have "set (walk_id current # seen) \<subseteq> walk_id ` above by_id entry" using assms(3) cur by (simp add: walk_inv_def)
  ultimately show ?thesis unfolding walk_inv_def by blast
qed

lemma walk_exact:
  assumes "keyed by_id" "by_id (walk_id entry) = Some entry" "finite (walk_id ` above by_id entry)"
    "queue \<noteq> [] \<Longrightarrow> queue_ok by_id (walk_id (hd queue) # seen) (tl queue, enqueued)"
    "queue \<noteq> [] \<Longrightarrow> walk_id (hd queue) \<notin> set seen"
    "walk_inv env by_id for_id entry queue seen"
    "card (walk_id ` above by_id entry - set seen) \<le> n"
  shows "case hold_walk env by_id for_id n queue seen enqueued of
      None \<Rightarrow> (\<forall>a\<in>above by_id entry. \<not> hold_binds env for_id a)
    | Some r \<Rightarrow> (\<exists>a\<in>above by_id entry. hold_binds env for_id a \<and> r = hold_receipt env a)"
  using assms
proof (induction n arbitrary: queue seen enqueued)
  case 0
  have "walk_id ` set queue \<subseteq> walk_id ` above by_id entry - set seen"
    using 0(4-6) by (cases queue) (auto simp: queue_ok_def walk_inv_def)
  moreover have "walk_id ` above by_id entry - set seen = {}" using 0(3,7) by simp
  ultimately have "queue = []" by auto
  with 0 show ?case by (auto dest: walk_closed)
next
  case (Suc n)
  show ?case
  proof (cases queue)
    case Nil
    with Suc.prems show ?thesis by (auto dest: walk_closed)
  next
    case (Cons current rest)
    have cur: "current \<in> above by_id entry" "walk_id current \<notin> set seen"
      using Suc.prems(5,6) Cons by (auto simp: walk_inv_def)
    let ?seen = "walk_id current # seen"
    show ?thesis
    proof (cases "hold_binds env for_id current")
      case True
      then show ?thesis using cur Cons by auto
    next
      case False
      obtain q' en' where fold: "fold (enqueue_related by_id ?seen current) [''contained_in'', ''parent''] (rest, enqueued) = (q', en')"
        by fastforce
      have ok: "queue_ok by_id ?seen (rest, enqueued)" using Suc.prems(4) Cons by simp
      note enq = enqueue_both[OF Suc.prems(1) ok fold]
      have rec: "hold_walk env by_id for_id (Suc n) queue seen enqueued = hold_walk env by_id for_id n q' ?seen en'"
        using Cons cur(2) False fold by simp
      have inv: "walk_inv env by_id for_id entry q' ?seen"
        using walk_inv_step[OF Suc.prems(1,2) _ False enq(2,3)] Suc.prems(6) Cons by simp
      have "card (walk_id ` above by_id entry - set ?seen) \<le> n"
        using Suc.prems(3,7) cur card_minus_insert[of "walk_id ` above by_id entry" "walk_id current" "set seen"]
        by auto
      moreover have "q' \<noteq> [] \<Longrightarrow> queue_ok by_id (walk_id (hd q') # ?seen) (tl q', en')"
        "q' \<noteq> [] \<Longrightarrow> walk_id (hd q') \<notin> set ?seen"
        using enq(1) by (cases q'; auto simp: queue_ok_def)+
      ultimately show ?thesis
        unfolding rec using Suc.IH[OF Suc.prems(1-3) _ _ inv] by blast
    qed
  qed
qed

lemma above_ids:
  assumes "map_of (rows_by_id es) i = Some e"
  shows "walk_id ` above (map_of (rows_by_id es)) e \<subseteq> fst ` set (rows_by_id es)"
    and "finite (walk_id ` above (map_of (rows_by_id es)) e)"
proof -
  let ?ix = "map_of (rows_by_id es)"
  have e: "?ix (walk_id e) = Some e" using assms keyed_walk[OF keyed_rows assms] by simp
  show sub: "walk_id ` above ?ix e \<subseteq> fst ` set (rows_by_id es)"
    using above_rows[OF keyed_rows e] by (auto intro: map_of_key)
  show "finite (walk_id ` above ?ix e)" by (rule finite_subset[OF sub]) simp
qed

lemma above_card:
  assumes "map_of (rows_by_id es) i = Some e"
  shows "card (walk_id ` above (map_of (rows_by_id es)) e) \<le> length (rows_by_id es)"
proof -
  have "card (fst ` set (rows_by_id es)) \<le> length (rows_by_id es)"
    using card_image_le[of "set (rows_by_id es)" fst] card_length[of "rows_by_id es"] by simp
  then show ?thesis using card_mono[OF _ above_ids(1)[OF assms]] by simp
qed

lemma hold_verdict_exact_aux:
  assumes "map_of (rows_by_id es) i = Some e" "card (walk_id ` above (map_of (rows_by_id es)) e) \<le> MAX_ANCESTOR_WALK"
  shows "case hold_verdict_receipt env e (map_of (rows_by_id es)) of
      None \<Rightarrow> \<not> (\<exists>a\<in>above (map_of (rows_by_id es)) e. hold_binds env i a)
    | Some r \<Rightarrow> (\<exists>a\<in>above (map_of (rows_by_id es)) e. hold_binds env i a \<and> r = hold_receipt env a)"
proof -
  let ?ix = "map_of (rows_by_id es)"
  have e: "is_dict e" "entry_id e = Some i" using rows_by_id_Some[OF assms(1)] by simp_all
  have w: "?ix (walk_id e) = Some e" using assms(1) walk_id_entry[OF e(2)] by simp
  have "walk_inv env ?ix i e [e] []" by (simp add: walk_inv_def above_def)
  moreover have "queue_ok ?ix [walk_id e] ([], [])" by (simp add: queue_ok_def)
  ultimately show ?thesis
    using walk_exact[OF keyed_rows w above_ids(2)[OF assms(1)], where seen = "[]" and queue = "[e]" and enqueued = "[]" and
        env = env and for_id = i and n = MAX_ANCESTOR_WALK] assms(2) e
    by (auto simp: hold_verdict_receipt_def entry_id_def split: option.split)
qed

text \<open>
  C32. The hold walk misses nothing within its bound. If the node and what stands above it, through parents
  and delivery owners, are at most 64 rows, the walk answers a hold exactly when one of those rows has a
  hold that binds the node, and the hold it answers is such a one.
\<close>

theorem hold_verdict_exact:
  assumes "map_of (rows_by_id es) i = Some e" "card (walk_id ` above (map_of (rows_by_id es)) e) \<le> MAX_ANCESTOR_WALK"
  shows "case hold_verdict_receipt env e (map_of (rows_by_id es)) of
      None \<Rightarrow> \<not> (\<exists>a\<in>above (map_of (rows_by_id es)) e. hold_binds env i a)
    | Some r \<Rightarrow> (\<exists>a\<in>above (map_of (rows_by_id es)) e. hold_binds env i a \<and> r = hold_receipt env a)"
  by (rule hold_verdict_exact_aux[OF assms])

definition held_rows :: "json list" where
  "held_rows =
     [JObj [(''id'', JStr ''c''), (''parent'', JStr ''e'')],
      JObj [(''id'', JStr ''e''), (''dispatch_hold'', JStr ''not a mapping'')]]"

theorem hold_verdict_exact_witness:
  "\<exists>a\<in>above (map_of (rows_by_id held_rows)) (hd held_rows). hold_binds bare_env ''c'' a"
proof -
  have row: "map_of (rows_by_id held_rows) ''c'' = Some (hd held_rows)" by code_simp
  have "length (rows_by_id held_rows) \<le> MAX_ANCESTOR_WALK" by code_simp
  then have "card (walk_id ` above (map_of (rows_by_id held_rows)) (hd held_rows)) \<le> MAX_ANCESTOR_WALK"
    using above_card[OF row] by (rule order_trans[rotated])
  note exact = hold_verdict_exact[OF row this, of bare_env]
  have "hold_verdict_receipt bare_env (hd held_rows) (map_of (rows_by_id held_rows)) \<noteq> None" by code_simp
  with exact show ?thesis by (auto split: option.splits)
qed

section \<open>Dead ancestors\<close>

text \<open>The first \<open>n\<close> rows above a node by the parent field.\<close>

fun parents_of :: "row_index \<Rightarrow> nat \<Rightarrow> string option \<Rightarrow> json list" where
  "parents_of by_id 0 p = []"
| "parents_of by_id (Suc n) None = []"
| "parents_of by_id (Suc n) (Some i) =
     (case by_id i of None \<Rightarrow> [] | Some b \<Rightarrow> b # parents_of by_id n (str_field b ''parent''))"

definition all_alive :: "plan_env \<Rightarrow> row_index \<Rightarrow> string list \<Rightarrow> string option \<Rightarrow> bool" where
  "all_alive env by_id seen next_id \<longleftrightarrow>
     (\<forall>i\<in>set seen. \<exists>b. by_id i = Some b \<and> \<not> is_dead env b \<and>
        (case str_field b ''parent'' of None \<Rightarrow> True | Some j \<Rightarrow> j \<in> set seen \<or> Some j = next_id))"

lemma alive_cycle:
  "all_alive env by_id seen (Some i) \<Longrightarrow> i \<in> set seen \<Longrightarrow> j \<in> set seen \<Longrightarrow>
     b \<in> set (parents_of by_id n (Some j)) \<Longrightarrow> \<not> is_dead env b"
proof (induction n arbitrary: j)
  case (Suc n)
  obtain c where c: "by_id j = Some c" "\<not> is_dead env c"
    "case str_field c ''parent'' of None \<Rightarrow> True | Some k \<Rightarrow> k \<in> set seen \<or> k = i"
    using bspec[OF Suc.prems(1)[unfolded all_alive_def] Suc.prems(3)] by (auto split: option.splits)
  show ?case
  proof (cases "str_field c ''parent''")
    case None
    then have "parents_of by_id n (str_field c ''parent'') = []" by (cases n) simp_all
    then show ?thesis using Suc.prems(4) c by auto
  next
    case (Some k)
    then have "k \<in> set seen" using c(3) Suc.prems(2) by auto
    then show ?thesis using Suc.prems c Some Suc.IH[of k] by auto
  qed
qed simp

lemma parents_of_None [simp]: "parents_of by_id n None = []"
  by (cases n) simp_all

lemma dead_ancestor_None:
  "dead_ancestor env by_id n seen p = None \<Longrightarrow> all_alive env by_id seen p \<Longrightarrow> b \<in> set (parents_of by_id n p) \<Longrightarrow>
     \<not> is_dead env b"
proof (induction env by_id n seen p rule: dead_ancestor.induct)
  case (3 env by_id n seen i)
  show ?case
  proof (cases "i \<in> set seen")
    case True
    then show ?thesis using 3(3,4) alive_cycle by blast
  next
    case False
    note fresh = this
    show ?thesis
    proof (cases "by_id i")
      case None
      then show ?thesis using 3(4) by simp
    next
      case (Some anc)
      have alive: "\<not> is_dead env anc" "dead_ancestor env by_id n (i # seen) (str_field anc ''parent'') = None"
        using 3(2) fresh Some by (auto split: if_splits)
      moreover have "all_alive env by_id (i # seen) (str_field anc ''parent'')"
        using 3(3) Some alive(1) by (fastforce simp: all_alive_def split: option.splits)
      ultimately show ?thesis using 3(1)[OF fresh Some] 3(4) Some by auto
    qed
  qed
qed simp_all

lemma dead_ancestor_Some:
  "dead_ancestor env by_id n seen p = Some i \<Longrightarrow> \<exists>b\<in>set (parents_of by_id n p). by_id i = Some b \<and> is_dead env b"
  by (induction env by_id n seen p rule: dead_ancestor.induct) (auto split: if_splits option.splits)

section \<open>Descendants\<close>

definition child_edge :: "json list \<Rightarrow> string \<Rightarrow> string \<Rightarrow> bool" where
  "child_edge es p c \<longleftrightarrow> (\<exists>e\<in>set es. entry_id e = Some c \<and> str_field e ''parent'' = Some p)"

definition kids_at :: "(string \<times> string list) list \<Rightarrow> string \<Rightarrow> string list" where
  "kids_at kids p = (case map_of kids p of None \<Rightarrow> [] | Some ks \<Rightarrow> ks)"

lemma child_ids_edges: "set (kids_at (child_ids es) p) = {c. child_edge es p c}"
proof -
  let ?f = "\<lambda>e m. case (entry_id e, str_field e ''parent'') of (Some i, Some pid) \<Rightarrow> btree_push pid i m | _ \<Rightarrow> m"
  have "sorted_wrt (<) (btree_keys m) \<Longrightarrow> set (kids_at (fold ?f es m) p) = set (kids_at m p) \<union> {c. child_edge es p c}" for m
  proof (induction es arbitrary: m)
    case (Cons e es)
    have "sorted_wrt (<) (btree_keys (?f e m))"
      using Cons.prems by (auto simp: btree_push_sorted split: option.split)
    moreover have "set (kids_at (?f e m) p) = set (kids_at m p) \<union> {c. child_edge [e] p c}"
      using Cons.prems by (auto simp: kids_at_def child_edge_def map_of_btree_push split: option.splits if_splits)
    ultimately show ?case using Cons.IH[of "?f e m"] by (auto simp: child_edge_def)
  qed (auto simp: child_edge_def)
  from this[of "[]"] show ?thesis by (simp add: child_ids_def btree_keys_def kids_at_def)
qed

lemma descend_step:
  "descend kids p (c # fr) res =
     (if c \<in> set res \<or> c = p then descend kids p fr res else descend kids p (rev (kids_at kids c) @ fr) (c # res))"
  by (simp add: kids_at_def split: option.split)

lemma descend_keeps: "set res \<union> (set fr - {p}) \<subseteq> set (descend kids p fr res)"
  by (induction kids p fr res rule: descend.induct) (auto split: option.splits if_splits)

lemma descend_closed:
  "\<forall>r\<in>set res. set (kids_at kids r) \<subseteq> set res \<union> set fr \<union> {p} \<Longrightarrow> r \<in> set (descend kids p fr res) \<Longrightarrow>
     set (kids_at kids r) \<subseteq> set (descend kids p fr res) \<union> {p}"
proof (induction kids p fr res rule: descend.induct)
  case (2 kids p c fr res)
  show ?case
  proof (cases "c \<in> set res \<or> c = p")
    case True
    then show ?thesis using 2(1)[OF True] 2(3,4) by (auto simp: descend_step)
  next
    case False
    have "\<forall>r\<in>set (c # res). set (kids_at kids r) \<subseteq> set (c # res) \<union> set (rev (kids_at kids c) @ fr) \<union> {p}"
      using 2(3) by auto
    then show ?thesis
      using 2(2)[OF False] 2(4) False by (simp add: kids_at_def split: option.splits)
  qed
qed auto

lemma descend_sound:
  "x \<in> set (descend kids p fr res) \<Longrightarrow>
     x \<in> set res \<or> x \<noteq> p \<and> (\<exists>f\<in>set fr. (\<lambda>a b. b \<in> set (kids_at kids a))\<^sup>*\<^sup>* f x)"
proof (induction kids p fr res rule: descend.induct)
  case (2 kids p c fr res)
  show ?case
  proof (cases "c \<in> set res \<or> c = p")
    case True
    then show ?thesis using 2(1)[OF True] 2(3) by (auto simp: descend_step)
  next
    case False
    then have "x \<in> set (descend kids p (rev (kids_at kids c) @ fr) (c # res))" using 2(3) by (simp only: descend_step if_False)
    then have "x \<in> set (c # res) \<or> x \<noteq> p \<and> (\<exists>f\<in>set (rev (kids_at kids c) @ fr). (\<lambda>a b. b \<in> set (kids_at kids a))\<^sup>*\<^sup>* f x)"
      using 2(2)[OF False] by (simp add: kids_at_def split: option.splits)
    then show ?thesis using False
      by (auto intro: converse_rtranclp_into_rtranclp)
  qed
qed simp

text \<open>
  The scope of a read below a node is exactly its descendants by the parent field, whatever cycles the
  fields form, without the node itself.
\<close>

theorem descendants_exact:
  "set (descendants_of es p) = {c. (child_edge es)\<^sup>+\<^sup>+ p c} - {p}"
proof -
  let ?kids = "child_ids es" and ?edge = "\<lambda>a b. b \<in> set (kids_at (child_ids es) a)"
  have edge: "?edge = child_edge es" using child_ids_edges[of es] by (auto simp: fun_eq_iff)
  define out where "out = descend ?kids p (rev (kids_at ?kids p)) []"
  have out: "descendants_of es p = out" by (simp add: descendants_of_def out_def kids_at_def Let_def split: option.split)
  have "c \<in> set out \<union> {p}" if "(child_edge es)\<^sup>+\<^sup>+ p c" for c
    using that
  proof (induction rule: tranclp_induct)
    case (base c)
    then show ?case using descend_keeps[of "[]" "rev (kids_at ?kids p)" p ?kids] by (auto simp: out_def edge[symmetric])
  next
    case (step b c)
    then show ?case
      using descend_closed[of "[]" ?kids "rev (kids_at ?kids p)" p b]
        descend_keeps[of "[]" "rev (kids_at ?kids p)" p ?kids]
      by (auto simp: out_def edge[symmetric])
  qed
  moreover have "(child_edge es)\<^sup>+\<^sup>+ p c \<and> c \<noteq> p" if "c \<in> set out" for c
    using descend_sound[OF that[unfolded out_def]] unfolding edge
    by (auto simp: edge[symmetric] intro: rtranclp_into_tranclp2)
  ultimately show ?thesis unfolding out by auto
qed

end
