(* ===== verification/Backlog_Order_Props.thy ===== *)
theory Backlog_Order_Props
  imports Backlog_Order Backlog_Hold_Props Backlog_Command_Props Supervisor
begin

text \<open>
  What the selection of work guarantees. The comparison of sort keys, which is only a partial order on
  floating point numbers, is a total one on the keys that occur, so the order of the answer is that of
  a stable sort by an ordinary linear order; the cascade of filters offers exactly the rows that meet
  the conditions of every filter and records each other row under the first filter it fails.
\<close>

section \<open>Sorting by an image in a linear order\<close>

text \<open>
  The contract of a comparison: on the keys that occur it is the order of their images. Sorting by it
  is then the library's stable sort.
\<close>

locale image_order =
  fixes le :: "'k \<Rightarrow> 'k \<Rightarrow> bool" and img :: "'k \<Rightarrow> 'o::linorder" and proper :: "'k \<Rightarrow> bool"
  assumes le_img: "proper a \<Longrightarrow> proper b \<Longrightarrow> le a b \<longleftrightarrow> img a \<le> img b"
begin

lemma insert_by_img:
  "proper (f x) \<Longrightarrow> \<forall>y\<in>set ys. proper (f y) \<Longrightarrow>
     insert_by (\<lambda>a b. le (f a) (f b)) x ys = insort_key (\<lambda>a. img (f a)) x ys"
  by (induction ys) (auto simp: le_img)

lemma sort_by_img:
  "\<forall>x\<in>set xs. proper (f x) \<Longrightarrow> sort_by (\<lambda>a b. le (f a) (f b)) xs = sort_key (\<lambda>a. img (f a)) xs"
proof (induction xs)
  case (Cons x xs)
  then have "sort_by (\<lambda>a b. le (f a) (f b)) xs = sort_key (\<lambda>a. img (f a)) xs" by simp
  with Cons.prems show ?case by (simp add: sort_by_def sort_key_def[symmetric] insert_by_img)
qed (simp add: sort_by_def)

end

lemma cmp_lin_greater: "cmp_lin a b \<noteq> Greater \<longleftrightarrow> a \<le> b"
  by (auto simp: cmp_lin_def)

definition fp_img :: "fp \<Rightarrow> int \<times> rat" where
  "fp_img a = (case a of NaN \<Rightarrow> (0, 0) | Inf s \<Rightarrow> (if s then - 1 else 1, 0) | Fin x \<Rightarrow> (0, x))"

fun term_img :: "Term \<Rightarrow> nat \<times> bool \<times> int \<times> (int \<times> rat) \<times> string" where
  "term_img (TB b) = (0, b, 0, (0, 0), [])"
| "term_img (TI i) = (1, False, i, (0, 0), [])"
| "term_img (TF x) = (2, False, 0, fp_img x, [])"
| "term_img (TS s) = (3, False, 0, (0, 0), s)"
| "term_img (TBand i x) = (4, False, i, fp_img x, [])"

fun term_ok :: "Term \<Rightarrow> bool" where
  "term_ok (TF x) = (x \<noteq> NaN)"
| "term_ok (TBand i x) = (x \<noteq> NaN)"
| "term_ok _ = True"

lemma cmp_f64_img: "a \<noteq> NaN \<Longrightarrow> b \<noteq> NaN \<Longrightarrow> cmp_f64 a b = cmp_lin (fp_img a) (fp_img b)"
  by (cases a; cases b) (auto simp: cmp_f64_def cmp_lin_def fp_img_def)

lemma cmp_term_img: "term_ok s \<Longrightarrow> term_ok t \<Longrightarrow> cmp_term s t = cmp_lin (term_img s) (term_img t)"
  by (cases s; cases t) (auto simp: cmp_f64_img cmp_lin_def)

lemma cmp_key_img:
  "list_all term_ok ss \<Longrightarrow> list_all term_ok ts \<Longrightarrow> cmp_key ss ts = cmp_lin (map term_img ss) (map term_img ts)"
proof (induction ss ts rule: cmp_key.induct)
  case (4 s ss t ts)
  then show ?case
    by (cases "cmp_term s t") (auto simp: cmp_term_img cmp_lin_def split: if_splits)
qed (auto simp: cmp_lin_def)

interpretation key_order: image_order key_le "map term_img" "list_all term_ok"
  by unfold_locales (simp add: key_le_def cmp_key_img cmp_lin_greater)

section \<open>Keys have no number that does not compare\<close>

text \<open>A score is built from numbers that are finite and not negative, or positive infinity.\<close>

definition up_num :: "fp \<Rightarrow> bool" where
  "up_num a = (case a of NaN \<Rightarrow> False | Inf s \<Rightarrow> \<not> s | Fin x \<Rightarrow> 0 \<le> x)"

lemma up_round: "0 \<le> x \<Longrightarrow> up_num (f64_round x)"
  using rounded_nonneg[of x 53 "- 1022"]
  by (cases "x = 0") (auto simp: up_num_def f64_round_def fround_rounded fround_def[of _ _ _ 0] Let_def)

lemma up_of_int: "0 \<le> i \<Longrightarrow> up_num (f64_of_int i)"
  by (simp add: f64_of_int_def up_round)

lemma up_mul: "up_num a \<Longrightarrow> 0 < y \<Longrightarrow> up_num (fp_mul f64_round a (Fin y))"
  by (cases a) (auto simp: up_num_def[of "Inf _"] up_num_def[of "Fin _"] up_num_def[of NaN] up_round)

lemma up_div: "up_num a \<Longrightarrow> 0 < y \<Longrightarrow> up_num (fp_div f64_round a (Fin y))"
  by (cases a) (auto simp: up_num_def[of "Inf _"] up_num_def[of "Fin _"] up_num_def[of NaN] up_round)

lemma up_add: "up_num a \<Longrightarrow> up_num b \<Longrightarrow> up_num (fp_add f64_round a b)"
  by (cases a; cases b) (auto simp: up_num_def[of "Inf _"] up_num_def[of "Fin _"] up_num_def[of NaN] up_round)

lemma up_min: "up_num a \<Longrightarrow> 0 \<le> y \<Longrightarrow> up_num (fp_min a (Fin y))"
  by (cases a) (auto simp: up_num_def fp_min_def)

lemma f64_of_int_exact: "0 \<le> i \<Longrightarrow> i < 2 ^ 53 \<Longrightarrow> f64_of_int i = Fin (of_int i)"
  using f64_of_nat_exact[of "nat i"] by (simp add: f64_of_int_def f64_of_nat_def)

lemma weight_values:
  assumes "map_of PRIORITY_WEIGHT p = Some w"
  shows "f64_of_int w = Fin (of_int w) \<and> 0 < w \<and> w < 5"
proof -
  have "0 < w \<and> w < 5" using assms by (auto simp: PRIORITY_WEIGHT_def split: if_splits)
  then show ?thesis by (auto simp: f64_of_int_exact)
qed

lemma double_weight: "0 < w \<Longrightarrow> w < 5 \<Longrightarrow> f64_round (rat_of_int w * 2) = Fin (of_int (w * 2))"
  using f64_of_int_exact[of "w * 2"] by (simp add: f64_of_int_def)

lemma importance_number: "up_num (importance_score env entry prio now)"
proof (cases "encounter_voters entry = []")
  case False
  define w where "w = (case map_of PRIORITY_WEIGHT prio of Some v \<Rightarrow> f64_of_int v | None \<Rightarrow> Fin 3)"
  define w' where "w' = (if \<not> truthy env (get_field entry ''sessions'') \<and> \<not> truthy env (get_field entry ''pr_number'')
                         then fp_mul f64_round w (Fin 2) else w)"
  obtain k :: int where k: "w = Fin (of_int k)" "0 < k" "k < 5"
  proof (cases "map_of PRIORITY_WEIGHT prio")
    case None
    then show thesis by (intro that[of 3]) (simp_all add: w_def)
  next
    case (Some v)
    then show thesis using weight_values[OF Some] by (intro that[of v]) (simp_all add: w_def)
  qed
  then have "w' = Fin (of_int k) \<or> w' = Fin (of_int (k * 2))" by (auto simp: w'_def double_weight)
  then obtain y where y: "w' = Fin y" "0 < y" using k(2) by auto
  define d where "d = fp_mul f64_round (f64_of_int (int (length (encounter_voters entry)))) w'"
  have d: "up_num d" unfolding d_def y(1) by (intro up_mul up_of_int y(2)) simp
  have "importance_score env entry prio now = (case touched_ms env entry of None \<Rightarrow> d
      | Some t \<Rightarrow> fp_add f64_round d (fp_div f64_round (fp_min (f64_of_int (max (days_between now t) 0)) (Fin 90)) (Fin 100)))"
    unfolding importance_score_def Let_def d_def w'_def w_def using False by simp
  then show ?thesis using d by (auto intro!: up_add up_div up_min up_of_int split: option.split)
qed (simp add: importance_score_def up_num_def)

lemma rank_band_number: "snd (rank_band env e) \<noteq> NaN"
  by (auto simp: rank_band_def split: option.split json.split)

lemma sort_key_proper: "list_all term_ok (selection_sort_key env kt now e)"
proof -
  have "fp_neg (importance_score env node prio now) \<noteq> NaN" for node prio
    using importance_number[of env node prio now] by (cases "importance_score env node prio now") (auto simp: up_num_def)
  then show ?thesis
    by (auto simp: selection_sort_key_def Let_def rank_band_number split: option.split)
qed

section \<open>The order of the answer\<close>

definition row_key :: "plan_env \<Rightarrow> KeyTables \<Rightarrow> int \<Rightarrow> json \<Rightarrow> (nat \<times> bool \<times> int \<times> (int \<times> rat) \<times> string) list" where
  "row_key env kt now e = map term_img (selection_sort_key env kt now e)"

lemma map_insort_key: "map f (insort_key (\<lambda>a. g (f a)) x xs) = insort_key g (f x) (map f xs)"
  by (induction xs) auto

lemma map_sort_key: "map f (sort_key (\<lambda>a. g (f a)) xs) = sort_key g (map f xs)"
  by (induction xs) (auto simp: map_insort_key)

lemma insort_key_cong:
  "\<forall>y\<in>set (x # xs). f y = g y \<Longrightarrow> insort_key f x xs = insort_key g x xs"
  by (induction xs) auto

lemma sort_key_cong: "\<forall>x\<in>set xs. f x = g x \<Longrightarrow> sort_key f xs = sort_key g xs"
  by (induction xs) (simp_all add: insort_key_cong)

lemma order_is_sort:
  "fst (order_by_selection_key env rows entries by_id claimed now) =
     sort_key (row_key env (key_tables env entries by_id claimed) now) rows"
  (is "_ = sort_key (row_key env ?kt now) rows")
proof -
  let ?keyed = "map (\<lambda>e. (selection_sort_key env ?kt now e, e)) rows"
  have "sort_by (\<lambda>a b. key_le (fst a) (fst b)) ?keyed = sort_key (\<lambda>a. map term_img (fst a)) ?keyed"
    by (rule key_order.sort_by_img) (auto simp: sort_key_proper)
  also have "\<dots> = sort_key (\<lambda>a. row_key env ?kt now (snd a)) ?keyed"
    by (rule sort_key_cong) (auto simp: row_key_def)
  finally show ?thesis
    by (simp add: order_by_selection_key_def Let_def map_sort_key comp_def)
qed

section \<open>The cascade\<close>

text \<open>The first filter of a list that rejects a row, with the drop it records.\<close>

fun first_drop :: "(string \<Rightarrow> json \<Rightarrow> string option) \<Rightarrow> string list \<Rightarrow> json \<Rightarrow> (string \<times> string) option" where
  "first_drop verdict [] e = None"
| "first_drop verdict (f # fs) e =
     (case verdict f e of Some reason \<Rightarrow> Some (f, reason) | None \<Rightarrow> first_drop verdict fs e)"

definition drop_of :: "(string \<Rightarrow> json \<Rightarrow> string option) \<Rightarrow> string list \<Rightarrow> json \<Rightarrow> Drop option" where
  "drop_of verdict fs e =
     (case (first_drop verdict fs e, entry_id e) of
        (Some (f, reason), Some i) \<Rightarrow> Some \<lparr>drop_id = i, drop_filter = f, drop_reason = reason\<rparr>
      | _ \<Rightarrow> None)"

definition filter_step ::
  "(string \<Rightarrow> json \<Rightarrow> string option) \<Rightarrow> string \<Rightarrow> json list \<times> Drop list \<Rightarrow> json list \<times> Drop list" where
  "filter_step verdict f sd =
     (filter (\<lambda>e. verdict f e = None) (fst sd), snd sd @ filter_map (drop_of verdict [f]) (fst sd))"

lemma first_drop_None: "first_drop verdict fs e = None \<longleftrightarrow> (\<forall>f\<in>set fs. verdict f e = None)"
  by (induction fs) (auto split: option.split)

lemma first_drop_append:
  "first_drop verdict (fs @ gs) e =
     (case first_drop verdict fs e of Some d \<Rightarrow> Some d | None \<Rightarrow> first_drop verdict gs e)"
  by (induction fs) (auto split: option.split)

lemma filter_map_mset_split:
  "mset (filter_map (drop_of verdict (f # fs)) xs) =
     mset (filter_map (drop_of verdict [f]) xs) + mset (filter_map (drop_of verdict fs) (filter (\<lambda>e. verdict f e = None) xs))"
  by (induction xs) (auto simp: drop_of_def split: option.split)

lemma cascade_steps:
  "fst (fold (filter_step verdict) fs sd) = filter (\<lambda>e. first_drop verdict fs e = None) (fst sd) \<and>
   mset (snd (fold (filter_step verdict) fs sd)) = mset (snd sd) + mset (filter_map (drop_of verdict fs) (fst sd))"
proof (induction fs arbitrary: sd)
  case Nil
  have "filter_map (drop_of verdict []) xs = []" for xs by (induction xs) (simp_all add: drop_of_def)
  then show ?case by simp
next
  case (Cons f fs)
  have "filter (\<lambda>e. first_drop verdict fs e = None) (filter (\<lambda>e. verdict f e = None) xs) =
      filter (\<lambda>e. first_drop verdict (f # fs) e = None) xs" for xs
    by (induction xs) (auto split: option.split)
  then show ?case using Cons[of "filter_step verdict f sd"]
    by (simp add: filter_step_def filter_map_mset_split[of verdict f fs] ac_simps)
qed

text \<open>The verdict of every filter once the project is known.\<close>

definition verdict_of :: "plan_env \<Rightarrow> SelectCtx \<Rightarrow> string option \<Rightarrow> string \<Rightarrow> json \<Rightarrow> string option" where
  "verdict_of env ctx project f e = drops_for_filter env f e ctx (if f = ''project'' then project else None)"

text \<open>The project of a read is detected in what the first three filters leave.\<close>

definition scope_filters :: "string list" where
  "scope_filters = [''roadmap'', ''mission'', ''parent-scope'']"

definition read_project :: "plan_env \<Rightarrow> SelectCtx \<Rightarrow> json list \<Rightarrow> string option" where
  "read_project env ctx candidates =
     effective_project env ctx ''project''
       (filter (\<lambda>e. first_drop (verdict_of env ctx None) scope_filters e = None) candidates)"

lemma run_filter_step:
  assumes "f = ''project'' \<Longrightarrow> project = effective_project env ctx f (fst sd)"
  shows "run_filter env ctx f sd = filter_step (verdict_of env ctx project) f sd"
proof (cases "f = ''live-claim'' \<and> opt_claimed (ctx_opts ctx) = []")
  case True
  have none: "verdict_of env ctx project f e = None" for e
    using True by (simp add: verdict_of_def drops_for_filter_def Let_def split: option.split)
  have "filter_map (drop_of (verdict_of env ctx project) [f]) xs = []" for xs
    by (induction xs) (simp_all add: drop_of_def none)
  then show ?thesis using True none by (cases sd) (simp add: run_filter_def filter_step_def)
next
  case False
  have v: "drops_for_filter env f e ctx (effective_project env ctx f (fst sd)) = verdict_of env ctx project f e" for e
    using assms by (cases "f = ''project''") (simp_all add: verdict_of_def effective_project_def)
  have "(\<lambda>e. case (verdict_of env ctx project f e, entry_id e) of
                 (Some reason, Some i) \<Rightarrow> Some \<lparr>drop_id = i, drop_filter = f, drop_reason = reason\<rparr>
               | _ \<Rightarrow> None) = drop_of (verdict_of env ctx project) [f]"
    by (auto simp: drop_of_def fun_eq_iff split: option.split)
  then show ?thesis using False v by (cases sd) (auto simp: run_filter_def filter_step_def Let_def)
qed

lemma cascade_is_steps:
  "fold (run_filter env ctx) FILTER_ORDER (candidates, []) =
   fold (filter_step (verdict_of env ctx (read_project env ctx candidates))) FILTER_ORDER (candidates, [])"
proof -
  let ?project = "read_project env ctx candidates"
  have other: "run_filter env ctx f = filter_step (verdict_of env ctx q) f" if "f \<noteq> ''project''" for f q
    using that by (intro ext run_filter_step) simp
  have eq: "filter_step (verdict_of env ctx p) f = filter_step (verdict_of env ctx q) f" if "f \<noteq> ''project''" for f p q
    using that by (simp add: other[symmetric])
  define sd where "sd = fold (filter_step (verdict_of env ctx None)) scope_filters (candidates, [])"
  have sd: "fst sd = filter (\<lambda>e. first_drop (verdict_of env ctx None) scope_filters e = None) candidates"
    using cascade_steps[of "verdict_of env ctx None" scope_filters "(candidates, [])"] by (simp add: sd_def)
  have "run_filter env ctx ''project'' sd = filter_step (verdict_of env ctx ?project) ''project'' sd"
    by (rule run_filter_step) (simp add: sd read_project_def)
  moreover have "fold (filter_step (verdict_of env ctx ?project)) scope_filters (candidates, []) = sd"
    by (simp add: sd_def scope_filters_def eq[of _ ?project None])
  moreover have "fold (run_filter env ctx) scope_filters (candidates, []) = sd"
    by (simp add: sd_def scope_filters_def other[of _ None])
  ultimately show ?thesis
    by (simp add: FILTER_ORDER_def scope_filters_def other[of _ ?project])
qed

section \<open>What is offered\<close>

text \<open>
  The conditions a row has to meet, without an order among them: it is open and ready (or asked for), in
  the scope and project of the read, not claimed, without an open pull request, not a container, not
  part of a batch, passed by every selection guard, and, when it is an idea the drain meets on its own,
  a row whose difficulty is stated.
\<close>

definition dispatchable :: "plan_env \<Rightarrow> SelectCtx \<Rightarrow> string option \<Rightarrow> json \<Rightarrow> bool" where
  "dispatchable env ctx project e =
     (let opts = ctx_opts ctx
      in is_admitted env opts e \<and>
         (case opt_roadmap_id opts of None \<Rightarrow> True | Some r \<Rightarrow> str_field e ''roadmap_id'' = Some r) \<and>
         (case opt_mission opts of None \<Rightarrow> True | Some m \<Rightarrow> str_field e ''mission_id'' = Some m) \<and>
         (case ctx_parent_scope ctx of None \<Rightarrow> True | Some scope \<Rightarrow> entry_id e \<in> Some ` set scope) \<and>
         (case project of None \<Rightarrow> True | Some p \<Rightarrow> str_field e ''project'' = Some p) \<and>
         entry_id e \<notin> Some ` set (opt_claimed opts) \<and>
         \<not> (str_field e ''status'' = Some ''ready'' \<and> truthy env (get_field e ''pr_number'')) \<and>
         entry_id e \<notin> Some ` set (ctx_container_ids ctx) \<and>
         \<not> truthy env (get_field e ''batch'') \<and>
         selection_guards env e (map_of (ctx_by_id ctx)) (opt_now_ms opts) (ctx_staleness_days ctx) (opt_held opts) = None \<and>
         (scoped_read opts \<or> opt_include_ideas opts \<or> \<not> is_cold_dispatchable env e \<or> has_intake_difficulty e))"

lemma verdict_roadmap:
  "verdict_of env ctx project ''roadmap'' e = None \<longleftrightarrow>
     (case opt_roadmap_id (ctx_opts ctx) of None \<Rightarrow> True | Some r \<Rightarrow> str_field e ''roadmap_id'' = Some r)"
  "verdict_of env ctx project ''mission'' e = None \<longleftrightarrow>
     (case opt_mission (ctx_opts ctx) of None \<Rightarrow> True | Some m \<Rightarrow> str_field e ''mission_id'' = Some m)"
  "verdict_of env ctx project ''parent-scope'' e = None \<longleftrightarrow>
     (case ctx_parent_scope ctx of None \<Rightarrow> True | Some scope \<Rightarrow> entry_id e \<in> Some ` set scope)"
  "verdict_of env ctx project ''project'' e = None \<longleftrightarrow>
     (case project of None \<Rightarrow> True | Some p \<Rightarrow> str_field e ''project'' = Some p)"
  by (auto simp: verdict_of_def drops_for_filter_def row_matches_project_def Let_def split: option.splits)

lemma verdict_state:
  "verdict_of env ctx project ''live-claim'' e = None \<longleftrightarrow> entry_id e \<notin> Some ` set (opt_claimed (ctx_opts ctx))"
  "verdict_of env ctx project ''unmerged-open-pr'' e = None \<longleftrightarrow>
     \<not> (str_field e ''status'' = Some ''ready'' \<and> \<not> truthy env (get_field e ''completed_at'') \<and>
        truthy env (get_field e ''pr_number''))"
  "verdict_of env ctx project ''container'' e = None \<longleftrightarrow> entry_id e \<notin> Some ` set (ctx_container_ids ctx)"
  "verdict_of env ctx project ''batched'' e = None \<longleftrightarrow> \<not> truthy env (get_field e ''batch'')"
  by (auto simp: verdict_of_def drops_for_filter_def Let_def split: option.splits)

lemma verdict_guard:
  "verdict_of env ctx project ''selection-guard'' e = None \<longleftrightarrow>
     selection_guards env e (map_of (ctx_by_id ctx)) (opt_now_ms (ctx_opts ctx)) (ctx_staleness_days ctx)
       (opt_held (ctx_opts ctx)) = None \<and>
     (scoped_read (ctx_opts ctx) \<or> opt_include_ideas (ctx_opts ctx) \<or> \<not> is_cold_dispatchable env e \<or>
      has_intake_difficulty e)"
  by (auto simp: verdict_of_def drops_for_filter_def Let_def split: option.splits)

lemma dispatchable_iff:
  "dispatchable env ctx project e \<longleftrightarrow>
     is_admitted env (ctx_opts ctx) e \<and> first_drop (verdict_of env ctx project) FILTER_ORDER e = None"
proof -
  have "is_admitted env (ctx_opts ctx) e \<Longrightarrow> \<not> truthy env (get_field e ''completed_at'')"
    by (simp add: is_admitted_def)
  then show ?thesis
    unfolding first_drop_None FILTER_ORDER_def dispatchable_def Let_def
    by (simp add: verdict_roadmap verdict_state verdict_guard) blast
qed

lemma select_Inr:
  assumes "select env entries opts = Inr reply" "resolve_scope entries opts = Inr scope"
  defines "ctx \<equiv> select_ctx entries opts scope"
  defines "candidates \<equiv> filter (is_admitted env opts) entries"
  shows "reply_rows reply = map dispatch_node_summary
      (sort_key (row_key env (key_tables env entries (rows_by_id entries) (opt_claimed opts)) (opt_now_ms opts))
        (filter (dispatchable env ctx (read_project env ctx candidates)) entries))"
    and "mset (reply_drops reply) =
      mset (filter_map (drop_of (verdict_of env ctx (read_project env ctx candidates)) FILTER_ORDER) candidates)"
proof -
  let ?v = "verdict_of env ctx (read_project env ctx candidates)"
  let ?sd = "fold (run_filter env ctx) FILTER_ORDER (candidates, [])"
  have opts: "ctx_opts ctx = opts" "ctx_by_id ctx = rows_by_id entries" by (simp_all add: ctx_def select_ctx_def)
  have sd: "fst ?sd = filter (\<lambda>e. first_drop ?v FILTER_ORDER e = None) candidates"
    "mset (snd ?sd) = mset (filter_map (drop_of ?v FILTER_ORDER) candidates)"
    unfolding cascade_is_steps using cascade_steps[of ?v FILTER_ORDER "(candidates, [])"] by simp_all
  have "fst ?sd = filter (dispatchable env ctx (read_project env ctx candidates)) entries"
    unfolding sd(1) by (auto simp: candidates_def dispatchable_iff opts intro: filter_cong)
  moreover have "reply = \<lparr>reply_rows = map dispatch_node_summary
        (fst (order_by_selection_key env (fst ?sd) entries (ctx_by_id ctx) (opt_claimed opts) (opt_now_ms opts))),
      reply_drops = snd ?sd\<rparr>"
    using assms(1) by (simp add: select_def assms(2) ctx_def[symmetric] candidates_def[symmetric] split_beta Let_def)
  ultimately show
    "reply_rows reply = map dispatch_node_summary
      (sort_key (row_key env (key_tables env entries (rows_by_id entries) (opt_claimed opts)) (opt_now_ms opts))
        (filter (dispatchable env ctx (read_project env ctx candidates)) entries))"
    "mset (reply_drops reply) = mset (filter_map (drop_of ?v FILTER_ORDER) candidates)"
    using sd(2) by (simp_all add: order_is_sort opts)
qed

text \<open>
  C31. The answer is exactly what it should be: the rows that meet every condition at once, whatever order
  the filters run in, stably sorted by the images of their keys in a linear order. The project of a read
  that names none is the one detected among the rows in scope.
\<close>

theorem select_exact:
  assumes "select env entries opts = Inr reply" "resolve_scope entries opts = Inr scope"
    "ctx = select_ctx entries opts scope" "project = read_project env ctx (filter (is_admitted env opts) entries)"
    "kt = key_tables env entries (rows_by_id entries) (opt_claimed opts)"
  shows "reply_rows reply = map dispatch_node_summary
    (sort_key (row_key env kt (opt_now_ms opts)) (filter (dispatchable env ctx project) entries))"
  using select_Inr(1)[OF assms(1,2)] assms(3-5) by simp

text \<open>
  No candidate disappears: the drops of a read are, up to their order, one for each admitted row with an
  id that some filter rejects, under the name of the first such filter and with its reason.
\<close>

theorem drops_exact:
  assumes "select env entries opts = Inr reply" "resolve_scope entries opts = Inr scope"
    "ctx = select_ctx entries opts scope" "project = read_project env ctx (filter (is_admitted env opts) entries)"
  shows "mset (reply_drops reply) =
    mset (filter_map (drop_of (verdict_of env ctx project) FILTER_ORDER) (filter (is_admitted env opts) entries))"
  using select_Inr(2)[OF assms(1,2)] assms(3,4) by simp

lemma guards_None:
  assumes "selection_guards env e by_id now days held = None"
  shows "hold_verdict_receipt env e by_id = None" "Option.bind (entry_id e) held = None"
    "str_field e ''contained_in'' \<in> {None, Some []}"
    "dead_ancestor env by_id MAX_ANCESTOR_WALK [] (str_field e ''parent'') = None"
  using assms by (auto simp: selection_guards_def split: option.splits list.splits)

text \<open>
  A row that is offered is clear. Nothing above it, through parents and delivery owners, holds it, if
  that is at most 64 rows; none of its first 64 ancestors is superseded or deferred; it is not
  claimed, not contained in another delivery and not named by an open question.
\<close>

theorem offered_row_is_clear:
  assumes "ctx = select_ctx entries opts scope" "dispatchable env ctx project e"
    "map_of (rows_by_id entries) i = Some e"
    "card (walk_id ` above (map_of (rows_by_id entries)) e) \<le> MAX_ANCESTOR_WALK"
  shows "\<not> (\<exists>a\<in>above (map_of (rows_by_id entries)) e. hold_binds env i a) \<and>
    \<not> (\<exists>a\<in>set (parents_of (map_of (rows_by_id entries)) MAX_ANCESTOR_WALK (str_field e ''parent'')). is_dead env a) \<and>
    i \<notin> set (opt_claimed opts) \<and> opt_held opts i = None \<and> str_field e ''contained_in'' \<in> {None, Some []}"
proof -
  let ?ix = "map_of (rows_by_id entries)"
  have ctx: "ctx_by_id ctx = rows_by_id entries" "ctx_opts ctx = opts"
    using assms(1) by (simp_all add: select_ctx_def)
  have i: "entry_id e = Some i" using rows_by_id_Some[OF assms(3)] by simp
  have "selection_guards env e ?ix (opt_now_ms opts) (ctx_staleness_days ctx) (opt_held opts) = None"
    and free: "entry_id e \<notin> Some ` set (opt_claimed opts)"
    using assms(2) by (simp_all add: dispatchable_def ctx Let_def)
  note g = guards_None[OF this(1)]
  have "all_alive env ?ix [] (str_field e ''parent'')" by (simp add: all_alive_def)
  then show ?thesis
    using hold_verdict_exact_aux[OF assms(3,4), of env] dead_ancestor_None[OF g(4)] g(1-3) free i by auto
qed

text \<open>
  The drain is never handed an idea it cannot start: an idea offered by a read without a scope, which did
  not ask for ideas, has no plan and a stated difficulty, so the derivation of its command does not
  refuse, whatever the blueprint floor.
\<close>

theorem offered_idea_has_command:
  assumes "dispatchable env ctx project e" "\<not> scoped_read (ctx_opts ctx)" "\<not> opt_include_ideas (ctx_opts ctx)"
    "str_field e ''status'' = Some ''idea''"
  shows "\<exists>command note. effective_command_with_floor env e bp_floor = Inr (command, note)"
proof -
  have "is_cold_dispatchable env e \<and> has_intake_difficulty e"
    using assms by (auto simp: dispatchable_def is_admitted_def Let_def split: option.splits)
  then have "\<not> (\<exists>r. effective_command_with_floor env e bp_floor = Inl r)"
    unfolding command_refused_aux by (simp add: is_cold_dispatchable_def UNANSWERED_RUNGS_def)
  then show ?thesis by (cases "effective_command_with_floor env e bp_floor") auto
qed

text \<open>
  The drain drops more than that: an idea without a stated difficulty that declares a command of another
  family is not offered, although the derivation would not refuse it.
\<close>

lemma declared_idea_dropped:
  assumes "is_cold_dispatchable env e" "\<not> has_intake_difficulty e" "\<not> scoped_read (ctx_opts ctx)"
    "\<not> opt_include_ideas (ctx_opts ctx)" "declared_command e = Some d" "out_of_family d"
  shows "\<not> dispatchable env ctx project e \<and>
    effective_command_with_floor env e bp_floor = Inr (None, OutOfFamily d)"
  using assms by (simp add: dispatchable_def effective_command_with_floor_def Let_def)

section \<open>The board\<close>

lemma btree_insert_keys: "set (map fst (btree_insert k x m)) = insert k (set (map fst m))"
  by (induction k x m rule: btree_insert.induct) auto

lemma btree_insert_sorted:
  "sorted_wrt (<) (map fst m) \<Longrightarrow> sorted_wrt (<) (map fst (btree_insert k x m))"
proof (induction k x m rule: btree_insert.induct)
  case (2 k x k' y m)
  then show ?case using btree_insert_keys[of k x m] by force
qed simp

lemma rows_by_id_sorted: "sorted_wrt (<) (map fst (rows_by_id es))"
proof -
  let ?f = "\<lambda>e m. if is_dict e then (case entry_id e of None \<Rightarrow> m | Some i \<Rightarrow> btree_insert i e m) else m"
  have "sorted_wrt (<) (map fst m) \<Longrightarrow> sorted_wrt (<) (map fst (fold ?f es m))" for m
  proof (induction es arbitrary: m)
    case (Cons e es)
    then have "sorted_wrt (<) (map fst (?f e m))" by (auto simp: btree_insert_sorted split: option.split)
    then show ?case using Cons.IH[of "?f e m"] by simp
  qed simp
  from this[of "[]"] show ?thesis by (simp add: rows_by_id_def)
qed

lemma rows_by_id_keys: "fst ` set (rows_by_id es) = {i. \<exists>e\<in>set es. is_dict e \<and> entry_id e = Some i}"
proof -
  let ?pairs = "filter_map (\<lambda>e. if is_dict e then map_option (\<lambda>i. (i, e)) (entry_id e) else None) es"
  have pairs: "set ?pairs = {(i, e). e \<in> set es \<and> is_dict e \<and> entry_id e = Some i}"
    by (auto simp: filter_map_in split: if_splits)
  have "fst ` set (rows_by_id es) = dom (map_of (rows_by_id es))" by (simp only: dom_map_of_conv_image_fst)
  also have "\<dots> = dom (map_of (rev ?pairs))" by (simp only: rows_by_id_index index_by_id_def)
  also have "\<dots> = fst ` set ?pairs" by (simp only: dom_map_of_conv_image_fst set_rev)
  also have "\<dots> = {i. \<exists>e\<in>set es. is_dict e \<and> entry_id e = Some i}" unfolding pairs by force
  finally show ?thesis .
qed

lemma rows_by_id_entry: "p \<in> set (rows_by_id es) \<Longrightarrow> entry_id (snd p) = Some (fst p)"
proof -
  assume p: "p \<in> set (rows_by_id es)"
  have "distinct (map fst (rows_by_id es))"
    using rows_by_id_sorted[of es] by (simp add: strict_sorted_iff)
  then have "map_of (rows_by_id es) (fst p) = Some (snd p)" using p by (cases p) simp
  then show ?thesis by (auto dest: rows_by_id_Some)
qed

lemma mset_filter_map: "mset xs = mset ys \<Longrightarrow> mset (filter_map f xs) = mset (filter_map f ys)"
proof -
  have "mset (filter_map f zs) = mset (map (\<lambda>z. the (f z)) (filter (\<lambda>z. f z \<noteq> None) zs))" for zs
    by (induction zs) (auto split: option.split)
  then show "mset xs = mset ys \<Longrightarrow> ?thesis" by (metis mset_filter mset_map)
qed

lemma promoted_rank:
  assumes "effective_priority_of env by_id progress e \<noteq> priority_name e"
  shows "priority_rank (effective_priority_of env by_id progress e) < priority_rank (priority_name e)"
  using assms by (auto simp: effective_priority_of_def Let_def split: option.splits if_splits)

text \<open>
  The board shows every row once: its list names each id of the graph exactly once, and every
  priority it reports as promoted is more urgent than the row's own.
\<close>

theorem board_complete:
  "distinct (board_ids (board_facts env entries claimed now)) \<and>
   set (board_ids (board_facts env entries claimed now)) = {i. \<exists>e\<in>set entries. is_dict e \<and> entry_id e = Some i} \<and>
   list_all (\<lambda>(i, p). case map_of (rows_by_id entries) i of
       None \<Rightarrow> False | Some e \<Rightarrow> priority_rank p < priority_rank (priority_name e))
     (promoted (board_facts env entries claimed now))"
proof -
  let ?ids = "board_ids (board_facts env entries claimed now)" and ?rows = "rows_by_id entries"
  have "?ids = filter_map entry_id (sort_key (row_key env (key_tables env entries ?rows claimed) now) (map snd ?rows))"
    by (simp add: board_facts_def Let_def order_is_sort[symmetric] split_beta)
  then have "mset ?ids = mset (filter_map entry_id (map snd ?rows))" by (simp add: mset_filter_map)
  also have "filter_map entry_id (map snd xs) = map fst xs" if "\<forall>p\<in>set xs. entry_id (snd p) = Some (fst p)" for xs
    using that by (induction xs) auto
  then have "filter_map entry_id (map snd ?rows) = map fst ?rows" using rows_by_id_entry by blast
  finally have ids: "mset ?ids = mset (map fst ?rows)" .
  have sorted: "distinct (map fst ?rows)" using rows_by_id_sorted[of entries] by (simp add: strict_sorted_iff)
  have "distinct ?ids" using ids sorted by (metis mset_eq_imp_distinct_iff)
  moreover have "set ?ids = set (map fst ?rows)" using ids by (metis set_mset_mset)
  moreover have "list_all (\<lambda>(i, p). case map_of ?rows i of
       None \<Rightarrow> False | Some e \<Rightarrow> priority_rank p < priority_rank (priority_name e))
     (promoted (board_facts env entries claimed now))"
  proof -
    have eff: "kt_effective_priority (snd (order_by_selection_key env rows es by_id claimed now)) =
        make_effective_priority env by_id (epics_with_child_progress env by_id)" for rows es by_id
      by (simp add: order_by_selection_key_def key_tables_def Let_def)
    have "priority_rank p < priority_rank (priority_name e)"
      if prom: "(i, p) \<in> set (make_effective_priority env ?rows progress)" "map_of ?rows i = Some e" "priority_name e \<noteq> p" for i p e progress
    proof -
      obtain e' where "(i, e') \<in> set ?rows" "p = effective_priority_of env ?rows progress e'"
        using prom(1) by (auto simp: make_effective_priority_def)
      moreover have "e' = e" using calculation(1) prom(2) map_of_is_SomeI[OF sorted] by fastforce
      ultimately show ?thesis using promoted_rank prom(3) by metis
    qed
    then show ?thesis
      by (auto simp: board_facts_def Let_def split_beta eff list_all_iff split: option.splits)
  qed
  ultimately show ?thesis by (simp add: rows_by_id_keys)
qed

section \<open>Examples\<close>

definition sample_opts :: ReadyOpts where
  "sample_opts = \<lparr>opt_project = None, opt_all = True, opt_roadmap_id = None, opt_parent = None, opt_mission = None,
     opt_include_ideas = False, opt_include_deferred = False, opt_repo_root = None, opt_claimed = [],
     opt_held = (\<lambda>_. None), opt_staleness_days = None, opt_now_ms = 0\<rparr>"

definition sample_rows :: "json list" where
  "sample_rows =
     [JObj [(''id'', JStr ''a''), (''status'', JStr ''ready''), (''priority'', JStr ''p0'')],
      JObj [(''id'', JStr ''e''), (''type'', JStr ''epic''), (''priority'', JStr ''p2'')],
      JObj [(''id'', JStr ''c''), (''status'', JStr ''ready''), (''parent'', JStr ''e'')]]"

lemma sample_read:
  "case select bare_env sample_rows sample_opts of
     Inl _ \<Rightarrow> False
   | Inr reply \<Rightarrow> map (\<lambda>r. str_field r ''id'') (reply_rows reply) = [Some ''c'', Some ''a''] \<and> reply_drops reply = []"
  by code_simp

lemma sample_reply:
  obtains reply where "select bare_env sample_rows sample_opts = Inr reply"
    "map (\<lambda>r. str_field r ''id'') (reply_rows reply) = [Some ''c'', Some ''a'']" "reply_drops reply = []"
  using sample_read by (cases "select bare_env sample_rows sample_opts") auto

lemma sample_scope: "resolve_scope sample_rows sample_opts = Inr None"
  by (simp add: resolve_scope_def sample_opts_def)

theorem select_exact_witness:
  "length (filter (dispatchable bare_env (select_ctx sample_rows sample_opts None)
     (read_project bare_env (select_ctx sample_rows sample_opts None)
       (filter (is_admitted bare_env sample_opts) sample_rows))) sample_rows) = 2"
proof -
  obtain reply where reply: "select bare_env sample_rows sample_opts = Inr reply"
    "map (\<lambda>r. str_field r ''id'') (reply_rows reply) = [Some ''c'', Some ''a'']"
    by (rule sample_reply)
  have "length (reply_rows reply) = 2" using arg_cong[OF reply(2), of length] by simp
  then show ?thesis using select_exact[OF reply(1) sample_scope refl refl refl] by simp
qed

theorem drops_exact_witness:
  "filter_map (drop_of (verdict_of bare_env (select_ctx sample_rows sample_opts None)
     (read_project bare_env (select_ctx sample_rows sample_opts None)
       (filter (is_admitted bare_env sample_opts) sample_rows))) FILTER_ORDER)
     (filter (is_admitted bare_env sample_opts) sample_rows) = []"
proof -
  obtain reply where reply: "select bare_env sample_rows sample_opts = Inr reply" "reply_drops reply = []"
    by (rule sample_reply)
  show ?thesis using drops_exact[OF reply(1) sample_scope refl refl] reply(2) by simp
qed

definition sample_child :: json where
  "sample_child = JObj [(''id'', JStr ''c''), (''status'', JStr ''ready''), (''parent'', JStr ''e'')]"

theorem offered_row_is_clear_witness:
  "\<not> (\<exists>a\<in>above (map_of (rows_by_id sample_rows)) sample_child. hold_binds bare_env ''c'' a)"
proof -
  have row: "map_of (rows_by_id sample_rows) ''c'' = Some sample_child" by code_simp
  have "length (rows_by_id sample_rows) \<le> MAX_ANCESTOR_WALK" by code_simp
  then have card: "card (walk_id ` above (map_of (rows_by_id sample_rows)) sample_child) \<le> MAX_ANCESTOR_WALK"
    using above_card[OF row] by (rule order_trans[rotated])
  have "dispatchable bare_env (select_ctx sample_rows sample_opts None) None sample_child" by code_simp
  from offered_row_is_clear[OF refl this row card] show ?thesis by blast
qed

theorem offered_idea_has_command_witness:
  "\<exists>command note. effective_command_with_floor bare_env
     (JObj [(''id'', JStr ''i''), (''status'', JStr ''idea''), (''difficulty'', JStr ''Low'')]) ''never'' = Inr (command, note)"
proof -
  let ?e = "JObj [(''id'', JStr ''i''), (''status'', JStr ''idea''), (''difficulty'', JStr ''Low'')]"
  have offered: "dispatchable bare_env (select_ctx [?e] sample_opts None) None ?e" by code_simp
  show ?thesis
    by (rule offered_idea_has_command[OF offered])
      (simp_all add: select_ctx_def sample_opts_def scoped_read_def str_field_def get_field_def)
qed

end
