(* ===== verification/Capacity.thy ===== *)
theory Capacity
  imports Float_Model Json
begin

text \<open>
  The learned capacity of a machine, \<open>crates/fno-agents/src/capacity.rs\<close>: one state file per
  machine, written by the tick of the machine watch (\<open>feed\<close>) and read by the spawn gate
  (\<open>effective\<close>). The cap follows the CPU share of the fleet by additive increase and
  multiplicative decrease under the user's ceiling and above the user's floor.

  The state file, the configuration lookup, the sample of the machine and the ledger are
  arguments; what \<open>chrono\<close> computes about calendar weeks, months and time stamps is a field of
  \<open>calendar\<close>. Paths and file formats are left out.
\<close>

section \<open>Thresholds\<close>

definition DEFAULT_CUT_FLEET_SHARE :: fp where "DEFAULT_CUT_FLEET_SHARE = Fin (3 / 4)"
definition DEFAULT_CUT_HOLD_SECONDS :: u64 where "DEFAULT_CUT_HOLD_SECONDS = 600"
definition DEFAULT_CUT_FRACTION :: fp where "DEFAULT_CUT_FRACTION = Fin (1 / 4)"
definition DEFAULT_RAISE_FLEET_SHARE :: fp where "DEFAULT_RAISE_FLEET_SHARE = f64_round (35 / 100)"
definition DEFAULT_RAISE_HOLD_SECONDS :: u64 where "DEFAULT_RAISE_HOLD_SECONDS = 900"
definition DEFAULT_FLOOR :: u32 where "DEFAULT_FLOOR = 1"
definition SEED_REASON :: string where "SEED_REASON = ''seeded from machine budget''"

record CapacityThresholds =
  cut_share :: fp
  cut_hold_seconds :: u64
  cut_fraction :: fp
  raise_share :: fp
  raise_hold_seconds :: u64
  th_floor :: u32

definition default_thresholds :: CapacityThresholds where
  "default_thresholds = \<lparr>cut_share = DEFAULT_CUT_FLEET_SHARE, cut_hold_seconds = DEFAULT_CUT_HOLD_SECONDS,
     cut_fraction = DEFAULT_CUT_FRACTION, raise_share = DEFAULT_RAISE_FLEET_SHARE,
     raise_hold_seconds = DEFAULT_RAISE_HOLD_SECONDS, th_floor = DEFAULT_FLOOR\<rparr>"

text \<open>
  A configured value: \<open>toml::Value::as_float\<close> answers on a float only and
  \<open>as_integer\<close> on an integer only.
\<close>

datatype cfg_value =
    CfgStr string
  | CfgInt int
  | CfgFloat fp
  | CfgBool bool
  | CfgArr "cfg_value list"
  | CfgTable "(string \<times> cfg_value) list"
  | CfgOther

fun as_float :: "cfg_value \<Rightarrow> fp option" where
  "as_float (CfgFloat x) = Some x"
| "as_float _ = None"

fun as_integer :: "cfg_value \<Rightarrow> int option" where
  "as_integer (CfgInt i) = Some i"
| "as_integer _ = None"

fun cfg_str :: "cfg_value \<Rightarrow> string option" where
  "cfg_str (CfgStr s) = Some s"
| "cfg_str _ = None"

fun cfg_bool :: "cfg_value \<Rightarrow> bool option" where
  "cfg_bool (CfgBool b) = Some b"
| "cfg_bool _ = None"

fun cfg_array :: "cfg_value \<Rightarrow> cfg_value list option" where
  "cfg_array (CfgArr xs) = Some xs"
| "cfg_array _ = None"

fun cfg_table :: "cfg_value \<Rightarrow> (string \<times> cfg_value) list option" where
  "cfg_table (CfgTable kvs) = Some kvs"
| "cfg_table _ = None"

definition filter_option :: "('a \<Rightarrow> bool) \<Rightarrow> 'a option \<Rightarrow> 'a option" where
  "filter_option P v = (case v of Some x \<Rightarrow> if P x then Some x else None | None \<Rightarrow> None)"

definition unwrap_or :: "'a option \<Rightarrow> 'a \<Rightarrow> 'a" where
  "unwrap_or v d = (case v of Some x \<Rightarrow> x | None \<Rightarrow> d)"

definition cfg_float :: "(string \<Rightarrow> cfg_value option) \<Rightarrow> string \<Rightarrow> fp \<Rightarrow> fp" where
  "cfg_float read key dflt = unwrap_or (filter_option (fp_lt (Fin 0)) (Option.bind (read key) as_float)) dflt"

text \<open>The cast \<open>as u64\<close> comes before the filter, so a negative integer becomes a huge one.\<close>

definition cfg_uint :: "(string \<Rightarrow> cfg_value option) \<Rightarrow> string \<Rightarrow> u64 \<Rightarrow> u64" where
  "cfg_uint read key dflt =
     unwrap_or (filter_option (\<lambda>v. v > 0) (map_option word_of_int (Option.bind (read key) as_integer))) dflt"

definition thresholds :: "(string \<Rightarrow> cfg_value option) \<Rightarrow> CapacityThresholds" where
  "thresholds read = \<lparr>
     cut_share = cfg_float read ''cut_fleet_share'' DEFAULT_CUT_FLEET_SHARE,
     cut_hold_seconds = cfg_uint read ''cut_hold_seconds'' DEFAULT_CUT_HOLD_SECONDS,
     cut_fraction = unwrap_or (filter_option (\<lambda>v. fp_lt (Fin 0) v \<and> fp_lt v (Fin 1))
       (Option.bind (read ''cut_fraction'') as_float)) DEFAULT_CUT_FRACTION,
     raise_share = cfg_float read ''raise_fleet_share'' DEFAULT_RAISE_FLEET_SHARE,
     raise_hold_seconds = cfg_uint read ''raise_hold_seconds'' DEFAULT_RAISE_HOLD_SECONDS,
     th_floor = (case filter_option (\<lambda>v. v > 0) (Option.bind (read ''floor'') as_integer) of
         None \<Rightarrow> DEFAULT_FLOOR
       | Some v \<Rightarrow> word_of_int (min v (2 ^ 32 - 1)))\<rparr>"

section \<open>The state\<close>

record MemoryFigure =
  used_fraction :: fp
  total_gb :: fp
  ram_used_gb :: fp
  swap_used_gb :: fp
  swap_total_gb :: fp
  compressor_occupied_gb :: fp
  compressor_stored_gb :: fp

definition compressor_fraction :: "MemoryFigure \<Rightarrow> fp" where
  "compressor_fraction m = fp_clamp (fp_div f64_round (compressor_occupied_gb m) (total_gb m)) (Fin 0) (Fin 1)"

record WindowRow =
  window :: string
  used_tokens :: u64
  reset_epoch :: int

record AccountRow =
  account :: string
  ar_provider :: string
  ar_billing :: string
  ar_show :: bool
  ar_windows :: "WindowRow list"
  limit_tokens :: "u64 option"
  spend_usd :: "fp option"

record CapacityState =
  st_ceiling :: u32
  st_effective :: u32
  st_reason :: "string option"
  st_since :: "int option"
  slots_learned :: "u32 option"
  over_since :: "int option"
  calm_since :: "int option"
  memory :: "MemoryFigure option"
  accounts :: "AccountRow list"
  workers_live :: "u64 option"
  updated_epoch :: int

definition seed :: "u32 \<Rightarrow> int \<Rightarrow> CapacityState" where
  "seed ceil now_epoch = \<lparr>st_ceiling = ceil, st_effective = max ceil 1, st_reason = None,
     st_since = None, slots_learned = None, over_since = None, calm_since = None, memory = None,
     accounts = [], workers_live = None, updated_epoch = now_epoch\<rparr>"

definition measured_cut :: "CapacityState \<Rightarrow> u32 option" where
  "measured_cut state =
     (if st_effective state < st_ceiling state \<and> st_reason state \<noteq> Some SEED_REASON
      then Some (st_effective state) else None)"

section \<open>One step of the control loop\<close>

text \<open>Subtraction of \<open>i64\<close> wraps in a release build; the casts are those of \<open>as\<close>.\<close>

definition i64_sub :: "int \<Rightarrow> int \<Rightarrow> int" where
  "i64_sub a b = signed_take_bit 63 (a - b)"

definition fp_to_u32 :: "fp \<Rightarrow> u32" where
  "fp_to_u32 x = word_of_nat (fp_to_nat_sat (2 ^ 32 - 1) x)"

definition cut_to :: "CapacityThresholds \<Rightarrow> u32 \<Rightarrow> u32" where
  "cut_to t eff = max (fp_to_u32 (fp_floor (fp_mul f64_round (f64_of_nat (unat eff))
     (fp_sub f64_round (Fin 1) (cut_fraction t))))) (th_floor t)"

definition capacity_step :: "CapacityState \<Rightarrow> fp \<Rightarrow> CapacityThresholds \<Rightarrow> int \<Rightarrow> CapacityState option" where
  "capacity_step state share t now_epoch =
     (if \<not> fp_is_finite share \<or> fp_lt share (Fin 0) then None
      else if fp_lt (cut_share t) share then
        (let over = unwrap_or (over_since state) now_epoch;
             next = state\<lparr>over_since := Some over, calm_since := None\<rparr>
         in Some (if sint (cut_hold_seconds t) \<le> i64_sub now_epoch over \<and> st_effective state > th_floor t
                  then next\<lparr>st_effective := cut_to t (st_effective state), st_reason := Some ''CPU-bound'',
                         st_since := Some now_epoch, over_since := None\<rparr>
                  else next))
      else if fp_lt share (raise_share t) then
        (let calm = unwrap_or (calm_since state) now_epoch;
             next = state\<lparr>calm_since := Some calm, over_since := None\<rparr>
         in Some (if sint (raise_hold_seconds t) \<le> i64_sub now_epoch calm \<and> st_effective state < st_ceiling state
                  then next\<lparr>st_effective := st_effective state + 1, st_reason := None,
                         st_since := None, calm_since := None\<rparr>
                  else next))
      else Some (state\<lparr>over_since := None, calm_since := None\<rparr>))"

section \<open>The memory figure\<close>

text \<open>The fields of a machine sample that the loop reads.\<close>

record MachineSample =
  total_mem_gb :: "fp option"
  compressor_gb :: "fp option"
  compressed_gb :: "fp option"
  sm_ram_used_gb :: "fp option"
  sm_swap_used_gb :: "fp option"
  sm_swap_total_gb :: "fp option"
  live_rows_n :: "u64 option"

definition memory_figure :: "MachineSample \<Rightarrow> MemoryFigure option" where
  "memory_figure sample =
     (case (total_mem_gb sample, compressor_gb sample) of
        (Some total_mem, Some occupied) \<Rightarrow>
          (if fp_le total_mem (Fin 0) then None
           else let ram_used = unwrap_or (sm_ram_used_gb sample) occupied;
                    swap_used = fp_max (unwrap_or (sm_swap_used_gb sample) (Fin 0)) (Fin 0);
                    swap_total = fp_max (unwrap_or (sm_swap_total_gb sample) (Fin 0)) swap_used
                in Some \<lparr>used_fraction = fp_clamp (fp_div f64_round (fp_add f64_round ram_used swap_used)
                            (fp_add f64_round total_mem swap_total)) (Fin 0) (Fin 1),
                         total_gb = total_mem, ram_used_gb = ram_used, swap_used_gb = swap_used,
                         swap_total_gb = swap_total, compressor_occupied_gb = occupied,
                         compressor_stored_gb = unwrap_or (compressed_gb sample) (Fin 0)\<rparr>)
      | _ \<Rightarrow> None)"

section \<open>The ledger folded into account rows\<close>

record AccountRecord =
  rec_id :: string
  rec_provider :: string
  route_model :: string
  billing :: string
  rec_show :: bool
  windows :: "string list"
  rec_limit :: "u64 option"
  reset_timezone :: "string option"

text \<open>\<open>str::split_once\<close>.\<close>

fun split_once :: "char \<Rightarrow> string \<Rightarrow> (string \<times> string) option" where
  "split_once c [] = None"
| "split_once c (b # bs) = (if b = c then Some ([], bs)
     else map_option (\<lambda>(p, m). (b # p, m)) (split_once c bs))"

definition account_route :: "(string \<Rightarrow> cfg_value option) \<Rightarrow> (string \<times> string) option" where
  "account_route rec =
     (case Option.bind (rec ''route'') cfg_str of
        None \<Rightarrow> Some ([], [])
      | Some route \<Rightarrow> (case split_once CHR ''/'' route of
          Some (p, m) \<Rightarrow> if p \<noteq> [] then Some (p, m) else None
        | None \<Rightarrow> None))"

definition account_windows :: "(string \<Rightarrow> cfg_value option) \<Rightarrow> string list" where
  "account_windows rec =
     (case Option.bind (rec ''windows'') cfg_array of
        None \<Rightarrow> []
      | Some rows \<Rightarrow> filter (\<lambda>w. w = ''5h'' \<or> w = ''weekly'') (filter_map cfg_str rows))"

definition add_record :: "AccountRecord list \<Rightarrow> (string \<Rightarrow> cfg_value option) \<Rightarrow> AccountRecord list" where
  "add_record out rec =
     (case Option.bind (rec ''id'') cfg_str of
        None \<Rightarrow> out
      | Some i \<Rightarrow>
          if list_ex (\<lambda>known. rec_id known = i) out then out
          else (case account_route rec of
              None \<Rightarrow> out
            | Some (p, m) \<Rightarrow>
                (let bill = unwrap_or (Option.bind (rec ''billing'') cfg_str) ''subscription''
                 in if bill \<noteq> ''subscription'' \<and> bill \<noteq> ''metered'' then out
                    else out @ [\<lparr>rec_id = i, rec_provider = p, route_model = m, billing = bill,
                      rec_show = unwrap_or (Option.bind (rec ''show'') cfg_bool) True,
                      windows = (if bill = ''subscription'' then account_windows rec else []),
                      rec_limit = map_option word_of_int (Option.bind (rec ''limit_tokens'') as_integer),
                      reset_timezone = Option.bind (rec ''reset_timezone'') cfg_str\<rparr>])))"

definition account_records :: "(string \<Rightarrow> cfg_value option) list \<Rightarrow> AccountRecord list" where
  "account_records raw = foldl add_record [] raw"

text \<open>
  What \<open>chrono\<close> and \<open>serde_json\<close> answer: the Monday after an instant in a named zone, when that
  midnight exists there, the first second of an instant's month, the seconds of a time stamp and the
  value of a number as \<open>f64\<close>.
\<close>

record calendar =
  next_monday :: "string option \<Rightarrow> int \<Rightarrow> int option"
  month_start :: "int \<Rightarrow> int"
  rfc3339 :: "string \<Rightarrow> int option"
  json_f64 :: "json \<Rightarrow> fp option"

record CapMember =
  capped :: bool
  newest_assistant :: "string option"

record CapLane =
  lane_provider :: string
  lane_reset :: "int option"
  lane_reset_passed :: "int option"
  lane_state :: string
  lane_members :: "CapMember list"

definition window_end :: "calendar \<Rightarrow> string \<Rightarrow> string option \<Rightarrow> int \<Rightarrow> int" where
  "window_end cal w zone now_epoch =
     (if w = ''5h'' then let period = 5 * 3600; start = now_epoch div period * period in start + period
      else if w = ''weekly'' then unwrap_or (next_monday cal zone now_epoch) (now_epoch + 7 * 3600)
      else now_epoch + 3600)"

definition window_len :: "string \<Rightarrow> int" where
  "window_len w = (if w = ''5h'' then 5 * 3600 else if w = ''weekly'' then 7 * 24 * 3600 else 3600)"

text \<open>The lane is the first that names the provider and has a reset: \<open>find_map\<close> goes on past a
  lane without one.\<close>

definition snapshot_reset :: "CapLane list option \<Rightarrow> string \<Rightarrow> int option" where
  "snapshot_reset snapshot provider =
     (case snapshot of
        None \<Rightarrow> None
      | Some lanes \<Rightarrow> (case filter_map (\<lambda>l. if lane_provider l = provider then lane_reset l else None) lanes of
          [] \<Rightarrow> None | r # _ \<Rightarrow> Some r))"

definition row_matches_record :: "json \<Rightarrow> AccountRecord \<Rightarrow> bool" where
  "row_matches_record row rec =
     (case filter_map (\<lambda>key. filter_option (\<lambda>p. p \<noteq> []) (str_field row key)) [''provider'', ''provider_id''] of
        p # _ \<Rightarrow> p = rec_provider rec
      | [] \<Rightarrow> (case str_field row ''model'' of
          None \<Rightarrow> False
        | Some model \<Rightarrow>
            (let bare = (case split_once CHR ''/'' model of Some (_, m) \<Rightarrow> m | None \<Rightarrow> model)
             in route_model rec \<noteq> [] \<and> starts_with bare (route_model rec))))"

definition row_started_after :: "calendar \<Rightarrow> json \<Rightarrow> int \<Rightarrow> bool" where
  "row_started_after cal row since =
     (case Option.bind (str_field row ''started'') (rfc3339 cal) of Some ts \<Rightarrow> since \<le> ts | None \<Rightarrow> True)"

text \<open>The sum of \<open>u64\<close> wraps in a release build.\<close>

definition ledger_tokens :: "calendar \<Rightarrow> json list \<Rightarrow> AccountRecord \<Rightarrow> int \<Rightarrow> u64" where
  "ledger_tokens cal ledger rec since =
     sum_list (map word_of_nat (filter_map (\<lambda>row. Option.bind (get_field row ''tokens_total'') as_u64)
       (filter (\<lambda>row. row_started_after cal row since) (filter (\<lambda>row. row_matches_record row rec) ledger))))"

definition ledger_spend :: "calendar \<Rightarrow> json list \<Rightarrow> AccountRecord \<Rightarrow> int \<Rightarrow> fp" where
  "ledger_spend cal ledger rec now_epoch =
     foldl (fp_add f64_round) (Fin 0) (filter_map (\<lambda>row. Option.bind (get_field row ''cost_usd'') (json_f64 cal))
       (filter (\<lambda>row. row_started_after cal row (month_start cal now_epoch))
         (filter (\<lambda>row. row_matches_record row rec) ledger)))"

definition fold_window :: "calendar \<Rightarrow> json list \<Rightarrow> CapLane list option \<Rightarrow> int \<Rightarrow> AccountRecord \<Rightarrow> string \<Rightarrow> WindowRow" where
  "fold_window cal ledger snapshot now_epoch rec w =
     (let ending = window_end cal w (reset_timezone rec) now_epoch
      in \<lparr>window = w, used_tokens = ledger_tokens cal ledger rec (ending - window_len w),
          reset_epoch = unwrap_or (snapshot_reset snapshot (rec_provider rec)) ending\<rparr>)"

definition fold_windows :: "calendar \<Rightarrow> AccountRecord list \<Rightarrow> json list \<Rightarrow> CapLane list option \<Rightarrow> int \<Rightarrow> AccountRow list" where
  "fold_windows cal records ledger snapshot now_epoch =
     map (\<lambda>rec. \<lparr>account = rec_id rec, ar_provider = rec_provider rec, ar_billing = billing rec,
       ar_show = rec_show rec,
       ar_windows = (if billing rec = ''subscription''
                     then map (fold_window cal ledger snapshot now_epoch rec) (windows rec) else []),
       limit_tokens = rec_limit rec,
       spend_usd = (if billing rec = ''metered'' then Some (ledger_spend cal ledger rec now_epoch) else None)\<rparr>) records"

definition fold_accounts :: "calendar \<Rightarrow> (string \<Rightarrow> cfg_value option) list \<Rightarrow> json list \<Rightarrow> CapLane list option \<Rightarrow> int \<Rightarrow> AccountRow list" where
  "fold_accounts cal raw ledger snapshot now_epoch =
     (let records = account_records raw
      in if records = [] then [] else fold_windows cal records ledger snapshot now_epoch)"

section \<open>The writer\<close>

text \<open>What one tick reads besides the state file.\<close>

record tick_input =
  ti_ceiling :: u32
  ti_thresholds :: CapacityThresholds
  ti_sample :: MachineSample
  ti_share :: "fp option"
  ti_calendar :: calendar
  ti_accounts :: "(string \<Rightarrow> cfg_value option) list"
  ti_ledger :: "json list"
  ti_snapshot :: "CapLane list option"
  ti_now :: int

definition control_part :: "CapacityState option \<Rightarrow> u32 \<Rightarrow> CapacityThresholds \<Rightarrow> fp option \<Rightarrow> int \<Rightarrow> CapacityState" where
  "control_part stored ceil t share now_epoch =
     (let state = unwrap_or stored (seed ceil now_epoch);
          state = (if measured_cut state = None
                   then state\<lparr>st_effective := ceil, st_reason := None, st_since := None\<rparr> else state);
          state = state\<lparr>st_ceiling := ceil\<rparr>;
          state = unwrap_or (Option.bind share (\<lambda>s. capacity_step state s t now_epoch)) state
      in state\<lparr>st_effective := max (st_effective state) (min (th_floor t) ceil)\<rparr>)"

definition fed_state :: "CapacityState option \<Rightarrow> tick_input \<Rightarrow> CapacityState" where
  "fed_state stored i = (control_part stored (ti_ceiling i) (ti_thresholds i) (ti_share i) (ti_now i))
     \<lparr>memory := memory_figure (ti_sample i),
      workers_live := live_rows_n (ti_sample i),
      accounts := fold_accounts (ti_calendar i) (ti_accounts i) (ti_ledger i) (ti_snapshot i) (ti_now i),
      updated_epoch := ti_now i\<rparr>"

text \<open>
  The state file is replaced by a rename, so a write that fails leaves it as it was and the tick
  answers the error.
\<close>

definition feed :: "string option \<Rightarrow> tick_input \<Rightarrow> CapacityState option \<Rightarrow> (string + CapacityState) \<times> CapacityState option" where
  "feed write_error i stored =
     (case write_error of
        Some e \<Rightarrow> (Inl e, stored)
      | None \<Rightarrow> (Inr (fed_state stored i), Some (fed_state stored i)))"

section \<open>The reader\<close>

record FloorHold =
  fh_floor :: nat
  fh_learned :: nat

record Effective =
  ef_cap :: nat
  ef_ceiling :: nat
  ef_known :: bool
  ef_reason :: "string option"
  ef_since :: "int option"
  ef_held :: "FloorHold option"
  ef_burst :: bool

definition at_ceiling_unknown :: "nat \<Rightarrow> Effective" where
  "at_ceiling_unknown ceil = \<lparr>ef_cap = ceil, ef_ceiling = ceil, ef_known = False, ef_reason = None,
     ef_since = None, ef_held = None, ef_burst = False\<rparr>"

definition effective :: "CapacityState option \<Rightarrow> nat \<Rightarrow> nat \<Rightarrow> Effective" where
  "effective stored max_live floor_n =
     (let ceil = max max_live 1
      in case stored of
           Some state \<Rightarrow>
             (if st_effective state \<ge> 1 then
                (let learned = (case measured_cut state of None \<Rightarrow> ceil | Some eff \<Rightarrow> min (unat eff) ceil);
                     floor_cap = min floor_n ceil;
                     c = max learned floor_cap
                 in \<lparr>ef_cap = c, ef_ceiling = ceil, ef_known = (c < ceil \<or> st_reason state \<noteq> None),
                     ef_reason = st_reason state, ef_since = st_since state,
                     ef_held = (if floor_n > unat DEFAULT_FLOOR \<and> c = floor_cap
                             then Some \<lparr>fh_floor = floor_n, fh_learned = learned\<rparr> else None),
                     ef_burst = False\<rparr>)
              else at_ceiling_unknown ceil)
         | None \<Rightarrow> at_ceiling_unknown ceil)"

text \<open>Without a home directory the ceiling is taken as given.\<close>

definition effective_from_env :: "CapacityState option option \<Rightarrow> nat \<Rightarrow> nat \<Rightarrow> Effective" where
  "effective_from_env home ceil floor_n =
     (case home of Some stored \<Rightarrow> effective stored ceil floor_n | None \<Rightarrow> at_ceiling_unknown ceil)"

definition learned_cap :: "Effective \<Rightarrow> nat" where
  "learned_cap e = (case ef_held e of None \<Rightarrow> ef_cap e | Some h \<Rightarrow> fh_learned h)"

end
