(* ===== verification/Capacity_Props.thy ===== *)
theory Capacity_Props
  imports Capacity
begin

text \<open>
  The control loop of the learned capacity: the size of a cut, the evidence behind every move of the
  cap over runs of ticks, and the agreement of the file the loop writes with the cap the gate reads.
\<close>

section \<open>The cut\<close>

lemma default_fraction: "fp_sub f64_round (Fin 1) DEFAULT_CUT_FRACTION = Fin (3 / 4)"
  using f64_dyadic_exact [of 3 2] by (simp add: fp_sub_def DEFAULT_CUT_FRACTION_def)

text \<open>The default cut takes a quarter and rounds down, exactly.\<close>

lemma default_cut:
  assumes "cut_fraction t = DEFAULT_CUT_FRACTION"
  shows "unat (cut_to t eff) = max (3 * unat eff div 4) (unat (th_floor t))"
proof -
  define n where "n = unat eff"
  have lt: "n < 2 ^ 32" using unsigned_less [of eff] by (simp add: n_def)
  have e: "f64_of_nat n = Fin (of_nat n)" using lt by (intro f64_of_nat_exact) simp
  have p: "f64_round (of_nat n * (3 / 4)) = Fin (of_nat (3 * n) / 4)"
    using f64_dyadic_exact [of "3 * n" 2] lt by (simp add: mult.commute)
  have fl: "\<lfloor>of_nat (3 * n) / (4::rat)\<rfloor> = int (3 * n div 4)"
    using floor_divide_of_nat_eq [of "3 * n" 4, where ?'a = rat] by simp
  have b: "3 * n div 4 < 2 ^ 32" using lt by linarith
  have "fp_floor (fp_mul f64_round (f64_of_nat n) (Fin (3 / 4))) = Fin (of_nat (3 * n div 4))"
    unfolding e fp_mul.simps p fp_floor.simps fl by simp
  then have "fp_to_u32 (fp_floor (fp_mul f64_round (f64_of_nat n) (Fin (3 / 4)))) = word_of_nat (3 * n div 4)"
    using b by (simp add: fp_to_u32_def)
  moreover have "unat (word_of_nat (3 * n div 4) :: u32) = 3 * n div 4"
    using b by (simp add: unat_of_nat)
  ultimately show ?thesis
    unfolding cut_to_def assms default_fraction n_def by (simp add: max_def word_le_nat_alt)
qed

lemma cut_to_ge_floor: "th_floor t \<le> cut_to t eff"
  by (simp add: cut_to_def)

text \<open>A fraction between zero and one, the only kind the configuration reader lets through.\<close>

definition proper_fraction :: "fp \<Rightarrow> bool" where
  "proper_fraction v = (case v of Fin f \<Rightarrow> 0 < f \<and> f < 1 | _ \<Rightarrow> False)"

lemma thresholds_fraction: "proper_fraction (cut_fraction (thresholds read))"
proof -
  have "proper_fraction v" if "fp_lt (Fin 0) v \<and> fp_lt v (Fin 1)" for v using that by (cases v) (auto simp: proper_fraction_def)
  then show ?thesis
    by (auto simp: thresholds_def unwrap_or_def filter_option_def proper_fraction_def DEFAULT_CUT_FRACTION_def split: option.splits)
qed

lemma cut_to_le:
  assumes "proper_fraction (cut_fraction t)" "th_floor t \<le> eff"
  shows "cut_to t eff \<le> eff"
proof -
  define n where "n = unat eff"
  have lt: "n < 2 ^ 32" using unsigned_less [of eff] by (simp add: n_def)
  have e: "f64_of_nat n = Fin (of_nat n)" using lt by (intro f64_of_nat_exact) simp
  obtain f where f: "cut_fraction t = Fin f" "0 < f" "f < 1"
    using assms(1) by (cases "cut_fraction t") (auto simp: proper_fraction_def)
  obtain g where g: "f64_round (1 - f) = Fin g" "0 \<le> g" "g \<le> 1"
    using f64_round_le_int [of "1 - f" 1] f by auto
  have "of_nat n * g \<le> of_int (int n)" using g(2,3) mult_left_mono [of g 1 "of_nat n"] by simp
  moreover have "0 \<le> of_nat n * g" using g(2) by simp
  ultimately obtain c where c: "f64_round (of_nat n * g) = Fin c" "0 \<le> c" "c \<le> of_int (int n)"
    using f64_round_le_int [of "of_nat n * g" "int n"] lt by (auto simp: of_nat_less_iff)
  have fl: "\<lfloor>c\<rfloor> \<le> int n" using c(3) by (simp add: floor_le_iff)
  have s: "fp_sub f64_round (Fin 1) (cut_fraction t) = Fin g" using f g by (simp add: fp_sub_def)
  define k where "k = nat \<lfloor>c\<rfloor>"
  have k: "\<lfloor>c\<rfloor> = int k" "k \<le> n" using c(2) fl by (simp_all add: k_def)
  have "fp_floor (fp_mul f64_round (f64_of_nat n) (Fin g)) = Fin (of_nat k)" by (simp add: e c k)
  then have "fp_to_u32 (fp_floor (fp_mul f64_round (f64_of_nat n) (Fin g))) = word_of_nat k"
    using k(2) lt by (simp add: fp_to_u32_def)
  moreover have "unat (word_of_nat k :: u32) = k" using k(2) lt by (simp add: unat_of_nat)
  ultimately have "fp_to_u32 (fp_floor (fp_mul f64_round (f64_of_nat n) (Fin g))) \<le> eff"
    using k(2) by (simp add: word_le_nat_alt n_def)
  with assms(2) show ?thesis unfolding cut_to_def s n_def by simp
qed

section \<open>Runs of the loop\<close>

text \<open>A tick of the control part: its time and the share it read.\<close>

type_synonym tick = "int \<times> fp option"

definition control_run :: "u32 \<Rightarrow> CapacityThresholds \<Rightarrow> int \<Rightarrow> tick list \<Rightarrow> CapacityState" where
  "control_run ceil t start ticks = foldl (\<lambda>st (n, share). control_part (Some st) ceil t share n) (seed ceil start) ticks"

definition readable :: "fp option \<Rightarrow> bool" where
  "readable share = (case share of Some x \<Rightarrow> fp_is_finite x \<and> \<not> fp_lt x (Fin 0) | None \<Rightarrow> False)"

definition breach :: "CapacityThresholds \<Rightarrow> fp option \<Rightarrow> bool" where
  "breach t share = (readable share \<and> (\<exists>x. share = Some x \<and> fp_lt (cut_share t) x))"

definition calm :: "CapacityThresholds \<Rightarrow> fp option \<Rightarrow> bool" where
  "calm t share = (readable share \<and> \<not> breach t share \<and> (\<exists>x. share = Some x \<and> fp_lt x (raise_share t)))"

text \<open>
  Since the tick at \<open>t0\<close>, which satisfied \<open>P\<close>, every tick whose share could be read satisfied it.
\<close>

definition unbroken :: "(fp option \<Rightarrow> bool) \<Rightarrow> tick list \<Rightarrow> int \<Rightarrow> bool" where
  "unbroken P h t0 = (\<exists>pre share later. h = pre @ (t0, share) # later \<and> P share \<and>
     (\<forall>(n, s) \<in> set later. P s \<or> \<not> readable s))"

lemma unbroken_start: "P s \<Longrightarrow> unbroken P (h @ [(n, s)]) n"
  unfolding unbroken_def by (intro exI [of _ h] exI [of _ s] exI [of _ "[]"]) simp

lemma unbroken_snoc: "unbroken P h t0 \<Longrightarrow> P s \<or> \<not> readable s \<Longrightarrow> unbroken P (h @ [(n, s)]) t0"
proof -
  assume "unbroken P h t0" and s: "P s \<or> \<not> readable s"
  then obtain pre share later where h: "h = pre @ (t0, share) # later" "P share" "\<forall>(n, s) \<in> set later. P s \<or> \<not> readable s"
    unfolding unbroken_def by blast
  with s show ?thesis unfolding unbroken_def
    by (intro exI [of _ pre] exI [of _ share] exI [of _ "later @ [(n, s)]"]) auto
qed

text \<open>What holds after every run: the clocks are backed by the ticks and the cap is in bounds.\<close>

definition run_ok :: "u32 \<Rightarrow> CapacityThresholds \<Rightarrow> tick list \<Rightarrow> CapacityState \<Rightarrow> bool" where
  "run_ok ceil t h st \<longleftrightarrow>
     st_ceiling st = ceil \<and> st_effective st \<le> ceil \<and> min (th_floor t) ceil \<le> st_effective st \<and>
     st_reason st \<noteq> Some SEED_REASON \<and>
     (\<forall>t0. over_since st = Some t0 \<longrightarrow> unbroken (breach t) h t0) \<and>
     (\<forall>t0. calm_since st = Some t0 \<longrightarrow> unbroken (calm t) h t0)"

definition justified :: "u32 \<Rightarrow> CapacityThresholds \<Rightarrow> tick list \<Rightarrow> int \<Rightarrow> u32 \<Rightarrow> u32 \<Rightarrow> bool" where
  "justified ceil t h n eff eff' \<longleftrightarrow>
     eff' = eff \<or>
     (eff' = cut_to t eff \<and> th_floor t < eff \<and>
        (\<exists>t0. unbroken (breach t) h t0 \<and> sint (cut_hold_seconds t) \<le> i64_sub n t0)) \<or>
     (eff' = eff + 1 \<and> eff < ceil \<and>
        (\<exists>t0. unbroken (calm t) h t0 \<and> sint (raise_hold_seconds t) \<le> i64_sub n t0))"

text \<open>The reset of a cap that is no measured cut changes nothing in a run.\<close>

definition rest :: "u32 \<Rightarrow> CapacityState \<Rightarrow> CapacityState" where
  "rest ceil st = (if measured_cut st = None then st\<lparr>st_effective := ceil, st_reason := None, st_since := None\<rparr> else st)
     \<lparr>st_ceiling := ceil\<rparr>"

lemma rest_fields:
  assumes "run_ok ceil t h st"
  shows "st_effective (rest ceil st) = st_effective st" "st_ceiling (rest ceil st) = ceil"
    "over_since (rest ceil st) = over_since st" "calm_since (rest ceil st) = calm_since st"
    "st_reason (rest ceil st) \<noteq> Some SEED_REASON"
  using assms by (auto simp: rest_def run_ok_def measured_cut_def)

lemma control_part_step:
  "control_part (Some st) ceil t share n =
     (let s = unwrap_or (Option.bind share (\<lambda>x. capacity_step (rest ceil st) x t n)) (rest ceil st)
      in s\<lparr>st_effective := max (st_effective s) (min (th_floor t) ceil)\<rparr>)"
  by (simp add: control_part_def rest_def unwrap_or_def Let_def)

lemma step_unreadable: "\<not> readable share \<Longrightarrow> Option.bind share (\<lambda>x. capacity_step st x t n) = None"
  by (auto simp: readable_def capacity_step_def split: option.splits)

lemma CPU_bound_not_seed: "''CPU-bound'' \<noteq> SEED_REASON"
  by (simp add: SEED_REASON_def)

lemma max_floor_id: "min f c \<le> e \<Longrightarrow> max e (min f (c :: u32)) = e"
  by (rule max_absorb1)

lemma u32_succ: "e < c \<Longrightarrow> unat (e + 1 :: u32) = unat e + 1"
proof -
  assume "e < c"
  then have "unat e + 1 < 2 ^ 32" using unsigned_less [of c, where ?'a = nat] by (simp add: word_less_nat_alt)
  then show ?thesis by (simp add: unat_word_ariths)
qed

lemma run_ok_step:
  fixes share :: "fp option" and n :: int
  assumes ok: "run_ok ceil t h st" and frac: "proper_fraction (cut_fraction t)"
  defines "st' \<equiv> control_part (Some st) ceil t share n"
  shows "run_ok ceil t (h @ [(n, share)]) st'" "justified ceil t (h @ [(n, share)]) n (st_effective st) (st_effective st')"
proof -
  let ?h = "h @ [(n, share)]" and ?r = "rest ceil st"
  note r = rest_fields [OF ok]
  have b: "st_effective st \<le> ceil" "min (th_floor t) ceil \<le> st_effective st" using ok by (simp_all add: run_ok_def)
  have bre: "over_since st = Some t0 \<Longrightarrow> unbroken (breach t) h t0"
    and cal: "calm_since st = Some t0 \<Longrightarrow> unbroken (calm t) h t0" for t0 using ok by (simp_all add: run_ok_def)
  consider (unread) "\<not> readable share" | (over) x where "share = Some x" "breach t share"
    | (calm) x where "share = Some x" "calm t share" | (mid) x where "share = Some x" "readable share" "\<not> breach t share" "\<not> calm t share"
    by (cases share) (auto simp: readable_def)
  then have "run_ok ceil t ?h st' \<and> justified ceil t ?h n (st_effective st) (st_effective st')"
  proof cases
    case unread
    then have "st' = ?r\<lparr>st_effective := st_effective st\<rparr>"
      using r(1) b(2) by (simp add: st'_def control_part_step step_unreadable unwrap_or_def max_floor_id)
    with r b bre cal unread show ?thesis by (auto simp: run_ok_def justified_def intro!: unbroken_snoc)
  next
    case mid
    then have "capacity_step ?r x t n = Some (?r\<lparr>over_since := None, calm_since := None\<rparr>)"
      by (auto simp: capacity_step_def readable_def breach_def calm_def)
    then have "st' = ?r\<lparr>over_since := None, calm_since := None, st_effective := st_effective st\<rparr>"
      using mid(1) r(1) b(2) by (simp add: st'_def control_part_step unwrap_or_def max_floor_id)
    with r b show ?thesis by (simp add: run_ok_def justified_def)
  next
    case over
    define t0 where "t0 = unwrap_or (over_since st) n"
    have u: "unbroken (breach t) ?h t0"
      using over(2) bre unbroken_start [of "breach t" share h n] unbroken_snoc [of "breach t" h _ share n]
      by (auto simp: t0_def unwrap_or_def split: option.splits)
    have s: "capacity_step ?r x t n = Some (if sint (cut_hold_seconds t) \<le> i64_sub n t0 \<and> th_floor t < st_effective st
        then ?r\<lparr>over_since := None, calm_since := None, st_effective := cut_to t (st_effective st),
               st_reason := Some ''CPU-bound'', st_since := Some n\<rparr>
        else ?r\<lparr>over_since := Some t0, calm_since := None\<rparr>)"
      using over r by (auto simp: capacity_step_def readable_def breach_def t0_def Let_def)
    have le: "th_floor t < st_effective st \<Longrightarrow> cut_to t (st_effective st) \<le> ceil"
      using cut_to_le [OF frac, of "st_effective st"] b(1) by (meson order_trans order_less_imp_le)
    have ge: "min (th_floor t) ceil \<le> cut_to t (st_effective st)"
      using cut_to_ge_floor [of t "st_effective st"] by (meson min.coboundedI1)
    show ?thesis
    proof (cases "sint (cut_hold_seconds t) \<le> i64_sub n t0 \<and> th_floor t < st_effective st")
      case True
      then have "st' = ?r\<lparr>over_since := None, calm_since := None, st_effective := cut_to t (st_effective st),
               st_reason := Some ''CPU-bound'', st_since := Some n\<rparr>"
        using over(1) s ge by (simp add: st'_def control_part_step unwrap_or_def max_floor_id)
      with True r le ge u CPU_bound_not_seed show ?thesis by (auto simp: run_ok_def justified_def)
    next
      case False
      then have "st' = ?r\<lparr>over_since := Some t0, calm_since := None, st_effective := st_effective st\<rparr>"
        using over(1) s [unfolded if_not_P [OF False]] r(1) b(2) by (simp add: st'_def control_part_step unwrap_or_def max_floor_id)
      with r b u show ?thesis by (simp add: run_ok_def justified_def)
    qed
  next
    case calm
    define t0 where "t0 = unwrap_or (calm_since st) n"
    have u: "unbroken (calm t) ?h t0"
      using calm(2) cal unbroken_start [of "calm t" share h n] unbroken_snoc [of "calm t" h _ share n]
      by (auto simp: t0_def unwrap_or_def split: option.splits)
    have s: "capacity_step ?r x t n = Some (if sint (raise_hold_seconds t) \<le> i64_sub n t0 \<and> st_effective st < ceil
        then ?r\<lparr>over_since := None, st_effective := st_effective st + 1, st_reason := None, st_since := None, calm_since := None\<rparr>
        else ?r\<lparr>over_since := None, calm_since := Some t0\<rparr>)"
      using calm r by (auto simp: capacity_step_def readable_def breach_def calm_def t0_def Let_def)
    show ?thesis
    proof (cases "sint (raise_hold_seconds t) \<le> i64_sub n t0 \<and> st_effective st < ceil")
      case True
      then have up: "st_effective st + 1 \<le> ceil" "st_effective st \<le> st_effective st + 1"
        using u32_succ [of "st_effective st" ceil] by (simp_all add: word_le_nat_alt word_less_nat_alt)
      have ge: "min (th_floor t) ceil \<le> st_effective st + 1" using b(2) up(2) by (rule order_trans)
      have "st' = ?r\<lparr>over_since := None, st_effective := st_effective st + 1, st_reason := None, st_since := None, calm_since := None\<rparr>"
        using calm(1) s ge True by (simp add: st'_def control_part_step unwrap_or_def max_floor_id)
      with True r up ge u show ?thesis by (auto simp: run_ok_def justified_def)
    next
      case False
      then have "st' = ?r\<lparr>over_since := None, calm_since := Some t0, st_effective := st_effective st\<rparr>"
        using calm(1) s [unfolded if_not_P [OF False]] r(1) b(2) by (simp add: st'_def control_part_step unwrap_or_def max_floor_id)
      with r b u show ?thesis by (simp add: run_ok_def justified_def)
    qed
  qed
  then show "run_ok ceil t ?h st'" "justified ceil t ?h n (st_effective st) (st_effective st')" by blast+
qed

lemma run_ok_run:
  assumes "1 \<le> ceil" "proper_fraction (cut_fraction t)"
  shows "run_ok ceil t ticks (control_run ceil t start ticks)"
proof (induction ticks rule: rev_induct)
  case Nil
  show ?case using assms(1) by (simp add: control_run_def run_ok_def seed_def max_def)
next
  case (snoc x ticks)
  show ?case using run_ok_step(1) [OF snoc assms(2), of "fst x" "snd x"] by (simp add: control_run_def case_prod_beta)
qed

section \<open>The reader and the file\<close>

lemma step_le_ceiling:
  assumes "capacity_step s x t n = Some s'" "st_effective s \<le> st_ceiling s" "proper_fraction (cut_fraction t)"
  shows "st_effective s' \<le> st_ceiling s"
proof -
  have c: "cut_to t (st_effective s) \<le> st_ceiling s" if "th_floor t < st_effective s"
    using cut_to_le [OF assms(3), of "st_effective s"] that assms(2) by (meson order_trans order_less_imp_le)
  have u: "st_effective s + 1 \<le> st_ceiling s" if "st_effective s < st_ceiling s"
    using u32_succ [OF that] that by (simp add: word_le_nat_alt word_less_nat_alt)
  from assms(1,2) c u show ?thesis by (auto simp: capacity_step_def Let_def split: if_splits)
qed

lemma step_reason: "capacity_step s x t n = Some s' \<Longrightarrow> st_reason s \<noteq> Some SEED_REASON \<Longrightarrow> st_reason s' \<noteq> Some SEED_REASON"
  using CPU_bound_not_seed by (auto simp: capacity_step_def Let_def split: if_splits)

lemma step_keeps_ceiling: "capacity_step s x t n = Some s' \<Longrightarrow> st_ceiling s' = st_ceiling s"
  by (auto simp: capacity_step_def Let_def split: if_splits)

text \<open>The state the step starts from, and the step with nothing done on an unreadable share.\<close>

definition base_state :: "CapacityState option \<Rightarrow> u32 \<Rightarrow> int \<Rightarrow> CapacityState" where
  "base_state stored ceil n = rest ceil (unwrap_or stored (seed ceil n))"

lemma control_part_cases:
  "control_part stored ceil t share n = (base_state stored ceil n)\<lparr>st_effective := max (st_effective (base_state stored ceil n)) (min (th_floor t) ceil)\<rparr> \<or>
   (\<exists>x s. capacity_step (base_state stored ceil n) x t n = Some s \<and>
      control_part stored ceil t share n = s\<lparr>st_effective := max (st_effective s) (min (th_floor t) ceil)\<rparr>)"
proof -
  let ?b = "base_state stored ceil n"
  have "control_part stored ceil t share n =
     (let s = unwrap_or (Option.bind share (\<lambda>x. capacity_step ?b x t n)) ?b
      in s\<lparr>st_effective := max (st_effective s) (min (th_floor t) ceil)\<rparr>)"
    by (simp add: control_part_def base_state_def rest_def Let_def)
  then show ?thesis by (cases share; cases "Option.bind share (\<lambda>x. capacity_step ?b x t n)") (auto simp: unwrap_or_def Let_def)
qed

lemma base_reason: "st_reason (base_state stored ceil n) \<noteq> Some SEED_REASON"
  by (auto simp: base_state_def rest_def measured_cut_def)

lemma base_ceiling: "st_ceiling (base_state stored ceil n) = ceil"
  by (simp add: base_state_def rest_def)

lemma fed_facts:
  assumes "fed_state stored i = st"
  shows "st_ceiling st = ti_ceiling i" "st_reason st \<noteq> Some SEED_REASON" "min (th_floor (ti_thresholds i)) (ti_ceiling i) \<le> st_effective st"
  using control_part_cases [of stored "ti_ceiling i" "ti_thresholds i" "ti_share i" "ti_now i"] assms
    base_reason [of stored "ti_ceiling i" "ti_now i"] base_ceiling [of stored "ti_ceiling i" "ti_now i"]
  by (auto simp: fed_state_def step_keeps_ceiling dest: step_reason)

lemma fed_below_ceiling:
  assumes "st_ceiling prev = ti_ceiling i" "proper_fraction (cut_fraction (ti_thresholds i))"
  shows "st_effective (fed_state (Some prev) i) \<le> ti_ceiling i"
proof -
  let ?c = "ti_ceiling i" and ?b = "base_state (Some prev) (ti_ceiling i) (ti_now i)"
  have b: "st_effective ?b \<le> ?c" "st_ceiling ?b = ?c"
    using assms(1) by (auto simp: base_state_def rest_def measured_cut_def unwrap_or_def)
  have step: "capacity_step ?b x (ti_thresholds i) (ti_now i) = Some s \<Longrightarrow> st_effective s \<le> ?c" for x s
    using step_le_ceiling [of ?b x "ti_thresholds i" "ti_now i" s] b assms(2) by simp
  from control_part_cases [of "Some prev" ?c "ti_thresholds i" "ti_share i" "ti_now i"] show ?thesis
    using b step by (auto simp: fed_state_def)
qed

section \<open>What modelling showed\<close>

lemma negative_hold:
  assumes "read ''cut_hold_seconds'' = Some (CfgInt v)" "v < 0" "- (2 ^ 63) \<le> v"
  shows "sint (cut_hold_seconds (thresholds read)) = v"
proof -
  have s: "sint (word_of_int v :: u64) = v"
    using assms(2,3) by (simp add: sint_sbintrunc' signed_take_bit_int_eq_self)
  then have "(word_of_int v :: u64) \<noteq> 0" using assms(2) by auto
  then have "0 < (word_of_int v :: u64)" by (simp add: word_gt_0)
  with s assms(1) show ?thesis by (simp add: thresholds_def cfg_uint_def filter_option_def unwrap_or_def)
qed

lemma negative_hold_cuts_at_once:
  assumes "sint (cut_hold_seconds t) < 0" "over_since st = None" "breach t (Some x)" "th_floor t < st_effective st"
  shows "\<exists>s. capacity_step st x t n = Some s \<and> st_effective s = cut_to t (st_effective st)"
  using assms by (auto simp: capacity_step_def breach_def readable_def unwrap_or_def i64_sub_def Let_def)

lemma cut_is_lost_when_the_ceiling_is_lowered:
  defines "st0 \<equiv> (seed 24 0)\<lparr>st_effective := 20, over_since := Some 0\<rparr>"
  defines "st1 \<equiv> control_part (Some st0) 4 default_thresholds (Some (Fin 1)) 600"
  defines "st2 \<equiv> control_part (Some st1) 4 default_thresholds (Some (Fin 1)) 601"
  shows "st_effective st1 = 15 \<and> st_reason st1 = Some ''CPU-bound'' \<and> over_since st1 = None \<and>
    st_effective st2 = 4 \<and> st_reason st2 = None"
proof -
  let ?t = default_thresholds
  have t: "cut_share ?t = Fin (3 / 4)" "sint (cut_hold_seconds ?t) = 600" "th_floor ?t = 1" "cut_fraction ?t = DEFAULT_CUT_FRACTION"
    by (simp_all add: default_thresholds_def DEFAULT_CUT_FLEET_SHARE_def DEFAULT_CUT_HOLD_SECONDS_def DEFAULT_FLOOR_def)
  have "unat (cut_to ?t 20) = unat (15 :: u32)" using default_cut [OF t(4), of 20] by (simp add: t(3))
  then have c: "cut_to ?t 20 = 15" by (rule unsigned_word_eqI)
  note eval = control_part_def seed_def measured_cut_def capacity_step_def unwrap_or_def c t i64_sub_def SEED_REASON_def Let_def
  have "st1 = (seed 24 0)\<lparr>st_ceiling := 4, st_effective := 15, st_reason := Some ''CPU-bound'', st_since := Some 600\<rparr>"
    unfolding st1_def st0_def by (simp add: eval)
  moreover from this have "st_effective st2 = 4 \<and> st_reason st2 = None"
    unfolding st2_def by (simp add: eval)
  ultimately show ?thesis by (simp add: seed_def)
qed

section \<open>Properties\<close>

text \<open>
  C39. The learned cap moves on evidence only. In a run of ticks from the first one under one
  configuration, the cap stays between the floor and the ceiling, and a tick either leaves it, or cuts
  it after a breach of the share held for the configured time, or adds one after the share was calm for
  its time: since a tick that long ago, every share that could be read was over, or below, its
  threshold.
\<close>

theorem cap_moves_on_evidence:
  assumes "1 \<le> ceil" "proper_fraction (cut_fraction t)"
  shows "let eff = st_effective (control_run ceil t start h); h' = h @ [(n, share)];
      eff' = st_effective (control_run ceil t start h') in
    min (th_floor t) ceil \<le> eff' \<and> eff' \<le> ceil \<and>
    (eff' = eff \<or>
     eff' = cut_to t eff \<and> th_floor t < eff \<and>
       (\<exists>t0. unbroken (breach t) h' t0 \<and> sint (cut_hold_seconds t) \<le> i64_sub n t0) \<or>
     eff' = eff + 1 \<and> eff < ceil \<and>
       (\<exists>t0. unbroken (calm t) h' t0 \<and> sint (raise_hold_seconds t) \<le> i64_sub n t0))"
proof -
  have run: "control_run ceil t start (h @ [(n, share)]) = control_part (Some (control_run ceil t start h)) ceil t share n"
    by (simp add: control_run_def)
  note ok = run_ok_run [OF assms, of h start]
  show ?thesis
    using run_ok_step [OF ok assms(2), of n share] unfolding Let_def run by (simp add: run_ok_def justified_def)
qed

theorem cap_moves_on_evidence_witness:
  "st_effective (control_run 8 default_thresholds 0 [(0, Some (Fin 1)), (600, Some (Fin 1))]) \<le> 8"
  using cap_moves_on_evidence [of 8 default_thresholds 0 "[(0, Some (Fin 1))]" 600 "Some (Fin 1)"]
  by (simp add: Let_def default_thresholds_def DEFAULT_CUT_FRACTION_def proper_fraction_def)

text \<open>
  The gate and the file agree. Whatever state the tick finds, the cap the gate reads after it is the
  cap in the file taken down to the ceiling; only a tick that finds a lowered ceiling leaves a file
  above it, and the next tick brings the file down.
\<close>

theorem reader_agrees_with_file:
  assumes "1 \<le> ti_ceiling i" "1 \<le> th_floor (ti_thresholds i)" "proper_fraction (cut_fraction (ti_thresholds i))"
  shows "ef_cap (effective (Some (fed_state stored i)) (unat (ti_ceiling i)) (unat (th_floor (ti_thresholds i))))
      = unat (min (st_effective (fed_state stored i)) (ti_ceiling i)) \<and>
    (st_ceiling prev = ti_ceiling i \<longrightarrow> st_effective (fed_state (Some prev) i) \<le> ti_ceiling i)"
proof (intro conjI impI)
  define st where "st = fed_state stored i"
  note f = fed_facts [OF st_def [symmetric]]
  have one: "1 \<le> st_effective st" using f(3) assms(1,2) by (meson min.boundedI order_trans)
  have c: "1 \<le> unat (ti_ceiling i)" using assms(1) by (simp add: word_le_nat_alt)
  have fl: "min (unat (th_floor (ti_thresholds i))) (unat (ti_ceiling i)) \<le> unat (st_effective st)"
    using f(3) by (simp add: word_le_nat_alt min_def split: if_splits)
  show "ef_cap (effective (Some (fed_state stored i)) (unat (ti_ceiling i)) (unat (th_floor (ti_thresholds i))))
      = unat (min (st_effective (fed_state stored i)) (ti_ceiling i))"
    unfolding st_def [symmetric]
  proof (cases "st_effective st < ti_ceiling i")
    case True
    then have lt: "unat (st_effective st) < unat (ti_ceiling i)" by (simp add: word_less_nat_alt)
    have "measured_cut st = Some (st_effective st)" using True f(1,2) by (simp add: measured_cut_def)
    with one c lt max_absorb1 [OF fl] True
    show "ef_cap (effective (Some st) (unat (ti_ceiling i)) (unat (th_floor (ti_thresholds i)))) = unat (min (st_effective st) (ti_ceiling i))"
      by (simp add: effective_def Let_def)
  next
    case False
    with one c f(1) 
    show "ef_cap (effective (Some st) (unat (ti_ceiling i)) (unat (th_floor (ti_thresholds i)))) = unat (min (st_effective st) (ti_ceiling i))"
      by (simp add: effective_def measured_cut_def Let_def)
  qed
next
  assume "st_ceiling prev = ti_ceiling i"
  then show "st_effective (fed_state (Some prev) i) \<le> ti_ceiling i" by (rule fed_below_ceiling [OF _ assms(3)])
qed

definition sample_tick :: tick_input where
  "sample_tick = \<lparr>ti_ceiling = 4, ti_thresholds = default_thresholds,
     ti_sample = \<lparr>total_mem_gb = None, compressor_gb = None, compressed_gb = None, sm_ram_used_gb = None,
       sm_swap_used_gb = None, sm_swap_total_gb = None, live_rows_n = None\<rparr>,
     ti_share = Some (Fin 1),
     ti_calendar = \<lparr>next_monday = (\<lambda>_ _. None), month_start = (\<lambda>_. 0), rfc3339 = (\<lambda>_. None), json_f64 = (\<lambda>_. None)\<rparr>,
     ti_accounts = [], ti_ledger = [], ti_snapshot = None, ti_now = 600\<rparr>"

theorem reader_agrees_with_file_witness:
  "st_effective (fed_state (Some (seed 4 0)) sample_tick) \<le> 4"
  using reader_agrees_with_file [of sample_tick None "seed 4 0"]
  by (simp add: sample_tick_def default_thresholds_def DEFAULT_FLOOR_def DEFAULT_CUT_FRACTION_def proper_fraction_def seed_def)

end
