(* ===== verification/Gate_Axes.thy ===== *)
theory Gate_Axes
  imports Capacity Claim_Types Backlog_Plan
begin

text \<open>
  The axes a spawn is admitted on: \<open>spawn_gate.rs\<close>, \<open>spawn_gate_slots.rs\<close>,
  \<open>spawn_gate_lanes.rs\<close>, \<open>spawn_gate_admission.rs\<close> and \<open>cap_liveness.rs\<close> of
  \<open>crates/fno-agents/src\<close>. An axis is a function of what its instruments answered: the memory
  readers, the footprint probe, the registry, the roster, the claims and the incident record are
  arguments. A refusal keeps its exit code, the axis and reason its verdict line names and the
  figures the properties are about; the other receipt fields and the sentences are presentation.
\<close>

section \<open>Refusals\<close>

definition EXIT_QUEUE_TIMEOUT :: int where "EXIT_QUEUE_TIMEOUT = 75"
definition EXIT_NO_WAIT :: int where "EXIT_NO_WAIT = 76"
definition EXIT_RAM_REFUSED :: int where "EXIT_RAM_REFUSED = 77"
definition EXIT_PROVIDER_CAP :: int where "EXIT_PROVIDER_CAP = 78"
definition EXIT_LOAD_REFUSED :: int where "EXIT_LOAD_REFUSED = 79"
definition EXIT_LEAD_SHARE :: int where "EXIT_LEAD_SHARE = 80"
definition EXIT_REGISTRY_SCHEMA :: int where "EXIT_REGISTRY_SCHEMA = 81"
definition EXIT_FLEET_STOP :: int where "EXIT_FLEET_STOP = 82"
definition EXIT_FLEET_STOP_UNAVAILABLE :: int where "EXIT_FLEET_STOP_UNAVAILABLE = 83"
definition EXIT_TERRITORY_CAP :: int where "EXIT_TERRITORY_CAP = 86"
definition EXIT_BLUEPRINT_CAP :: int where "EXIT_BLUEPRINT_CAP = 88"
definition EXIT_REVIEW_SESSION :: int where "EXIT_REVIEW_SESSION = 89"
definition EXIT_NODE_OCCUPIED :: int where "EXIT_NODE_OCCUPIED = 92"

record Refusal =
  rf_exit :: int
  rf_axis :: string
  rf_reason :: string
  rf_count :: "nat option"
  rf_samples :: "nat option"
  rf_burst :: "string option"

definition refuse :: "int \<Rightarrow> string \<Rightarrow> string \<Rightarrow> Refusal" where
  "refuse code axis word = \<lparr>rf_exit = code, rf_axis = axis, rf_reason = word, rf_count = None,
     rf_samples = None, rf_burst = None\<rparr>"

section \<open>The memory axis\<close>

record Instruments =
  available_ram_gb :: "fp option"
  swap_used_pct :: "fp option"
  swapin_bytes_per_sec :: "fp option"

record MemoryReading =
  mr_avail :: "fp option"
  mr_swap :: "fp option"
  mr_swapin_bps :: "fp option"

definition MIB :: fp where "MIB = Fin 1048576"
definition SWAPIN_REFUSE_BYTES_PER_S :: fp where "SWAPIN_REFUSE_BYTES_PER_S = MIB"

definition is_some_and :: "('a \<Rightarrow> bool) \<Rightarrow> 'a option \<Rightarrow> bool" where
  "is_some_and P v = (case v of Some x \<Rightarrow> P x | None \<Rightarrow> False)"

definition read_memory :: "Instruments \<Rightarrow> fp \<Rightarrow> fp \<Rightarrow> MemoryReading" where
  "read_memory i floor_gb max_swap_pct =
     (let swap = (if fp_lt (Fin 0) max_swap_pct then swap_used_pct i else None)
      in \<lparr>mr_avail = (if fp_lt (Fin 0) floor_gb then available_ram_gb i else None),
          mr_swap = swap,
          mr_swapin_bps = (if is_some_and (fp_le max_swap_pct) swap then swapin_bytes_per_sec i else None)\<rparr>)"

definition ram_floor_term :: "fp option \<Rightarrow> fp \<Rightarrow> fp option \<Rightarrow> fp option \<Rightarrow> fp \<Rightarrow> string option" where
  "ram_floor_term avail floor_gb swap swapin_bps max_swap_pct =
     (if fp_lt (Fin 0) floor_gb \<and> is_some_and (\<lambda>a. fp_lt a floor_gb) avail then Some ''ram_floor''
      else if fp_lt (Fin 0) max_swap_pct \<and> is_some_and (fp_le max_swap_pct) swap \<and>
              is_some_and (fp_le SWAPIN_REFUSE_BYTES_PER_S) swapin_bps then Some ''swap_pressure''
      else None)"

definition memory_term :: "MemoryReading \<Rightarrow> fp \<Rightarrow> fp \<Rightarrow> string option" where
  "memory_term m floor_gb swap_cap = ram_floor_term (mr_avail m) floor_gb (mr_swap m) (mr_swapin_bps m) swap_cap"

definition check_ram_floor :: "Instruments \<Rightarrow> fp \<Rightarrow> fp \<Rightarrow> Refusal + unit" where
  "check_ram_floor i floor_gb max_swap_pct =
     (case memory_term (read_memory i floor_gb max_swap_pct) floor_gb max_swap_pct of
        Some word \<Rightarrow> Inl (refuse EXIT_RAM_REFUSED word word)
      | None \<Rightarrow> Inr ())"

definition charges_local_memory :: "string \<Rightarrow> bool" where
  "charges_local_memory substrate = (substrate \<noteq> ''cloud'')"

section \<open>The CPU axis\<close>

record AdmissionPayload =
  ap_verdict :: string
  ap_axis :: string
  share_low :: fp
  share_high :: fp

record FootprintPayload =
  fp_error :: "string option"
  fp_admission :: "AdmissionPayload option"

record CpuAdmission =
  cpu_payload :: AdmissionPayload
  cpu_token :: string

definition instrument_refusal :: CpuAdmission where
  "instrument_refusal = \<lparr>cpu_payload = \<lparr>ap_verdict = ''refuse'', ap_axis = ''cpu_instrument'',
     share_low = Fin 0, share_high = Fin 0\<rparr>, cpu_token = ''cpu_instrument_unreadable''\<rparr>"

text \<open>The probe answers its payload or why it has none; \<open>parse\<close> is \<open>serde_json::from_str\<close>.\<close>

definition check_cpu_axis :: "(string \<Rightarrow> FootprintPayload option) \<Rightarrow> string + string \<Rightarrow> CpuAdmission" where
  "check_cpu_axis parse probe =
     (case probe of
        Inl why \<Rightarrow> instrument_refusal
      | Inr raw \<Rightarrow> (case parse raw of
          None \<Rightarrow> instrument_refusal
        | Some payload \<Rightarrow>
            (if fp_error payload \<noteq> None then instrument_refusal
             else case fp_admission payload of
               None \<Rightarrow> instrument_refusal
             | Some a \<Rightarrow> \<lparr>cpu_payload = a,
                 cpu_token = (if ap_verdict a = ''undecidable'' then ''cpu_share_undecidable''
                              else if ap_verdict a = ''refuse'' then ''cpu_instrument_unreadable'' else [])\<rparr>)))"

definition fleet_share :: "AdmissionPayload \<Rightarrow> fp option" where
  "fleet_share a = (if ap_axis a = ''fleet_cpu_share'' then Some (share_high a) else None)"

definition fleet_admission :: "(string \<Rightarrow> FootprintPayload option) \<Rightarrow> string + string \<Rightarrow> AdmissionPayload option" where
  "fleet_admission parse probe =
     (case probe of Inl _ \<Rightarrow> None | Inr raw \<Rightarrow> Option.bind (parse raw) fp_admission)"

section \<open>The live rows\<close>

datatype AgentStatus = ASpawning | AReady | AIdle | ABusy | ALive | ARestarting | AOrphaned | AFailed | AExited | APermanentDead

record RegistryEntry =
  re_name :: string
  re_status :: AgentStatus
  re_pid :: "u32 option"
  re_start :: "u64 option"
  short_id :: string
  re_harness :: "string option"
  legacy_provider :: string
  re_origin :: "string option"
  re_mux :: bool
  host_mode :: "string option"
  lineage_reason :: "string option"
  last_report_at :: "string option"
  role_level :: "u32 option"
  harness_session_id :: "string option"
  cc_session_id :: "string option"
  spawned_by_session :: "string option"
  created_at :: string
  re_node :: "string option"

definition status_is_liveish :: "AgentStatus \<Rightarrow> bool" where
  "status_is_liveish s = (s \<in> {ASpawning, AReady, AIdle, ABusy, ALive, ARestarting})"

definition transport_short :: "RegistryEntry \<Rightarrow> string option" where
  "transport_short e = (if short_id e \<noteq> [] then Some (short_id e) else None)"

definition harness_name :: "RegistryEntry \<Rightarrow> string" where
  "harness_name e = (case re_harness e of Some h \<Rightarrow> if h \<noteq> [] then h else legacy_provider e | None \<Rightarrow> legacy_provider e)"

definition is_roster_policed :: "RegistryEntry \<Rightarrow> bool" where
  "is_roster_policed e =
     (if harness_name e \<noteq> ''claude'' \<or> re_origin e \<noteq> Some ''spawn'' then False
      else if re_mux e \<or> host_mode e = Some ''interactive'' then False
      else if is_some_and (\<lambda>r. r \<noteq> []) (lineage_reason e) then False
      else True)"

definition all_digits :: "string \<Rightarrow> int option" where
  "all_digits s = (if list_all is_digit s then Some (digits_value s) else None)"

text \<open>Byte positions, as the source slices; the strings are ASCII.\<close>

definition field_at :: "string \<Rightarrow> nat \<Rightarrow> nat \<Rightarrow> int option" where
  "field_at s lo hi = all_digits (take (hi - lo) (drop lo s))"

definition civil_days :: "int \<Rightarrow> int \<Rightarrow> int \<Rightarrow> int" where
  "civil_days y mo d =
     (let yy = (if mo \<le> 2 then y - 1 else y);
          era = (if yy \<ge> 0 then yy else yy - 399) div 400;
          yoe = yy - era * 400;
          mp = (if mo > 2 then mo - 3 else mo + 9);
          doy = (153 * mp + 2) div 5 + d - 1;
          doe = yoe * 365 + yoe div 4 - yoe div 100 + doy
      in era * 146097 + doe - 719468)"

definition rfc3339_like_to_secs :: "string \<Rightarrow> int option" where
  "rfc3339_like_to_secs s =
     (if length s \<noteq> 20 \<or> s ! 4 \<noteq> CHR ''-'' \<or> s ! 7 \<noteq> CHR ''-'' \<or> s ! 10 \<noteq> CHR ''T'' \<or>
         s ! 13 \<noteq> CHR '':'' \<or> s ! 16 \<noteq> CHR '':'' \<or> s ! 19 \<noteq> CHR ''Z'' then None
      else case (field_at s 0 4, field_at s 5 7, field_at s 8 10, field_at s 11 13, field_at s 14 16, field_at s 17 19) of
        (Some y, Some mo, Some d, Some h, Some mi, Some se) \<Rightarrow>
          (if \<not> (1 \<le> mo \<and> mo \<le> 12) \<or> \<not> (1 \<le> d \<and> d \<le> 31) \<or> h > 23 \<or> mi > 59 \<or> se > 60 then None
           else let secs = civil_days y mo d * 86400 + h * 3600 + mi * 60 + se
                in if secs \<ge> 0 then Some secs else None)
      | _ \<Rightarrow> None)"

definition REPORT_FRESHNESS_SECS :: int where "REPORT_FRESHNESS_SECS = 24 * 60 * 60"

definition report_is_fresh :: "RegistryEntry \<Rightarrow> int \<Rightarrow> bool" where
  "report_is_fresh e now_secs =
     (case Option.bind (last_report_at e) rfc3339_like_to_secs of
        Some ts \<Rightarrow> sat_i64 (now_secs - ts) \<le> REPORT_FRESHNESS_SECS
      | None \<Rightarrow> False)"

text \<open>
  What one census reads: the registry when it is readable, the short ids of the live workers of
  the roster (an unreadable roster contributes none), the process test of the daemon and the
  \<open>worker:\<close> claims with the verdict of the claim store on each and their parsed metadata.
\<close>

record SlotClaim =
  wc_key :: string
  wc_state :: ClaimState
  wc_record :: "ClaimRecord option"
  wc_meta :: json

record Census =
  ce_registry :: "RegistryEntry list option"
  ce_roster :: "string list"
  ce_pid_is_ours :: "u32 \<Rightarrow> u64 option \<Rightarrow> bool"
  ce_now_secs :: int
  ce_now_ms :: int
  ce_claims :: "SlotClaim list option"

definition row_alive :: "Census \<Rightarrow> RegistryEntry \<Rightarrow> bool" where
  "row_alive ce e =
     (case re_pid e of
        Some p \<Rightarrow> ce_pid_is_ours ce p (re_start e)
      | None \<Rightarrow>
          (let roster_live = map_option (\<lambda>sid. sid \<in> set (ce_roster ce)) (transport_short e)
           in if roster_live = Some True then True
              else if roster_live = Some False \<and> is_roster_policed e then False
              else report_is_fresh e (ce_now_secs ce)))"

definition live_rows :: "Census \<Rightarrow> RegistryEntry list" where
  "live_rows ce =
     (case ce_registry ce of
        None \<Rightarrow> []
      | Some es \<Rightarrow> filter (row_alive ce) (filter (\<lambda>e. status_is_liveish (re_status e)) es))"

section \<open>The slot axis\<close>

record SlotReservation =
  sr_name :: string
  sr_holder :: string
  sr_pid :: "int option"
  sr_age_s :: "nat option"
  sr_state :: string
  sr_provider :: "string option"
  redeemable :: bool

definition slot_reservation :: "int \<Rightarrow> SlotClaim \<Rightarrow> SlotReservation option" where
  "slot_reservation clock_ms c =
     (case wc_record c of
        None \<Rightarrow> None
      | Some rec \<Rightarrow>
          (if wc_state c \<noteq> Live \<and> wc_state c \<noteq> Suspect then None
           else Some \<lparr>sr_name = unwrap_or (strip_prefix (wc_key c) ''worker:'') (wc_key c),
             sr_holder = holder rec, sr_pid = pid rec,
             sr_age_s = Some (nat (max (i64_sub clock_ms (acquired_at rec)) 0 div 1000)),
             sr_state = (if wc_state c = Live then ''live'' else ''suspect''),
             sr_provider = str_field (wc_meta c) ''model_provider'',
             redeemable = is_some_and (\<lambda>who. who \<noteq> []) (str_field (wc_meta c) ''reserved_by'')\<rparr>))"

definition live_worker_slot_claims :: "Census \<Rightarrow> SlotReservation list" where
  "live_worker_slot_claims ce =
     (case ce_claims ce of None \<Rightarrow> [] | Some cs \<Rightarrow> filter_map (slot_reservation (ce_now_ms ce)) cs)"

definition split_leads :: "RegistryEntry list \<Rightarrow> RegistryEntry list \<times> nat" where
  "split_leads rows = (filter (\<lambda>r. role_level r = None) rows, length (filter (\<lambda>r. role_level r \<noteq> None) rows))"

definition slot_reading :: "Census \<Rightarrow> RegistryEntry list \<times> SlotReservation list" where
  "slot_reading ce = (fst (split_leads (live_rows ce)), live_worker_slot_claims ce)"

definition slot_count :: "Census \<Rightarrow> nat" where
  "slot_count ce = (case slot_reading ce of (rows, claims) \<Rightarrow> length rows + length claims)"

definition BURST_SETTLE_SECS :: nat where "BURST_SETTLE_SECS = 60"

definition cap_yields :: "Effective \<Rightarrow> nat \<Rightarrow> Instruments \<Rightarrow> fp \<Rightarrow> fp \<Rightarrow> bool" where
  "cap_yields learned counted i floor_gb swap =
     (if counted < ef_cap learned \<or> ef_cap learned \<ge> ef_ceiling learned then False
      else let mem = read_memory i floor_gb swap
           in (fp_le floor_gb (Fin 0) \<or> mr_avail mem \<noteq> None) \<and> memory_term mem floor_gb swap = None)"

definition at_ceiling :: "Effective \<Rightarrow> Effective" where
  "at_ceiling learned = (at_ceiling_unknown (ef_ceiling learned))\<lparr>ef_known := True\<rparr>"

datatype Burst = Yields | Settling nat | SettleUnread | MemoryOff | MemoryUnread | MemoryLow

fun burst_word :: "Burst \<Rightarrow> string" where
  "burst_word Yields = ''yields''"
| "burst_word (Settling _) = ''settling''"
| "burst_word SettleUnread = ''settle_unread''"
| "burst_word MemoryOff = ''memory_off''"
| "burst_word MemoryUnread = ''memory_unread''"
| "burst_word MemoryLow = ''memory_low''"

definition burst_verdict :: "fp \<Rightarrow> MemoryReading \<Rightarrow> fp \<Rightarrow> nat option \<Rightarrow> Burst" where
  "burst_verdict floor_gb mem swap_cap newest =
     (if fp_le floor_gb (Fin 0) then MemoryOff
      else if mr_avail mem = None then MemoryUnread
      else if memory_term mem floor_gb swap_cap \<noteq> None then MemoryLow
      else case newest of
        None \<Rightarrow> SettleUnread
      | Some newest_s \<Rightarrow> if newest_s < BURST_SETTLE_SECS then Settling newest_s else Yields)"

text \<open>
  The ages the settle window reads. \<open>stamp\<close> is the parser of \<open>created_at\<close> in milliseconds; the
  launch records are those the directory scan found inside the window.
\<close>

definition age_s :: "int \<Rightarrow> int \<Rightarrow> nat" where
  "age_s clock_ms at_ms = nat (max (i64_sub clock_ms at_ms) 0 div 1000)"

definition slot_ages :: "(string \<Rightarrow> int option) \<Rightarrow> RegistryEntry list \<Rightarrow> SlotReservation list \<Rightarrow> string \<Rightarrow> int list \<Rightarrow> int \<Rightarrow> nat list" where
  "slot_ages stamp rows reservations own launches clock_ms =
     map (age_s clock_ms) (filter_map (\<lambda>r. stamp (created_at r)) rows) @
     filter_map sr_age_s (filter (\<lambda>v. \<not> (redeemable v \<and> sr_name v = own)) reservations) @
     map (age_s clock_ms) launches"

definition newest_slot_age_s :: "(string \<Rightarrow> int option) \<Rightarrow> RegistryEntry list \<Rightarrow> SlotReservation list \<Rightarrow> string \<Rightarrow> int list \<Rightarrow> int \<Rightarrow> nat option" where
  "newest_slot_age_s stamp rows reservations own launches clock_ms =
     fold (\<lambda>age newest. Some (case newest of None \<Rightarrow> age | Some n \<Rightarrow> min n age))
       (slot_ages stamp rows reservations own launches clock_ms) None"

definition burst_read :: "nat \<Rightarrow> Effective \<Rightarrow> Instruments \<Rightarrow> fp \<Rightarrow> fp \<Rightarrow> nat option \<Rightarrow> Burst option" where
  "burst_read counted learned i floor_gb swap_cap newest =
     (if counted < ef_ceiling learned \<or> ef_cap learned < ef_ceiling learned then None
      else if fp_le floor_gb (Fin 0) then Some MemoryOff
      else Some (burst_verdict floor_gb (read_memory i floor_gb swap_cap) swap_cap newest))"

definition past_ceiling :: "Effective \<Rightarrow> nat \<Rightarrow> Effective" where
  "past_ceiling learned counted =
     (at_ceiling_unknown (ef_ceiling learned))\<lparr>ef_cap := counted + 1, ef_known := True, ef_burst := True\<rparr>"

section \<open>The lead share\<close>

record ShareReading =
  sh_leads :: nat
  sh_share :: nat
  sh_held :: "string list"
  sh_unattributed :: "string list"

definition teamed :: "RegistryEntry list \<Rightarrow> string list" where
  "teamed es = remdups (filter_map (\<lambda>e. case harness_session_id e of
       Some s \<Rightarrow> if role_level e \<noteq> None \<and> s \<noteq> [] \<and> re_status e \<noteq> APermanentDead then Some s else None
     | None \<Rightarrow> None) es)"

text \<open>The rows the share counts: live workers whose run reported no releasing terminal reason.\<close>

definition charged :: "string list option \<Rightarrow> RegistryEntry \<Rightarrow> bool" where
  "charged terminal e =
     (status_is_liveish (re_status e) \<and> role_level e = None \<and>
      \<not> (case terminal of Some t \<Rightarrow> is_some_and (\<lambda>sid. sid \<in> set t) (harness_session_id e) | None \<Rightarrow> False))"

definition share_reading :: "RegistryEntry list \<Rightarrow> nat \<Rightarrow> string \<Rightarrow> string list option \<Rightarrow> ShareReading" where
  "share_reading es c caller terminal =
     (let leads = length (teamed es); rows = filter (charged terminal) es
      in \<lparr>sh_leads = leads,
          sh_share = (if leads = 0 then 1 else max (c div leads) 1),
          sh_held = map re_name (filter (\<lambda>e. spawned_by_session e = Some caller) rows),
          sh_unattributed = map re_name (filter (\<lambda>e. spawned_by_session e = None) rows)\<rparr>)"

definition check_lead_share :: "RegistryEntry list option \<Rightarrow> Effective \<Rightarrow> string option \<Rightarrow> string list option \<Rightarrow> Refusal + unit" where
  "check_lead_share registry learned caller_session terminal =
     (case filter_option (\<lambda>c. c \<noteq> []) caller_session of
        None \<Rightarrow> Inr ()
      | Some caller \<Rightarrow> (case registry of
          None \<Rightarrow> Inr ()
        | Some es \<Rightarrow>
            (let r = share_reading es (ef_cap learned) caller terminal
             in if length (sh_held r) < sh_share r then Inr ()
                else Inl ((refuse EXIT_LEAD_SHARE ''lead_share'' ''lead_share'')\<lparr>rf_count := Some (length (sh_held r))\<rparr>))))"

section \<open>Succession\<close>

text \<open>\<open>settle\<close> is the answer of the team settlement: the outcome and the vacated rows.\<close>

definition succession_replaces ::
  "(RegistryEntry list \<Rightarrow> string \<Rightarrow> RegistryEntry \<Rightarrow> (string option \<times> json list option) option) \<Rightarrow>
   RegistryEntry list \<Rightarrow> string option \<Rightarrow> string \<Rightarrow> string + string" where
  "succession_replaces settle live caller0 scope =
     (case filter_option (\<lambda>s. s \<noteq> []) caller0 of
        None \<Rightarrow> Inl ''no_caller''
      | Some caller \<Rightarrow> (case filter (\<lambda>r. harness_session_id r = Some caller \<or> cc_session_id r = Some caller) live of
          [] \<Rightarrow> Inl ''caller_not_live''
        | [row] \<Rightarrow> (case settle live scope row of
            None \<Rightarrow> Inl ''settle_unreadable''
          | Some (outcome, vacate) \<Rightarrow>
              (if outcome = Some ''succeeded'' \<and>
                  is_some_and (\<lambda>vs. length vs = 1 \<and> as_str (vs ! 0) = Some (re_name row)) vacate
               then Inr (re_name row) else Inl ''caller_not_sole_holder''))
        | _ \<Rightarrow> Inl ''caller_ambiguous''))"

section \<open>The axes that refuse and never queue\<close>

definition REGISTRY_SCHEMA_UNDERSTOOD :: "nat \<Rightarrow> json option \<Rightarrow> bool" where
  "REGISTRY_SCHEMA_UNDERSTOOD understood doc =
     (case Option.bind doc (\<lambda>d. Option.bind (get_field d ''schema_version'') as_u64) of
        None \<Rightarrow> True
      | Some on_disk \<Rightarrow>
          unwrap_or (Option.bind doc (\<lambda>d. Option.bind (get_field d ''min_writer_version'') as_u64)) on_disk \<le> understood)"

definition check_registry_schema :: "nat \<Rightarrow> json option \<Rightarrow> Refusal + unit" where
  "check_registry_schema understood doc =
     (if REGISTRY_SCHEMA_UNDERSTOOD understood doc then Inr ()
      else Inl (refuse EXIT_REGISTRY_SCHEMA ''registry_schema'' ''registry_schema''))"

definition check_node_occupancy :: "string + (string \<times> string list) list \<Rightarrow> string \<Rightarrow> bool \<Rightarrow> Refusal + unit" where
  "check_node_occupancy workers node force =
     (case workers of
        Inr m \<Rightarrow> (case map_of m node of
            Some names \<Rightarrow> Inl (refuse EXIT_NODE_OCCUPIED ''occupancy'' ''node_occupied'')
          | None \<Rightarrow> Inr ())
      | Inl why \<Rightarrow> if force then Inr () else Inl (refuse EXIT_NODE_OCCUPIED ''occupancy'' ''node_occupancy_unknown''))"

text \<open>\<open>territory\<close> is the answer of \<open>territory_of_node\<close>, \<open>held\<close> the live node claims.\<close>

definition check_territory_cap ::
  "(string \<times> string list \<times> bool) option \<Rightarrow> string list option \<Rightarrow> nat \<Rightarrow> Refusal + unit" where
  "check_territory_cap territory held_nodes c =
     (case territory of
        None \<Rightarrow> Inl (refuse EXIT_TERRITORY_CAP ''territory'' ''territory_unknown'')
      | Some (scope, members, leadless) \<Rightarrow> (case held_nodes of
          None \<Rightarrow> Inl (refuse EXIT_TERRITORY_CAP ''territory'' ''territory_unknown'')
        | Some held \<Rightarrow>
            (let count = card (set members \<inter> set held)
             in if c \<le> count then Inl ((refuse EXIT_TERRITORY_CAP ''territory'' ''territory_cap'')\<lparr>rf_count := Some count\<rparr>)
                else Inr ())))"

text \<open>\<open>is_bp\<close> is the test of a name by the dispatch vocabulary.\<close>

definition check_blueprint_cap ::
  "(string \<Rightarrow> bool) \<Rightarrow> nat \<Rightarrow> nat \<Rightarrow> string \<Rightarrow> string option \<Rightarrow> (string \<times> string list \<times> bool) option \<Rightarrow>
   RegistryEntry list \<Rightarrow> Refusal + unit" where
  "check_blueprint_cap is_bp bp_max bp_territory_max name node territory live =
     (if \<not> is_bp name then Inr ()
      else let rows = filter (\<lambda>r. is_bp (re_name r)) live
           in if bp_max \<le> length rows
              then Inl ((refuse EXIT_BLUEPRINT_CAP ''blueprint'' ''blueprint_cap'')\<lparr>rf_count := Some (length rows)\<rparr>)
              else case node of
                None \<Rightarrow> Inr ()
              | Some n \<Rightarrow> (case territory of
                  None \<Rightarrow> Inl (refuse EXIT_BLUEPRINT_CAP ''blueprint'' ''territory_unknown'')
                | Some (scope, members, leadless) \<Rightarrow>
                    (let here = filter (\<lambda>r. is_some_and (\<lambda>m. m \<in> set members) (re_node r)) rows
                     in if bp_territory_max \<le> length here
                        then Inl ((refuse EXIT_BLUEPRINT_CAP ''blueprint'' ''blueprint_territory_cap'')\<lparr>rf_count := Some (length here)\<rparr>)
                        else Inr ())))"

section \<open>The lane caps of the providers\<close>

definition positive_lane_cap :: "int \<Rightarrow> nat option" where
  "positive_lane_cap v = (if 0 < v then Some (nat v) else None)"

definition ascii_lower :: "char \<Rightarrow> bool" where
  "ascii_lower c = (let n = of_char c :: nat in 97 \<le> n \<and> n \<le> 122)"

definition valid_provider_name :: "string \<Rightarrow> bool" where
  "valid_provider_name p =
     (case p of
        [] \<Rightarrow> False
      | c # rest \<Rightarrow> ascii_lower c \<and>
          list_all (\<lambda>c. ascii_lower c \<or> is_digit c \<or> c = CHR ''_'' \<or> c = CHR ''-'') rest)"

definition lane_dimension :: "cfg_value \<Rightarrow> nat option" where
  "lane_dimension v = Option.bind (as_integer v) positive_lane_cap"

definition coerce_lanes :: "cfg_value \<Rightarrow> nat option option" where
  "coerce_lanes budget =
     (case as_integer budget of
        Some value \<Rightarrow> map_option Some (positive_lane_cap value)
      | None \<Rightarrow> (case cfg_table budget of
          None \<Rightarrow> None
        | Some dimensions \<Rightarrow>
            (if list_ex (\<lambda>(k, _). k \<noteq> ''lanes'' \<and> k \<noteq> ''subagents'') dimensions then None
             else if list_ex (\<lambda>(_, v). lane_dimension v = None) dimensions then None
             else Some (Option.bind (map_of dimensions ''lanes'') lane_dimension))))"

fun coerce_budgets :: "(string \<times> cfg_value) list \<Rightarrow> (string \<times> nat option) list option" where
  "coerce_budgets [] = Some []"
| "coerce_budgets ((provider, budget) # rest) =
     (if \<not> valid_provider_name provider then None
      else case coerce_lanes budget of
        None \<Rightarrow> None
      | Some lanes \<Rightarrow> map_option (\<lambda>caps. (provider,
            (case lanes of Some n \<Rightarrow> Some n | None \<Rightarrow> if provider = ''zai'' then Some 5 else None)) # caps)
          (coerce_budgets rest))"

definition coerce_provider_lane_caps :: "cfg_value \<Rightarrow> (string \<times> nat option) list option" where
  "coerce_provider_lane_caps raw = Option.bind (cfg_table raw) coerce_budgets"

definition built_in_provider_lane_caps :: "(string \<times> nat option) list" where
  "built_in_provider_lane_caps = [(''zai'', Some 5)]"

definition provider_lane_caps :: "cfg_value option \<Rightarrow> cfg_value option \<Rightarrow> (string \<times> nat option) list" where
  "provider_lane_caps provider_limits max_lanes =
     (case (case provider_limits of Some raw \<Rightarrow> Some raw | None \<Rightarrow> max_lanes) of
        Some raw \<Rightarrow> unwrap_or (coerce_provider_lane_caps raw) built_in_provider_lane_caps
      | None \<Rightarrow> built_in_provider_lane_caps)"

definition provider_lanes_cap :: "cfg_value option \<Rightarrow> cfg_value option \<Rightarrow> string \<Rightarrow> nat option" where
  "provider_lanes_cap provider_limits max_lanes provider =
     Option.bind (map_of (provider_lane_caps provider_limits max_lanes) provider) (\<lambda>c. c)"

section \<open>The vendor walls\<close>

text \<open>The deadline of the account's lock, already dropped when it is not in the future.\<close>

definition check_account_quota_lock :: "(string \<Rightarrow> fp option) \<Rightarrow> string \<Rightarrow> Refusal + unit" where
  "check_account_quota_lock locked_until account_name =
     (if account_name = [] \<or> account_name = ''default'' then Inr ()
      else if locked_until account_name = None then Inr ()
      else Inl (refuse EXIT_PROVIDER_CAP ''provider_quota_lock'' ''provider_quota_lock''))"

datatype Login = LoggedIn | LoggedOut string | LoginUnknown string

definition check_account_login_with ::
  "(string \<Rightarrow> string + string option) \<Rightarrow> (string \<Rightarrow> Login) \<Rightarrow> string option \<Rightarrow> string \<Rightarrow> Refusal + unit" where
  "check_account_login_with binding probe route_provider account_name =
     (if account_name = [] \<or> account_name = ''default'' then Inr ()
      else if is_some_and (\<lambda>p. p \<noteq> ''anthropic'') route_provider then Inr ()
      else case binding account_name of
        Inr (Some dir) \<Rightarrow> (case probe dir of
            LoggedOut detail \<Rightarrow> Inl (refuse EXIT_PROVIDER_CAP ''account_not_logged_in'' ''account_not_logged_in'')
          | _ \<Rightarrow> Inr ())
      | _ \<Rightarrow> Inr ())"

definition UNKNOWN_RESET_HOLD_S :: int where "UNKNOWN_RESET_HOLD_S = 5 * 3600"

text \<open>
  \<open>now\<close> is the wall clock in seconds and its fraction, compared with a reset as \<open>f64\<close>: a
  reset in whole seconds is above it exactly when it is above its floor.
\<close>

definition lane_locked :: "(string \<Rightarrow> int option) \<Rightarrow> int \<Rightarrow> CapLane \<Rightarrow> bool" where
  "lane_locked stamp now_epoch l =
     (if lane_state l \<noteq> ''open'' \<or> lane_reset_passed l \<noteq> None then False
      else if is_some_and (\<lambda>r. now_epoch < r) (lane_reset l) then True
      else lane_reset l = None \<and>
        (case filter_map (\<lambda>m. Option.bind (newest_assistant m) stamp) (filter capped (lane_members l)) of
           [] \<Rightarrow> False
         | t # ts \<Rightarrow> (let newest = foldl max t ts
                      in newest \<le> now_epoch \<and> now_epoch - newest < UNKNOWN_RESET_HOLD_S)))"

definition check_lane_quota_lock :: "(string \<Rightarrow> int option) \<Rightarrow> int \<Rightarrow> CapLane list option \<Rightarrow> string \<Rightarrow> Refusal + unit" where
  "check_lane_quota_lock stamp now_epoch snapshot provider =
     (if provider = [] then Inr ()
      else case snapshot of
        None \<Rightarrow> Inr ()
      | Some lanes \<Rightarrow>
          (if list_ex (\<lambda>l. lane_provider l = provider \<and> lane_locked stamp now_epoch l) lanes
           then Inl (refuse EXIT_PROVIDER_CAP ''provider_quota_lock'' ''provider_quota_lock'') else Inr ()))"

section \<open>The doors before any capacity\<close>

definition gate_agent_origin :: "(string \<Rightarrow> string option) \<Rightarrow> bool" where
  "gate_agent_origin var =
     (is_some_and (\<lambda>n. n \<noteq> []) (var ''FNO_AGENT_SELF'') \<or>
      var ''CLAUDECODE'' = Some ''1'' \<and> var ''CLAUDE_CODE_SESSION_ATTENDED'' = Some ''0'')"

datatype Verdict = Clear | Stopped | Unavailable

definition fleet_incident_gate :: "bool \<Rightarrow> Verdict \<Rightarrow> Refusal + unit" where
  "fleet_incident_gate agent_origin v =
     (if \<not> agent_origin then Inr ()
      else case v of
        Clear \<Rightarrow> Inr ()
      | Stopped \<Rightarrow> Inl (refuse EXIT_FLEET_STOP ''fleet-stop'' ''fleet-stop'')
      | Unavailable \<Rightarrow> Inl (refuse EXIT_FLEET_STOP_UNAVAILABLE ''fleet-stop-unavailable'' ''fleet-stop-unavailable''))"

definition process_admission_gate :: "bool \<Rightarrow> bool \<Rightarrow> bool \<Rightarrow> Refusal + unit" where
  "process_admission_gate agent_origin takes_work brake_holds =
     (if \<not> agent_origin then Inr ()
      else if \<not> takes_work then Inl (refuse EXIT_FLEET_STOP ''machine-takes-no-work'' ''machine-takes-no-work'')
      else if brake_holds then Inl (refuse EXIT_FLEET_STOP ''machine-runaway'' ''machine-runaway'')
      else Inr ())"

text \<open>The bundled table \<open>spawn_phase.toml\<close>.\<close>

definition command_phases :: "(string \<times> string) list" where
  "command_phases =
     [(''target'', ''execute''), (''execute'', ''execute''), (''tdd'', ''execute''), (''fix'', ''execute''),
      (''do'', ''execute''), (''review'', ''review''), (''code-review'', ''review''),
      (''blueprint'', ''blueprint''), (''think'', ''think''), (''pr'', ''ship''), (''ship'', ''ship'')]"

definition seed_phase :: "string \<Rightarrow> string option" where
  "seed_phase s =
     (case dropWhile is_space s of
        [] \<Rightarrow> None
      | rest \<Rightarrow> (case parse_command_token (takeWhile (\<lambda>c. \<not> is_space c) rest) of
          None \<Rightarrow> None
        | Some (command, _) \<Rightarrow> map_of command_phases command))"

definition review_session_gate :: "string option \<Rightarrow> string option \<Rightarrow> Refusal option" where
  "review_session_gate session_phase message =
     (if session_phase \<noteq> Some ''review'' \<and> Option.bind message seed_phase \<noteq> Some ''review'' then None
      else Some (refuse EXIT_REVIEW_SESSION ''review'' ''review_session''))"

end
