(* ===== verification/Gate_Loop.thy ===== *)
theory Gate_Loop
  imports Gate_Axes
begin

text \<open>
  The decision of the spawn gate, \<open>decide_gate\<close> of \<open>crates/fno-agents/src/spawn_gate.rs\<close>: the
  doors and walls before any capacity, the forced path, and the loop in which a spawn takes the gate
  mutex, reads the CPU axis and the slots, and is admitted, refused or made to wait.

  One pass of the loop is a function of the state that survives a pass and of the reading the pass
  takes; the loop runs over a list of readings. The clock is in milliseconds. The events and
  sentences a pass prints are left out; the receipt's figures that the properties are about are kept.
\<close>

section \<open>The guard\<close>

record GateGuard =
  gate_key :: bool
  worker_key :: bool

definition no_keys :: GateGuard where "no_keys = \<lparr>gate_key = False, worker_key = False\<rparr>"

definition release_guard :: "GateGuard \<Rightarrow> GateGuard" where
  "release_guard g = g\<lparr>gate_key := False, worker_key := False\<rparr>"

definition release_gate_mutex :: "GateGuard \<Rightarrow> GateGuard" where
  "release_gate_mutex g = g\<lparr>gate_key := False\<rparr>"

datatype AcquireOutcome = Acquired | HeldByOther | ClaimFault

definition acquire_worker_slot :: "AcquireOutcome \<Rightarrow> bool \<Rightarrow> GateGuard \<Rightarrow> unit option \<times> GateGuard" where
  "acquire_worker_slot outcome fail_closed g =
     (case outcome of
        Acquired \<Rightarrow> (Some (), g\<lparr>worker_key := True\<rparr>)
      | _ \<Rightarrow> (if fail_closed then (None, g) else (Some (), g)))"

definition gate_fault_refusal :: "string \<Rightarrow> Refusal" where
  "gate_fault_refusal word = refuse EXIT_PROVIDER_CAP word word"

section \<open>The spawn and one reading\<close>

record GateInput =
  gi_name :: string
  gi_substrate :: string
  gi_force :: bool
  gi_no_wait :: bool
  gi_provider :: "string option"
  gi_node :: "string option"
  gi_account :: "string option"
  gi_caller :: "string option"
  gi_scope :: "string option"
  gi_message :: "string option"
  gi_phase :: "string option"

definition claims_slot :: "GateInput \<Rightarrow> bool" where
  "claims_slot input = (gi_substrate input = ''headless'' \<or> gi_substrate input = ''cloud'')"

text \<open>What the gate reads once: its configuration and the parsers of its inputs.\<close>

record GateConfig =
  gc_floor_gb :: fp
  gc_swap_cap :: fp
  gc_provider_limits :: "cfg_value option"
  gc_max_lanes :: "cfg_value option"
  gc_territory_max :: nat
  gc_bp_max :: nat
  gc_bp_territory_max :: nat
  gc_schema :: nat
  gc_is_bp :: "string \<Rightarrow> bool"
  gc_parse :: "string \<Rightarrow> FootprintPayload option"
  gc_stamp :: "string \<Rightarrow> int option"
  gc_settle :: "RegistryEntry list \<Rightarrow> string \<Rightarrow> RegistryEntry \<Rightarrow> (string option \<times> json list option) option"

text \<open>What one pass reads, in the order it reads it.\<close>

record PassReading =
  pr_home :: "CapacityState option option"
  pr_max_live :: nat
  pr_floor :: nat
  pr_probe :: "string + string"
  pr_mutex :: AcquireOutcome
  pr_t_mutex :: nat
  pr_lanes :: "string + nat"
  pr_t_tick :: nat
  pr_census :: Census
  pr_rows_again :: Census
  pr_mem_yield :: Instruments
  pr_mem_burst :: Instruments
  pr_launches :: "int list"
  pr_clock :: int
  pr_schema :: "json option"
  pr_mem_floor :: Instruments
  pr_registry :: "RegistryEntry list option"
  pr_terminal :: "string list option"
  pr_workers :: "string + (string \<times> string list) list"
  pr_territory :: "(string \<times> string list \<times> bool) option"
  pr_held_nodes :: "string list option"
  pr_slot_claim :: AcquireOutcome
  pr_t_end :: nat

text \<open>The lane cap binds the provider axis only; an unrouted spawn is uncapped.\<close>

definition lanes_cap :: "GateConfig \<Rightarrow> GateInput \<Rightarrow> nat option" where
  "lanes_cap cfg input = Option.bind (gi_provider input) (provider_lanes_cap (gc_provider_limits cfg) (gc_max_lanes cfg))"

definition QUEUE_POLL :: nat where "QUEUE_POLL = 2000"
definition QUEUE_TIMEOUT :: nat where "QUEUE_TIMEOUT = 240000"
definition CPU_HOLD_POLL :: nat where "CPU_HOLD_POLL = 15000"
definition CPU_BLIND_POLL :: nat where "CPU_BLIND_POLL = 5000"
definition CPU_ADMIT_SAMPLES :: nat where "CPU_ADMIT_SAMPLES = 2"
definition CPU_BLIND_SAMPLES :: nat where "CPU_BLIND_SAMPLES = 3"
definition MUTEX_WAIT_BUDGET :: nat where "MUTEX_WAIT_BUDGET = 60000"
definition PRINT_EVERY :: nat where "PRINT_EVERY = 30000"

text \<open>What survives a pass.\<close>

record GateState =
  guard :: GateGuard
  gs_printed :: "nat option"
  announced :: bool
  last_slots :: nat
  held_on_cpu :: bool
  under_streak :: nat
  blind_samples :: nat
  mutex_blocked_since :: "nat option"

definition gate_start :: GateState where
  "gate_start = \<lparr>guard = no_keys, gs_printed = None, announced = False, last_slots = 0, held_on_cpu = False,
     under_streak = 0, blind_samples = 0, mutex_blocked_since = None\<rparr>"

text \<open>
  A pass that waits goes on with the facts the timeout receipt names: the cap the pass carries and
  what it read about a burst.
\<close>

datatype PassResult =
    Admit GateState
  | Deny Refusal
  | Wait GateState nat "Burst option"

definition queue_tick :: "nat \<Rightarrow> GateState \<Rightarrow> bool \<times> GateState" where
  "queue_tick now st =
     (if is_some_and (\<lambda>t. now - t < PRINT_EVERY) (gs_printed st) then (False, st)
      else (True, st\<lparr>gs_printed := Some now\<rparr>))"

section \<open>The forced branch\<close>

definition release_state :: "GateState \<Rightarrow> GateState" where
  "release_state st = st\<lparr>guard := release_guard (guard st)\<rparr>"

definition release_mutex :: "GateState \<Rightarrow> GateState" where
  "release_mutex st = st\<lparr>guard := release_gate_mutex (guard st)\<rparr>"

definition memory_check :: "GateConfig \<Rightarrow> GateInput \<Rightarrow> Instruments \<Rightarrow> Refusal + unit" where
  "memory_check cfg input i =
     (if charges_local_memory (gi_substrate input) then check_ram_floor i (gc_floor_gb cfg) (gc_swap_cap cfg)
      else Inr ())"

definition forced_pass :: "GateConfig \<Rightarrow> GateInput \<Rightarrow> GateState \<Rightarrow> PassReading \<Rightarrow> PassResult" where
  "forced_pass cfg input st r =
     (case memory_check cfg input (pr_mem_floor r) of
        Inl e \<Rightarrow> Deny e
      | Inr _ \<Rightarrow>
          (if claims_slot input then
             (case acquire_worker_slot (pr_slot_claim r) True (guard st) of
                (None, _) \<Rightarrow> Deny (gate_fault_refusal ''lane_reservation_unavailable'')
              | (Some _, g) \<Rightarrow> Admit (st\<lparr>guard := g\<rparr>))
           else Admit st))"

section \<open>The slot axis of a pass\<close>

record SlotVerdict =
  sv_learned :: Effective
  sv_slots :: nat
  sv_counted :: nat
  sv_replaced :: nat
  sv_burst :: "Burst option"

text \<open>
  The slots of a pass: the count without the spawn's own reservation, the learned cap that yields
  to the user's ceiling while the machine has room, and the ceiling that a burst passes.
\<close>

definition slot_verdict :: "GateConfig \<Rightarrow> GateInput \<Rightarrow> Effective \<Rightarrow> PassReading \<Rightarrow> SlotVerdict" where
  "slot_verdict cfg input learned0 r =
     (let (live, reservations) = slot_reading (pr_census r);
          slots = length live + length reservations;
          own = list_ex (\<lambda>v. sr_name v = gi_name input \<and> redeemable v) reservations;
          succession = map_option (succession_replaces (gc_settle cfg) (live_rows (pr_rows_again r)) (gi_caller input)) (gi_scope input);
          replaced = (case succession of Some (Inr _) \<Rightarrow> 1 | _ \<Rightarrow> 0);
          counted = slots - (if own then 1 else 0);
          learned1 = (if cap_yields learned0 counted (pr_mem_yield r) (gc_floor_gb cfg) (gc_swap_cap cfg)
                      then at_ceiling learned0 else learned0);
          b = burst_read counted learned1 (pr_mem_burst r) (gc_floor_gb cfg) (gc_swap_cap cfg)
                (newest_slot_age_s (gc_stamp cfg) live reservations (gi_name input) (pr_launches r) (pr_clock r));
          learned2 = (if b = Some Yields then past_ceiling learned1 counted else learned1)
      in \<lparr>sv_learned = learned2, sv_slots = slots, sv_counted = counted, sv_replaced = replaced, sv_burst = b\<rparr>)"

text \<open>The checks between a free slot and the admission, in the order the source makes them.\<close>

definition lead_share_check :: "GateInput \<Rightarrow> PassReading \<Rightarrow> SlotVerdict \<Rightarrow> Refusal + unit" where
  "lead_share_check input r v =
     (if sv_replaced v = 1 then Inr ()
      else check_lead_share (pr_registry r) (sv_learned v) (gi_caller input) (pr_terminal r))"

definition occupancy_check :: "GateInput \<Rightarrow> PassReading \<Rightarrow> Refusal + unit" where
  "occupancy_check input r =
     (case gi_node input of None \<Rightarrow> Inr () | Some n \<Rightarrow> check_node_occupancy (pr_workers r) n (gi_force input))"

definition territory_check :: "GateConfig \<Rightarrow> GateInput \<Rightarrow> PassReading \<Rightarrow> Refusal + unit" where
  "territory_check cfg input r =
     (case gi_node input of None \<Rightarrow> Inr ()
      | Some n \<Rightarrow> check_territory_cap (pr_territory r) (pr_held_nodes r) (gc_territory_max cfg))"

definition blueprint_check :: "GateConfig \<Rightarrow> GateInput \<Rightarrow> PassReading \<Rightarrow> RegistryEntry list \<Rightarrow> Refusal + unit" where
  "blueprint_check cfg input r live =
     check_blueprint_cap (gc_is_bp cfg) (gc_bp_max cfg) (gc_bp_territory_max cfg) (gi_name input) (gi_node input)
       (pr_territory r) live"

definition seq_checks :: "(Refusal + unit) list \<Rightarrow> Refusal + unit" where
  "seq_checks cs = (case filter_map (\<lambda>c. case c of Inl e \<Rightarrow> Some e | Inr _ \<Rightarrow> None) cs of [] \<Rightarrow> Inr () | e # _ \<Rightarrow> Inl e)"

definition dequeue_checks :: "GateConfig \<Rightarrow> GateInput \<Rightarrow> PassReading \<Rightarrow> SlotVerdict \<Rightarrow> Refusal + unit" where
  "dequeue_checks cfg input r v =
     seq_checks [check_registry_schema (gc_schema cfg) (pr_schema r),
       memory_check cfg input (pr_mem_floor r),
       lead_share_check input r v,
       occupancy_check input r,
       territory_check cfg input r,
       blueprint_check cfg input r (fst (slot_reading (pr_census r)))]"

definition admit_pass :: "GateConfig \<Rightarrow> GateInput \<Rightarrow> GateState \<Rightarrow> PassReading \<Rightarrow> PassResult" where
  "admit_pass cfg input st r =
     (if claims_slot input then
        (case acquire_worker_slot (pr_slot_claim r) (lanes_cap cfg input \<noteq> None) (guard st) of
           (None, _) \<Rightarrow> Deny (gate_fault_refusal ''lane_reservation_unavailable'')
         | (Some _, g) \<Rightarrow> Admit (st\<lparr>guard := release_gate_mutex g\<rparr>))
      else Admit st)"

definition slot_pass :: "GateConfig \<Rightarrow> GateInput \<Rightarrow> Effective \<Rightarrow> GateState \<Rightarrow> PassReading \<Rightarrow> PassResult" where
  "slot_pass cfg input learned st r =
     (let v = slot_verdict cfg input learned r;
          st = st\<lparr>last_slots := sv_slots v\<rparr>;
          c = ef_cap (sv_learned v)
      in if sv_counted v - sv_replaced v < c then
           (case dequeue_checks cfg input r v of
              Inl e \<Rightarrow> Deny e
            | Inr _ \<Rightarrow> admit_pass cfg input st r)
         else if gi_no_wait input then
           Deny ((refuse EXIT_NO_WAIT ''max_live'' ''no_wait'')\<lparr>rf_count := Some (sv_slots v),
             rf_burst := map_option burst_word (sv_burst v)\<rparr>)
         else (let (ticked, st) = queue_tick (pr_t_tick r) (release_mutex st)
               in Wait (if ticked then st\<lparr>announced := True\<rparr> else st) QUEUE_POLL (sv_burst v)))"

section \<open>The CPU axis of a pass\<close>

text \<open>The verdict words the gate branches on; any other word is an unreadable instrument.\<close>

datatype CpuSample = Blind | Over | Under | Unknown

definition cpu_sample :: "CpuAdmission \<Rightarrow> CpuSample" where
  "cpu_sample a =
     (let w = ap_verdict (cpu_payload a)
      in if w = ''refuse'' \<or> w = ''undecidable'' then Blind else if w = ''hold'' then Over
         else if w = ''admit'' then Under else Unknown)"

definition cpu_pass :: "GateConfig \<Rightarrow> GateInput \<Rightarrow> Effective \<Rightarrow> GateState \<Rightarrow> PassReading \<Rightarrow> PassResult" where
  "cpu_pass cfg input learned st r =
     (let cpu = check_cpu_axis (gc_parse cfg) (pr_probe r)
      in case cpu_sample cpu of
           Blind \<Rightarrow>
             (let n = blind_samples st + 1; st = st\<lparr>under_streak := 0, blind_samples := n\<rparr>
              in if \<not> gi_no_wait input \<and> n < CPU_BLIND_SAMPLES
                 then Wait (release_mutex st) CPU_BLIND_POLL None
                 else Deny ((refuse EXIT_LOAD_REFUSED ''cpu'' (cpu_token cpu))\<lparr>rf_samples := Some n\<rparr>))
         | Over \<Rightarrow>
             (let st = release_mutex (st\<lparr>held_on_cpu := True, under_streak := 0, blind_samples := 0\<rparr>)
              in if gi_no_wait input
                 then Deny ((refuse EXIT_LOAD_REFUSED ''cpu'' ''fleet_cpu_share'')\<lparr>rf_samples := Some 1\<rparr>)
                 else let (ticked, st) = queue_tick (pr_t_tick r) st
                      in Wait (if ticked then st\<lparr>announced := True\<rparr> else st) CPU_HOLD_POLL None)
         | Under \<Rightarrow>
             (let st = st\<lparr>blind_samples := 0\<rparr>
              in if held_on_cpu st then
                   (let n = under_streak st + 1
                    in if n < CPU_ADMIT_SAMPLES
                       then Wait (release_mutex (st\<lparr>under_streak := n\<rparr>)) CPU_HOLD_POLL None
                       else slot_pass cfg input learned (st\<lparr>held_on_cpu := False, under_streak := 0\<rparr>) r)
                 else slot_pass cfg input learned st r)
         | Unknown \<Rightarrow> Deny (refuse EXIT_LOAD_REFUSED ''cpu_instrument'' ''cpu_instrument_unreadable''))"

section \<open>One pass\<close>

text \<open>
  The mutex: acquired, or passed by when its claim fails and no lane cap needs the count to be
  serialized, or passed by after an unbroken minute of a busy mutex.
\<close>

datatype MutexResult = Pass GateState | Busy GateState | Fault Refusal

definition take_mutex :: "GateConfig \<Rightarrow> GateInput \<Rightarrow> GateState \<Rightarrow> PassReading \<Rightarrow> MutexResult" where
  "take_mutex cfg input st r =
     (let fail_closed = (lanes_cap cfg input \<noteq> None);
          passed = (\<lambda>st. Pass (st\<lparr>guard := (guard st)\<lparr>gate_key := True\<rparr>\<rparr>))
      in case pr_mutex r of
           Acquired \<Rightarrow> passed (st\<lparr>mutex_blocked_since := None\<rparr>)
         | ClaimFault \<Rightarrow> (if fail_closed then Fault (gate_fault_refusal ''gate_mutex_unavailable'')
                         else passed (st\<lparr>mutex_blocked_since := None\<rparr>))
         | HeldByOther \<Rightarrow>
             (let begun = unwrap_or (mutex_blocked_since st) (pr_t_mutex r);
                  st = st\<lparr>mutex_blocked_since := Some begun\<rparr>
              in if gi_no_wait input then Fault (refuse EXIT_NO_WAIT ''no_wait_mutex_held'' ''no_wait_mutex_held'')
                 else if MUTEX_WAIT_BUDGET \<le> pr_t_mutex r - begun \<and> \<not> fail_closed then passed st
                 else Busy (snd (queue_tick (pr_t_tick r) st))))"

definition lane_check :: "GateConfig \<Rightarrow> GateInput \<Rightarrow> PassReading \<Rightarrow> Refusal + unit" where
  "lane_check cfg input r =
     (case lanes_cap cfg input of
        None \<Rightarrow> Inr ()
      | Some c \<Rightarrow> (case pr_lanes r of
          Inl why \<Rightarrow> Inl (gate_fault_refusal ''gate_mutex_unavailable'')
        | Inr live \<Rightarrow>
            (if c \<le> live \<and> \<not> gi_force input
             then Inl ((refuse EXIT_PROVIDER_CAP ''provider_cap'' ''provider_cap'')\<lparr>rf_count := Some live\<rparr>)
             else Inr ())))"

definition read_cap :: "PassReading \<Rightarrow> Effective" where
  "read_cap r = effective_from_env (pr_home r) (pr_max_live r) (pr_floor r)"

definition gate_pass :: "GateConfig \<Rightarrow> GateInput \<Rightarrow> GateState \<Rightarrow> PassReading \<Rightarrow> PassResult" where
  "gate_pass cfg input st r =
     (case take_mutex cfg input st r of
        Fault e \<Rightarrow> Deny e
      | Busy st \<Rightarrow> Wait st QUEUE_POLL None
      | Pass st \<Rightarrow>
          (case lane_check cfg input r of
             Inl e \<Rightarrow> Deny e
           | Inr _ \<Rightarrow>
               if gi_force input then forced_pass cfg input st r
               else cpu_pass cfg input (read_cap r) st r))"

section \<open>The loop\<close>

definition timeout_refusal :: "GateState \<Rightarrow> Burst option \<Rightarrow> Refusal" where
  "timeout_refusal st b =
     (let held_on = (if mutex_blocked_since st \<noteq> None then ''gate_mutex''
                     else if held_on_cpu st then ''fleet_cpu_share'' else ''max_live'');
          word = (if mutex_blocked_since st \<noteq> None then ''gate_mutex_busy'' else ''queue_timeout'')
      in (refuse EXIT_QUEUE_TIMEOUT held_on word)\<lparr>rf_count := Some (last_slots st),
           rf_burst := map_option burst_word b\<rparr>)"

text \<open>
  The loop over the readings of its passes: the answer, or \<open>Queued\<close> while the readings end with the
  spawn still waiting. A refusal drops the guard.
\<close>

datatype GateAnswer = Granted GateGuard | Refused Refusal | Queued GateState

fun gate_loop :: "GateConfig \<Rightarrow> GateInput \<Rightarrow> nat \<Rightarrow> GateState \<Rightarrow> PassReading list \<Rightarrow> GateAnswer" where
  "gate_loop cfg input started st [] = Queued st"
| "gate_loop cfg input started st (r # rs) =
     (case gate_pass cfg input st r of
        Admit st' \<Rightarrow> Granted (guard st')
      | Deny e \<Rightarrow> Refused e
      | Wait st' pause b \<Rightarrow>
          (if QUEUE_TIMEOUT \<le> pr_t_end r - started then Refused (timeout_refusal st' b)
           else gate_loop cfg input started st' rs))"

section \<open>The doors\<close>

text \<open>What the gate reads before the loop.\<close>

record DoorReading =
  dr_var :: "string \<Rightarrow> string option"
  dr_incident :: Verdict
  dr_takes_work :: bool
  dr_brake :: bool
  dr_schema :: "json option"
  dr_locked_until :: "string \<Rightarrow> fp option"
  dr_binding :: "string \<Rightarrow> string + string option"
  dr_login :: "string \<Rightarrow> Login"
  dr_snapshot :: "CapLane list option"
  dr_now :: int
  dr_workers :: "string + (string \<times> string list) list"
  dr_slot_claim :: AcquireOutcome
  dr_territory :: "(string \<times> string list \<times> bool) option"
  dr_held_nodes :: "string list option"
  dr_census :: Census
  dr_mem :: Instruments

text \<open>
  The walls that no flag and no human passes: the schema of the registry, the quota and the login of
  the account, the quota of the lane and a live worker on the node.
\<close>

definition gate_walls :: "GateConfig \<Rightarrow> GateInput \<Rightarrow> DoorReading \<Rightarrow> Refusal + unit" where
  "gate_walls cfg input d =
     seq_checks [check_registry_schema (gc_schema cfg) (dr_schema d),
       (case gi_account input of None \<Rightarrow> Inr () | Some a \<Rightarrow> check_account_quota_lock (dr_locked_until d) a),
       (case gi_account input of None \<Rightarrow> Inr ()
        | Some a \<Rightarrow> check_account_login_with (dr_binding d) (dr_login d) (gi_provider input) a),
       (case gi_provider input of None \<Rightarrow> Inr ()
        | Some p \<Rightarrow> check_lane_quota_lock (gc_stamp cfg) (dr_now d) (dr_snapshot d) p),
       (case gi_node input of None \<Rightarrow> Inr () | Some n \<Rightarrow> check_node_occupancy (dr_workers d) n (gi_force input))]"

text \<open>The slot of a spawn no gate holds is best effort: a fault admits uncounted.\<close>

definition best_effort_slot :: "GateInput \<Rightarrow> DoorReading \<Rightarrow> GateGuard" where
  "best_effort_slot input d =
     (if claims_slot input then snd (acquire_worker_slot (dr_slot_claim d) False no_keys) else no_keys)"

definition forced_door :: "GateConfig \<Rightarrow> GateInput \<Rightarrow> DoorReading \<Rightarrow> GateAnswer" where
  "forced_door cfg input d =
     (case seq_checks [
         (case gi_node input of None \<Rightarrow> Inr ()
          | Some n \<Rightarrow> check_territory_cap (dr_territory d) (dr_held_nodes d) (gc_territory_max cfg)),
         check_blueprint_cap (gc_is_bp cfg) (gc_bp_max cfg) (gc_bp_territory_max cfg) (gi_name input)
           (gi_node input) (dr_territory d) (live_rows (dr_census d)),
         memory_check cfg input (dr_mem d)] of
        Inl e \<Rightarrow> Refused e
      | Inr _ \<Rightarrow> Granted (best_effort_slot input d))"

text \<open>The node of the payload, else the trimmed \<open>FNO_NODE\<close> of the calling process.\<close>

definition gate_node :: "(string \<Rightarrow> string option) \<Rightarrow> string option" where
  "gate_node var = filter_option (\<lambda>v. v \<noteq> []) (map_option trim (var ''FNO_NODE''))"

definition admitted :: "(string \<Rightarrow> string option) \<Rightarrow> GateInput \<Rightarrow> GateInput" where
  "admitted var input = (if gi_node input = None then input\<lparr>gi_node := gate_node var\<rparr> else input)"

definition decide_gate :: "GateConfig \<Rightarrow> GateInput \<Rightarrow> DoorReading \<Rightarrow> nat \<Rightarrow> PassReading list \<Rightarrow> GateAnswer" where
  "decide_gate cfg input0 d started rs =
     (let agent = gate_agent_origin (dr_var d); input = admitted (dr_var d) input0
      in case seq_checks [fleet_incident_gate agent (dr_incident d),
             process_admission_gate agent (dr_takes_work d) (dr_brake d),
             (case review_session_gate (gi_phase input) (gi_message input) of None \<Rightarrow> Inr () | Some e \<Rightarrow> Inl e)] of
           Inl e \<Rightarrow> Refused e
         | Inr _ \<Rightarrow>
             if dr_var d ''FNO_SPAWN_GATE'' = Some ''0'' then Granted no_keys
             else case gate_walls cfg input d of
               Inl e \<Rightarrow> Refused e
             | Inr _ \<Rightarrow>
                 if \<not> agent then Granted (best_effort_slot input d)
                 else if gi_force input \<and> lanes_cap cfg input = None then forced_door cfg input d
                 else gate_loop cfg input started gate_start rs)"

end
