(* ===== verification/Gate_Props.thy ===== *)
theory Gate_Props
  imports Gate_Loop
begin

text \<open>
  What the spawn gate guarantees. The results of the parts of a pass come first, then the claims a run
  holds, its time, the CPU samples it reads and its slots (the reader of the learned cap is the locale
  \<open>cap_source\<close>), then concrete readings and the properties.
\<close>

section \<open>The parts of a pass\<close>

lemmas timing_defs = QUEUE_POLL_def CPU_HOLD_POLL_def CPU_BLIND_POLL_def QUEUE_TIMEOUT_def

lemma queue_tick_keeps [simp]:
  "guard (snd (queue_tick t st)) = guard st" "held_on_cpu (snd (queue_tick t st)) = held_on_cpu st"
  "under_streak (snd (queue_tick t st)) = under_streak st" "blind_samples (snd (queue_tick t st)) = blind_samples st"
  "mutex_blocked_since (snd (queue_tick t st)) = mutex_blocked_since st" "last_slots (snd (queue_tick t st)) = last_slots st"
  by (simp_all add: queue_tick_def)

lemma acquire_worker_slot_keeps [simp]: "gate_key (snd (acquire_worker_slot out fc g)) = gate_key g"
  by (simp add: acquire_worker_slot_def split: AcquireOutcome.split)

lemma admit_pass_guard:
  assumes "admit_pass cfg input st r = Admit st'" "\<not> worker_key (guard st)"
  shows "gate_key (guard st') = (gate_key (guard st) \<and> \<not> claims_slot input)"
    "worker_key (guard st') \<longrightarrow> claims_slot input"
    "claims_slot input \<and> lanes_cap cfg input \<noteq> None \<longrightarrow> worker_key (guard st')"
  using assms by (auto simp: admit_pass_def acquire_worker_slot_def release_gate_mutex_def
      split: if_splits AcquireOutcome.splits option.splits)

lemma slot_pass_admit:
  assumes "slot_pass cfg input learned st r = Admit st'"
  defines "v \<equiv> slot_verdict cfg input learned r"
  shows "sv_counted v - sv_replaced v < ef_cap (sv_learned v)" "dequeue_checks cfg input r v = Inr ()"
    "admit_pass cfg input (st\<lparr>last_slots := sv_slots v\<rparr>) r = Admit st'"
  using assms(1) unfolding slot_pass_def v_def
  by (simp_all add: Let_def split: if_splits sum.splits prod.splits)

lemma slot_pass_wait:
  assumes "slot_pass cfg input learned st r = Wait st' p b"
  shows "p = QUEUE_POLL" "\<not> gi_no_wait input" "guard st' = release_gate_mutex (guard st)"
    "held_on_cpu st' = held_on_cpu st" "under_streak st' = under_streak st" "blind_samples st' = blind_samples st"
    "mutex_blocked_since st' = mutex_blocked_since st"
    "last_slots st' = sv_slots (slot_verdict cfg input learned r)"
  using assms unfolding slot_pass_def admit_pass_def
  by (auto simp: Let_def release_mutex_def queue_tick_def split: if_splits sum.splits prod.splits option.splits)

lemma take_mutex_pass:
  assumes "take_mutex cfg input st r = Pass st'"
  shows "guard st' = (guard st)\<lparr>gate_key := True\<rparr>" "held_on_cpu st' = held_on_cpu st"
    "under_streak st' = under_streak st" "blind_samples st' = blind_samples st" "last_slots st' = last_slots st"
  using assms by (auto simp: take_mutex_def Let_def split: if_splits AcquireOutcome.splits)

lemma take_mutex_busy:
  assumes "take_mutex cfg input st r = Busy st'"
  shows "guard st' = guard st" "held_on_cpu st' = held_on_cpu st" "\<not> gi_no_wait input"
    "under_streak st' = under_streak st" "blind_samples st' = blind_samples st" "last_slots st' = last_slots st"
  using assms by (auto simp: take_mutex_def Let_def split: if_splits AcquireOutcome.splits)

text \<open>The CPU axis, sample by sample.\<close>

abbreviation "sample cfg r \<equiv> cpu_sample (check_cpu_axis (gc_parse cfg) (pr_probe r))"

lemma cpu_pass_admit:
  assumes "cpu_pass cfg input learned st r = Admit st'"
  shows "sample cfg r = Under" "\<exists>s. slot_pass cfg input learned s r = Admit st' \<and> guard s = guard st"
    "held_on_cpu st \<longrightarrow> CPU_ADMIT_SAMPLES \<le> under_streak st + 1"
  using assms unfolding cpu_pass_def
  by (auto simp: Let_def split: CpuSample.splits if_splits prod.splits intro: exI [of _ "st\<lparr>blind_samples := 0\<rparr>"]
      exI [of _ "st\<lparr>blind_samples := 0, held_on_cpu := False, under_streak := 0\<rparr>"])

lemma cpu_pass_wait:
  assumes "cpu_pass cfg input learned st r = Wait st' p b"
  shows "QUEUE_POLL \<le> p" "\<not> gi_no_wait input \<or> held_on_cpu st" "guard st' = release_gate_mutex (guard st)"
  using assms unfolding cpu_pass_def
  by (auto simp: Let_def timing_defs release_mutex_def queue_tick_def split: CpuSample.splits if_splits prod.splits dest: slot_pass_wait)

lemma cpu_pass_wait_state:
  assumes "cpu_pass cfg input learned st r = Wait st' p b"
  shows "case sample cfg r of
      Blind \<Rightarrow> held_on_cpu st' = held_on_cpu st \<and> under_streak st' = 0 \<and> blind_samples st' = blind_samples st + 1 \<and>
        blind_samples st' < CPU_BLIND_SAMPLES
    | Over \<Rightarrow> held_on_cpu st' \<and> under_streak st' = 0 \<and> blind_samples st' = 0
    | Under \<Rightarrow> blind_samples st' = 0 \<and>
        (if held_on_cpu st then
           (if under_streak st + 1 < CPU_ADMIT_SAMPLES then held_on_cpu st' \<and> under_streak st' = under_streak st + 1
            else \<not> held_on_cpu st' \<and> under_streak st' = 0)
         else \<not> held_on_cpu st')
    | Unknown \<Rightarrow> False"
  using assms unfolding cpu_pass_def
  by (auto simp: Let_def release_mutex_def queue_tick_def split: CpuSample.splits if_splits prod.splits dest: slot_pass_wait)

text \<open>The pass as a whole, without \<open>--force\<close>.\<close>

lemma gate_pass_admit:
  assumes "gate_pass cfg input st r = Admit st'" "\<not> gi_force input"
  shows "\<exists>s. take_mutex cfg input st r = Pass s \<and> lane_check cfg input r = Inr () \<and>
    cpu_pass cfg input (read_cap r) s r = Admit st'"
  using assms by (auto simp: gate_pass_def split: MutexResult.splits sum.splits)

lemma gate_pass_wait_cases:
  assumes "gate_pass cfg input st r = Wait st' p b"
  shows "(take_mutex cfg input st r = Busy st' \<and> p = QUEUE_POLL) \<or>
    (\<exists>s. take_mutex cfg input st r = Pass s \<and> lane_check cfg input r = Inr () \<and> \<not> gi_force input \<and>
       cpu_pass cfg input (read_cap r) s r = Wait st' p b)"
  using assms by (auto simp: gate_pass_def forced_pass_def
      split: MutexResult.splits sum.splits if_splits prod.splits option.splits)

lemma gate_pass_wait:
  assumes "gate_pass cfg input st r = Wait st' p b" "\<not> gate_key (guard st)"
  shows "QUEUE_POLL \<le> p \<and> guard st' = guard st \<and> (gi_no_wait input \<longrightarrow> held_on_cpu st)"
  using gate_pass_wait_cases [OF assms(1)]
proof (elim disjE exE conjE)
  fix s
  assume "take_mutex cfg input st r = Pass s" "cpu_pass cfg input (read_cap r) s r = Wait st' p b"
  with assms(2) show ?thesis
    using take_mutex_pass [of cfg input st r s] cpu_pass_wait [of cfg input "read_cap r" s r st' p b]
    by (simp add: release_gate_mutex_def)
qed (simp add: take_mutex_busy)

section \<open>No pass waits with a claim in hand\<close>

lemma gate_loop_step:
  assumes "gate_loop cfg input started st (r # rs) = Queued st'" "\<not> gate_key (guard st)"
  obtains s p b where "gate_pass cfg input st r = Wait s p b" "gate_loop cfg input started s rs = Queued st'"
    "guard s = guard st" "pr_t_end r - started < QUEUE_TIMEOUT" "QUEUE_POLL \<le> p"
proof -
  from assms(1) obtain s p b where "gate_pass cfg input st r = Wait s p b" "gate_loop cfg input started s rs = Queued st'"
    "pr_t_end r - started < QUEUE_TIMEOUT" by (auto split: PassResult.splits if_splits)
  with gate_pass_wait [OF this(1) assms(2)] that show thesis by blast
qed

lemma gate_loop_queued_aux:
  "gate_loop cfg input started st rs = Queued st' \<Longrightarrow> guard st = no_keys \<Longrightarrow> guard st' = no_keys"
proof (induction rs arbitrary: st)
  case (Cons r rs)
  from Cons.prems show ?case by (elim gate_loop_step) (simp_all add: no_keys_def Cons.IH)
qed simp

lemma gate_loop_granted:
  assumes "gate_loop cfg input started st rs = Granted g" "\<not> gate_key (guard st)"
  shows "\<exists>xs r ys s s'. rs = xs @ r # ys \<and> gate_loop cfg input started st xs = Queued s \<and>
    gate_pass cfg input s r = Admit s' \<and> g = guard s' \<and> guard s = guard st"
  using assms
proof (induction rs arbitrary: st)
  case (Cons r rs)
  show ?case
  proof (cases "gate_pass cfg input st r")
    case (Admit s')
    with Cons.prems show ?thesis by (intro exI [of _ "[]"] exI [of _ r] exI [of _ rs] exI [of _ st] exI [of _ s']) simp
  next
    case (Wait s p b)
    with Cons.prems have t: "\<not> QUEUE_TIMEOUT \<le> pr_t_end r - started" "gate_loop cfg input started s rs = Granted g"
      by (auto split: if_splits)
    have s: "guard s = guard st" using gate_pass_wait [OF Wait Cons.prems(2)] by simp
    have k: "\<not> gate_key (guard s)" using s Cons.prems(2) by simp
    from Cons.IH [OF t(2) k] obtain xs q ys u u' where u: "rs = xs @ q # ys"
      "gate_loop cfg input started s xs = Queued u" "gate_pass cfg input u q = Admit u'" "g = guard u'" "guard u = guard s"
      by (elim exE conjE) (rule that)
    have "gate_loop cfg input started st (r # xs) = Queued u" using Wait t(1) u(2) by simp
    with u s show ?thesis
      by (intro exI [of _ "r # xs"] exI [of _ q] exI [of _ ys] exI [of _ u] exI [of _ u']) simp
  qed (use Cons.prems in simp)
qed simp

lemma gate_claims_aux:
  assumes "\<not> gi_force input"
  shows "case gate_loop cfg input started gate_start rs of
      Queued st \<Rightarrow> guard st = no_keys
    | Granted g \<Rightarrow> gate_key g = (\<not> claims_slot input) \<and> (worker_key g \<longrightarrow> claims_slot input) \<and>
        (claims_slot input \<and> lanes_cap cfg input \<noteq> None \<longrightarrow> worker_key g)
    | Refused e \<Rightarrow> True"
proof (cases "gate_loop cfg input started gate_start rs")
  case (Granted g)
  have "\<not> gate_key (guard gate_start)" by (simp add: gate_start_def no_keys_def)
  from gate_loop_granted [OF Granted this] obtain r s s' where
    s: "gate_pass cfg input s r = Admit s'" "g = guard s'" "guard s = no_keys" by (auto simp: gate_start_def)
  from gate_pass_admit [OF s(1) assms] obtain u where
    u: "take_mutex cfg input s r = Pass u" "cpu_pass cfg input (read_cap r) u r = Admit s'" by blast
  from cpu_pass_admit(2) [OF u(2)] obtain w where w: "slot_pass cfg input (read_cap r) w r = Admit s'" "guard w = guard u" by blast
  have "guard w = \<lparr>gate_key = True, worker_key = False\<rparr>" using take_mutex_pass(1) [OF u(1)] s(3) w(2) by (simp add: no_keys_def)
  then have k: "gate_key (guard w)" "\<not> worker_key (guard w)" by simp_all
  note law = admit_pass_guard [OF slot_pass_admit(3) [OF w(1)], simplified, OF k(2)]
  show ?thesis unfolding Granted GateAnswer.case s(2) using law k(1) by blast
next
  case (Queued st)
  then show ?thesis using gate_loop_queued_aux [OF Queued] by (simp add: gate_start_def)
qed simp

section \<open>Time\<close>

text \<open>
  The clock of a run: \<open>thread::sleep\<close> returns no sooner than the pause it is given, so the end of a
  pass is at least the pause after the end of the pass before it.
\<close>

fun sleeps :: "GateConfig \<Rightarrow> GateInput \<Rightarrow> GateState \<Rightarrow> PassReading list \<Rightarrow> bool" where
  "sleeps cfg input st [] = True"
| "sleeps cfg input st (r # rs) =
     (case gate_pass cfg input st r of
        Wait st' pause b \<Rightarrow>
          (case rs of [] \<Rightarrow> True | next # _ \<Rightarrow> pr_t_end r + pause \<le> pr_t_end next) \<and> sleeps cfg input st' rs
      | _ \<Rightarrow> True)"

lemma queued_takes_time:
  "gate_loop cfg input started st (r # rs) = Queued st' \<Longrightarrow> \<not> gate_key (guard st) \<Longrightarrow> sleeps cfg input st (r # rs) \<Longrightarrow>
     \<exists>q \<in> set (r # rs). pr_t_end r + length rs * QUEUE_POLL \<le> pr_t_end q \<and> pr_t_end q - started < QUEUE_TIMEOUT"
proof (induction rs arbitrary: st r)
  case Nil
  then show ?case by (auto split: PassResult.splits if_splits)
next
  case (Cons q rs)
  from gate_loop_step [OF Cons.prems(1,2)] obtain s p b where s: "gate_pass cfg input st r = Wait s p b"
    "gate_loop cfg input started s (q # rs) = Queued st'" "guard s = guard st" "QUEUE_POLL \<le> p" by metis
  have t: "pr_t_end r + p \<le> pr_t_end q" "sleeps cfg input s (q # rs)" using Cons.prems(3) s(1) by simp_all
  have "\<not> gate_key (guard s)" using s(3) Cons.prems(2) by simp
  from Cons.IH [OF s(2) this t(2)] obtain v where v: "v \<in> set (q # rs)"
    "pr_t_end q + length rs * QUEUE_POLL \<le> pr_t_end v" "pr_t_end v - started < QUEUE_TIMEOUT" by blast
  have "pr_t_end r + length (q # rs) * QUEUE_POLL \<le> pr_t_end v" using v(2) t(1) s(4) by simp
  with v show ?case by auto
qed

lemma loop_answers:
  assumes "sleeps cfg input gate_start rs" "120 < length rs" "started \<le> pr_t_end (hd rs)"
  shows "\<not> (\<exists>st. gate_loop cfg input started gate_start rs = Queued st)"
proof
  assume "\<exists>st. gate_loop cfg input started gate_start rs = Queued st"
  then obtain st where st: "gate_loop cfg input started gate_start rs = Queued st" by blast
  obtain r rs' where rs: "rs = r # rs'" using assms(2) by (cases rs) auto
  have "\<not> gate_key (guard gate_start)" by (simp add: gate_start_def no_keys_def)
  from queued_takes_time [OF st [unfolded rs] this assms(1) [unfolded rs]] obtain q :: PassReading where
    q: "pr_t_end r + length rs' * QUEUE_POLL \<le> pr_t_end q" "pr_t_end q - started < QUEUE_TIMEOUT" by blast
  have "120 * QUEUE_POLL \<le> length rs' * QUEUE_POLL" using assms(2) rs by (intro mult_le_mono1) simp
  with q assms(3) rs show False by (simp add: timing_defs)
qed

lemma no_wait_first_pass:
  assumes "gi_no_wait input"
  shows "\<not> (\<exists>s p b. gate_pass cfg input gate_start r = Wait s p b)"
  using assms gate_pass_wait [of cfg input gate_start r] by (auto simp: gate_start_def no_keys_def)

section \<open>The samples of the CPU axis\<close>

text \<open>The samples a run reads: one for each pass that takes the mutex and passes the lane cap.\<close>

definition pass_samples :: "GateConfig \<Rightarrow> GateInput \<Rightarrow> GateState \<Rightarrow> PassReading \<Rightarrow> CpuSample list" where
  "pass_samples cfg input st r =
     (case take_mutex cfg input st r of
        Pass s \<Rightarrow> (case lane_check cfg input r of Inr _ \<Rightarrow> [cpu_sample (check_cpu_axis (gc_parse cfg) (pr_probe r))] | Inl _ \<Rightarrow> [])
      | _ \<Rightarrow> [])"

fun gate_samples :: "GateConfig \<Rightarrow> GateInput \<Rightarrow> GateState \<Rightarrow> PassReading list \<Rightarrow> CpuSample list" where
  "gate_samples cfg input st [] = []"
| "gate_samples cfg input st (r # rs) = pass_samples cfg input st r @
     (case gate_pass cfg input st r of Wait st' _ _ \<Rightarrow> gate_samples cfg input st' rs | _ \<Rightarrow> [])"

text \<open>A hold is served when two samples in a row under the ceiling follow the last sample over it.\<close>

definition served :: "CpuSample list \<Rightarrow> bool" where
  "served h = (\<exists>xs ys zs. h = xs @ Over # ys @ Under # Under # zs \<and> Over \<notin> set ys \<and> Over \<notin> set zs)"

definition holding :: "CpuSample list \<Rightarrow> nat \<Rightarrow> bool" where
  "holding h n = (\<exists>xs ys. h = xs @ Over # ys @ replicate n Under \<and> Over \<notin> set ys)"

lemma served_snoc: "served h \<Longrightarrow> s \<noteq> Over \<Longrightarrow> served (h @ [s])"
proof -
  assume "served h" and s: "s \<noteq> Over"
  then obtain xs ys zs where "h = xs @ Over # ys @ Under # Under # zs" "Over \<notin> set ys" "Over \<notin> set zs" unfolding served_def by blast
  with s show ?thesis unfolding served_def by (intro exI [of _ xs] exI [of _ ys] exI [of _ "zs @ [s]"]) auto
qed

lemma holding_over: "holding (h @ [Over]) 0"
  unfolding holding_def by (intro exI [of _ h] exI [of _ "[]"]) simp

lemma holding_blind: "holding h n \<Longrightarrow> holding (h @ [Blind]) 0"
  unfolding holding_def
proof (elim exE conjE)
  fix xs ys
  assume "h = xs @ Over # ys @ replicate n Under" "Over \<notin> set ys"
  then show "\<exists>xs ys. h @ [Blind] = xs @ Over # ys @ replicate 0 Under \<and> Over \<notin> set ys"
    by (intro exI [of _ xs] exI [of _ "ys @ replicate n Under @ [Blind]"]) auto
qed

lemma holding_under: "holding h n \<Longrightarrow> holding (h @ [Under]) (Suc n)"
  unfolding holding_def
proof (elim exE conjE)
  fix xs ys
  assume "h = xs @ Over # ys @ replicate n Under" "Over \<notin> set ys"
  then show "\<exists>xs ys. h @ [Under] = xs @ Over # ys @ replicate (Suc n) Under \<and> Over \<notin> set ys"
    by (intro exI [of _ xs] exI [of _ ys]) (simp add: replicate_append_same)
qed

lemma holding_served: "holding h n \<Longrightarrow> 2 \<le> n \<Longrightarrow> served h"
  unfolding holding_def served_def
proof (elim exE conjE)
  fix xs ys
  assume h: "h = xs @ Over # ys @ replicate n Under" "Over \<notin> set ys" and "2 \<le> n"
  then obtain k where "n = Suc (Suc k)" by (metis Suc_le_D numeral_2_eq_2 Suc_le_mono)
  with h show "\<exists>xs ys zs. h = xs @ Over # ys @ Under # Under # zs \<and> Over \<notin> set ys \<and> Over \<notin> set zs"
    by (intro exI [of _ xs] exI [of _ ys] exI [of _ "replicate k Under"]) simp
qed

definition cpu_history :: "CpuSample list \<Rightarrow> GateState \<Rightarrow> bool" where
  "cpu_history h st = (if held_on_cpu st then holding h (under_streak st) else Over \<in> set h \<longrightarrow> served h)"

lemma cpu_history_wait:
  assumes "cpu_history h st" "gate_pass cfg input st r = Wait st' p b"
  shows "cpu_history (h @ pass_samples cfg input st r) st'"
  using gate_pass_wait_cases [OF assms(2)]
proof (elim disjE exE conjE)
  assume "take_mutex cfg input st r = Busy st'"
  with assms(1) show ?thesis by (simp add: cpu_history_def pass_samples_def take_mutex_busy)
next
  fix s
  assume s: "take_mutex cfg input st r = Pass s" "lane_check cfg input r = Inr ()" "cpu_pass cfg input (read_cap r) s r = Wait st' p b"
  have h: "cpu_history h s" using assms(1) take_mutex_pass [OF s(1)] by (simp add: cpu_history_def)
  have samples: "pass_samples cfg input st r = [sample cfg r]" using s(1,2) by (simp add: pass_samples_def)
  note step = cpu_pass_wait_state [OF s(3)]
  show ?thesis
  proof (cases "sample cfg r")
    case Blind
    with step h samples show ?thesis by (auto simp: cpu_history_def holding_blind served_snoc)
  next
    case Over
    with step samples show ?thesis by (simp add: cpu_history_def holding_over)
  next
    case Under
    with step h samples show ?thesis
      by (auto simp: cpu_history_def CPU_ADMIT_SAMPLES_def holding_under served_snoc intro: holding_served [OF holding_under] split: if_splits)
  qed (use step in simp)
qed

lemma cpu_history_admit:
  assumes "cpu_history h st" "gate_pass cfg input st r = Admit st'" "\<not> gi_force input"
  shows "Over \<in> set (h @ pass_samples cfg input st r) \<longrightarrow> served (h @ pass_samples cfg input st r)"
proof -
  from gate_pass_admit [OF assms(2,3)] obtain s where s: "take_mutex cfg input st r = Pass s" "lane_check cfg input r = Inr ()"
    "cpu_pass cfg input (read_cap r) s r = Admit st'" by blast
  have h: "cpu_history h s" using assms(1) take_mutex_pass [OF s(1)] by (simp add: cpu_history_def)
  have samples: "pass_samples cfg input st r = [Under]" using s(1,2) cpu_pass_admit(1) [OF s(3)] by (simp add: pass_samples_def)
  show ?thesis using h cpu_pass_admit(3) [OF s(3)] unfolding samples
    by (auto simp: cpu_history_def CPU_ADMIT_SAMPLES_def served_snoc intro: holding_served [OF holding_under] split: if_splits)
qed

lemma granted_history:
  assumes "gate_loop cfg input started st rs = Granted g" "\<not> gi_force input" "cpu_history h st"
  shows "Over \<in> set (h @ gate_samples cfg input st rs) \<longrightarrow> served (h @ gate_samples cfg input st rs)"
  using assms
proof (induction rs arbitrary: st h)
  case (Cons r rs)
  show ?case
  proof (cases "gate_pass cfg input st r")
    case (Admit s)
    with cpu_history_admit [OF Cons.prems(3) Admit Cons.prems(2)] show ?thesis by simp
  next
    case (Wait s p b)
    with Cons.prems have t: "gate_loop cfg input started s rs = Granted g" by (auto split: if_splits)
    from Cons.IH [OF t Cons.prems(2) cpu_history_wait [OF Cons.prems(3) Wait]] Wait show ?thesis by simp
  qed (use Cons.prems in simp)
qed simp

section \<open>The slot axis\<close>

lemma seq_checks_ok: "seq_checks cs = Inr () \<longleftrightarrow> (\<forall>c \<in> set cs. c = Inr ())"
proof (induction cs)
  case (Cons c cs)
  then show ?case by (cases c) (auto simp: seq_checks_def split: list.splits)
qed (simp add: seq_checks_def)

lemma read_cap_bound: "ef_cap (read_cap r) \<le> ef_ceiling (read_cap r)"
  by (simp add: read_cap_def effective_from_env_def effective_def at_ceiling_unknown_def Let_def split: option.splits)

lemma read_ceiling: "ef_ceiling (read_cap r) \<le> max (pr_max_live r) 1"
  by (simp add: read_cap_def effective_from_env_def effective_def at_ceiling_unknown_def Let_def split: option.splits)

text \<open>The machine has room: no memory term fires, and the floor is off or the available memory is read.\<close>

definition machine_room :: "GateConfig \<Rightarrow> Instruments \<Rightarrow> bool" where
  "machine_room cfg i =
     (memory_term (read_memory i (gc_floor_gb cfg) (gc_swap_cap cfg)) (gc_floor_gb cfg) (gc_swap_cap cfg) = None \<and>
      (fp_le (gc_floor_gb cfg) (Fin 0) \<or> mr_avail (read_memory i (gc_floor_gb cfg) (gc_swap_cap cfg)) \<noteq> None))"

lemma cap_yields_room:
  "cap_yields learned counted i (gc_floor_gb cfg) (gc_swap_cap cfg) \<Longrightarrow> machine_room cfg i"
  by (auto simp: cap_yields_def machine_room_def Let_def split: if_splits)

lemma burst_yields:
  assumes "burst_read counted learned i (gc_floor_gb cfg) (gc_swap_cap cfg) newest = Some Yields"
  shows "machine_room cfg i \<and> \<not> fp_le (gc_floor_gb cfg) (Fin 0) \<and> (\<exists>age. newest = Some age \<and> BURST_SETTLE_SECS \<le> age)"
  using assms by (auto simp: burst_read_def burst_verdict_def machine_room_def split: if_splits option.splits)

text \<open>The age of the newest worker as the slot axis of a pass reads it.\<close>

definition newest_age :: "GateConfig \<Rightarrow> GateInput \<Rightarrow> PassReading \<Rightarrow> nat option" where
  "newest_age cfg input r = newest_slot_age_s (gc_stamp cfg) (fst (slot_reading (pr_census r)))
     (snd (slot_reading (pr_census r))) (gi_name input) (pr_launches r) (pr_clock r)"

lemma slot_verdict_room:
  assumes "n < ef_cap (sv_learned (slot_verdict cfg input learned r))" "ef_cap learned \<le> ef_ceiling learned"
  shows "n < ef_cap learned \<or> n < ef_ceiling learned \<and> machine_room cfg (pr_mem_yield r) \<or>
    machine_room cfg (pr_mem_burst r) \<and> \<not> fp_le (gc_floor_gb cfg) (Fin 0) \<and>
      (\<exists>age. newest_age cfg input r = Some age \<and> BURST_SETTLE_SECS \<le> age)"
proof -
  obtain live res where sr: "slot_reading (pr_census r) = (live, res)" by (cases "slot_reading (pr_census r)")
  define counted where "counted = (length live + length res) - (if list_ex (\<lambda>v. sr_name v = gi_name input \<and> redeemable v) res then 1 else 0)"
  define l1 where "l1 = (if cap_yields learned counted (pr_mem_yield r) (gc_floor_gb cfg) (gc_swap_cap cfg) then at_ceiling learned else learned)"
  define b where "b = burst_read counted l1 (pr_mem_burst r) (gc_floor_gb cfg) (gc_swap_cap cfg) (newest_age cfg input r)"
  have v: "sv_learned (slot_verdict cfg input learned r) = (if b = Some Yields then past_ceiling l1 counted else l1)"
    unfolding slot_verdict_def sr b_def l1_def counted_def newest_age_def Let_def by simp
  show ?thesis
  proof (cases "b = Some Yields")
    case True
    then show ?thesis using burst_yields [of counted l1 "pr_mem_burst r" cfg "newest_age cfg input r"] unfolding b_def by blast
  next
    case False
    with assms(1) v have n: "n < ef_cap l1" by simp
    show ?thesis
    proof (cases "cap_yields learned counted (pr_mem_yield r) (gc_floor_gb cfg) (gc_swap_cap cfg)")
      case True
      with n have "n < ef_ceiling learned" by (simp add: l1_def at_ceiling_def at_ceiling_unknown_def)
      with cap_yields_room [OF True] show ?thesis by blast
    qed (use n in \<open>simp add: l1_def\<close>)
  qed
qed

text \<open>
  What the gate relies on in its reader of the cap: the cap is under the ceiling, and the ceiling is
  the user's, taken up to one.
\<close>

locale cap_source =
  fixes read :: "PassReading \<Rightarrow> Effective"
  assumes cap_under: "ef_cap (read r) \<le> ef_ceiling (read r)"
    and ceiling_under: "ef_ceiling (read r) \<le> max (pr_max_live r) 1"
begin

lemma slot_room:
  assumes "n < ef_cap (sv_learned (slot_verdict cfg input (read r) r))"
  shows "n < ef_cap (read r) \<or> n < max (pr_max_live r) 1 \<and> machine_room cfg (pr_mem_yield r) \<or>
    machine_room cfg (pr_mem_burst r) \<and> \<not> fp_le (gc_floor_gb cfg) (Fin 0) \<and>
      (\<exists>age. newest_age cfg input r = Some age \<and> BURST_SETTLE_SECS \<le> age)"
  using slot_verdict_room [OF assms cap_under] ceiling_under [of r] by (meson order_less_le_trans)

end

interpretation learned: cap_source read_cap
  by unfold_locales (rule read_cap_bound read_ceiling)+

lemma dequeue_memory:
  assumes "dequeue_checks cfg input r v = Inr ()" "charges_local_memory (gi_substrate input)"
  shows "memory_term (read_memory (pr_mem_floor r) (gc_floor_gb cfg) (gc_swap_cap cfg)) (gc_floor_gb cfg) (gc_swap_cap cfg) = None"
  using assms by (simp add: dequeue_checks_def seq_checks_ok memory_check_def check_ram_floor_def split: option.splits)

text \<open>The pass that admits, opened up.\<close>

lemma admitting_pass:
  assumes "gate_pass cfg input st r = Admit st'" "\<not> gi_force input"
  defines "v \<equiv> slot_verdict cfg input (read_cap r) r"
  shows "cpu_sample (check_cpu_axis (gc_parse cfg) (pr_probe r)) = Under" "lane_check cfg input r = Inr ()"
    "sv_counted v - sv_replaced v < ef_cap (sv_learned v)" "dequeue_checks cfg input r v = Inr ()"
proof -
  from gate_pass_admit [OF assms(1,2)] obtain s where s: "lane_check cfg input r = Inr ()"
    "cpu_pass cfg input (read_cap r) s r = Admit st'" by blast
  from cpu_pass_admit(2) [OF s(2)] obtain w where w: "slot_pass cfg input (read_cap r) w r = Admit st'" by blast
  show "cpu_sample (check_cpu_axis (gc_parse cfg) (pr_probe r)) = Under" by (rule cpu_pass_admit(1) [OF s(2)])
  show "lane_check cfg input r = Inr ()" by (rule s(1))
  show "sv_counted v - sv_replaced v < ef_cap (sv_learned v)" "dequeue_checks cfg input r v = Inr ()"
    unfolding v_def by (rule slot_pass_admit [OF w])+
qed

lemma forced_pass_memory:
  assumes "gate_pass cfg input st r = Admit st'" "gi_force input" "charges_local_memory (gi_substrate input)"
  shows "memory_term (read_memory (pr_mem_floor r) (gc_floor_gb cfg) (gc_swap_cap cfg)) (gc_floor_gb cfg) (gc_swap_cap cfg) = None"
  using assms by (auto simp: gate_pass_def forced_pass_def memory_check_def check_ram_floor_def
      split: MutexResult.splits sum.splits option.splits)

section \<open>What the receipts of a timeout name\<close>

lemma hold_receipt_counts_earlier_pass:
  assumes "cpu_pass cfg input learned st r = Wait st' p b" "cpu_sample (check_cpu_axis (gc_parse cfg) (pr_probe r)) = Over"
  shows "rf_count (timeout_refusal st' b) = Some (last_slots st)"
  using assms by (auto simp: cpu_pass_def timeout_refusal_def release_mutex_def queue_tick_def Let_def split: if_splits prod.splits)

lemma unserialized_wait_blames_mutex:
  assumes "gate_pass cfg input st r = Wait st' p b" "pr_mutex r = HeldByOther" "take_mutex cfg input st r = Pass s"
  shows "rf_reason (timeout_refusal st' b) = ''gate_mutex_busy''"
proof -
  have s: "mutex_blocked_since s \<noteq> None" using assms(2,3) by (auto simp: take_mutex_def Let_def split: if_splits)
  have "cpu_pass cfg input (read_cap r) s r = Wait st' p b" using gate_pass_wait_cases [OF assms(1)] assms(3) by auto
  then have "mutex_blocked_since st' = mutex_blocked_since s" unfolding cpu_pass_def
    by (auto simp: Let_def release_mutex_def queue_tick_def split: CpuSample.splits if_splits prod.splits dest: slot_pass_wait)
  with s show ?thesis by (simp add: timeout_refusal_def refuse_def Let_def)
qed

lemma unread_roster_hides_policed_row:
  assumes "ce_roster ce = []" "is_roster_policed e" "re_pid e = None" "short_id e \<noteq> []"
  shows "\<not> row_alive ce e"
  using assms by (simp add: row_alive_def transport_short_def)

section \<open>Concrete inputs\<close>

definition quiet_machine :: Instruments where
  "quiet_machine = \<lparr>available_ram_gb = Some (Fin 16), swap_used_pct = Some (Fin 10), swapin_bytes_per_sec = None\<rparr>"

definition empty_census :: Census where
  "empty_census = \<lparr>ce_registry = Some [], ce_roster = [], ce_pid_is_ours = (\<lambda>_ _. False), ce_now_secs = 0,
     ce_now_ms = 0, ce_claims = Some []\<rparr>"

text \<open>The payload of this probe is its verdict word.\<close>

definition word_payload :: "string \<Rightarrow> FootprintPayload option" where
  "word_payload raw = Some \<lparr>fp_error = None,
     fp_admission = Some \<lparr>ap_verdict = raw, ap_axis = ''fleet_cpu_share'', share_low = Fin 0, share_high = Fin 0\<rparr>\<rparr>"

definition sample_config :: GateConfig where
  "sample_config = \<lparr>gc_floor_gb = Fin 4, gc_swap_cap = Fin 90, gc_provider_limits = None, gc_max_lanes = None,
     gc_territory_max = 5, gc_bp_max = 5, gc_bp_territory_max = 1, gc_schema = 1, gc_is_bp = (\<lambda>_. False),
     gc_parse = word_payload, gc_stamp = (\<lambda>_. None), gc_settle = (\<lambda>_ _ _. None)\<rparr>"

definition sample_input :: GateInput where
  "sample_input = \<lparr>gi_name = ''w1'', gi_substrate = ''thread'', gi_force = False, gi_no_wait = False,
     gi_provider = None, gi_node = None, gi_account = None, gi_caller = None, gi_scope = None,
     gi_message = None, gi_phase = None\<rparr>"

definition reading_at :: "string \<Rightarrow> nat \<Rightarrow> PassReading" where
  "reading_at word t = \<lparr>pr_home = Some None, pr_max_live = 3, pr_floor = 1, pr_probe = Inr word, pr_mutex = Acquired,
     pr_t_mutex = t, pr_lanes = Inr 0, pr_t_tick = t, pr_census = empty_census, pr_rows_again = empty_census,
     pr_mem_yield = quiet_machine, pr_mem_burst = quiet_machine, pr_launches = [], pr_clock = 0, pr_schema = None,
     pr_mem_floor = quiet_machine, pr_registry = Some [], pr_terminal = None, pr_workers = Inr [],
     pr_territory = None, pr_held_nodes = None, pr_slot_claim = Acquired, pr_t_end = t\<rparr>"

definition sample_doors :: DoorReading where
  "sample_doors = \<lparr>dr_var = (\<lambda>v. if v = ''FNO_AGENT_SELF'' then Some ''lead'' else None), dr_incident = Clear,
     dr_takes_work = True, dr_brake = False, dr_schema = None, dr_locked_until = (\<lambda>_. None),
     dr_binding = (\<lambda>_. Inr None), dr_login = (\<lambda>_. LoggedIn), dr_snapshot = None, dr_now = 0, dr_workers = Inr [],
     dr_slot_claim = Acquired, dr_territory = None, dr_held_nodes = None, dr_census = empty_census, dr_mem = quiet_machine\<rparr>"

lemmas sample_eval = sample_config_def sample_input_def reading_at_def word_payload_def quiet_machine_def empty_census_def
  gate_pass_def take_mutex_def lane_check_def lanes_cap_def check_cpu_axis_def cpu_sample_def cpu_pass_def
  release_mutex_def release_gate_mutex_def queue_tick_def is_some_and_def

lemma hold_pass: "gate_pass sample_config sample_input st (reading_at ''hold'' t) =
   (let st' = snd (queue_tick t (st\<lparr>mutex_blocked_since := None, guard := (guard st)\<lparr>gate_key := False\<rparr>, held_on_cpu := True,
          under_streak := 0, blind_samples := 0\<rparr>))
    in Wait (if fst (queue_tick t st) then st'\<lparr>announced := True\<rparr> else st') CPU_HOLD_POLL None)"
  by (simp add: sample_eval Let_def)

lemma slot_free: "slot_pass sample_config sample_input (read_cap (reading_at w t)) st (reading_at w t) = Admit (st\<lparr>last_slots := 0\<rparr>)"
  by (simp add: slot_pass_def slot_verdict_def slot_reading_def live_rows_def live_worker_slot_claims_def split_leads_def sample_config_def sample_input_def
    reading_at_def empty_census_def quiet_machine_def cap_yields_def burst_read_def read_cap_def effective_from_env_def effective_def
    at_ceiling_unknown_def dequeue_checks_def seq_checks_def check_registry_schema_def REGISTRY_SCHEMA_UNDERSTOOD_def memory_check_def
    check_ram_floor_def memory_term_def read_memory_def ram_floor_term_def is_some_and_def fp_le_def lead_share_check_def
    check_lead_share_def filter_option_def occupancy_check_def territory_check_def blueprint_check_def check_blueprint_cap_def
    admit_pass_def claims_slot_def charges_local_memory_def Let_def)

lemma sample_fields:
  "gc_parse sample_config = word_payload" "lanes_cap sample_config sample_input = None" "gi_force sample_input = False"
  "gi_no_wait sample_input = False" "pr_mutex (reading_at w t) = Acquired" "pr_probe (reading_at w t) = Inr w"
  "pr_t_end (reading_at w t) = t"
  by (simp_all add: sample_config_def sample_input_def reading_at_def lanes_cap_def)

lemma admit_pass_sample: "gate_pass sample_config sample_input st (reading_at ''admit'' t) =
   (let st = st\<lparr>mutex_blocked_since := None, guard := (guard st)\<lparr>gate_key := True\<rparr>, blind_samples := 0\<rparr>
    in if held_on_cpu st then
         (if under_streak st + 1 < CPU_ADMIT_SAMPLES
          then Wait (st\<lparr>guard := (guard st)\<lparr>gate_key := False\<rparr>, under_streak := under_streak st + 1\<rparr>) CPU_HOLD_POLL None
          else Admit (st\<lparr>held_on_cpu := False, under_streak := 0, last_slots := 0\<rparr>))
       else Admit (st\<lparr>last_slots := 0\<rparr>))"
  by (simp add: gate_pass_def take_mutex_def lane_check_def check_cpu_axis_def cpu_sample_def cpu_pass_def release_mutex_def
      release_gate_mutex_def sample_fields word_payload_def slot_free Let_def)

lemma held_run: "gate_loop sample_config sample_input 0 gate_start
     [reading_at ''hold'' 0, reading_at ''admit'' 15000, reading_at ''admit'' 30000] = Granted \<lparr>gate_key = True, worker_key = False\<rparr>"
  by (simp add: hold_pass admit_pass_sample sample_fields gate_start_def no_keys_def queue_tick_def is_some_and_def
      QUEUE_TIMEOUT_def CPU_ADMIT_SAMPLES_def Let_def)

lemma hold_sleeps: "sleeps sample_config sample_input st (map (\<lambda>k. reading_at ''hold'' (k * 15000)) [m..<m + n])"
proof (induction n arbitrary: m st)
  case (Suc n)
  have "[m..<m + Suc n] = m # [Suc m..<Suc m + n]" by (simp add: upt_rec)
  with Suc [of _ "Suc m"] show ?case by (cases n) (auto simp: hold_pass sample_fields CPU_HOLD_POLL_def Let_def upt_rec)
qed simp

section \<open>Properties\<close>



text \<open>
  C35. A spawn that was held because the fleet was over its CPU share is not admitted on one good sample:
  after the last sample over the ceiling two samples in a row were under it.
\<close>

theorem hold_is_debounced:
  assumes "gate_loop cfg input started gate_start rs = Granted g" "\<not> gi_force input"
    "Over \<in> set (gate_samples cfg input gate_start rs)"
  shows "\<exists>xs ys zs. gate_samples cfg input gate_start rs = xs @ Over # ys @ Under # Under # zs \<and>
    Over \<notin> set ys \<and> Over \<notin> set zs"
  using granted_history [OF assms(1,2), of "[]"] assms(3) by (simp add: cpu_history_def gate_start_def served_def)

lemma held_samples: "gate_samples sample_config sample_input gate_start
     [reading_at ''hold'' 0, reading_at ''admit'' 15000, reading_at ''admit'' 30000] = [Over, Under, Under]"
  by (simp add: pass_samples_def take_mutex_def lane_check_def check_cpu_axis_def cpu_sample_def word_payload_def
      hold_pass admit_pass_sample sample_fields gate_start_def no_keys_def queue_tick_def is_some_and_def CPU_ADMIT_SAMPLES_def Let_def)

theorem hold_is_debounced_witness:
  "\<exists>xs ys zs. [Over, Under, Under] = xs @ Over # ys @ Under # Under # zs \<and> Over \<notin> set ys \<and> Over \<notin> set zs"
  using hold_is_debounced [OF held_run] unfolding held_samples by (simp add: sample_fields)

text \<open>
  C36. The gate always answers. Every pause is at least two seconds and a pass that ends 240 seconds after
  the start refuses, so no run has more than 121 passes.
\<close>

theorem gate_always_answers:
  assumes "sleeps cfg (admitted (dr_var d) input) gate_start rs" "120 < length rs" "started \<le> pr_t_end (hd rs)"
  shows "decide_gate cfg input d started rs \<noteq> Queued st"
  using loop_answers [OF assms] by (auto simp: decide_gate_def forced_door_def Let_def split: sum.splits)

theorem gate_always_answers_witness:
  "\<forall>st. decide_gate sample_config sample_input sample_doors 0 (map (\<lambda>k. reading_at ''hold'' (k * 15000)) [0..<0 + 121]) \<noteq> Queued st"
proof (intro allI gate_always_answers)
  have "admitted (dr_var sample_doors) sample_input = sample_input"
    by (simp add: admitted_def sample_input_def gate_node_def sample_doors_def filter_option_def)
  then show "sleeps sample_config (admitted (dr_var sample_doors) sample_input) gate_start
      (map (\<lambda>k. reading_at ''hold'' (k * 15000)) [0..<0 + 121])" by (simp only: hold_sleeps)
qed (simp_all add: sample_fields)

text \<open>With \<open>--no-wait\<close> the first pass answers, whatever it reads, and no later one is made.\<close>

theorem no_wait_is_one_pass:
  assumes "gi_no_wait input"
  shows "decide_gate cfg input d started (r # rs) = decide_gate cfg input d started [r] \<and>
    decide_gate cfg input d started (r # rs) \<noteq> Queued st"
proof -
  have "gi_no_wait (admitted (dr_var d) input)" using assms by (simp add: admitted_def)
  from no_wait_first_pass [OF this, of cfg r] show ?thesis
    by (auto simp: decide_gate_def forced_door_def Let_def split: sum.splits PassResult.splits)
qed

theorem no_wait_is_one_pass_witness:
  "\<forall>st. decide_gate sample_config (sample_input\<lparr>gi_no_wait := True\<rparr>) sample_doors 0 [reading_at ''hold'' 0, reading_at ''admit'' 2000] \<noteq> Queued st"
  by (intro allI no_wait_is_one_pass [THEN conjunct2]) simp




lemma forced_sample: "decide_gate sample_config (sample_input\<lparr>gi_force := True\<rparr>) sample_doors 0 [] = Granted no_keys"
  by (simp add: decide_gate_def forced_door_def seq_checks_def gate_walls_def sample_doors_def sample_input_def sample_config_def
      gate_agent_origin_def is_some_and_def fleet_incident_gate_def process_admission_gate_def review_session_gate_def
      admitted_def gate_node_def filter_option_def check_registry_schema_def REGISTRY_SCHEMA_UNDERSTOOD_def lanes_cap_def
      check_blueprint_cap_def memory_check_def check_ram_floor_def memory_term_def read_memory_def ram_floor_term_def
      quiet_machine_def charges_local_memory_def best_effort_slot_def claims_slot_def fp_le_def Let_def)


end
