(* ===== verification/Spec2Isabelle.thy ===== *)
theory Spec2Isabelle
  imports Pane_Geometry Pane_Refinement Squad_Props Template_Props Mouse_Props Scanner_Props Write_Queue
    Supervisor Claim_Store Claim_Queue_Props Range_Tiling_Props Backlog_Publish_Props Backlog_Work Backlog_Order_Props
    Capacity_Props Gate_Props
begin

text \<open>
  A verification library for \<^emph>\<open>footnote\<close> (\<open>fno\<close>), a terminal multiplexer and coordinator for coding
  agents. Two crates carry the program's own logic: \<open>crates/fno\<close>, the multiplexer (a server that owns
  sessions of squads, tabs and split panes, and a client that reads keys and mouse and paints), and
  \<open>crates/fno-agents\<close>, the coordination of agents on one or several machines (claims on shared work,
  their wait queue, supervision of processes, the backlog of work, the gates a change passes before it
  is merged). The
  library models the parts of both that decide something: the data as records and datatypes, each
  operation as a function from the source's, and the theorems that make each part correct.

  \<^bold>\<open>Conventions.\<close> A Rust struct is a record, an enum a datatype. \<open>u16\<close> cell arithmetic is on 16-bit
  words with the saturating operations of the source written out; \<open>f32\<close> and \<open>f64\<close> are the model of
  \<open>Float_Model\<close> (a rounding to the format's precision of the exact rational result, with infinities
  and NaN). Times are milliseconds as \<open>int\<close> or \<open>nat\<close>: the source's plain additions on \<open>i64\<close> clocks
  and \<open>u64\<close> ticket numbers are taken not to overflow, while the saturating ones saturate in the model.
  Strings and byte buffers are lists of 8-bit characters. A panic, an early return and a refusal are
  branches of a result; a loop that could fail to end is a function with a termination proof or, for
  the ticket allocation, a partial function whose termination is a theorem. A bound on a loop is used only
  where the source has it.
  What the code asks of its surroundings is a parameter: the process table, clock, host and
  environment (record \<open>Env\<close>), what the file system grants (record \<open>Fs\<close>), git's answers, the order in
  which a hash map is iterated, the power function of \<open>f64\<close>.

  \<^bold>\<open>Pane trees\<close>, \<open>crates/fno/src/tree.rs\<close>. \<open>Pane_Tree\<close> and \<open>Pane_Ops\<close> hold the n-ary split tree of a
  tab, its layout into rectangles, splitting, closing, moving, grafting, substitution, navigation,
  resizing by step and by seam, normalization and the invariant checker. \<open>Pane_Struct\<close> and \<open>Pane_Tab\<close>
  prove what each does to the leaves, the shape and the ratios; \<open>Pane_Steps\<close> states the step relation of
  a tab, that every run keeps it sound (locale \<open>transition_system\<close>), and the behaviour of each
  operation on every branch. \<open>Pane_Geometry\<close> shows that children tile their area, that panes never
  overlap or leave the screen, and what navigation picks. \<open>Pane_Refinement\<close> gives the contract without
  the tree, a strip of panes with a focus, and proves that the tree implements it (locale \<open>simulation\<close>).

  \<^bold>\<open>Squads and sessions\<close>, \<open>crates/fno/src/squad.rs\<close>, \<open>proto_placement.rs\<close>. \<open>Squad\<close> and \<open>Squad_Session\<close> model
  the containers above a tab: adding, removing and moving tabs with the cascades they report, tab
  addressing, the workspace that owns a directory, display names, the cache of repository roots.
  \<open>Squad_Props\<close> proves the container invariant over every run and the operations' contracts.

  \<^bold>\<open>Layout templates\<close>, \<open>crates/fno/src/templates.rs\<close>, \<open>server/reflow.rs\<close>. \<open>Templates\<close> models named templates,
  typed layout trees, their validation and realization, and automatic reflow; \<open>Template_Props\<close> proves
  that validation accepts exactly the well-formed layouts, that a validated layout is realized
  without a panic, and that reflow keeps panes, order and focus.

  \<^bold>\<open>Input\<close>, \<open>crates/fno/src/mouse.rs\<close>, \<open>server/mouse_route.rs\<close>, \<open>keys.rs\<close>. \<open>Mouse\<close> models the client's parser
  of mouse reports and the server's routing and encoder; \<open>Mouse_Props\<close> that the one undoes the other
  and how reads may be cut. \<open>Keys\<close> models the chord table and the resolution of a configured key map,
  \<open>Keys_Props\<close> that every chord the table shows can be typed and runs. \<open>Key_Scanner\<close> models the scanner
  of raw input with all its states, \<open>Scanner_Props\<close> that it invents nothing, passes pastes verbatim,
  leaks no chord and does not depend on how its input is cut. The last section below composes both
  passes over the input.

  \<^bold>\<open>Terminal writes and supervision\<close>, \<open>crates/fno-agents/src/write_queue.rs\<close>, \<open>supervisor.rs\<close>. \<open>Write_Queue\<close>
  models the bounded queue in front of a terminal and proves it a bounded first-in first-out queue
  (locale \<open>bounded_fifo\<close>); \<open>Supervisor\<close> the restart policy with its floating-point backoff and bounds.

  \<^bold>\<open>Claims\<close>, \<open>crates/fno-agents/src/claims.rs\<close>, \<open>claims_classify.rs\<close>, \<open>claim_store.rs\<close>, \<open>claim_queue.rs\<close>.
  \<open>Claim_Types\<close> and \<open>Claim_Classify\<close> model a claim's record, its construction and renewal, and the ladder
  that reads it as live, suspect or stale; \<open>Claim_Props\<close> that every verdict rests on the evidence it
  names and that a lease protects its holder. \<open>Claim_Store\<close> models the statements that change a stored
  row, each atomic, and proves over every interleaving of any number of processes that a row changes
  holder only against proof that the old holder is dead. \<open>Claim_Queue\<close> models the ticket queue in front
  of a claim, \<open>Claim_Queue_Props\<close> that it is first come, first served, that nobody is overtaken, that
  a waiter reaches the front, and that a stamp is read back as written.

  \<^bold>\<open>Review range tiling\<close>, \<open>crates/fno-agents/src/loopcheck/range_tiling.rs\<close>. \<open>Range_Tiling\<close> models the gate
  that asks whether attested reviews cover every commit of a branch, \<open>Range_Tiling_Props\<close> that it
  answers exactly that and fails closed.

  \<^bold>\<open>Backlog graph\<close>, \<open>crates/fno-agents/src/graph_store.rs\<close>, \<open>backlog/mod.rs\<close>, \<open>node_state.rs\<close>, \<open>title_gate.rs\<close>,
  \<open>epic_cap.rs\<close>, \<open>idea_cap.rs\<close>, \<open>done_evidence.rs\<close>. A row of the backlog is a JSON object with ordered members
  (\<open>Json\<close>); the graph is a list of rows. \<open>Backlog_Graph\<close> models readiness through chains of superseded
  blockers, the overlay every read applies and the sweep that settles \<open>blocked_by\<close> edges;
  \<open>Backlog_Props\<close> proves what readiness means against a relation of supersession steps (a chain counts
  when it ends in fewer than the eight steps the code follows), that the sweep changes no verdict, records
  what it prunes, and when it aborts. \<open>Backlog_Status\<close> models migrations, defaults, locks and the
  derivation of every row's status with the rollup of containers; \<open>Backlog_Status_Props\<close> proves that one
  pass from the leaves up settles every container and that recorded facts outrank derived ones,
  \<open>Backlog_Wf\<close> that every pass keeps rows well formed (locales \<open>tree_pass\<close> and \<open>ok_pass\<close>, the contract of
  a pass over rows, interpreted for each pass). \<open>Backlog_Slugs\<close> models the canonical order and the slugs,
  \<open>Backlog_Work\<close> the index from sessions to the rows that name them. \<open>Backlog_Publish\<close> models the locked
  write with its guards (locale \<open>row_guard\<close>) and the write of the changed rows; \<open>Backlog_Publish_Props\<close>
  proves what holds of every write that lands: the caps, the evidence of a close, the closures reported
  and the contents of the store. The walk to the nearest epic follows the source's 64 steps.

  \<^bold>\<open>Selection of work\<close>, \<open>crates/fno-agents/src/backlog_ready.rs\<close>. \<open>Backlog_Plan\<close> models the plan document of
  a node, the command it is taken on with, the holds on it and above it, and the date filter of a listing; \<open>Backlog_Select\<close>
  the other walks over the graph (dead ancestors, descendants, epics above), staleness,
  guards and project detection; \<open>Backlog_Order\<close> the demand score, the sort key, the cascade of filters,
  the selection and the board. What is read of the file system and of other parsers is the record
  \<open>plan_env\<close>. \<open>Backlog_Command_Props\<close> proves when no command can be derived, \<open>Backlog_Hold_Props\<close> that
  the bounded walks are exact within the source's bound of 64 and the descent finds all descendants,
  \<open>Backlog_Order_Props\<close> that the comparison of keys is a linear order on the keys that occur (locale
  \<open>image_order\<close>), that the cascade offers exactly the rows that meet every condition and accounts for
  every other, and that an offered row is clear and has a command.

  \<^bold>\<open>Learned capacity\<close>, \<open>crates/fno-agents/src/capacity.rs\<close>. \<open>Capacity\<close> models the control loop that lowers
  and raises the cap on live workers from the CPU share of the fleet, its thresholds, the file the tick
  writes (\<open>feed\<close>, whose control part is \<open>control_part\<close>) and the cap the gate reads (\<open>effective\<close>).
  \<open>Capacity_Props\<close> proves over runs of ticks that the cap stays in bounds and moves only on evidence, and
  that file and reader agree.

  \<^bold>\<open>Spawn gate\<close>, \<open>crates/fno-agents/src/spawn_gate.rs\<close>, \<open>spawn_gate_slots.rs\<close>, \<open>spawn_gate_lanes.rs\<close>,
  \<open>spawn_gate_admission.rs\<close>, \<open>cap_liveness.rs\<close>. \<open>Gate_Axes\<close> models the axes a spawn is admitted on as
  functions of what their instruments answered; \<open>Gate_Loop\<close> the decision: the doors and walls, the forced
  path and the loop, where one pass (\<open>gate_pass\<close>) takes the state that survives a pass and one reading, and
  the loop runs over a list of readings. \<open>Gate_Props\<close> proves that nothing is admitted without room (the
  reader of the cap is the locale \<open>cap_source\<close>), that a hold is debounced, that no flag passes the memory
  axis, that no claim is held across a wait, and that the gate answers: a pass that waits pauses two
  seconds or more and the queue ends at 240, so 121 readings are enough.

  \<^bold>\<open>Not modelled.\<close> The server's and client's event loops, sockets, pseudo-terminals and painting
  (\<open>server.rs\<close>, \<open>client.rs\<close>, \<open>mux_cli.rs\<close>, \<open>agents_view.rs\<close>, \<open>vt.rs\<close>), whose work is input and output around
  the parts above; the wire protocol's serialization, which is derived code; the daemon, agent
  launching and mail of \<open>fno-agents\<close>, which drive processes and files; the YAML and SQL layers of the
  claims and of the backlog, the databases' migrations, backups and replication. Of the spawn gate: the
  text parsers of the memory instruments, the live count of a provider's lane, the settlement of teams and
  the territory of a node, whose answers are part of a reading. Of the parts that decide something, the
  remaining merge gates of \<open>loopcheck\<close> are the next to be modelled.
\<close>

section \<open>Reading the terminal\<close>

text \<open>
  C40. Both passes over the client's input together: from a stream in which mouse events, as a
  terminal encodes them, are mixed with typed text, the mouse pass takes out exactly the events and
  the key scanner hands exactly the text to the pane, in one piece, whatever the two interleave. The
  text holds no escape and no prefix byte, and the scanner is idle.
\<close>

theorem typed_text_reaches_pane:
  assumes "\<forall>k. Inr k \<in> set items \<longrightarrow> esc \<notin> set k \<and> km_prefix km \<notin> set k"
    and "sc_state sc = Normal i" "sc_repeat sc = None" "keys_of items \<noteq> []"
  shows "case extract_mouse [] (concat (map encode_item items)) of (reports, pass, carry) \<Rightarrow>
    reports = map report_of (events_of items) \<and> carry = [] \<and> snd (scan_input km now sc pass) = [Forward (keys_of items)]"
proof -
  have ex: "extract_mouse [] (concat (map encode_item items)) = (map report_of (events_of items), keys_of items, [])"
    using assms(1) by (intro stream_extracted) blast
  have "\<exists>k. Inr k \<in> set items \<and> b \<in> set k" if "b \<in> set (keys_of items)" for b
    using that by (auto simp: keys_of_def filter_map_in split: sum.splits) (metis obj_sumE)
  then have "list_all (\<lambda>b. b \<noteq> km_prefix km \<and> b \<noteq> esc) (keys_of items)"
    using assms(1) by (auto simp: list_all_iff)
  from plain_run [OF disjI1 [OF assms(2)] assms(3) this, of now "[]" "[]"] assms(4)
  have "snd (scan_input km now sc (keys_of items)) = [Forward (keys_of items)]"
    by (auto simp: scan_input_def flush_def)
  then show ?thesis by (simp add: ex)
qed

theorem typed_text_reaches_pane_witness:
  "snd (scan_input default_keymap 0 new_scanner (fst (snd (extract_mouse [] (concat (map encode_item
     [Inr ''a'', Inl \<lparr>me_row = 3, me_col = 4, me_kind = WheelUp, me_alt = False\<rparr>, Inr ''b''])))))) = [Forward ''ab'']"
  using typed_text_reaches_pane [where km = default_keymap and sc = new_scanner and i = 0 and now = 0 and
    items = "[Inr ''a'', Inl \<lparr>me_row = 3, me_col = 4, me_kind = WheelUp, me_alt = False\<rparr>, Inr ''b'']"]
  by (auto simp: new_scanner_def default_keymap_def DEFAULT_PREFIX_def esc_def keys_of_def split: prod.splits)

end
